(* ===== verification/Prelude.thy ===== *)
theory Prelude imports Main "HOL-Library.Sublist" begin

text \<open>
  Shared vocabulary of the development.

  \<^item> JavaScript values: \<open>ustring\<close> is a string as its list of UTF-16 code units (used for free text
    whose characters the code inspects), \<open>string\<close> is used for ASCII identifiers, \<open>int\<close> for
    \<open>bigint\<close> and for validated safe integers, \<open>js_date\<close> for a \<open>Date\<close> (\<open>None\<close> is Invalid Date).
  \<^item> Computations: \<open>('s, 'e, 'a) comp\<close> is an \<open>async\<close> function body. It takes the state and
    returns either the thrown error or the value, together with the state at that moment: as in
    JavaScript, an exception does not undo mutation. Only a database transaction rolls back.
  \<^item> The world: an extensible record. Its base holds the number of external events so far
    (\<open>tick\<close>) and the timestamp of the current transaction; every component adds its tables.
  \<^item> The environment: what the code takes from outside (clocks, random and monotonic identifiers,
    digests, database faults) as functions indexed by \<open>tick\<close>.
\<close>

named_theorems comp_simps "characterisations of the computation combinators"
named_theorems sf_defs "definitions that every proof about a component unfolds"
named_theorems sf_inv "preservation facts of the components' invariants"

section \<open>JavaScript values\<close>

type_synonym ustring = "nat list"
type_synonym js_date = "int option"

text \<open>A literal in a free-text position: the code units of an ASCII string.\<close>

definition units :: "string \<Rightarrow> ustring" where
  "units s = map of_char s"

lemma units_eq_iff [simp]: "units s = units t \<longleftrightarrow> s = t"
proof -
  have "inj (of_char :: char \<Rightarrow> nat)" by (rule inj_of_char)
  then show ?thesis by (simp add: units_def inj_map_eq_map)
qed

lemma length_units [simp]: "length (units s) = length s"
  by (simp add: units_def)

lemma units_append [simp]: "units (s @ t) = units s @ units t"
  by (simp add: units_def)

definition max_safe_integer :: int where
  "max_safe_integer = 9007199254740991"

text \<open>Iterating a string, \<open>[...value]\<close> or \<open>Array.from(value)\<close>: surrogate pairs are joined.\<close>

definition is_high :: "nat \<Rightarrow> bool" where
  "is_high u \<longleftrightarrow> 0xD800 \<le> u \<and> u \<le> 0xDBFF"

definition is_low :: "nat \<Rightarrow> bool" where
  "is_low u \<longleftrightarrow> 0xDC00 \<le> u \<and> u \<le> 0xDFFF"

fun code_points :: "ustring \<Rightarrow> nat list" where
  "code_points (h # l # us) =
     (if is_high h \<and> is_low l
      then (0x10000 + (h - 0xD800) * 0x400 + (l - 0xDC00)) # code_points us
      else h # code_points (l # us))"
| "code_points us = us"

lemma length_code_points_le: "length (code_points us) \<le> length us"
  by (induction us rule: code_points.induct) auto

text \<open>The class \<open>\s\<close> of a regular expression; \<open>String.prototype.trim\<close> strips the same characters.\<close>

definition is_js_space :: "nat \<Rightarrow> bool" where
  "is_js_space c \<longleftrightarrow>
     (9 \<le> c \<and> c \<le> 13) \<or> c = 32 \<or> c = 0xA0 \<or> c = 0x1680 \<or> (0x2000 \<le> c \<and> c \<le> 0x200A) \<or>
     c = 0x2028 \<or> c = 0x2029 \<or> c = 0x202F \<or> c = 0x205F \<or> c = 0x3000 \<or> c = 0xFEFF"

definition js_trim :: "ustring \<Rightarrow> ustring" where
  "js_trim s = rev (dropWhile is_js_space (rev (dropWhile is_js_space s)))"

text \<open>The class \<open>\p{Cc}\<close>.\<close>

definition is_cc :: "nat \<Rightarrow> bool" where
  "is_cc c \<longleftrightarrow> c \<le> 31 \<or> (127 \<le> c \<and> c \<le> 159)"

text \<open>The two currencies of the allowlist, ordered as their codes are.\<close>

datatype currency = ETB | USD

fun currency_code :: "currency \<Rightarrow> string" where
  "currency_code ETB = ''ETB''"
| "currency_code USD = ''USD''"

instantiation currency :: linorder
begin

definition less_eq_currency :: "currency \<Rightarrow> currency \<Rightarrow> bool" where
  "less_eq_currency a b \<longleftrightarrow> a = ETB \<or> b = USD"

definition less_currency :: "currency \<Rightarrow> currency \<Rightarrow> bool" where
  "less_currency a b \<longleftrightarrow> a = ETB \<and> b = USD"

instance
proof
  fix a b c :: currency
  show "a < b \<longleftrightarrow> a \<le> b \<and> \<not> b \<le> a"
    by (cases a; cases b) (simp_all add: less_eq_currency_def less_currency_def)
  show "a \<le> a" by (cases a) (simp_all add: less_eq_currency_def)
  show "a \<le> b \<Longrightarrow> b \<le> c \<Longrightarrow> a \<le> c"
    by (cases a; cases b; cases c) (simp_all add: less_eq_currency_def)
  show "a \<le> b \<Longrightarrow> b \<le> a \<Longrightarrow> a = b"
    by (cases a; cases b) (simp_all add: less_eq_currency_def)
  show "a \<le> b \<or> b \<le> a" by (cases a; cases b) (simp_all add: less_eq_currency_def)
qed

end

section \<open>Identifier patterns\<close>

text \<open>
  The classes of a PostgreSQL regular expression. \<open>[[:cntrl:]]\<close> is fixed in its engine
  (\<open>U+0000-U+001F\<close> and \<open>U+007F-U+009F\<close>); of \<open>[[:space:]]\<close> the ASCII characters are given, which
  further ones it holds depends on the locale of the database.
\<close>

definition posix_cntrl :: "nat \<Rightarrow> bool" where
  "posix_cntrl u \<longleftrightarrow> u \<le> 31 \<or> (127 \<le> u \<and> u \<le> 159)"

definition posix_space :: "nat \<Rightarrow> bool" where
  "posix_space u \<longleftrightarrow> (9 \<le> u \<and> u \<le> 13) \<or> u = 32"

definition char_in :: "nat \<Rightarrow> nat \<Rightarrow> char \<Rightarrow> bool" where
  "char_in lo hi c \<longleftrightarrow> lo \<le> of_char c \<and> of_char c \<le> hi"

abbreviation is_digit :: "char \<Rightarrow> bool" where
  "is_digit \<equiv> char_in 48 57"

text \<open>\<open>[0-9A-HJKMNP-TV-Z]\<close>, the alphabet of a ULID.\<close>

definition is_ulid_char :: "char \<Rightarrow> bool" where
  "is_ulid_char c \<longleftrightarrow> is_digit c \<or> char_in 65 72 c \<or> char_in 74 75 c \<or> char_in 77 78 c \<or>
     char_in 80 84 c \<or> char_in 86 90 c"

text \<open>\<open>[0-7][0-9A-HJKMNP-TV-Z]{25}\<close>.\<close>

definition is_ulid :: "string \<Rightarrow> bool" where
  "is_ulid s \<longleftrightarrow> length s = 26 \<and> char_in 48 55 (hd s) \<and> list_all is_ulid_char (tl s)"

text \<open>\<open>/^<prefix>_[0-7][0-9A-HJKMNP-TV-Z]{25}$/u\<close>.\<close>

definition has_ulid_prefix :: "string \<Rightarrow> string \<Rightarrow> bool" where
  "has_ulid_prefix p s \<longleftrightarrow> take (length p + 1) s = p @ ''_'' \<and> is_ulid (drop (length p + 1) s)"

lemma has_ulid_prefix_append [simp]: "has_ulid_prefix p (p @ ''_'' @ u) \<longleftrightarrow> is_ulid u"
  by (simp add: has_ulid_prefix_def)

definition is_hex :: "char \<Rightarrow> bool" where
  "is_hex c \<longleftrightarrow> is_digit c \<or> char_in 97 102 c \<or> char_in 65 70 c"

text \<open>
  \<open>/^[0-9a-f]{8}-[0-9a-f]{4}-[1-v][0-9a-f]{3}-[89ab][0-9a-f]{3}-[0-9a-f]{12}$/iu\<close>, where \<open>v\<close> is the
  highest version digit the module accepts (\<open>5\<close> or \<open>8\<close>).
\<close>

definition is_uuid :: "nat \<Rightarrow> string \<Rightarrow> bool" where
  "is_uuid v s \<longleftrightarrow> length s = 36 \<and>
     (\<forall>i<36. if i \<in> {8, 13, 18, 23} then s ! i = CHR ''-'' else is_hex (s ! i)) \<and>
     char_in 49 (48 + v) (s ! 14) \<and>
     (char_in 56 57 (s ! 19) \<or> char_in 97 98 (s ! 19) \<or> char_in 65 66 (s ! 19))"

text \<open>
  A UUID column. It reads the hyphenated notation in either case and prints lower case, so that two
  texts are the same value when their \<open>uuid_text\<close> is the same; the other notations PostgreSQL reads
  (braces, fewer hyphens) never reach it from this code.
\<close>

definition uuid_syntax :: "string \<Rightarrow> bool" where
  "uuid_syntax s \<longleftrightarrow> length s = 36 \<and>
     (\<forall>i<36. if i \<in> {8, 13, 18, 23} then s ! i = CHR ''-'' else is_hex (s ! i))"

definition uuid_text :: "ustring \<Rightarrow> ustring" where
  "uuid_text s = map (\<lambda>u. if 65 \<le> u \<and> u \<le> 90 then u + 32 else u) s"

lemma uuid_text_idem [simp]: "uuid_text (uuid_text s) = uuid_text s"
  by (simp add: uuid_text_def)

text \<open>\<open>[A-Za-z0-9._:-]\<close> and \<open>/^[A-Za-z0-9._:-]{1,128}$/u\<close>.\<close>

definition is_request_char :: "char \<Rightarrow> bool" where
  "is_request_char c \<longleftrightarrow> is_digit c \<or> char_in 65 90 c \<or> char_in 97 122 c \<or>
     c = CHR ''.'' \<or> c = CHR ''_'' \<or> c = CHR '':'' \<or> c = CHR ''-''"

definition is_request_id :: "string \<Rightarrow> bool" where
  "is_request_id s \<longleftrightarrow> 1 \<le> length s \<and> length s \<le> 128 \<and> list_all is_request_char s"

text \<open>\<open>[A-Za-z0-9_-]+\<close>, the base64url alphabet of page cursors.\<close>

definition is_base64url_char :: "char \<Rightarrow> bool" where
  "is_base64url_char c \<longleftrightarrow> is_digit c \<or> char_in 65 90 c \<or> char_in 97 122 c \<or>
     c = CHR ''_'' \<or> c = CHR ''-''"

section \<open>Computations\<close>

type_synonym ('s, 'e, 'a) comp = "'s \<Rightarrow> ('e + 'a) \<times> 's"

definition ok :: "'a \<Rightarrow> ('s, 'e, 'a) comp" where
  "ok x = (\<lambda>s. (Inr x, s))"

definition throw :: "'e \<Rightarrow> ('s, 'e, 'a) comp" where
  "throw e = (\<lambda>s. (Inl e, s))"

text \<open>\<open>const x = await m; ...\<close>\<close>

definition bindc :: "('s, 'e, 'a) comp \<Rightarrow> ('a \<Rightarrow> ('s, 'e, 'b) comp) \<Rightarrow> ('s, 'e, 'b) comp" where
  "bindc m f = (\<lambda>s. case m s of (Inl e, s') \<Rightarrow> (Inl e, s') | (Inr x, s') \<Rightarrow> f x s')"

text \<open>\<open>try { m } catch (error) { h }\<close>\<close>

definition catch :: "('s, 'e, 'a) comp \<Rightarrow> ('e \<Rightarrow> ('s, 'e, 'a) comp) \<Rightarrow> ('s, 'e, 'a) comp" where
  "catch m h = (\<lambda>s. case m s of (Inl e, s') \<Rightarrow> h e s' | (Inr x, s') \<Rightarrow> (Inr x, s'))"

text \<open>\<open>if (!b) throw e;\<close>\<close>

definition require :: "bool \<Rightarrow> 'e \<Rightarrow> ('s, 'e, unit) comp" where
  "require b e = (if b then ok () else throw e)"

definition gets :: "('s \<Rightarrow> 'a) \<Rightarrow> ('s, 'e, 'a) comp" where
  "gets f = (\<lambda>s. (Inr (f s), s))"

definition modify :: "('s \<Rightarrow> 's) \<Rightarrow> ('s, 'e, unit) comp" where
  "modify f = (\<lambda>s. (Inr (), f s))"

definition from_sum :: "'e + 'a \<Rightarrow> ('s, 'e, 'a) comp" where
  "from_sum r = (\<lambda>s. (r, s))"

text \<open>Pure fallible code: the same sequencing on \<open>'e + 'a\<close>.\<close>

definition bind_sum :: "'e + 'a \<Rightarrow> ('a \<Rightarrow> 'e + 'b) \<Rightarrow> 'e + 'b" where
  "bind_sum m f = (case m of Inl e \<Rightarrow> Inl e | Inr x \<Rightarrow> f x)"

definition require_sum :: "bool \<Rightarrow> 'e \<Rightarrow> 'e + unit" where
  "require_sum b e = (if b then Inr () else Inl e)"

lemma bind_sum_Inr [comp_simps]:
  "bind_sum m f = Inr y \<longleftrightarrow> (\<exists>x. m = Inr x \<and> f x = Inr y)"
  by (cases m) (auto simp: bind_sum_def)

lemma bind_sum_Inl [comp_simps]:
  "bind_sum m f = Inl e \<longleftrightarrow> m = Inl e \<or> (\<exists>x. m = Inr x \<and> f x = Inl e)"
  by (cases m) (auto simp: bind_sum_def)

lemma require_sum_Inr [comp_simps]: "require_sum b e = Inr u \<longleftrightarrow> b"
  by (simp add: require_sum_def)

lemma require_sum_Inl [comp_simps]: "require_sum b e = Inl e' \<longleftrightarrow> \<not> b \<and> e' = e"
  by (auto simp: require_sum_def)

lemma ok_eq [comp_simps]: "ok x s = (r, s') \<longleftrightarrow> r = Inr x \<and> s' = s"
  by (auto simp: ok_def)

lemma throw_eq [comp_simps]: "throw e s = (r, s') \<longleftrightarrow> r = Inl e \<and> s' = s"
  by (auto simp: throw_def)

lemma bindc_Inr [comp_simps]:
  "bindc m f s = (Inr y, s'') \<longleftrightarrow> (\<exists>x s'. m s = (Inr x, s') \<and> f x s' = (Inr y, s''))"
  by (auto simp: bindc_def split: prod.splits sum.splits)

lemma bindc_Inl [comp_simps]:
  "bindc m f s = (Inl e, s'') \<longleftrightarrow>
     m s = (Inl e, s'') \<or> (\<exists>x s'. m s = (Inr x, s') \<and> f x s' = (Inl e, s''))"
  by (auto simp: bindc_def split: prod.splits sum.splits)

lemma catch_Inr [comp_simps]:
  "catch m h s = (Inr y, s'') \<longleftrightarrow>
     m s = (Inr y, s'') \<or> (\<exists>e s'. m s = (Inl e, s') \<and> h e s' = (Inr y, s''))"
  by (auto simp: catch_def split: prod.splits sum.splits)

lemma catch_Inl [comp_simps]:
  "catch m h s = (Inl e, s'') \<longleftrightarrow> (\<exists>e' s'. m s = (Inl e', s') \<and> h e' s' = (Inl e, s''))"
  by (auto simp: catch_def split: prod.splits sum.splits)

lemma require_eq [comp_simps]:
  "require b e s = (r, s') \<longleftrightarrow> r = (if b then Inr () else Inl e) \<and> s' = s"
  by (auto simp: require_def ok_def throw_def)

lemma gets_eq [comp_simps]: "gets f s = (r, s') \<longleftrightarrow> r = Inr (f s) \<and> s' = s"
  by (auto simp: gets_def)

lemma modify_eq [comp_simps]: "modify f s = (r, s') \<longleftrightarrow> r = Inr () \<and> s' = f s"
  by (auto simp: modify_def)

lemma from_sum_eq [comp_simps]: "from_sum r s = (r', s') \<longleftrightarrow> r = r' \<and> s' = s"
  by (auto simp: from_sum_def)

lemma bindc_assoc: "bindc (bindc m f) g = bindc m (\<lambda>x. bindc (f x) g)"
  by (auto simp: bindc_def fun_eq_iff split: prod.splits sum.splits)

lemma bindc_ok [simp]: "bindc (ok x) f = f x"
  by (simp add: bindc_def ok_def fun_eq_iff)

lemma bindc_ok_right [simp]: "bindc m ok = m"
  by (auto simp: bindc_def ok_def fun_eq_iff split: prod.splits sum.splits)

lemma bindc_throw [simp]: "bindc (throw e) f = throw e"
  by (simp add: bindc_def throw_def fun_eq_iff)

text \<open>The body of a \<open>for (const x of xs)\<close> loop with \<open>await\<close> inside.\<close>

fun for_each :: "('a \<Rightarrow> ('s, 'e, unit) comp) \<Rightarrow> 'a list \<Rightarrow> ('s, 'e, unit) comp" where
  "for_each f [] = ok ()"
| "for_each f (x # xs) = bindc (f x) (\<lambda>_. for_each f xs)"

text \<open>\<open>xs.map(f)\<close> where \<open>f\<close> draws identifiers.\<close>

fun map_comp :: "('a \<Rightarrow> ('s, 'e, 'b) comp) \<Rightarrow> 'a list \<Rightarrow> ('s, 'e, 'b list) comp" where
  "map_comp f [] = ok []"
| "map_comp f (x # xs) = bindc (f x) (\<lambda>y. bindc (map_comp f xs) (\<lambda>ys. ok (y # ys)))"

text \<open>
  \<open>for (let attempt = 1; attempt <= n; attempt += 1) { try { return await m } catch (e) { ... } }\<close>:
  an error for which \<open>again\<close> holds starts the next attempt while there is one; at the last attempt
  it becomes \<open>exhausted e\<close>. Any other error leaves the loop as it is. \<open>spent\<close> is thrown after the
  loop, which only an empty loop reaches.
\<close>

fun attempts :: "nat \<Rightarrow> ('e \<Rightarrow> bool) \<Rightarrow> ('e \<Rightarrow> 'e) \<Rightarrow> 'e \<Rightarrow> ('s, 'e, 'a) comp \<Rightarrow> ('s, 'e, 'a) comp"
where
  "attempts 0 again exhausted spent m = throw spent"
| "attempts (Suc n) again exhausted spent m =
     catch m (\<lambda>e. if again e
                   then if n = 0 then throw (exhausted e)
                        else attempts n again exhausted spent m
                   else throw e)"

section \<open>Tables\<close>

text \<open>\<open>UPDATE ... WHERE p\<close>, and the number of rows it reports.\<close>

definition update_where :: "('r \<Rightarrow> bool) \<Rightarrow> ('r \<Rightarrow> 'r) \<Rightarrow> 'r list \<Rightarrow> 'r list" where
  "update_where p f rows = map (\<lambda>r. if p r then f r else r) rows"

definition count_where :: "('r \<Rightarrow> bool) \<Rightarrow> 'r list \<Rightarrow> nat" where
  "count_where p rows = length (filter p rows)"

lemma length_update_where [simp]: "length (update_where p f rows) = length rows"
  by (simp add: update_where_def)

lemma update_where_Nil [simp]: "update_where p f [] = []"
  by (simp add: update_where_def)

lemma update_where_Cons [simp]:
  "update_where p f (r # rows) = (if p r then f r else r) # update_where p f rows"
  by (simp add: update_where_def)

lemma update_where_none: "\<forall>r \<in> set rows. \<not> p r \<Longrightarrow> update_where p f rows = rows"
  by (induction rows) auto

lemma in_update_where:
  "r \<in> set (update_where p f rows) \<Longrightarrow> r \<in> set rows \<or> (\<exists>r0 \<in> set rows. p r0 \<and> r = f r0)"
  by (auto simp: update_where_def)

lemma map_update_where:
  assumes "\<And>r. p r \<Longrightarrow> k (f r) = k r"
  shows "map k (update_where p f rows) = map k rows"
  using assms by (induction rows) auto

lemma find_Some_in: "List.find p rows = Some r \<Longrightarrow> r \<in> set rows \<and> p r"
  by (auto simp: find_Some_iff)

lemma find_None_all: "List.find p rows = None \<Longrightarrow> r \<in> set rows \<Longrightarrow> \<not> p r"
  by (auto simp: find_None_iff)

text \<open>A lookup by a key that no two rows share finds the row itself.\<close>

lemma find_key:
  assumes "distinct (map k rows)" and "r \<in> set rows"
  shows "List.find (\<lambda>x. k x = k r) rows = Some r"
  using assms
proof (induction rows)
  case Nil
  then show ?case by simp
next
  case (Cons x rows)
  show ?case
  proof (cases "r = x")
    case True
    then show ?thesis by simp
  next
    case False
    with Cons.prems have "r \<in> set rows" by simp
    then have "k r \<in> k ` set rows" by (rule imageI)
    moreover from Cons.prems(1) have "k x \<notin> k ` set rows" by simp
    ultimately have "k x \<noteq> k r" by auto
    moreover from Cons.prems(1) have "distinct (map k rows)" by simp
    then have "List.find (\<lambda>x. k x = k r) rows = Some r" using \<open>r \<in> set rows\<close> by (rule Cons.IH)
    ultimately show ?thesis by simp
  qed
qed

lemma distinct_key_eq:
  assumes "distinct (map k rows)" and "r \<in> set rows" and "r' \<in> set rows" and "k r = k r'"
  shows "r = r'"
proof -
  have "List.find (\<lambda>x. k x = k r) rows = Some r" by (rule find_key[OF assms(1,2)])
  moreover have "List.find (\<lambda>x. k x = k r) rows = Some r'"
    unfolding assms(4) by (rule find_key[OF assms(1,3)])
  ultimately show ?thesis by simp
qed

lemma fresh_key: "i \<notin> k ` A \<Longrightarrow> r \<in> A \<Longrightarrow> k r \<noteq> i"
  by blast

lemma count_key_le_1:
  assumes "distinct (map k rows)"
  shows "count_where (\<lambda>r. k r = x \<and> q r) rows \<le> 1"
  using assms
proof (induction rows)
  case Nil
  then show ?case by (simp add: count_where_def)
next
  case (Cons r rows)
  show ?case
  proof (cases "k r = x")
    case True
    with Cons.prems have "x \<notin> k ` set rows" by simp
    then have "filter (\<lambda>r. k r = x \<and> q r) rows = []"
      by (auto simp: filter_empty_conv)
    then show ?thesis by (simp add: count_where_def)
  next
    case False
    with Cons show ?thesis by (simp add: count_where_def)
  qed
qed

section \<open>The world and the environment\<close>

text \<open>What PostgreSQL may report instead of running a statement.\<close>

datatype db_fault =
    Unavailable          \<comment> \<open>a code of \<open>DATABASE_UNAVAILABLE_CODES\<close>\<close>
  | SerializationConflict  \<comment> \<open>40001, 40P01 or P2034: a code of \<open>TRANSIENT_TRANSACTION_CODES\<close>\<close>
  | TransientConflict    \<comment> \<open>one of the other \<open>TRANSIENT_TRANSACTION_CODES\<close>\<close>
  | ConstraintViolation string
  | OtherFault string

text \<open>How a commit may end: the third case is a commit whose acknowledgement the client never got.\<close>

datatype commit_outcome = Committed | NotCommitted db_fault | CommittedUnacked db_fault

text \<open>
  The environment, indexed by \<open>tick\<close>: clock readings, \<open>randomUUID\<close> and \<open>gen_random_uuid\<close>, the
  monotonic ULID factory (of a timestamp), SHA-256, the fault a statement meets and the fate of a
  commit. \<open>env_fault_message\<close> is the text of a driver error.
\<close>

record env =
  env_clock :: "nat \<Rightarrow> int"
  env_uuid :: "nat \<Rightarrow> string"
  env_ulid :: "int \<Rightarrow> nat \<Rightarrow> string"
  env_sha256 :: "ustring \<Rightarrow> string"
  env_fault :: "nat \<Rightarrow> db_fault option"
  env_commit :: "nat \<Rightarrow> commit_outcome"
  env_fault_message :: "db_fault \<Rightarrow> string"

text \<open>
  \<open>observed\<close> is what was handed to the optional telemetry observers, oldest first, as lists of
  field/value pairs. It is memory of the process: no rollback removes from it.
\<close>

type_synonym observation = "(string \<times> string) list"

record world =
  tick :: nat
  txn_now :: int
  observed :: "observation list"

definition bump :: "'a world_scheme \<Rightarrow> 'a world_scheme" where
  "bump w = w\<lparr>tick := Suc (tick w)\<rparr>"

lemma bump_sel [simp]: "tick (bump w) = Suc (tick w)" "txn_now (bump w) = txn_now w"
  "observed (bump w) = observed w"
  by (simp_all add: bump_def)

text \<open>
  The states differ at most in the counter, the transaction clock and the observations: the database
  is the same.
\<close>

definition same_db :: "'a world_scheme \<Rightarrow> 'a world_scheme \<Rightarrow> bool" where
  "same_db w w' \<longleftrightarrow> w' = w\<lparr>tick := tick w', txn_now := txn_now w', observed := observed w'\<rparr>"

lemma same_db_iff: "same_db w w' \<longleftrightarrow> world.more w' = world.more w"
  by (cases w; cases w') (auto simp: same_db_def)

lemma same_db_refl [simp]: "same_db w w"
  by (simp add: same_db_def)

lemma same_db_sym: "same_db w w' \<Longrightarrow> same_db w' w"
  by (simp add: same_db_iff)

lemma same_db_trans: "same_db w w' \<Longrightarrow> same_db w' w'' \<Longrightarrow> same_db w w''"
  by (simp add: same_db_iff)

lemma same_db_bump [simp]: "same_db w (bump w)" "same_db w (w\<lparr>tick := n\<rparr>)"
  "same_db w (w\<lparr>txn_now := t\<rparr>)" "same_db w (w\<lparr>observed := os\<rparr>)"
  by (simp_all add: same_db_iff bump_def)

lemma same_db_bump_trans: "same_db (bump w) w' \<longleftrightarrow> same_db w w'"
  by (simp add: same_db_iff bump_def)

text \<open>
  \<open>this.observer?.record(o)\<close> inside a \<open>try\<close> whose \<open>catch\<close> is empty: it can neither fail nor touch the
  database.
\<close>

definition observe :: "observation \<Rightarrow> ('a world_scheme, 'e, unit) comp" where
  "observe ob = modify (\<lambda>w. w\<lparr>observed := observed w @ [ob]\<rparr>)"

lemma observe_eq [comp_simps]:
  "observe ob w = (r, w') \<longleftrightarrow> r = Inr () \<and> w' = w\<lparr>observed := observed w @ [ob]\<rparr>"
  by (auto simp: observe_def modify_def)

text \<open>\<open>new Date()\<close>, \<open>randomUUID()\<close>, and the ULID generator at a timestamp.\<close>

definition read_clock :: "env \<Rightarrow> ('a world_scheme, 'e, int) comp" where
  "read_clock E = (\<lambda>w. (Inr (env_clock E (tick w)), bump w))"

definition new_uuid :: "env \<Rightarrow> ('a world_scheme, 'e, string) comp" where
  "new_uuid E = (\<lambda>w. (Inr (env_uuid E (tick w)), bump w))"

definition new_ulid :: "env \<Rightarrow> int \<Rightarrow> ('a world_scheme, 'e, string) comp" where
  "new_ulid E t = (\<lambda>w. (Inr (env_ulid E t (tick w)), bump w))"

lemma read_clock_eq [comp_simps]:
  "read_clock E w = (r, w') \<longleftrightarrow> r = Inr (env_clock E (tick w)) \<and> w' = bump w"
  by (auto simp: read_clock_def)

lemma new_uuid_eq [comp_simps]:
  "new_uuid E w = (r, w') \<longleftrightarrow> r = Inr (env_uuid E (tick w)) \<and> w' = bump w"
  by (auto simp: new_uuid_def)

lemma new_ulid_eq [comp_simps]:
  "new_ulid E t w = (r, w') \<longleftrightarrow> r = Inr (env_ulid E t (tick w)) \<and> w' = bump w"
  by (auto simp: new_ulid_def)

end
