(* ===== verification/Errors.thy ===== *)
theory Errors imports Prelude begin

text \<open>
  The error classes of every module, one datatype per \<open>*.errors.ts\<close> file with the source's class
  names, and their sum: what an exception of this program can be. \<open>instanceof\<close> is a constructor
  match. The messages matter where a service inspects \<open>error.message\<close>.
\<close>

datatype ledger_error =
    InvalidLedgerCommandError
  | LedgerAccountsNotProvisionedError
  | LedgerIdentifierCollisionError
  | LedgerBusinessReferenceConflictError
  | LedgerReversalConflictError
  | LedgerTransactionNotFoundError
  | LedgerInvariantViolationError

fun ledger_error_message :: "ledger_error \<Rightarrow> string" where
  "ledger_error_message InvalidLedgerCommandError = ''The ledger command is invalid''"
| "ledger_error_message LedgerAccountsNotProvisionedError =
     ''The approved ledger accounts are not provisioned''"
| "ledger_error_message LedgerIdentifierCollisionError =
     ''The ledger transaction identifier is unavailable''"
| "ledger_error_message LedgerBusinessReferenceConflictError =
     ''The ledger business reference already has a posting''"
| "ledger_error_message LedgerReversalConflictError =
     ''The ledger transaction cannot be reversed''"
| "ledger_error_message LedgerTransactionNotFoundError =
     ''The ledger transaction was not found''"
| "ledger_error_message LedgerInvariantViolationError =
     ''A ledger invariant rejected the posting''"

datatype payments_error =
    InvalidPaymentIntentRequestError "string option"
  | UnsupportedPaymentCurrencyError
  | UnsupportedCaptureMethodError
  | PaymentIntentNotFoundError
  | ExternalReferenceConflictError
  | PaymentIdentifierCollisionError
  | IdentifierGenerationExhaustedError
  | CaptureAmountMismatchError
  | PaymentIntentNotCapturableError
  | PaymentIntentNotRefundableError
  | PaymentCurrencyMismatchError
  | RefundAmountExceedsAvailableError
  | RefundExternalReferenceConflictError
  | RefundIdentifierCollisionError
  | PaymentProviderDeclinedError
  | PaymentProviderUnavailableError
  | PaymentProjectionInvariantError

datatype idempotency_error =
    IdempotencyKeyReusedError
  | IdempotencyRequestInProgressError
  | IdempotencyKeyExpiredError
  | IdempotencyOwnershipLostError

fun idempotency_error_message :: "idempotency_error \<Rightarrow> string" where
  "idempotency_error_message IdempotencyKeyReusedError =
     ''The idempotency key was already used with a different request''"
| "idempotency_error_message IdempotencyRequestInProgressError =
     ''The idempotent request is still in progress''"
| "idempotency_error_message IdempotencyKeyExpiredError =
     ''The idempotency response replay window has expired''"
| "idempotency_error_message IdempotencyOwnershipLostError =
     ''Idempotency command ownership is no longer valid''"

text \<open>
  The three subclasses of \<open>PermanentMessageProcessingError\<close> of the eventing module and the two of the
  webhooks module carry their code; they share its message.
\<close>

datatype eventing_error =
    EventIdentifierCollisionError
  | PermanentMessageProcessingError string
  | InboxMessageConflictError
  | MessageTransactionRetryExhaustedError

fun eventing_error_message :: "eventing_error \<Rightarrow> string" where
  "eventing_error_message EventIdentifierCollisionError =
     ''The generated event identifier collided with an existing event''"
| "eventing_error_message (PermanentMessageProcessingError c) =
     ''The message cannot be processed safely without operator review''"
| "eventing_error_message InboxMessageConflictError =
     ''The message cannot be processed safely without operator review''"
| "eventing_error_message MessageTransactionRetryExhaustedError =
     ''The message cannot be processed safely without operator review''"

fun eventing_error_code :: "eventing_error \<Rightarrow> string option" where
  "eventing_error_code EventIdentifierCollisionError = None"
| "eventing_error_code (PermanentMessageProcessingError c) = Some c"
| "eventing_error_code InboxMessageConflictError = Some ''inbox_message_identity_conflict''"
| "eventing_error_code MessageTransactionRetryExhaustedError =
     Some ''projection_transaction_retry_exhausted''"

datatype settlement_error =
    InvalidSettlementRequestError
  | SettlementCutoffNotClosedError
  | SettlementFeeExceedsGrossError
  | SettlementBatchNotFoundError
  | SettlementIdentifierExhaustedError
  | SettlementFeePolicyInvalidError
  | SettlementInvariantViolationError

datatype reconciliation_error =
    InvalidReconciliationRequestError string
  | ReconciliationFileTooLargeError
  | ReconciliationRowLimitExceededError
  | ReconciliationCsvInvalidError
  | ReconciliationChecksumConflictError
  | ReconciliationImportNotFoundError
  | ReconciliationReportNotReadyError
  | ReconciliationImportFailedError
  | ReconciliationAggregateOverflowError
  | ReconciliationIdentifierExhaustedError
  | ReconciliationClaimOwnershipLostError

datatype webhook_error =
    InvalidWebhookEndpointRequestError "string option"
  | UnsupportedWebhookEventError
  | WebhookEndpointNotFoundError
  | WebhookEndpointUrlConflictError
  | WebhookEndpointUrlProhibitedError
  | WebhookEndpointUrlUnresolvableError
  | WebhookEndpointUrlResolutionUnavailableError
  | WebhookEndpointPreconditionRequiredError
  | WebhookEndpointPreconditionFailedError
  | WebhookEndpointIdentifierCollisionError
  | WebhookEndpointIdentifierGenerationExhaustedError
  | WebhookKeyringUnavailableError
  | WebhookDeliveryIdentifierCollisionError
  | WebhookDeliveryIdentifierGenerationExhaustedError
  | WebhookEventProjectionConflictError

text \<open>
  An exception of the program: a class of a module, \<open>DatabaseUnavailableError\<close> of the infrastructure,
  a driver error, or a plain \<open>new Error(message)\<close>.
\<close>

datatype error =
    LedgerE ledger_error
  | PaymentsE payments_error
  | IdempotencyE idempotency_error
  | EventingE eventing_error
  | SettlementE settlement_error
  | ReconciliationE reconciliation_error
  | WebhookE webhook_error
  | DatabaseUnavailableError
  | DbE db_fault
  | PlainE string

text \<open>
  \<open>findDatabaseConstraint\<close>, \<open>isDatabaseUnavailableError\<close> and \<open>isTransientTransactionError\<close> look for a
  driver's code in the error graph. Only driver errors carry one; the classes above do not.
\<close>

fun find_database_constraint :: "error \<Rightarrow> string option" where
  "find_database_constraint (DbE (ConstraintViolation c)) = Some c"
| "find_database_constraint e = None"

fun is_database_unavailable :: "error \<Rightarrow> bool" where
  "is_database_unavailable (DbE Unavailable) \<longleftrightarrow> True"
| "is_database_unavailable e \<longleftrightarrow> False"

fun is_transient_transaction_error :: "error \<Rightarrow> bool" where
  "is_transient_transaction_error (DbE TransientConflict) \<longleftrightarrow> True"
| "is_transient_transaction_error (DbE SerializationConflict) \<longleftrightarrow> True"
| "is_transient_transaction_error e \<longleftrightarrow> False"

lemma find_database_constraint_iff:
  "find_database_constraint e = Some c \<longleftrightarrow> e = DbE (ConstraintViolation c)"
  by (cases e rule: find_database_constraint.cases) auto

text \<open>\<open>RETRYABLE_TRANSACTION_CODES\<close> of the inbox.\<close>

definition is_retryable_transaction_error :: "error \<Rightarrow> bool" where
  "is_retryable_transaction_error e \<longleftrightarrow> e = DbE SerializationConflict"

lemma is_transient_iff:
  "is_transient_transaction_error e \<longleftrightarrow> e = DbE TransientConflict \<or> e = DbE SerializationConflict"
  by (cases e rule: is_transient_transaction_error.cases) auto

end
