(* ===== verification/Database.thy ===== *)
theory Database imports Errors begin

text \<open>
  What the code relies on of PostgreSQL and Prisma: a statement either reports a fault or runs; a
  transaction takes all its effects or none. Every statement and every commit consults the
  environment, so a theorem about a transaction holds for every pattern of outages, transient
  conflicts and lost acknowledgements. Deferred constraint triggers of the migrations run at commit.
\<close>

section \<open>Statements and transactions\<close>

text \<open>One SQL statement (\<open>$queryRaw\<close>, \<open>$executeRaw\<close> or a Prisma model call).\<close>

definition stmt :: "env \<Rightarrow> ('a world_scheme, error, 'r) comp \<Rightarrow> ('a world_scheme, error, 'r) comp" where
  "stmt E m = (\<lambda>w. case env_fault E (tick w) of
       Some f \<Rightarrow> (Inl (DbE f), bump w)
     | None \<Rightarrow> m (bump w))"

definition rollback :: "'a world_scheme \<Rightarrow> 'a world_scheme \<Rightarrow> 'a world_scheme" where
  "rollback w w' = w\<lparr>tick := tick w', txn_now := txn_now w', observed := observed w'\<rparr>"

definition begin_txn :: "env \<Rightarrow> 'a world_scheme \<Rightarrow> 'a world_scheme" where
  "begin_txn E w = (bump w)\<lparr>txn_now := env_clock E (tick w)\<rparr>"

text \<open>
  \<open>$transaction(callback)\<close>. \<open>deferred w w'\<close> is the constraint a deferred trigger reports for the
  step from \<open>w\<close> to \<open>w'\<close>, if any.
\<close>

definition transaction ::
  "env \<Rightarrow> ('a world_scheme \<Rightarrow> 'a world_scheme \<Rightarrow> string option) \<Rightarrow>
   ('a world_scheme, error, 'r) comp \<Rightarrow> ('a world_scheme, error, 'r) comp" where
  "transaction E deferred m = (\<lambda>w.
     case env_fault E (tick w) of
       Some f \<Rightarrow> (Inl (DbE f), bump w)
     | None \<Rightarrow>
        (case m (begin_txn E w) of
           (Inl e, w') \<Rightarrow> (Inl e, rollback w w')
         | (Inr x, w') \<Rightarrow>
            (case deferred w w' of
               Some c \<Rightarrow> (Inl (DbE (ConstraintViolation c)), rollback w (bump w'))
             | None \<Rightarrow>
                (case env_commit E (tick w') of
                   Committed \<Rightarrow> (Inr x, bump w')
                 | NotCommitted f \<Rightarrow> (Inl (DbE f), rollback w (bump w'))
                 | CommittedUnacked f \<Rightarrow> (Inl (DbE f), bump w')))))"

text \<open>
  \<open>PrismaDatabase.rethrowDatabaseError\<close>: a recognised outage becomes \<open>DatabaseUnavailableError\<close>; any
  other error is thrown again after one successful connectivity probe. What JavaScript throws need not
  be an \<open>Error\<close> object: \<open>NonError b\<close> is such a value, \<open>b\<close> whether \<open>isDatabaseUnavailableError\<close> recognises it,
  and it is replaced by a plain error. Everything the modelled code throws is an \<open>Error\<close> object.
\<close>

datatype thrown = ErrorObject error | NonError bool

fun thrown_unavailable :: "thrown \<Rightarrow> bool" where
  "thrown_unavailable (ErrorObject e) \<longleftrightarrow> e = DatabaseUnavailableError \<or> is_database_unavailable e"
| "thrown_unavailable (NonError b) \<longleftrightarrow> b"

fun thrown_error :: "thrown \<Rightarrow> error" where
  "thrown_error (ErrorObject e) = e"
| "thrown_error (NonError b) = PlainE ''Unknown database operation failure''"

definition rethrow_thrown :: "env \<Rightarrow> thrown \<Rightarrow> ('a world_scheme, error, 'r) comp" where
  "rethrow_thrown E t =
     (if thrown_unavailable t then throw DatabaseUnavailableError
      else (\<lambda>w. case env_fault E (tick w) of
              Some f \<Rightarrow> (Inl DatabaseUnavailableError, bump w)
            | None \<Rightarrow> (Inl (thrown_error t), bump w)))"

definition rethrow_database_error :: "env \<Rightarrow> error \<Rightarrow> ('a world_scheme, error, 'r) comp" where
  "rethrow_database_error E e = rethrow_thrown E (ErrorObject e)"

lemma rethrow_database_error_eq:
  "rethrow_database_error E e =
     (if e = DatabaseUnavailableError \<or> is_database_unavailable e
      then throw DatabaseUnavailableError
      else (\<lambda>w. case env_fault E (tick w) of
              Some f \<Rightarrow> (Inl DatabaseUnavailableError, bump w)
            | None \<Rightarrow> (Inl e, bump w)))"
  unfolding rethrow_database_error_def rethrow_thrown_def thrown_unavailable.simps thrown_error.simps ..

text \<open>Whatever was thrown, what is thrown again is an \<open>Error\<close> object, and the database is as it was.\<close>

lemma rethrow_thrown_cases:
  "rethrow_thrown E t w = (r, w') \<Longrightarrow>
     (r = Inl DatabaseUnavailableError \<or> r = Inl (thrown_error t)) \<and> same_db w w'"
  by (auto simp: rethrow_thrown_def throw_def split: option.splits if_splits)

section \<open>Their laws\<close>

lemma stmt_Inr [comp_simps]:
  "stmt E m w = (Inr x, w') \<longleftrightarrow> env_fault E (tick w) = None \<and> m (bump w) = (Inr x, w')"
  by (auto simp: stmt_def split: option.splits)

lemma stmt_Inl [comp_simps]:
  "stmt E m w = (Inl e, w') \<longleftrightarrow>
     (\<exists>f. env_fault E (tick w) = Some f \<and> e = DbE f \<and> w' = bump w) \<or>
     (env_fault E (tick w) = None \<and> m (bump w) = (Inl e, w'))"
  by (auto simp: stmt_def split: option.splits)

lemma same_db_rollback [simp]: "same_db w (rollback w w')"
  by (simp add: same_db_iff rollback_def)

lemma same_db_begin [simp]: "same_db w (begin_txn E w)"
  by (simp add: same_db_iff begin_txn_def bump_def)

lemma more_world_simps [simp]:
  "world.more (bump w) = world.more w"
  "world.more (begin_txn E w) = world.more w"
  "world.more (rollback w w') = world.more w"
  by (simp_all add: bump_def begin_txn_def rollback_def)

lemma transaction_Inr:
  "transaction E d m w = (Inr x, w2) \<longleftrightarrow>
     env_fault E (tick w) = None \<and>
     (\<exists>w'. m (begin_txn E w) = (Inr x, w') \<and> d w w' = None \<and>
           env_commit E (tick w') = Committed \<and> w2 = bump w')"
  by (auto simp: transaction_def split: option.splits prod.splits sum.splits commit_outcome.splits)

text \<open>All or nothing, whatever the transaction reports.\<close>

lemma transaction_atomic:
  assumes "transaction E d m w = (r, w2)"
  shows "(same_db w w2 \<and> (\<exists>e. r = Inl e)) \<or>
         (\<exists>x w'. m (begin_txn E w) = (Inr x, w') \<and> d w w' = None \<and> w2 = bump w' \<and>
                 (r = Inr x \<or> (\<exists>f. r = Inl (DbE f))))"
  using assms
  by (auto simp: transaction_def split: option.splits prod.splits sum.splits commit_outcome.splits)

lemma transaction_Inl_body:
  assumes "transaction E d m w = (Inl e, w2)"
  shows "(\<exists>f. e = DbE f) \<or> (\<exists>w'. m (begin_txn E w) = (Inl e, w') \<and> w2 = rollback w w')"
  using assms
  by (auto simp: transaction_def split: option.splits prod.splits sum.splits commit_outcome.splits)

lemma rethrow_never_returns [simp]: "rethrow_database_error E e w \<noteq> (Inr x, w')"
  by (auto simp: rethrow_database_error_eq throw_def split: option.splits)

lemma rethrow_same_db: "rethrow_database_error E e w = (r, w') \<Longrightarrow> same_db w w'"
  by (auto simp: rethrow_database_error_eq throw_def split: option.splits if_splits)

lemma rethrow_cases:
  "rethrow_database_error E e w = (r, w') \<Longrightarrow> r = Inl DatabaseUnavailableError \<or> r = Inl e"
  by (auto simp: rethrow_database_error_eq throw_def split: option.splits if_splits)

section \<open>Predicates on the tables\<close>

text \<open>
  A predicate about the database only: it does not see the counter or the clock. Every component's
  invariant is one.
\<close>

definition db_pred :: "('a world_scheme \<Rightarrow> bool) \<Rightarrow> bool" where
  "db_pred P \<longleftrightarrow> (\<forall>w w'. same_db w w' \<longrightarrow> P w \<longrightarrow> P w')"

lemma db_predD: "db_pred P \<Longrightarrow> same_db w w' \<Longrightarrow> P w \<Longrightarrow> P w'"
  by (auto simp: db_pred_def)

text \<open>
  The contract every write operation of a component has: whatever it returns or throws inside a
  transaction, a success keeps the invariant. The lemmas lift it to the transaction and to the
  bounded retry loop around it.
\<close>

locale transactional =
  fixes inv :: "'a world_scheme \<Rightarrow> bool"
    and body :: "('a world_scheme, error, 'r) comp"
  assumes inv_db: "db_pred inv"
    and body_keeps: "inv w \<Longrightarrow> body w = (Inr x, w') \<Longrightarrow> inv w'"
begin

lemma inv_same_db: "inv w \<Longrightarrow> same_db w w' \<Longrightarrow> inv w'"
  using inv_db by (auto simp: db_pred_def)

lemma transaction_keeps:
  assumes "inv w" and "transaction E d body w = (r, w')"
  shows "inv w'"
  using transaction_atomic[OF assms(2)]
proof
  assume "same_db w w' \<and> (\<exists>e. r = Inl e)"
  with assms(1) show ?thesis by (auto intro: inv_same_db)
next
  assume "\<exists>x w''. body (begin_txn E w) = (Inr x, w'') \<and> d w w'' = None \<and> w' = bump w'' \<and>
      (r = Inr x \<or> (\<exists>f. r = Inl (DbE f)))"
  then obtain x w'' where b: "body (begin_txn E w) = (Inr x, w'')" and w': "w' = bump w''" by auto
  have "inv (begin_txn E w)" using assms(1) by (rule inv_same_db) simp
  with b have "inv w''" using body_keeps by blast
  then show ?thesis unfolding w' by (rule inv_same_db) simp
qed

lemma attempts_keep:
  assumes "inv w" and "attempts n again exh spent (transaction E d body) w = (r, w')"
  shows "inv w'"
  using assms
proof (induction n arbitrary: w)
  case 0
  then show ?case by (simp add: throw_def)
next
  case (Suc n)
  obtain r1 w1 where t: "transaction E d body w = (r1, w1)" by fastforce
  with Suc.prems(1) have "inv w1" by (rule transaction_keeps)
  with Suc t show ?case
    by (cases r1) (auto simp: catch_def throw_def split: if_splits)
qed

end

section \<open>Evaluating a computation at a concrete state\<close>

text \<open>
  The combinators applied to a state. A definition rewritten with them (\<open>f_def[THEN fun_cong, unfolded
  run_rules]\<close>) is a chain of case distinctions on results, which \<open>simp\<close> evaluates at a literal state.
\<close>

lemma run_if: "(if b then m else m') s = (if b then m s else m' s)"
  by simp

lemma run_option: "(case x of None \<Rightarrow> m | Some y \<Rightarrow> f y) s = (case x of None \<Rightarrow> m s | Some y \<Rightarrow> f y s)"
  by (cases x) simp_all

lemma run_list: "(case x of [] \<Rightarrow> m | y # ys \<Rightarrow> f y ys) s = (case x of [] \<Rightarrow> m s | y # ys \<Rightarrow> f y ys s)"
  by (cases x) simp_all

lemma run_pair: "(case x of (a, b) \<Rightarrow> f a b) s = (case x of (a, b) \<Rightarrow> f a b s)"
  by (cases x) simp_all

lemma run_sum: "(case x of Inl a \<Rightarrow> f a | Inr b \<Rightarrow> g b) s = (case x of Inl a \<Rightarrow> f a s | Inr b \<Rightarrow> g b s)"
  by (cases x) simp_all

lemmas run_rules = bindc_def catch_def ok_def throw_def gets_def modify_def from_sum_def require_def
  read_clock_def new_uuid_def new_ulid_def observe_def stmt_def transaction_def
  run_if run_option run_list run_pair run_sum Let_def

lemma for_each_run:
  "for_each f [] s = (Inr (), s)"
  "for_each f (x # xs) s = (case f x s of (Inl e, s') \<Rightarrow> (Inl e, s') | (Inr u, s') \<Rightarrow> for_each f xs s')"
  by (simp_all add: ok_def bindc_def)

lemma map_comp_run:
  "map_comp f [] s = (Inr [], s)"
  "map_comp f (x # xs) s = (case f x s of (Inl e, s') \<Rightarrow> (Inl e, s') | (Inr y, s') \<Rightarrow>
     (case map_comp f xs s' of (Inl e, s') \<Rightarrow> (Inl e, s') | (Inr ys, s') \<Rightarrow> (Inr (y # ys), s')))"
  by (simp_all add: ok_def bindc_def)

end
