(* ===== verification/Ledger_Posting.thy ===== *)
theory Ledger_Posting imports Database begin

text \<open>
  \<open>packages/modules/ledger/src/ledger-posting.ts\<close>: the entries of a capture, a refund, a settlement
  and a reversal, and what makes them correct: they balance, a reversal undoes the effect of the
  original on every account, and a settlement splits its gross into fee and net.
\<close>

section \<open>Data\<close>

datatype account_code = Fee_revenue | Merchant_payable | Provider_clearing | Settlement_clearing
datatype business_type = Capture | Refund | Reversal | Settlement
datatype entry_side = Credit | Debit

record ledger_entry =
  le_account :: account_code
  le_amount :: int
  le_currency :: currency
  le_seq :: nat
  le_side :: entry_side

text \<open>The order of the account codes as stored, for \<open>ORDER BY code\<close>.\<close>

fun account_rank :: "account_code \<Rightarrow> nat" where
  "account_rank Fee_revenue = 0"
| "account_rank Merchant_payable = 1"
| "account_rank Provider_clearing = 2"
| "account_rank Settlement_clearing = 3"

lemma account_rank_inj: "account_rank a = account_rank b \<Longrightarrow> a = b"
  by (cases a; cases b) simp_all

instantiation account_code :: linorder
begin

definition less_eq_account_code :: "account_code \<Rightarrow> account_code \<Rightarrow> bool" where
  "less_eq_account_code a b \<longleftrightarrow> account_rank a \<le> account_rank b"

definition less_account_code :: "account_code \<Rightarrow> account_code \<Rightarrow> bool" where
  "less_account_code a b \<longleftrightarrow> account_rank a < account_rank b"

instance
  by standard (auto simp: less_eq_account_code_def less_account_code_def intro: account_rank_inj)

end

section \<open>Building entries\<close>

definition max_ledger_amount :: int where
  "max_ledger_amount = max_safe_integer"

definition assert_amount :: "int \<Rightarrow> error + unit" where
  "assert_amount amountMinor =
     (if amountMinor < 1 \<or> amountMinor > max_ledger_amount
      then Inl (LedgerE InvalidLedgerCommandError) else Inr ())"

definition build_capture_entries :: "int \<Rightarrow> currency \<Rightarrow> error + ledger_entry list" where
  "build_capture_entries amountMinor cur =
     bind_sum (assert_amount amountMinor) (\<lambda>_. Inr
       [\<lparr>le_account = Provider_clearing, le_amount = amountMinor, le_currency = cur,
          le_seq = 1, le_side = Debit\<rparr>,
        \<lparr>le_account = Merchant_payable, le_amount = amountMinor, le_currency = cur,
          le_seq = 2, le_side = Credit\<rparr>])"

definition build_refund_entries :: "int \<Rightarrow> currency \<Rightarrow> error + ledger_entry list" where
  "build_refund_entries amountMinor cur =
     bind_sum (assert_amount amountMinor) (\<lambda>_. Inr
       [\<lparr>le_account = Merchant_payable, le_amount = amountMinor, le_currency = cur,
          le_seq = 1, le_side = Debit\<rparr>,
        \<lparr>le_account = Provider_clearing, le_amount = amountMinor, le_currency = cur,
          le_seq = 2, le_side = Credit\<rparr>])"

definition build_settlement_entries ::
  "int \<Rightarrow> int \<Rightarrow> int \<Rightarrow> currency \<Rightarrow> error + ledger_entry list" where
  "build_settlement_entries grossMinor feeMinor netMinor cur =
     bind_sum (assert_amount grossMinor) (\<lambda>_.
     bind_sum (assert_amount netMinor) (\<lambda>_.
       if feeMinor < 0 \<or> feeMinor > max_ledger_amount \<or> grossMinor \<noteq> feeMinor + netMinor
       then Inl (LedgerE InvalidLedgerCommandError)
       else Inr
         ([\<lparr>le_account = Merchant_payable, le_amount = grossMinor, le_currency = cur,
             le_seq = 1, le_side = Debit\<rparr>] @
          (if feeMinor = 0 then []
           else [\<lparr>le_account = Fee_revenue, le_amount = feeMinor, le_currency = cur,
                   le_seq = 2, le_side = Credit\<rparr>]) @
          [\<lparr>le_account = Settlement_clearing, le_amount = netMinor, le_currency = cur,
             le_seq = (if feeMinor = 0 then 2 else 3), le_side = Credit\<rparr>])))"

fun flip_side :: "entry_side \<Rightarrow> entry_side" where
  "flip_side Debit = Credit"
| "flip_side Credit = Debit"

definition build_reversal_entries :: "ledger_entry list \<Rightarrow> error + ledger_entry list" where
  "build_reversal_entries entries =
     (if length entries < 2 then Inl (LedgerE InvalidLedgerCommandError)
      else Inr (map (\<lambda>entry. entry\<lparr>le_side := flip_side (le_side entry)\<rparr>) entries))"

section \<open>What postings promise\<close>

definition side_total :: "entry_side \<Rightarrow> ledger_entry list \<Rightarrow> int" where
  "side_total s es = (\<Sum>e\<leftarrow>es. if le_side e = s then le_amount e else 0)"

definition balanced :: "ledger_entry list \<Rightarrow> bool" where
  "balanced es \<longleftrightarrow> side_total Debit es = side_total Credit es"

text \<open>The effect of entries on an account, debits positive.\<close>

definition net_effect :: "account_code \<Rightarrow> ledger_entry list \<Rightarrow> int" where
  "net_effect a es =
     (\<Sum>e\<leftarrow>es. if le_account e = a then (if le_side e = Debit then le_amount e else - le_amount e) else 0)"

text \<open>The shape every posting has: at least two entries, one currency, legal amounts, balanced.\<close>

definition well_formed_posting :: "currency \<Rightarrow> ledger_entry list \<Rightarrow> bool" where
  "well_formed_posting cur es \<longleftrightarrow>
     2 \<le> length es \<and> balanced es \<and> distinct (map le_seq es) \<and>
     (\<forall>e \<in> set es. le_currency e = cur \<and> 1 \<le> le_amount e \<and> le_amount e \<le> max_ledger_amount \<and>
        1 \<le> le_seq e \<and> le_seq e \<le> 32767)"

lemmas posting_defs = well_formed_posting_def balanced_def side_total_def net_effect_def

lemma assert_amount_Inr [comp_simps]:
  "assert_amount a = Inr u \<longleftrightarrow> 1 \<le> a \<and> a \<le> max_ledger_amount"
  by (auto simp: assert_amount_def)

lemma flip_side_neq [simp]: "flip_side s \<noteq> s" "s \<noteq> flip_side s"
  by (cases s; simp)+

lemma flip_side_flip [simp]: "flip_side (flip_side s) = s"
  by (cases s) simp_all

lemma flip_side_eq_iff: "flip_side s = t \<longleftrightarrow> s = flip_side t"
  by (cases s; cases t) simp_all

lemma capture_entries_wf: "build_capture_entries a c = Inr es \<Longrightarrow> well_formed_posting c es"
  by (auto simp: build_capture_entries_def comp_simps posting_defs)

lemma refund_entries_wf: "build_refund_entries a c = Inr es \<Longrightarrow> well_formed_posting c es"
  by (auto simp: build_refund_entries_def comp_simps posting_defs)

lemma settlement_entries_wf: "build_settlement_entries g f n c = Inr es \<Longrightarrow> well_formed_posting c es"
  by (auto simp: build_settlement_entries_def comp_simps posting_defs split: if_splits)

lemma side_total_flip:
  "side_total s (map (\<lambda>e. e\<lparr>le_side := flip_side (le_side e)\<rparr>) es) = side_total (flip_side s) es"
proof (induction es)
  case Nil
  then show ?case by (simp add: side_total_def)
next
  case (Cons e es)
  then show ?case by (simp add: side_total_def flip_side_eq_iff)
qed

lemma reversal_entries_wf:
  assumes "well_formed_posting c es" and "build_reversal_entries es = Inr rs"
  shows "well_formed_posting c rs"
proof -
  from assms(2) have rs: "rs = map (\<lambda>e. e\<lparr>le_side := flip_side (le_side e)\<rparr>) es"
    by (auto simp: build_reversal_entries_def split: if_splits)
  have seqs: "map le_seq rs = map le_seq es" unfolding rs by (simp add: comp_def)
  then have "distinct (map le_seq rs) \<longleftrightarrow> distinct (map le_seq es)" by (simp only:)
  with assms(1) show ?thesis
    unfolding well_formed_posting_def
    by (simp add: rs balanced_def side_total_flip)
qed

lemma reversal_net_effect:
  assumes "build_reversal_entries es = Inr rs"
  shows "net_effect a rs = - net_effect a es"
proof -
  from assms have rs: "rs = map (\<lambda>e. e\<lparr>le_side := flip_side (le_side e)\<rparr>) es"
    by (auto simp: build_reversal_entries_def split: if_splits)
  show ?thesis unfolding rs
  proof (induction es)
    case Nil
    then show ?case by (simp add: net_effect_def)
  next
    case (Cons e es)
    then show ?case by (cases "le_side e") (simp_all add: net_effect_def)
  qed
qed

end
