(* ===== verification/Ledger_Store.thy ===== *)
theory Ledger_Store imports Ledger_Posting "HOL-Library.Product_Lexorder" begin

text \<open>
  The ledger tables with the constraints and triggers of the migrations
  (\<open>20260802180000_immutable_double_entry_ledger_foundation\<close>, \<open>20260803090000_settlement_ledger_extension\<close>)
  and the repository over them (\<open>packages/modules/ledger/src/prisma-ledger.repository.ts\<close>).
\<close>

section \<open>Tables\<close>

record ledger_account_row =
  la_id :: string
  la_merchant :: string
  la_code :: account_code
  la_currency :: currency
  la_side :: entry_side

record ledger_tx_row =
  lt_id :: string
  lt_public_id :: string
  lt_merchant :: string
  lt_currency :: currency
  lt_type :: business_type
  lt_reference :: ustring
  lt_reversal_of :: "string option"
  lt_request :: string
  lt_occurred :: int
  lt_posted :: "int option"

record ledger_entry_row =
  er_id :: string
  er_tx :: string
  er_account :: string
  er_merchant :: string
  er_seq :: nat
  er_side :: entry_side
  er_amount :: int
  er_currency :: currency

record ledger_world = world +
  ledger_accounts :: "ledger_account_row list"
  ledger_transactions :: "ledger_tx_row list"
  ledger_entries :: "ledger_entry_row list"

section \<open>Column mappings\<close>

fun business_type_to_prisma :: "business_type \<Rightarrow> string" where
  "business_type_to_prisma Capture = ''CAPTURE''"
| "business_type_to_prisma Refund = ''REFUND''"
| "business_type_to_prisma Settlement = ''SETTLEMENT''"
| "business_type_to_prisma Reversal = ''REVERSAL''"

fun code_to_prisma :: "account_code \<Rightarrow> string" where
  "code_to_prisma Merchant_payable = ''merchant_payable''"
| "code_to_prisma Provider_clearing = ''provider_clearing''"
| "code_to_prisma Fee_revenue = ''fee_revenue''"
| "code_to_prisma Settlement_clearing = ''settlement_clearing''"

fun side_to_prisma :: "entry_side \<Rightarrow> string" where
  "side_to_prisma Credit = ''CREDIT''"
| "side_to_prisma Debit = ''DEBIT''"

definition account_code_of :: "string \<Rightarrow> error + account_code" where
  "account_code_of value =
     (if value = ''MERCHANT_PAYABLE'' \<or> value = ''merchant_payable'' then Inr Merchant_payable
      else if value = ''PROVIDER_CLEARING'' \<or> value = ''provider_clearing'' then Inr Provider_clearing
      else if value = ''FEE_REVENUE'' \<or> value = ''fee_revenue'' then Inr Fee_revenue
      else if value = ''SETTLEMENT_CLEARING'' \<or> value = ''settlement_clearing''
      then Inr Settlement_clearing
      else Inl (LedgerE LedgerInvariantViolationError))"

definition entry_side_of :: "string \<Rightarrow> error + entry_side" where
  "entry_side_of value =
     (if value = ''CREDIT'' \<or> value = ''credit'' then Inr Credit
      else if value = ''DEBIT'' \<or> value = ''debit'' then Inr Debit
      else Inl (LedgerE LedgerInvariantViolationError))"

definition business_type_of :: "string \<Rightarrow> error + business_type" where
  "business_type_of value =
     (if value = ''capture'' \<or> value = ''CAPTURE'' then Inr Capture
      else if value = ''refund'' \<or> value = ''REFUND'' then Inr Refund
      else if value = ''settlement'' \<or> value = ''SETTLEMENT'' then Inr Settlement
      else if value = ''reversal'' \<or> value = ''REVERSAL'' then Inr Reversal
      else Inl (LedgerE LedgerInvariantViolationError))"

definition ledger_currency_of :: "string \<Rightarrow> error + currency" where
  "ledger_currency_of value =
     (if value = ''ETB'' then Inr ETB else if value = ''USD'' then Inr USD
      else Inl (LedgerE LedgerInvariantViolationError))"

text \<open>
  The allowlists make these mappings the identity on the datatypes, so the rows above hold the
  datatypes and the repository below reads them without the detour.
\<close>

lemma column_mappings_roundtrip:
  "account_code_of (code_to_prisma a) = Inr a"
  "entry_side_of (side_to_prisma s) = Inr s"
  "business_type_of (business_type_to_prisma b) = Inr b"
  "ledger_currency_of (currency_code c) = Inr c"
  by (cases a; cases s; cases b; cases c;
      simp add: account_code_of_def entry_side_of_def business_type_of_def ledger_currency_of_def)+

section \<open>Constraints\<close>

definition raise_constraint :: "string \<Rightarrow> ('a world_scheme, error, 'r) comp" where
  "raise_constraint c = throw (DbE (ConstraintViolation c))"

text \<open>\<open>CHECK\<close> constraints of \<open>ledger_transactions\<close>; the first violated one.\<close>

definition ledger_tx_check :: "ledger_tx_row \<Rightarrow> string option" where
  "ledger_tx_check r =
     (if \<not> has_ulid_prefix ''ltx'' (lt_public_id r)
      then Some ''ledger_transactions_public_id_format_check''
      else if \<not> (1 \<le> length (code_points (lt_reference r)) \<and> length (code_points (lt_reference r)) \<le> 255) \<or>
              list_ex posix_cntrl (lt_reference r) \<or>
              posix_space (hd (lt_reference r)) \<or> posix_space (last (lt_reference r))
      then Some ''ledger_transactions_business_reference_check''
      else if \<not> is_request_id (lt_request r)
      then Some ''ledger_transactions_request_id_check''
      else if (lt_type r = Reversal) \<noteq> (lt_reversal_of r \<noteq> None)
      then Some ''ledger_transactions_reversal_shape_check''
      else None)"

text \<open>Primary key and unique indexes, in the order of their creation.\<close>

definition ledger_tx_unique :: "ledger_tx_row list \<Rightarrow> ledger_tx_row \<Rightarrow> string option" where
  "ledger_tx_unique rows r =
     (if lt_id r \<in> lt_id ` set rows then Some ''ledger_transactions_pkey''
      else if lt_public_id r \<in> lt_public_id ` set rows then Some ''ledger_transactions_public_id_key''
      else if (lt_merchant r, lt_type r, lt_reference r)
                \<in> (\<lambda>t. (lt_merchant t, lt_type t, lt_reference t)) ` set rows
      then Some ''ledger_transactions_merchant_id_business_type_reference_key''
      else if lt_reversal_of r \<noteq> None \<and> lt_reversal_of r \<in> lt_reversal_of ` set rows
      then Some ''ledger_transactions_reversal_of_id_key''
      else None)"

text \<open>
  \<open>INSERT INTO ledger_transactions\<close>. The guard trigger lets only an unfinalised row in, which is how
  the repository inserts it.
\<close>

definition insert_ledger_tx :: "ledger_tx_row \<Rightarrow> ('a ledger_world_scheme, error, unit) comp" where
  "insert_ledger_tx r = (\<lambda>w.
     case ledger_tx_check r of
       Some c \<Rightarrow> raise_constraint c w
     | None \<Rightarrow>
        (case ledger_tx_unique (ledger_transactions w) r of
           Some c \<Rightarrow> raise_constraint c w
         | None \<Rightarrow> (Inr (), w\<lparr>ledger_transactions := ledger_transactions w @ [r]\<rparr>)))"

text \<open>\<open>INSERT INTO ledger_entries\<close>: the guard trigger, the \<open>CHECK\<close>s and the unique indexes.\<close>

definition insert_ledger_entry :: "ledger_entry_row \<Rightarrow> ('a ledger_world_scheme, error, unit) comp" where
  "insert_ledger_entry r = (\<lambda>w.
     if \<exists>t \<in> set (ledger_transactions w). lt_id t = er_tx r \<and> lt_posted t \<noteq> None
     then raise_constraint ''ledger_entries_posted_transaction_immutable_check'' w
     else if \<not> (1 \<le> er_seq r \<and> er_seq r \<le> 32767)
     then raise_constraint ''ledger_entries_sequence_check'' w
     else if \<not> (1 \<le> er_amount r \<and> er_amount r \<le> max_ledger_amount)
     then raise_constraint ''ledger_entries_amount_minor_range_check'' w
     else if er_id r \<in> er_id ` set (ledger_entries w)
     then raise_constraint ''ledger_entries_pkey'' w
     else if (er_tx r, er_seq r) \<in> (\<lambda>e. (er_tx e, er_seq e)) ` set (ledger_entries w)
     then raise_constraint ''ledger_entries_transaction_id_entry_seq_key'' w
     else (Inr (), w\<lparr>ledger_entries := ledger_entries w @ [r]\<rparr>))"

text \<open>\<open>INSERT INTO ledger_accounts ... ON CONFLICT DO NOTHING\<close>.\<close>

definition insert_account_skip ::
  "ledger_account_row \<Rightarrow> ledger_account_row list \<Rightarrow> ledger_account_row list" where
  "insert_account_skip r rows =
     (if \<exists>a \<in> set rows. la_id a = la_id r \<or>
           (la_merchant a = la_merchant r \<and> la_code a = la_code r \<and> la_currency a = la_currency r)
      then rows else rows @ [r])"

definition expected_side :: "account_code \<Rightarrow> entry_side" where
  "expected_side code = (if code = Provider_clearing then Debit else Credit)"

section \<open>The deferred integrity trigger\<close>

definition tx_entries :: "'a ledger_world_scheme \<Rightarrow> string \<Rightarrow> ledger_entry_row list" where
  "tx_entries w tid = filter (\<lambda>e. er_tx e = tid) (ledger_entries w)"

definition row_total :: "entry_side \<Rightarrow> ledger_entry_row list \<Rightarrow> int" where
  "row_total s es = (\<Sum>e\<leftarrow>es. if er_side e = s then er_amount e else 0)"

definition entry_consistent :: "'a ledger_world_scheme \<Rightarrow> ledger_tx_row \<Rightarrow> ledger_entry_row \<Rightarrow> bool" where
  "entry_consistent w t e \<longleftrightarrow>
     er_merchant e = lt_merchant t \<and> er_currency e = lt_currency t \<and>
     (case List.find (\<lambda>a. la_id a = er_account e) (ledger_accounts w) of
        None \<Rightarrow> False
      | Some a \<Rightarrow> la_merchant a = lt_merchant t \<and> la_currency a = lt_currency t)"

text \<open>\<open>reversal_entry\<close> is exactly inverted by some original entry of the same sequence number.\<close>

definition entry_inverted :: "ledger_entry_row list \<Rightarrow> ledger_entry_row \<Rightarrow> bool" where
  "entry_inverted originals e \<longleftrightarrow>
     (case List.find (\<lambda>x. er_seq x = er_seq e) originals of
        None \<Rightarrow> False
      | Some x \<Rightarrow> er_account x = er_account e \<and> er_amount x = er_amount e \<and>
                  er_currency x = er_currency e \<and> er_side x \<noteq> er_side e)"

definition reversal_assert ::
  "'a ledger_world_scheme \<Rightarrow> ledger_tx_row \<Rightarrow> ledger_entry_row list \<Rightarrow> string option" where
  "reversal_assert w t es =
     (case List.find (\<lambda>o'. Some (lt_id o') = lt_reversal_of t) (ledger_transactions w) of
        None \<Rightarrow> Some ''ledger_transactions_reversal_target_check''
      | Some original \<Rightarrow>
          if lt_posted original = None \<or> lt_type original = Reversal \<or>
             lt_merchant original \<noteq> lt_merchant t \<or> lt_currency original \<noteq> lt_currency t
          then Some ''ledger_transactions_reversal_target_check''
          else if length (tx_entries w (lt_id original)) \<noteq> length es \<or>
                  \<not> list_all (entry_inverted (tx_entries w (lt_id original))) es
          then Some ''ledger_transactions_reversal_exact_check''
          else None)"

text \<open>\<open>settleflow_assert_ledger_transaction(target_transaction_id)\<close>, with the chart of eight accounts.\<close>

definition ledger_assert :: "'a ledger_world_scheme \<Rightarrow> string \<Rightarrow> string option" where
  "ledger_assert w tid =
     (case List.find (\<lambda>t. lt_id t = tid) (ledger_transactions w) of
        None \<Rightarrow> None
      | Some t \<Rightarrow>
          let es = tx_entries w tid in
          if lt_posted t = None then Some ''ledger_transactions_posted_at_required_check''
          else if length (filter (\<lambda>a. la_merchant a = lt_merchant t) (ledger_accounts w)) \<noteq> 8
          then Some ''ledger_accounts_provisioning_complete_check''
          else if length es < 2 then Some ''ledger_entries_minimum_count_check''
          else if \<not> list_all (entry_consistent w t) es
          then Some ''ledger_entries_currency_consistency_check''
          else if row_total Debit es \<noteq> row_total Credit es
          then Some ''ledger_transactions_balance_check''
          else if lt_type t = Reversal then reversal_assert w t es
          else None)"

text \<open>At commit the trigger runs for every transaction row written and every entry inserted.\<close>

fun first_violation :: "('x \<Rightarrow> string option) \<Rightarrow> 'x list \<Rightarrow> string option" where
  "first_violation f [] = None"
| "first_violation f (x # xs) = (case f x of Some c \<Rightarrow> Some c | None \<Rightarrow> first_violation f xs)"

lemma first_violation_None: "first_violation f xs = None \<longleftrightarrow> (\<forall>x \<in> set xs. f x = None)"
  by (induction xs) (auto split: option.splits)

definition ledger_deferred :: "'a ledger_world_scheme \<Rightarrow> 'a ledger_world_scheme \<Rightarrow> string option" where
  "ledger_deferred w w' =
     first_violation (ledger_assert w')
       (map lt_id (filter (\<lambda>t. t \<notin> set (ledger_transactions w)) (ledger_transactions w')) @
        map er_tx (filter (\<lambda>e. e \<notin> set (ledger_entries w)) (ledger_entries w')))"

end
