(* ===== verification/Ledger_Repository.thy ===== *)
theory Ledger_Repository imports Ledger_Store begin

text \<open>
  \<open>PrismaLedgerRepository\<close> (\<open>packages/modules/ledger/src/prisma-ledger.repository.ts\<close>): provisioning the
  closed chart of accounts, creating a posting, locking a posted transaction for its reversal. Then
  the ledger invariant and its preservation.
\<close>

section \<open>Records of the repository interface\<close>

record create_entry = ledger_entry +
  ce_id :: string

record create_posting =
  cp_reference :: ustring
  cp_type :: business_type
  cp_currency :: currency
  cp_entries :: "create_entry list"
  cp_id :: string
  cp_merchant :: string
  cp_occurred :: int
  cp_public_id :: string
  cp_request :: string
  cp_reversal_of :: "string option"
  cp_reversal_public :: "string option"

record posting_result =
  lp_reference :: ustring
  lp_type :: business_type
  lp_currency :: currency
  lp_entries :: "ledger_entry list"
  lp_merchant :: string
  lp_occurred :: int
  lp_posted :: int
  lp_public_id :: string
  lp_reversal_of :: "string option"

record account_record =
  ar_code :: account_code
  ar_currency :: currency
  ar_merchant :: string
  ar_side :: entry_side

section \<open>Provisioning\<close>

definition repo_provision_accounts ::
  "env \<Rightarrow> ledger_account_row list \<Rightarrow> ('a ledger_world_scheme, error, account_record list) comp" where
  "repo_provision_accounts E accounts =
     (case accounts of
        [] \<Rightarrow> throw (LedgerE LedgerAccountsNotProvisionedError)
      | a0 # _ \<Rightarrow>
          if list_ex (\<lambda>a. la_merchant a \<noteq> la_merchant a0) accounts
          then throw (LedgerE LedgerAccountsNotProvisionedError)
          else catch
            (bindc (stmt E (modify (\<lambda>w. w\<lparr>ledger_accounts :=
                fold insert_account_skip accounts (ledger_accounts w)\<rparr>))) (\<lambda>_.
             bindc (stmt E (gets (\<lambda>w. sort_key (\<lambda>a. (la_currency a, la_code a))
                (filter (\<lambda>a. la_merchant a = la_merchant a0) (ledger_accounts w))))) (\<lambda>rows.
             let result = map (\<lambda>r. \<lparr>ar_code = la_code r, ar_currency = la_currency r,
                                    ar_merchant = la_merchant r, ar_side = la_side r\<rparr>) rows
             in if length result \<noteq> 8 \<or>
                   list_ex (\<lambda>r. case List.find (\<lambda>a. la_code a = ar_code r \<and> la_currency a = ar_currency r) accounts of
                       None \<Rightarrow> True
                     | Some expected \<Rightarrow> la_side expected \<noteq> ar_side r) result
                then throw (LedgerE LedgerAccountsNotProvisionedError)
                else ok result)))
            (\<lambda>e. if e = LedgerE LedgerAccountsNotProvisionedError then throw e
                  else rethrow_database_error E e))"

section \<open>Creating a posting\<close>

definition ledger_invariant_constraints :: "string list" where
  "ledger_invariant_constraints =
     [''ledger_entries_amount_minor_range_check'',
      ''ledger_entries_currency_consistency_check'',
      ''ledger_entries_minimum_count_check'',
      ''ledger_entries_posted_transaction_immutable_check'',
      ''ledger_accounts_provisioning_complete_check'',
      ''ledger_transactions_balance_check'',
      ''ledger_transactions_posted_at_required_check'',
      ''ledger_transactions_reversal_exact_check'',
      ''ledger_transactions_reversal_target_check'']"

text \<open>The \<open>catch\<close> of \<open>createPosting\<close>.\<close>

definition create_posting_error :: "env \<Rightarrow> error \<Rightarrow> ('a world_scheme, error, 'r) comp" where
  "create_posting_error E e =
     (if e = LedgerE LedgerAccountsNotProvisionedError \<or> e = LedgerE LedgerInvariantViolationError
      then throw e
      else case find_database_constraint e of
        None \<Rightarrow> rethrow_database_error E e
      | Some c \<Rightarrow>
          if c = ''ledger_transactions_public_id_key'' \<or> c = ''public_id'' \<or> c = ''publicId''
          then throw (LedgerE LedgerIdentifierCollisionError)
          else if c = ''ledger_transactions_merchant_id_business_type_reference_key'' \<or>
                  c = ''merchant_id,business_type,business_reference''
          then throw (LedgerE LedgerBusinessReferenceConflictError)
          else if c = ''ledger_transactions_reversal_of_id_key'' \<or> c = ''reversal_of_id''
          then throw (LedgerE LedgerReversalConflictError)
          else if c \<in> set ledger_invariant_constraints
          then throw (LedgerE LedgerInvariantViolationError)
          else rethrow_database_error E e)"

text \<open>
  \<open>accountIds\<close>: a later row of a code wins, as in the \<open>Map\<close> constructor. The refusal of an incomplete
  or wrong chart; the currency test of the source is the datatype.
\<close>

definition account_ids :: "ledger_account_row list \<Rightarrow> currency \<Rightarrow> account_code \<rightharpoonup> string" where
  "account_ids rows cur =
     map_of (rev (map (\<lambda>a. (la_code a, la_id a)) (filter (\<lambda>a. la_currency a = cur) rows)))"

definition chart_refused :: "ledger_account_row list \<Rightarrow> create_posting \<Rightarrow> bool" where
  "chart_refused rows inp \<longleftrightarrow>
     length rows \<noteq> 8 \<or>
     list_ex (\<lambda>a. la_side a \<noteq> expected_side (la_code a)) rows \<or>
     length (remdups (map la_code (filter (\<lambda>a. la_currency a = cp_currency inp) rows))) \<noteq> 4 \<or>
     list_ex (\<lambda>e. account_ids rows (cp_currency inp) (le_account e) = None) (cp_entries inp)"

definition tx_row_of :: "create_posting \<Rightarrow> ledger_tx_row" where
  "tx_row_of inp =
     \<lparr>lt_id = cp_id inp, lt_public_id = cp_public_id inp, lt_merchant = cp_merchant inp,
      lt_currency = cp_currency inp, lt_type = cp_type inp, lt_reference = cp_reference inp,
      lt_reversal_of = cp_reversal_of inp, lt_request = cp_request inp,
      lt_occurred = cp_occurred inp, lt_posted = None\<rparr>"

definition entry_row_of ::
  "create_posting \<Rightarrow> (account_code \<rightharpoonup> string) \<Rightarrow> create_entry \<Rightarrow> ledger_entry_row" where
  "entry_row_of inp ids e =
     \<lparr>er_id = ce_id e, er_tx = cp_id inp, er_account = the (ids (le_account e)),
      er_merchant = cp_merchant inp, er_seq = le_seq e, er_side = le_side e,
      er_amount = le_amount e, er_currency = le_currency e\<rparr>"

text \<open>\<open>UPDATE ledger_transactions SET posted_at = transaction_timestamp() ... RETURNING posted_at\<close>.\<close>

definition finalize_ledger_tx ::
  "string \<Rightarrow> string \<Rightarrow> ('a ledger_world_scheme, error, int list) comp" where
  "finalize_ledger_tx tid merchant = (\<lambda>w.
     let p = (\<lambda>t. lt_id t = tid \<and> lt_merchant t = merchant \<and> lt_posted t = None)
     in (Inr (replicate (count_where p (ledger_transactions w)) (txn_now w)),
         w\<lparr>ledger_transactions :=
            update_where p (\<lambda>t. t\<lparr>lt_posted := Some (txn_now w)\<rparr>) (ledger_transactions w)\<rparr>))"

definition create_posting_body ::
  "env \<Rightarrow> create_posting \<Rightarrow> ('a ledger_world_scheme, error, posting_result) comp" where
  "create_posting_body E inp =
     bindc (stmt E (gets (\<lambda>w. filter (\<lambda>a. la_merchant a = cp_merchant inp) (ledger_accounts w)))) (\<lambda>rows.
     bindc (require (\<not> chart_refused rows inp) (LedgerE LedgerAccountsNotProvisionedError)) (\<lambda>_.
     bindc (stmt E (insert_ledger_tx (tx_row_of inp))) (\<lambda>_.
     bindc (stmt E (for_each insert_ledger_entry
              (map (entry_row_of inp (account_ids rows (cp_currency inp))) (cp_entries inp)))) (\<lambda>_.
     bindc (stmt E (finalize_ledger_tx (cp_id inp) (cp_merchant inp))) (\<lambda>finalized.
     case finalized of
       [] \<Rightarrow> throw (LedgerE LedgerInvariantViolationError)
     | postedAt # _ \<Rightarrow> ok
         \<lparr>lp_reference = cp_reference inp, lp_type = cp_type inp, lp_currency = cp_currency inp,
          lp_entries = map ledger_entry.truncate (cp_entries inp),
          lp_merchant = cp_merchant inp, lp_occurred = cp_occurred inp, lp_posted = postedAt,
          lp_public_id = cp_public_id inp, lp_reversal_of = cp_reversal_public inp\<rparr>)))))"

definition repo_create_posting ::
  "env \<Rightarrow> create_posting \<Rightarrow> ('a ledger_world_scheme, error, posting_result) comp" where
  "repo_create_posting E inp = catch (create_posting_body E inp) (create_posting_error E)"

section \<open>Locking a posted transaction for its reversal\<close>

text \<open>
  The join with \<open>ledger_accounts\<close> follows a foreign key; a row without an account is the driver's
  inconsistency error.
\<close>

definition entry_of_row :: "ledger_account_row list \<Rightarrow> ledger_entry_row \<Rightarrow> error + ledger_entry" where
  "entry_of_row accounts e =
     (case List.find (\<lambda>a. la_id a = er_account e) accounts of
        None \<Rightarrow> Inl (DbE (OtherFault ''inconsistent query result''))
      | Some a \<Rightarrow> Inr \<lparr>le_account = la_code a, le_amount = er_amount e, le_currency = er_currency e,
                       le_seq = er_seq e, le_side = er_side e\<rparr>)"

fun map_sum_list :: "('x \<Rightarrow> 'e + 'y) \<Rightarrow> 'x list \<Rightarrow> 'e + 'y list" where
  "map_sum_list f [] = Inr []"
| "map_sum_list f (x # xs) = bind_sum (f x) (\<lambda>y. bind_sum (map_sum_list f xs) (\<lambda>ys. Inr (y # ys)))"

definition repo_find_posted_for_reversal ::
  "env \<Rightarrow> string \<Rightarrow> string \<Rightarrow> ('a ledger_world_scheme, error, (posting_result \<times> string) option) comp" where
  "repo_find_posted_for_reversal E merchant publicId =
     catch
       (bindc (stmt E (gets (\<lambda>w. List.find
           (\<lambda>t. lt_merchant t = merchant \<and> lt_public_id t = publicId \<and> lt_posted t \<noteq> None)
           (ledger_transactions w)))) (\<lambda>stored.
        case stored of
          None \<Rightarrow> ok None
        | Some t \<Rightarrow>
            bindc (stmt E (gets (\<lambda>w. map_sum_list (entry_of_row (ledger_accounts w))
              (sort_key er_seq (filter (\<lambda>e. er_tx e = lt_id t \<and> er_merchant e = merchant)
                (ledger_entries w)))))) (\<lambda>r.
            bindc (from_sum r) (\<lambda>entries.
            ok (Some (\<lparr>lp_reference = lt_reference t, lp_type = lt_type t, lp_currency = lt_currency t,
                       lp_entries = entries, lp_merchant = lt_merchant t,
                       lp_occurred = lt_occurred t, lp_posted = the (lt_posted t),
                       lp_public_id = lt_public_id t, lp_reversal_of = None\<rparr>, lt_id t))))))
       (rethrow_database_error E)"

end
