(* ===== verification/Ledger.thy ===== *)
theory Ledger imports Ledger_Repository begin

text \<open>
  \<open>LedgerService\<close> (\<open>packages/modules/ledger/src/ledger.service.ts\<close>): command validation, provisioning,
  the four posting operations and what they tell the observer.
\<close>

section \<open>Commands\<close>

record common_command =
  mc_reference :: ustring
  mc_merchant :: string
  mc_occurred :: js_date
  mc_request :: string

record money_command = common_command +
  mc_amount :: int
  mc_currency :: currency

record settlement_command = common_command +
  sc_currency :: currency
  sc_fee :: int
  sc_gross :: int
  sc_net :: int

record reverse_command = common_command +
  rc_original_public_id :: string

section \<open>Validation\<close>

definition account_definitions :: "(account_code \<times> entry_side) list" where
  "account_definitions =
     [(Provider_clearing, Debit), (Merchant_payable, Credit), (Fee_revenue, Credit),
      (Settlement_clearing, Credit)]"

definition ledger_currencies :: "currency list" where
  "ledger_currencies = [ETB, USD]"

definition contains_control_character :: "ustring \<Rightarrow> bool" where
  "contains_control_character value = list_ex (\<lambda>c. c \<le> 31 \<or> c = 127) (code_points value)"

definition assert_identity :: "string \<Rightarrow> error + unit" where
  "assert_identity merchantId =
     (if \<not> is_uuid 5 merchantId then Inl (LedgerE InvalidLedgerCommandError) else Inr ())"

definition assert_common_command :: "'a common_command_scheme \<Rightarrow> error + unit" where
  "assert_common_command command =
     bind_sum (assert_identity (mc_merchant command)) (\<lambda>_.
       if length (mc_reference command) < 1 \<or> length (mc_reference command) > 255 \<or>
          js_trim (mc_reference command) \<noteq> mc_reference command \<or>
          contains_control_character (mc_reference command) \<or>
          \<not> is_request_id (mc_request command) \<or>
          mc_occurred command = None
       then Inl (LedgerE InvalidLedgerCommandError) else Inr ())"

definition assert_money_command :: "money_command \<Rightarrow> error + unit" where
  "assert_money_command command =
     bind_sum (assert_common_command command) (\<lambda>_.
       if mc_amount command < 1 \<or> mc_amount command > max_safe_integer
       then Inl (LedgerE InvalidLedgerCommandError) else Inr ())"

fun ledger_error_code :: "error \<Rightarrow> string" where
  "ledger_error_code (LedgerE InvalidLedgerCommandError) = ''invalid_command''"
| "ledger_error_code (LedgerE LedgerAccountsNotProvisionedError) = ''accounts_not_provisioned''"
| "ledger_error_code (LedgerE LedgerBusinessReferenceConflictError) = ''business_reference_conflict''"
| "ledger_error_code (LedgerE LedgerIdentifierCollisionError) = ''identifier_collision''"
| "ledger_error_code (LedgerE LedgerInvariantViolationError) = ''invariant_violation''"
| "ledger_error_code (LedgerE LedgerReversalConflictError) = ''reversal_conflict''"
| "ledger_error_code (LedgerE LedgerTransactionNotFoundError) = ''transaction_not_found''"
| "ledger_error_code e = ''internal_error''"

section \<open>Observations\<close>

fun business_type_name :: "business_type \<Rightarrow> string" where
  "business_type_name Capture = ''capture''"
| "business_type_name Refund = ''refund''"
| "business_type_name Reversal = ''reversal''"
| "business_type_name Settlement = ''settlement''"

definition staged_observation :: "business_type \<Rightarrow> string \<Rightarrow> string \<Rightarrow> observation" where
  "staged_observation bt merchant publicId =
     [(''businessType'', business_type_name bt), (''merchantId'', merchant), (''name'', ''ledger.post''),
      (''outcome'', ''staged''), (''publicId'', publicId)]"

definition rejected_observation :: "business_type \<Rightarrow> string \<Rightarrow> string option \<Rightarrow> error \<Rightarrow> observation" where
  "rejected_observation bt merchant publicId e =
     [(''businessType'', business_type_name bt), (''errorCode'', ledger_error_code e),
      (''merchantId'', merchant), (''name'', ''ledger.post''), (''outcome'', ''rejected'')] @
     (case publicId of None \<Rightarrow> [] | Some p \<Rightarrow> [(''publicId'', p)])"

text \<open>The \<open>try/catch\<close> every posting operation has around its body.\<close>

definition observing_rejection ::
  "business_type \<Rightarrow> string \<Rightarrow> string option \<Rightarrow> ('a world_scheme, error, 'r) comp \<Rightarrow>
   ('a world_scheme, error, 'r) comp" where
  "observing_rejection bt merchant publicId m =
     catch m (\<lambda>e. bindc (observe (rejected_observation bt merchant publicId e)) (\<lambda>_. throw e))"

section \<open>Operations\<close>

definition with_entry_ids :: "env \<Rightarrow> ledger_entry list \<Rightarrow> ('a world_scheme, error, create_entry list) comp" where
  "with_entry_ids E entries =
     map_comp (\<lambda>e. bindc (new_uuid E) (\<lambda>u. ok (ledger_entry.extend e \<lparr>ce_id = u\<rparr>))) entries"

definition provision_accounts ::
  "env \<Rightarrow> string \<Rightarrow> ('a ledger_world_scheme, error, account_record list \<times> string) comp" where
  "provision_accounts E merchantId =
     bindc (from_sum (assert_identity merchantId)) (\<lambda>_.
     bindc (map_comp (\<lambda>(cur, code, side). bindc (new_uuid E) (\<lambda>u.
              ok \<lparr>la_id = u, la_merchant = merchantId, la_code = code, la_currency = cur, la_side = side\<rparr>))
            (List.product ledger_currencies account_definitions)) (\<lambda>accounts.
     bindc (repo_provision_accounts E accounts) (\<lambda>persisted.
     if length persisted \<noteq> 8 then throw (LedgerE LedgerAccountsNotProvisionedError)
     else ok (persisted, merchantId))))"

definition ledger_post ::
  "env \<Rightarrow> money_command \<Rightarrow> business_type \<Rightarrow> ('a ledger_world_scheme, error, posting_result) comp" where
  "ledger_post E command bt =
     bindc (observing_rejection bt (mc_merchant command) None
              (from_sum (assert_money_command command))) (\<lambda>_.
     bindc (new_ulid E (the (mc_occurred command))) (\<lambda>u.
     let publicId = ''ltx_'' @ u in
     observing_rejection bt (mc_merchant command) (Some publicId)
       (bindc (from_sum (if bt = Capture
                 then build_capture_entries (mc_amount command) (mc_currency command)
                 else build_refund_entries (mc_amount command) (mc_currency command))) (\<lambda>built.
        bindc (with_entry_ids E built) (\<lambda>entries.
        bindc (new_uuid E) (\<lambda>internalId.
        bindc (repo_create_posting E
          \<lparr>cp_reference = mc_reference command, cp_type = bt, cp_currency = mc_currency command,
           cp_entries = entries, cp_id = internalId, cp_merchant = mc_merchant command,
           cp_occurred = the (mc_occurred command), cp_public_id = publicId,
           cp_request = mc_request command, cp_reversal_of = None, cp_reversal_public = None\<rparr>) (\<lambda>result.
        bindc (observe (staged_observation bt (mc_merchant command) publicId)) (\<lambda>_.
        ok result))))))))"

definition post_capture :: "env \<Rightarrow> money_command \<Rightarrow> ('a ledger_world_scheme, error, posting_result) comp" where
  "post_capture E command = ledger_post E command Capture"

definition post_refund :: "env \<Rightarrow> money_command \<Rightarrow> ('a ledger_world_scheme, error, posting_result) comp" where
  "post_refund E command = ledger_post E command Refund"

definition assert_settlement_command :: "settlement_command \<Rightarrow> error + unit" where
  "assert_settlement_command command =
     bind_sum (assert_common_command command) (\<lambda>_.
       if sc_gross command < 1 \<or> sc_gross command > max_safe_integer \<or> sc_fee command < 0 \<or>
          sc_net command < 1 \<or> sc_gross command \<noteq> sc_fee command + sc_net command
       then Inl (LedgerE InvalidLedgerCommandError) else Inr ())"

text \<open>The result carries the internal identifier as well.\<close>

definition post_settlement ::
  "env \<Rightarrow> settlement_command \<Rightarrow> ('a ledger_world_scheme, error, posting_result \<times> string) comp" where
  "post_settlement E command =
     bindc (observing_rejection Settlement (mc_merchant command) None
              (from_sum (assert_settlement_command command))) (\<lambda>_.
     bindc (new_ulid E (the (mc_occurred command))) (\<lambda>u.
     let publicId = ''ltx_'' @ u in
     observing_rejection Settlement (mc_merchant command) (Some publicId)
       (bindc (new_uuid E) (\<lambda>internalId.
        bindc (from_sum (build_settlement_entries (sc_gross command) (sc_fee command)
                 (sc_net command) (sc_currency command))) (\<lambda>built.
        bindc (with_entry_ids E built) (\<lambda>entries.
        bindc (repo_create_posting E
          \<lparr>cp_reference = mc_reference command, cp_type = Settlement, cp_currency = sc_currency command,
           cp_entries = entries, cp_id = internalId, cp_merchant = mc_merchant command,
           cp_occurred = the (mc_occurred command), cp_public_id = publicId,
           cp_request = mc_request command, cp_reversal_of = None, cp_reversal_public = None\<rparr>) (\<lambda>result.
        bindc (observe (staged_observation Settlement (mc_merchant command) publicId)) (\<lambda>_.
        ok (result, internalId)))))))))"

definition reverse_posting ::
  "env \<Rightarrow> reverse_command \<Rightarrow> ('a ledger_world_scheme, error, posting_result) comp" where
  "reverse_posting E command =
     bindc (observing_rejection Reversal (mc_merchant command) None
       (bindc (from_sum (assert_common_command command)) (\<lambda>_.
        bindc (require (has_ulid_prefix ''ltx'' (rc_original_public_id command))
                 (LedgerE InvalidLedgerCommandError)) (\<lambda>_.
        bindc (repo_find_posted_for_reversal E (mc_merchant command)
                 (rc_original_public_id command)) (\<lambda>found.
        case found of
          None \<Rightarrow> throw (LedgerE LedgerTransactionNotFoundError)
        | Some (original, internalId) \<Rightarrow>
            if lp_type original = Reversal then throw (LedgerE LedgerReversalConflictError)
            else ok (original, internalId)))))) (\<lambda>(original, originalId).
     bindc (new_ulid E (the (mc_occurred command))) (\<lambda>u.
     let publicId = ''ltx_'' @ u in
     observing_rejection Reversal (mc_merchant command) (Some publicId)
       (bindc (from_sum (build_reversal_entries (lp_entries original))) (\<lambda>built.
        bindc (with_entry_ids E built) (\<lambda>entries.
        bindc (new_uuid E) (\<lambda>internalId.
        bindc (repo_create_posting E
          \<lparr>cp_reference = mc_reference command, cp_type = Reversal, cp_currency = lp_currency original,
           cp_entries = entries, cp_id = internalId, cp_merchant = mc_merchant command,
           cp_occurred = the (mc_occurred command), cp_public_id = publicId,
           cp_request = mc_request command, cp_reversal_of = Some originalId,
           cp_reversal_public = Some (lp_public_id original)\<rparr>) (\<lambda>result.
        bindc (observe (staged_observation Reversal (mc_merchant command) publicId)) (\<lambda>_.
        ok result))))))))"

end
