(* ===== verification/Ledger_Invariant.thy ===== *)
theory Ledger_Invariant imports Ledger begin

text \<open>
  The ledger invariant and its preservation by every operation of \<open>LedgerService\<close>: what the tables
  satisfy between transactions. The key fact is the exact effect of a successful \<open>createPosting\<close>: one
  finalised transaction row and its entries are appended and nothing else changes.
\<close>

section \<open>The invariant\<close>

definition tx_key :: "ledger_tx_row \<Rightarrow> string \<times> business_type \<times> ustring" where
  "tx_key t = (lt_merchant t, lt_type t, lt_reference t)"

definition account_key :: "ledger_account_row \<Rightarrow> string \<times> account_code \<times> currency" where
  "account_key a = (la_merchant a, la_code a, la_currency a)"

definition accounts_wf :: "ledger_account_row list \<Rightarrow> bool" where
  "accounts_wf as \<longleftrightarrow> distinct (map la_id as) \<and> distinct (map account_key as) \<and>
     (\<forall>a \<in> set as. la_side a = expected_side (la_code a))"

definition transactions_wf :: "ledger_tx_row list \<Rightarrow> bool" where
  "transactions_wf ts \<longleftrightarrow> distinct (map lt_id ts) \<and> distinct (map lt_public_id ts) \<and>
     distinct (map tx_key ts) \<and> distinct (filter (\<lambda>x. x \<noteq> None) (map lt_reversal_of ts)) \<and>
     (\<forall>t \<in> set ts. lt_type t = Reversal \<longleftrightarrow> lt_reversal_of t \<noteq> None)"

definition entries_wf :: "ledger_tx_row list \<Rightarrow> ledger_entry_row list \<Rightarrow> bool" where
  "entries_wf ts es \<longleftrightarrow> distinct (map er_id es) \<and> distinct (map (\<lambda>e. (er_tx e, er_seq e)) es) \<and>
     (\<forall>e \<in> set es. 1 \<le> er_seq e \<and> er_seq e \<le> 32767 \<and> 1 \<le> er_amount e \<and>
        er_amount e \<le> max_ledger_amount \<and> er_tx e \<in> lt_id ` set ts)"

definition ledger_wf :: "'a ledger_world_scheme \<Rightarrow> bool" where
  "ledger_wf w \<longleftrightarrow> accounts_wf (ledger_accounts w) \<and> transactions_wf (ledger_transactions w) \<and>
     entries_wf (ledger_transactions w) (ledger_entries w) \<and>
     (\<forall>t \<in> set (ledger_transactions w). ledger_assert w (lt_id t) = None)"

lemmas wf_parts = accounts_wf_def transactions_wf_def entries_wf_def

lemma same_db_ledger:
  "same_db w w' \<Longrightarrow> ledger_accounts w' = ledger_accounts w \<and>
     ledger_transactions w' = ledger_transactions w \<and> ledger_entries w' = ledger_entries w \<and>
     ledger_world.more w' = ledger_world.more w"
  by (cases w; cases w') (auto simp: same_db_iff)

lemma ledger_assert_cong:
  assumes "ledger_accounts w' = ledger_accounts w" and "ledger_transactions w' = ledger_transactions w"
    and "ledger_entries w' = ledger_entries w"
  shows "ledger_assert w' = ledger_assert w"
proof -
  have t: "tx_entries w' = tx_entries w" by (simp add: fun_eq_iff tx_entries_def assms)
  have c: "entry_consistent w' = entry_consistent w"
    by (simp add: fun_eq_iff entry_consistent_def assms)
  have r: "reversal_assert w' = reversal_assert w"
    by (intro ext) (unfold reversal_assert_def assms t, rule refl)
  show ?thesis by (intro ext) (unfold ledger_assert_def assms t c r, rule refl)
qed

lemma ledger_wf_cong:
  assumes "ledger_accounts w' = ledger_accounts w" and "ledger_transactions w' = ledger_transactions w"
    and "ledger_entries w' = ledger_entries w"
  shows "ledger_wf w' = ledger_wf w"
  by (simp add: ledger_wf_def ledger_assert_cong[OF assms] assms)

lemma ledger_wf_db [sf_inv]: "db_pred ledger_wf"
  using same_db_ledger ledger_wf_cong unfolding db_pred_def by blast

lemma bump_ledger [simp]:
  "ledger_accounts (bump w) = ledger_accounts w" "ledger_transactions (bump w) = ledger_transactions w"
  "ledger_entries (bump w) = ledger_entries w" "ledger_world.more (bump w) = ledger_world.more w"
  by (simp_all add: bump_def)

section \<open>The effect of a posting\<close>

definition finalized_row :: "create_posting \<Rightarrow> int \<Rightarrow> ledger_tx_row" where
  "finalized_row inp t = (tx_row_of inp)\<lparr>lt_posted := Some t\<rparr>"

definition merchant_accounts :: "'a ledger_world_scheme \<Rightarrow> string \<Rightarrow> ledger_account_row list" where
  "merchant_accounts w m = filter (\<lambda>a. la_merchant a = m) (ledger_accounts w)"

definition posting_rows :: "'a ledger_world_scheme \<Rightarrow> create_posting \<Rightarrow> ledger_entry_row list" where
  "posting_rows w inp =
     map (entry_row_of inp (account_ids (merchant_accounts w (cp_merchant inp)) (cp_currency inp)))
       (cp_entries inp)"

text \<open>The step from \<open>w\<close> to \<open>w'\<close> appends exactly this posting, finalised at \<open>t\<close>.\<close>

definition posting_step :: "create_posting \<Rightarrow> int \<Rightarrow> 'a ledger_world_scheme \<Rightarrow> 'a ledger_world_scheme \<Rightarrow> bool" where
  "posting_step inp t w w' \<longleftrightarrow>
     ledger_accounts w' = ledger_accounts w \<and>
     ledger_transactions w' = ledger_transactions w @ [finalized_row inp t] \<and>
     ledger_entries w' = ledger_entries w @ posting_rows w inp \<and>
     ledger_world.more w' = ledger_world.more w"

text \<open>What a posting must satisfy for the database to accept it.\<close>

definition posting_accepted :: "create_posting \<Rightarrow> 'a ledger_world_scheme \<Rightarrow> bool" where
  "posting_accepted inp w \<longleftrightarrow>
     \<not> chart_refused (merchant_accounts w (cp_merchant inp)) inp \<and>
     ledger_tx_check (tx_row_of inp) = None \<and>
     ledger_tx_unique (ledger_transactions w) (tx_row_of inp) = None \<and>
     (\<forall>e \<in> set (posting_rows w inp). 1 \<le> er_seq e \<and> er_seq e \<le> 32767 \<and> 1 \<le> er_amount e \<and>
        er_amount e \<le> max_ledger_amount) \<and>
     (distinct (map er_id (ledger_entries w)) \<longrightarrow>
      distinct (map er_id (ledger_entries w @ posting_rows w inp))) \<and>
     (distinct (map (\<lambda>e. (er_tx e, er_seq e)) (ledger_entries w)) \<longrightarrow>
      distinct (map (\<lambda>e. (er_tx e, er_seq e)) (ledger_entries w @ posting_rows w inp)))"

lemma insert_ledger_entry_Inr:
  "insert_ledger_entry r w = (Inr u, w') \<longleftrightarrow>
     \<not> (\<exists>t \<in> set (ledger_transactions w). lt_id t = er_tx r \<and> lt_posted t \<noteq> None) \<and>
     1 \<le> er_seq r \<and> er_seq r \<le> 32767 \<and> 1 \<le> er_amount r \<and> er_amount r \<le> max_ledger_amount \<and>
     er_id r \<notin> er_id ` set (ledger_entries w) \<and>
     (er_tx r, er_seq r) \<notin> (\<lambda>e. (er_tx e, er_seq e)) ` set (ledger_entries w) \<and>
     w' = w\<lparr>ledger_entries := ledger_entries w @ [r]\<rparr>"
  unfolding insert_ledger_entry_def raise_constraint_def throw_def by auto

lemma for_each_insert_entries:
  assumes "for_each insert_ledger_entry rs w = (Inr u, w')"
  shows "w' = w\<lparr>ledger_entries := ledger_entries w @ rs\<rparr> \<and>
    (\<forall>e \<in> set rs. 1 \<le> er_seq e \<and> er_seq e \<le> 32767 \<and> 1 \<le> er_amount e \<and> er_amount e \<le> max_ledger_amount) \<and>
    (distinct (map er_id (ledger_entries w)) \<longrightarrow> distinct (map er_id (ledger_entries w @ rs))) \<and>
    (distinct (map (\<lambda>e. (er_tx e, er_seq e)) (ledger_entries w)) \<longrightarrow>
     distinct (map (\<lambda>e. (er_tx e, er_seq e)) (ledger_entries w @ rs)))"
  using assms
proof (induction rs arbitrary: w)
  case Nil
  then show ?case by (simp add: ok_def)
next
  case (Cons r rs)
  from Cons.prems obtain w1 where i: "insert_ledger_entry r w = (Inr (), w1)"
    and f: "for_each insert_ledger_entry rs w1 = (Inr u, w')"
    by (auto simp: bindc_Inr)
  from i have w1: "w1 = w\<lparr>ledger_entries := ledger_entries w @ [r]\<rparr>"
    by (simp add: insert_ledger_entry_Inr)
  from i have r: "1 \<le> er_seq r" "er_seq r \<le> 32767" "1 \<le> er_amount r" "er_amount r \<le> max_ledger_amount"
    "er_id r \<notin> er_id ` set (ledger_entries w)"
    "(er_tx r, er_seq r) \<notin> (\<lambda>e. (er_tx e, er_seq e)) ` set (ledger_entries w)"
    by (simp_all add: insert_ledger_entry_Inr)
  note ih = Cons.IH[OF f]
  from ih w1 have "w' = w\<lparr>ledger_entries := ledger_entries w @ r # rs\<rparr>" by simp
  moreover from ih r have "\<forall>e \<in> set (r # rs). 1 \<le> er_seq e \<and> er_seq e \<le> 32767 \<and> 1 \<le> er_amount e \<and> er_amount e \<le> max_ledger_amount"
    by simp
  moreover have "distinct (map er_id (ledger_entries w)) \<longrightarrow> distinct (map er_id (ledger_entries w @ r # rs))"
    using ih r(5) w1 by simp
  moreover have "distinct (map (\<lambda>e. (er_tx e, er_seq e)) (ledger_entries w)) \<longrightarrow>
     distinct (map (\<lambda>e. (er_tx e, er_seq e)) (ledger_entries w @ r # rs))"
    using ih r(6) w1 by simp
  ultimately show ?case by blast
qed

lemma finalize_after_insert:
  assumes "lt_id r \<notin> lt_id ` set ts" and "lt_posted r = None"
  shows "update_where (\<lambda>t. lt_id t = lt_id r \<and> lt_merchant t = lt_merchant r \<and> lt_posted t = None)
           (\<lambda>t. t\<lparr>lt_posted := Some n\<rparr>) (ts @ [r]) = ts @ [r\<lparr>lt_posted := Some n\<rparr>]"
proof -
  have "update_where (\<lambda>t. lt_id t = lt_id r \<and> lt_merchant t = lt_merchant r \<and> lt_posted t = None)
           (\<lambda>t. t\<lparr>lt_posted := Some n\<rparr>) ts = ts"
    using assms(1) by (intro update_where_none) (metis image_eqI)
  then show ?thesis using assms(2) by (simp add: update_where_def)
qed

lemma ledger_tx_unique_None:
  "ledger_tx_unique rows r = None \<longleftrightarrow>
     lt_id r \<notin> lt_id ` set rows \<and> lt_public_id r \<notin> lt_public_id ` set rows \<and>
     tx_key r \<notin> tx_key ` set rows \<and>
     (lt_reversal_of r \<noteq> None \<longrightarrow> lt_reversal_of r \<notin> lt_reversal_of ` set rows)"
  unfolding ledger_tx_unique_def tx_key_def by auto

lemma insert_ledger_tx_Inr:
  "insert_ledger_tx r w = (Inr u, w') \<longleftrightarrow>
     ledger_tx_check r = None \<and> ledger_tx_unique (ledger_transactions w) r = None \<and>
     w' = w\<lparr>ledger_transactions := ledger_transactions w @ [r]\<rparr>"
  unfolding insert_ledger_tx_def raise_constraint_def throw_def by (auto split: option.splits)

text \<open>The exact effect of \<open>createPosting\<close> when it returns.\<close>

lemma create_posting_body_Inr:
  assumes "create_posting_body E inp w = (Inr res, w')"
  shows "posting_accepted inp w \<and> posting_step inp (txn_now w) w w' \<and> txn_now w' = txn_now w \<and>
    tick w < tick w' \<and> observed w' = observed w \<and> lp_posted res = txn_now w \<and> lp_public_id res = cp_public_id inp \<and>
    lp_entries res = map ledger_entry.truncate (cp_entries inp)"
proof -
  let ?es = "posting_rows w inp"
  from assms obtain w2 w3 fin where
    chart: "\<not> chart_refused (merchant_accounts w (cp_merchant inp)) inp" and
    ins: "insert_ledger_tx (tx_row_of inp) (bump (bump w)) = (Inr (), w2)" and
    ents: "for_each insert_ledger_entry ?es (bump w2) = (Inr (), w3)" and
    fin: "finalize_ledger_tx (cp_id inp) (cp_merchant inp) (bump w3) = (Inr fin, w')" and
    res: "fin \<noteq> []" "lp_posted res = hd fin" "lp_public_id res = cp_public_id inp"
      "lp_entries res = map ledger_entry.truncate (cp_entries inp)"
    unfolding create_posting_body_def bindc_Inr stmt_Inr gets_eq require_eq
    by (fastforce simp: ok_eq throw_eq merchant_accounts_def posting_rows_def split: if_splits list.splits)
  from ins have tx: "ledger_tx_check (tx_row_of inp) = None"
      "ledger_tx_unique (ledger_transactions w) (tx_row_of inp) = None" and
    w2: "w2 = (bump (bump w))\<lparr>ledger_transactions := ledger_transactions w @ [tx_row_of inp]\<rparr>"
    by (simp_all add: insert_ledger_tx_Inr)
  note e = for_each_insert_entries[OF ents]
  from e have w3: "w3 = (bump w2)\<lparr>ledger_entries := ledger_entries w @ ?es\<rparr>" by (simp add: w2)
  have fresh: "lt_id (tx_row_of inp) \<notin> lt_id ` set (ledger_transactions w)"
    using tx(2) by (simp add: ledger_tx_unique_None)
  have upd: "update_where (\<lambda>t. lt_id t = cp_id inp \<and> lt_merchant t = cp_merchant inp \<and> lt_posted t = None)
      (\<lambda>t. t\<lparr>lt_posted := Some (txn_now w)\<rparr>) (ledger_transactions w @ [tx_row_of inp]) =
      ledger_transactions w @ [finalized_row inp (txn_now w)]"
    using finalize_after_insert[OF fresh] by (simp add: tx_row_of_def finalized_row_def)
  have now: "txn_now w3 = txn_now w" by (simp add: w2 w3)
  have "posting_accepted inp w"
    unfolding posting_accepted_def using chart tx e by (simp add: w2)
  moreover from fin upd now have "w' = (bump w3)\<lparr>ledger_transactions :=
      ledger_transactions w @ [finalized_row inp (txn_now w)]\<rparr>"
    by (simp add: finalize_ledger_tx_def Let_def w2 w3)
  moreover from fin res(1,2) now have "lp_posted res = txn_now w"
    by (auto simp: finalize_ledger_tx_def Let_def)
  ultimately show ?thesis
    using res by (simp add: posting_step_def w3 w2 bump_def)
qed

lemma create_posting_error_never_returns [simp]: "create_posting_error E e w \<noteq> (Inr x, w')"
  by (auto simp: create_posting_error_def throw_def split: option.splits)

lemma create_posting_Inr:
  assumes "repo_create_posting E inp w = (Inr res, w')"
  shows "posting_accepted inp w \<and> posting_step inp (txn_now w) w w' \<and> txn_now w' = txn_now w \<and>
    tick w < tick w' \<and> observed w' = observed w \<and> lp_posted res = txn_now w \<and> lp_public_id res = cp_public_id inp \<and>
    lp_entries res = map ledger_entry.truncate (cp_entries inp)"
  using assms unfolding repo_create_posting_def catch_Inr
  by (auto dest: create_posting_body_Inr)

section \<open>Preservation by an accepted posting\<close>

lemma find_append_Some: "List.find p xs = Some x \<Longrightarrow> List.find p (xs @ ys) = Some x"
  by (induction xs) auto

lemma find_append_None: "\<forall>x \<in> set xs. \<not> p x \<Longrightarrow> List.find p (xs @ ys) = List.find p ys"
  by (induction xs) auto

text \<open>A transaction that satisfies the integrity trigger still does when the tables grow.\<close>

lemma ledger_assert_extend:
  assumes as: "ledger_accounts w' = ledger_accounts w @ as"
    and ts: "ledger_transactions w' = ledger_transactions w @ ts"
    and es: "ledger_entries w' = ledger_entries w @ es"
    and fresh_e: "\<forall>e \<in> set es. er_tx e \<notin> lt_id ` set (ledger_transactions w)"
    and fresh_a: "\<forall>t \<in> set (ledger_transactions w). \<forall>a \<in> set as. la_merchant a \<noteq> lt_merchant t"
    and dist: "distinct (map lt_id (ledger_transactions w))"
    and t: "t \<in> set (ledger_transactions w)"
    and ok: "ledger_assert w (lt_id t) = None"
  shows "ledger_assert w' (lt_id t) = None"
proof -
  have ent: "tx_entries w' (lt_id u) = tx_entries w (lt_id u)" if "u \<in> set (ledger_transactions w)" for u
    using fresh_e that by (auto simp: tx_entries_def es filter_empty_conv)
  have find: "List.find (\<lambda>u. lt_id u = lt_id t) (ledger_transactions w) = Some t"
    by (rule find_key[OF dist t])
  then have find': "List.find (\<lambda>u. lt_id u = lt_id t) (ledger_transactions w') = Some t"
    unfolding ts by (rule find_append_Some)
  have acc: "filter (\<lambda>a. la_merchant a = lt_merchant t) (ledger_accounts w') =
      filter (\<lambda>a. la_merchant a = lt_merchant t) (ledger_accounts w)"
    using fresh_a t by (auto simp: as filter_empty_conv)
  have cons: "entry_consistent w' t e" if "entry_consistent w t e" for e
    using that unfolding entry_consistent_def as
    by (cases "List.find (\<lambda>a. la_id a = er_account e) (ledger_accounts w)")
      (auto simp: find_append_Some)
  have rev: "reversal_assert w' t l = None" if "reversal_assert w t l = None" for l
  proof -
    from that obtain u where u: "List.find (\<lambda>o'. Some (lt_id o') = lt_reversal_of t) (ledger_transactions w) = Some u"
      by (auto simp: reversal_assert_def split: option.splits)
    then have "u \<in> set (ledger_transactions w)" by (simp add: find_Some_in)
    then have "tx_entries w' (lt_id u) = tx_entries w (lt_id u)" by (rule ent)
    moreover have f: "List.find (\<lambda>o'. Some (lt_id o') = lt_reversal_of t) (ledger_transactions w') = Some u"
      using u unfolding ts by (rule find_append_Some)
    ultimately have "reversal_assert w' t l = reversal_assert w t l"
      by (unfold reversal_assert_def u f option.case, simp only:)
    with that show ?thesis by simp
  qed
  from ok show ?thesis
    unfolding ledger_assert_def find find' option.case ent[OF t] acc Let_def
    by (auto simp: list_all_iff intro: cons rev split: if_splits)
qed

text \<open>What the service guarantees of the postings it builds.\<close>

definition posting_sound :: "create_posting \<Rightarrow> 'a ledger_world_scheme \<Rightarrow> bool" where
  "posting_sound inp w \<longleftrightarrow>
     well_formed_posting (cp_currency inp) (map ledger_entry.truncate (cp_entries inp)) \<and>
     (cp_type inp = Reversal \<longrightarrow>
      (\<exists>original \<in> set (ledger_transactions w). cp_reversal_of inp = Some (lt_id original) \<and>
         lt_posted original \<noteq> None \<and> lt_type original \<noteq> Reversal \<and>
         lt_merchant original = cp_merchant inp \<and> lt_currency original = cp_currency inp \<and>
         length (tx_entries w (lt_id original)) = length (cp_entries inp) \<and>
         list_all (entry_inverted (tx_entries w (lt_id original))) (posting_rows w inp)))"

lemma account_ids_Some:
  "account_ids rows cur c = Some i \<Longrightarrow>
     \<exists>a \<in> set rows. la_currency a = cur \<and> la_code a = c \<and> la_id a = i"
  unfolding account_ids_def by (drule map_of_SomeD) auto

lemma row_total_posting_rows:
  "row_total s (posting_rows w inp) = side_total s (map ledger_entry.truncate (cp_entries inp))"
proof -
  have "map f (map (entry_row_of inp ids) es) = map g (map ledger_entry.truncate es)"
    if "\<And>e. f (entry_row_of inp ids e) = g (ledger_entry.truncate e)" for f g ids es
    using that by (induction es) auto
  then show ?thesis
    unfolding row_total_def side_total_def posting_rows_def
    by (intro arg_cong[where f = sum_list]) (simp add: entry_row_of_def ledger_entry.truncate_def)
qed

lemma posting_rows_consistent:
  assumes wf: "accounts_wf (ledger_accounts w)"
    and chart: "\<not> chart_refused (merchant_accounts w (cp_merchant inp)) inp"
    and cur: "\<forall>e \<in> set (cp_entries inp). le_currency e = cp_currency inp"
    and acc: "ledger_accounts w' = ledger_accounts w"
  shows "list_all (entry_consistent w' (finalized_row inp n)) (posting_rows w inp)"
  unfolding list_all_iff
proof
  fix r assume "r \<in> set (posting_rows w inp)"
  then obtain e where e: "e \<in> set (cp_entries inp)"
    and r: "r = entry_row_of inp (account_ids (merchant_accounts w (cp_merchant inp)) (cp_currency inp)) e"
    by (auto simp: posting_rows_def)
  from chart e obtain i where i: "account_ids (merchant_accounts w (cp_merchant inp)) (cp_currency inp) (le_account e) = Some i"
    by (auto simp: chart_refused_def list_ex_iff)
  from account_ids_Some[OF i] obtain a where a: "a \<in> set (ledger_accounts w)" "la_merchant a = cp_merchant inp"
    "la_currency a = cp_currency inp" "la_id a = i"
    by (auto simp: merchant_accounts_def)
  from wf have "distinct (map la_id (ledger_accounts w))" by (simp add: accounts_wf_def)
  from find_key[OF this a(1)] a have "List.find (\<lambda>x. la_id x = i) (ledger_accounts w) = Some a" by simp
  with a cur e i show "entry_consistent w' (finalized_row inp n) r"
    by (simp add: entry_consistent_def r entry_row_of_def finalized_row_def tx_row_of_def acc)
qed

text \<open>The new transaction satisfies the integrity trigger.\<close>

lemma ledger_assert_new:
  assumes wf: "ledger_wf w" and acc: "posting_accepted inp w" and snd: "posting_sound inp w"
    and step: "posting_step inp n w w'"
  shows "ledger_assert w' (cp_id inp) = None"
proof -
  let ?t = "finalized_row inp n"
  from step have as: "ledger_accounts w' = ledger_accounts w"
    and ts: "ledger_transactions w' = ledger_transactions w @ [?t]"
    and es: "ledger_entries w' = ledger_entries w @ posting_rows w inp"
    by (simp_all add: posting_step_def)
  have fresh: "cp_id inp \<notin> lt_id ` set (ledger_transactions w)"
    using acc by (simp add: posting_accepted_def ledger_tx_unique_None tx_row_of_def)
  have fields: "lt_id ?t = cp_id inp" "lt_posted ?t = Some n" "lt_merchant ?t = cp_merchant inp"
    "lt_type ?t = cp_type inp" "lt_currency ?t = cp_currency inp" "lt_reversal_of ?t = cp_reversal_of inp"
    by (simp_all add: finalized_row_def tx_row_of_def)
  have "\<forall>u \<in> set (ledger_transactions w). lt_id u \<noteq> cp_id inp"
    using fresh by (metis image_eqI)
  from find_append_None[OF this]
  have find: "List.find (\<lambda>u. lt_id u = cp_id inp) (ledger_transactions w') = Some ?t"
    by (simp add: ts fields)
  have "\<forall>e \<in> set (ledger_entries w). er_tx e \<in> lt_id ` set (ledger_transactions w)"
    using wf by (simp add: ledger_wf_def entries_wf_def)
  with fresh have "filter (\<lambda>e. er_tx e = cp_id inp) (ledger_entries w) = []"
    by (metis (mono_tags) filter_False)
  moreover have "filter (\<lambda>e. er_tx e = cp_id inp) (posting_rows w inp) = posting_rows w inp"
    by (simp add: posting_rows_def entry_row_of_def)
  ultimately have ent: "tx_entries w' (cp_id inp) = posting_rows w inp"
    by (simp add: tx_entries_def es)
  have wfp: "well_formed_posting (cp_currency inp) (map ledger_entry.truncate (cp_entries inp))"
    using snd by (simp add: posting_sound_def)
  have chart: "\<not> chart_refused (merchant_accounts w (cp_merchant inp)) inp"
    using acc by (simp add: posting_accepted_def)
  then have eight: "length (filter (\<lambda>a. la_merchant a = cp_merchant inp) (ledger_accounts w')) = 8"
    by (simp add: chart_refused_def merchant_accounts_def as)
  have two: "2 \<le> length (posting_rows w inp)"
    using wfp by (simp add: well_formed_posting_def posting_rows_def)
  have cur: "\<forall>e \<in> set (cp_entries inp). le_currency e = cp_currency inp"
    using wfp by (auto simp: well_formed_posting_def ledger_entry.truncate_def)
  have cons: "list_all (entry_consistent w' ?t) (posting_rows w inp)"
    using wf chart cur as by (intro posting_rows_consistent) (simp_all add: ledger_wf_def)
  have bal: "row_total Debit (posting_rows w inp) = row_total Credit (posting_rows w inp)"
    using wfp by (simp add: row_total_posting_rows well_formed_posting_def balanced_def)
  have rev: "reversal_assert w' ?t (posting_rows w inp) = None" if "cp_type inp = Reversal"
  proof -
    from snd that obtain u where u: "u \<in> set (ledger_transactions w)" "cp_reversal_of inp = Some (lt_id u)"
      "lt_posted u \<noteq> None" "lt_type u \<noteq> Reversal" "lt_merchant u = cp_merchant inp"
      "lt_currency u = cp_currency inp" "length (tx_entries w (lt_id u)) = length (cp_entries inp)"
      "list_all (entry_inverted (tx_entries w (lt_id u))) (posting_rows w inp)"
      unfolding posting_sound_def by blast
    have "distinct (map lt_id (ledger_transactions w))"
      using wf by (simp add: ledger_wf_def transactions_wf_def)
    from find_key[OF this u(1)]
    have f: "List.find (\<lambda>x. lt_id x = lt_id u) (ledger_transactions w') = Some u"
      unfolding ts by (rule find_append_Some)
    have "lt_id u \<noteq> cp_id inp" using fresh u(1) by (metis image_eqI)
    then have "tx_entries w' (lt_id u) = tx_entries w (lt_id u)"
      by (auto simp: tx_entries_def es posting_rows_def entry_row_of_def)
    with f u show ?thesis by (simp add: reversal_assert_def fields posting_rows_def)
  qed
  show ?thesis
    using eight two cons bal rev
    by (simp add: ledger_assert_def find ent fields Let_def)
qed

lemma transactions_wf_append:
  assumes wf: "transactions_wf ts" and "ledger_tx_check r = None" and "ledger_tx_unique ts r = None"
  shows "transactions_wf (ts @ [r\<lparr>lt_posted := Some n\<rparr>])"
proof -
  from assms(3) have u: "lt_id r \<notin> lt_id ` set ts" "lt_public_id r \<notin> lt_public_id ` set ts"
      "tx_key r \<notin> tx_key ` set ts" "lt_reversal_of r \<noteq> None \<longrightarrow> lt_reversal_of r \<notin> lt_reversal_of ` set ts"
    by (simp_all add: ledger_tx_unique_None)
  have "tx_key (r\<lparr>lt_posted := Some n\<rparr>) = tx_key r" by (simp add: tx_key_def)
  moreover from assms(2) have "lt_type r = Reversal \<longleftrightarrow> lt_reversal_of r \<noteq> None"
    by (auto simp: ledger_tx_check_def split: if_splits)
  ultimately show ?thesis using wf u by (auto simp: transactions_wf_def)
qed

lemma ledger_assert_posting_step:
  assumes wf: "ledger_wf w" and acc: "posting_accepted inp w" and snd: "posting_sound inp w"
    and step: "posting_step inp n w w'"
  shows "\<forall>t \<in> set (ledger_transactions w'). ledger_assert w' (lt_id t) = None"
proof
  fix t assume "t \<in> set (ledger_transactions w')"
  then consider "t \<in> set (ledger_transactions w)" | "lt_id t = cp_id inp"
    using step by (auto simp: posting_step_def finalized_row_def tx_row_of_def)
  then show "ledger_assert w' (lt_id t) = None"
  proof cases
    case 1
    have "cp_id inp \<notin> lt_id ` set (ledger_transactions w)"
      using acc by (simp add: posting_accepted_def ledger_tx_unique_None tx_row_of_def)
    then have "\<forall>e \<in> set (posting_rows w inp). er_tx e \<notin> lt_id ` set (ledger_transactions w)"
      by (auto simp: posting_rows_def entry_row_of_def)
    moreover have "ledger_accounts w' = ledger_accounts w @ []" using step by (simp add: posting_step_def)
    moreover have "distinct (map lt_id (ledger_transactions w))" and "ledger_assert w (lt_id t) = None"
      using wf 1 by (simp_all add: ledger_wf_def transactions_wf_def)
    moreover note step[unfolded posting_step_def]
    ultimately show ?thesis
      using 1 by (intro ledger_assert_extend[of w' w "[]" "[finalized_row inp n]" "posting_rows w inp" t])
        (simp_all only: list.set ball_empty empty_iff ball_simps simp_thms ball_triv)
  next
    case 2
    then show ?thesis using ledger_assert_new[OF assms] by simp
  qed
qed

lemma posting_step_keeps_wf:
  assumes wf: "ledger_wf w" and acc: "posting_accepted inp w" and snd: "posting_sound inp w"
    and step: "posting_step inp n w w'"
  shows "ledger_wf w'"
proof -
  from step have as: "ledger_accounts w' = ledger_accounts w"
    and ts: "ledger_transactions w' = ledger_transactions w @ [finalized_row inp n]"
    and es: "ledger_entries w' = ledger_entries w @ posting_rows w inp"
    by (simp_all add: posting_step_def)
  have "transactions_wf (ledger_transactions w')"
    unfolding ts finalized_row_def using wf acc
    by (intro transactions_wf_append) (simp_all add: ledger_wf_def posting_accepted_def)
  moreover have "entries_wf (ledger_transactions w') (ledger_entries w')"
  proof -
    have old: "entries_wf (ledger_transactions w) (ledger_entries w)" using wf by (simp add: ledger_wf_def)
    have "\<forall>e \<in> set (posting_rows w inp). er_tx e = lt_id (finalized_row inp n)"
      by (simp add: posting_rows_def entry_row_of_def finalized_row_def tx_row_of_def)
    moreover have "distinct (map er_id (ledger_entries w @ posting_rows w inp))"
      and "distinct (map (\<lambda>e. (er_tx e, er_seq e)) (ledger_entries w @ posting_rows w inp))"
      using acc old unfolding posting_accepted_def entries_wf_def by blast+
    moreover have "\<forall>e \<in> set (posting_rows w inp). 1 \<le> er_seq e \<and> er_seq e \<le> 32767 \<and> 1 \<le> er_amount e \<and>
        er_amount e \<le> max_ledger_amount" using acc unfolding posting_accepted_def by blast
    ultimately show ?thesis
      using old unfolding entries_wf_def ts es by (simp add: ball_Un)
  qed
  ultimately show ?thesis
    using wf ledger_assert_posting_step[OF assms] by (simp add: ledger_wf_def as)
qed

end
