(* ===== verification/Ledger_Service.thy ===== *)
theory Ledger_Service imports Ledger_Invariant begin

text \<open>
  What each posting operation of \<open>LedgerService\<close> does when it returns: exactly one accepted posting
  with the entries of its command, one \<open>staged\<close> observation, and the ledger invariant kept.
\<close>

section \<open>Postings of the service\<close>

definition posting_made :: "create_posting \<Rightarrow> 'a ledger_world_scheme \<Rightarrow> 'a ledger_world_scheme \<Rightarrow> bool" where
  "posting_made inp w w' \<longleftrightarrow>
     posting_accepted inp w \<and> posting_step inp (txn_now w) w w' \<and> txn_now w' = txn_now w"

text \<open>Only the ledger tables matter, so calls that touch none of them can be added around.\<close>

definition quiet :: "'a world_scheme \<Rightarrow> 'a world_scheme \<Rightarrow> bool" where
  "quiet w w' \<longleftrightarrow> same_db w w' \<and> txn_now w' = txn_now w"

lemma quiet_refl [simp]: "quiet w w" by (simp add: quiet_def)

lemma quiet_trans: "quiet w w' \<Longrightarrow> quiet w' w'' \<Longrightarrow> quiet w w''"
  unfolding quiet_def using same_db_trans by metis

lemma quiet_bump [simp]: "quiet w (bump w)" "quiet w (w\<lparr>observed := os\<rparr>)"
  by (simp_all add: quiet_def)

lemma posting_accepted_same_db:
  "same_db w0 w \<Longrightarrow> posting_accepted inp w \<longleftrightarrow> posting_accepted inp w0"
  by (drule same_db_ledger) (simp add: posting_accepted_def merchant_accounts_def posting_rows_def)

lemma posting_sound_same_db:
  assumes "same_db w0 w" shows "posting_sound inp w \<longleftrightarrow> posting_sound inp w0"
proof -
  note d = same_db_ledger[OF assms]
  have "tx_entries w = tx_entries w0" by (intro ext) (simp add: tx_entries_def d)
  moreover have "posting_rows w inp = posting_rows w0 inp"
    by (simp add: posting_rows_def merchant_accounts_def d)
  ultimately show ?thesis by (simp add: posting_sound_def d)
qed

lemma posting_made_quiet:
  assumes "quiet w0 w" and "posting_made inp w w'" and "quiet w' w1"
  shows "posting_made inp w0 w1"
proof -
  from assms have s: "same_db w0 w" "same_db w' w1" and n: "txn_now w = txn_now w0" "txn_now w1 = txn_now w'"
    by (simp_all add: quiet_def)
  have "posting_rows w inp = posting_rows w0 inp"
    using same_db_ledger[OF s(1)] by (simp add: posting_rows_def merchant_accounts_def)
  with assms(2) s n same_db_ledger[OF s(1)] same_db_ledger[OF s(2)] show ?thesis
    by (simp add: posting_made_def posting_accepted_same_db[OF s(1)] posting_step_def)
qed

lemma observing_rejection_Inr [comp_simps]:
  "observing_rejection bt m p c w = (Inr x, w') \<longleftrightarrow> c w = (Inr x, w')"
  unfolding observing_rejection_def by (auto simp: catch_Inr bindc_Inr throw_eq)

lemma with_entry_ids_eq:
  "with_entry_ids E es w = (r, w') \<Longrightarrow>
     \<exists>ces. r = Inr ces \<and> map ledger_entry.truncate ces = es \<and> quiet w w' \<and> observed w' = observed w"
proof (induction es arbitrary: w w' r)
  case Nil
  then show ?case by (auto simp: with_entry_ids_def ok_eq)
next
  case (Cons e es)
  obtain r1 w1 where t: "with_entry_ids E es (bump w) = (r1, w1)" by fastforce
  from Cons.IH[OF t] obtain ces where ces: "r1 = Inr ces" "map ledger_entry.truncate ces = es"
    "quiet (bump w) w1" "observed w1 = observed (bump w)" by auto
  from Cons.prems t ces(1)
  have "r = Inr (ledger_entry.extend e \<lparr>ce_id = env_uuid E (tick w)\<rparr> # ces)" "w' = w1"
    by (auto simp: with_entry_ids_def bindc_def new_uuid_def ok_def)
  with ces quiet_trans[OF quiet_bump(1) ces(3)] show ?case
    by (auto simp: ledger_entry.truncate_def ledger_entry.extend_def)
qed

lemma create_posting_made:
  "repo_create_posting E inp w = (Inr res, w') \<Longrightarrow>
     posting_made inp w w' \<and> tick w < tick w' \<and> observed w' = observed w \<and> lp_posted res = txn_now w \<and>
     lp_public_id res = cp_public_id inp \<and> lp_entries res = map ledger_entry.truncate (cp_entries inp)"
  by (auto dest: create_posting_Inr simp: posting_made_def)

section \<open>Captures and refunds\<close>

definition money_entries :: "business_type \<Rightarrow> money_command \<Rightarrow> error + ledger_entry list" where
  "money_entries bt command =
     (if bt = Capture then build_capture_entries (mc_amount command) (mc_currency command)
      else build_refund_entries (mc_amount command) (mc_currency command))"

lemma money_entries_wf: "money_entries bt c = Inr es \<Longrightarrow> well_formed_posting (mc_currency c) es"
  by (auto simp: money_entries_def capture_entries_wf refund_entries_wf split: if_splits)

definition posting_of_money :: "business_type \<Rightarrow> money_command \<Rightarrow> create_posting \<Rightarrow> bool" where
  "posting_of_money bt command inp \<longleftrightarrow>
     cp_type inp = bt \<and> cp_merchant inp = mc_merchant command \<and> cp_currency inp = mc_currency command \<and>
     cp_reference inp = mc_reference command \<and> cp_request inp = mc_request command \<and>
     Some (cp_occurred inp) = mc_occurred command \<and> cp_reversal_of inp = None \<and>
     money_entries bt command = Inr (map ledger_entry.truncate (cp_entries inp))"

lemma assert_common_occurred: "assert_common_command c = Inr u \<Longrightarrow> \<exists>t. mc_occurred c = Some t"
  by (auto simp: assert_common_command_def comp_simps split: if_splits)

lemma ledger_post_Inr:
  assumes "ledger_post E command bt w = (Inr res, w')"
  shows "\<exists>inp. posting_of_money bt command inp \<and> posting_made inp w w' \<and> assert_money_command command = Inr () \<and>
     observed w' = observed w @ [staged_observation bt (mc_merchant command) (cp_public_id inp)] \<and>
     lp_posted res = txn_now w \<and> lp_public_id res = cp_public_id inp"
proof -
  from assms obtain built ents w1 w2 where
    v: "assert_money_command command = Inr ()" and
    b: "money_entries bt command = Inr built" and
    e: "with_entry_ids E built (bump w) = (Inr ents, w1)" and
    c: "repo_create_posting E
          \<lparr>cp_reference = mc_reference command, cp_type = bt, cp_currency = mc_currency command,
           cp_entries = ents, cp_id = env_uuid E (tick w1), cp_merchant = mc_merchant command,
           cp_occurred = the (mc_occurred command),
           cp_public_id = ''ltx_'' @ env_ulid E (the (mc_occurred command)) (tick w),
           cp_request = mc_request command, cp_reversal_of = None, cp_reversal_public = None\<rparr> (bump w1) = (Inr res, w2)" and
    o: "w' = w2\<lparr>observed := observed w2 @ [staged_observation bt (mc_merchant command)
          (''ltx_'' @ env_ulid E (the (mc_occurred command)) (tick w))]\<rparr>"
    unfolding ledger_post_def money_entries_def[symmetric] Let_def
    by (clarsimp simp: comp_simps)
  note ce = with_entry_ids_eq[OF e]
  note cp = create_posting_made[OF c]
  from ce have q: "quiet w (bump w1)" by (auto intro: quiet_trans[OF quiet_trans] quiet_bump)
  then have n: "txn_now w1 = txn_now w" by (simp add: quiet_def)
  have "\<exists>t. mc_occurred command = Some t"
    using v by (auto simp: assert_money_command_def comp_simps dest: assert_common_occurred)
  with ce cp b posting_made_quiet[OF q, of _ w2 w'] o show ?thesis
    by (auto simp: posting_of_money_def v n intro!: exI)
qed

lemma posting_of_money_sound:
  "posting_of_money bt command inp \<Longrightarrow> bt \<noteq> Reversal \<Longrightarrow> posting_sound inp w"
  by (auto simp: posting_of_money_def posting_sound_def dest: money_entries_wf)

section \<open>Settlements\<close>

definition posting_of_settlement :: "settlement_command \<Rightarrow> create_posting \<Rightarrow> bool" where
  "posting_of_settlement command inp \<longleftrightarrow>
     cp_type inp = Settlement \<and> cp_merchant inp = mc_merchant command \<and> cp_currency inp = sc_currency command \<and>
     cp_reference inp = mc_reference command \<and> cp_request inp = mc_request command \<and>
     Some (cp_occurred inp) = mc_occurred command \<and> cp_reversal_of inp = None \<and>
     build_settlement_entries (sc_gross command) (sc_fee command) (sc_net command) (sc_currency command) =
       Inr (map ledger_entry.truncate (cp_entries inp))"

lemma post_settlement_Inr:
  assumes "post_settlement E command w = (Inr (res, iid), w')"
  shows "\<exists>inp. posting_of_settlement command inp \<and> posting_made inp w w' \<and>
     assert_settlement_command command = Inr () \<and>
     observed w' = observed w @ [staged_observation Settlement (mc_merchant command) (cp_public_id inp)] \<and>
     lp_posted res = txn_now w \<and> lp_public_id res = cp_public_id inp \<and> iid = cp_id inp"
proof -
  from assms obtain built ents w1 w2 where
    v: "assert_settlement_command command = Inr ()" and
    b: "build_settlement_entries (sc_gross command) (sc_fee command) (sc_net command) (sc_currency command) = Inr built" and
    e: "with_entry_ids E built (bump (bump w)) = (Inr ents, w1)" and
    c: "repo_create_posting E
          \<lparr>cp_reference = mc_reference command, cp_type = Settlement, cp_currency = sc_currency command,
           cp_entries = ents, cp_id = env_uuid E (Suc (tick w)), cp_merchant = mc_merchant command,
           cp_occurred = the (mc_occurred command),
           cp_public_id = ''ltx_'' @ env_ulid E (the (mc_occurred command)) (tick w),
           cp_request = mc_request command, cp_reversal_of = None, cp_reversal_public = None\<rparr> w1 = (Inr res, w2)" and
    o: "w' = w2\<lparr>observed := observed w2 @ [staged_observation Settlement (mc_merchant command)
          (''ltx_'' @ env_ulid E (the (mc_occurred command)) (tick w))]\<rparr>" and
    i: "iid = env_uuid E (Suc (tick w))"
    unfolding post_settlement_def Let_def
    by (clarsimp simp: comp_simps)
  note ce = with_entry_ids_eq[OF e]
  note cp = create_posting_made[OF c]
  from ce have q: "quiet w w1" by (auto intro: quiet_trans[OF quiet_trans] quiet_bump)
  then have n: "txn_now w1 = txn_now w" by (simp add: quiet_def)
  have "\<exists>t. mc_occurred command = Some t"
    using v by (auto simp: assert_settlement_command_def comp_simps dest: assert_common_occurred)
  with ce cp b i posting_made_quiet[OF q, of _ w2 w'] o show ?thesis
    by (auto simp: posting_of_settlement_def v n intro!: exI)
qed

lemma posting_of_settlement_sound: "posting_of_settlement command inp \<Longrightarrow> posting_sound inp w"
  by (auto simp: posting_of_settlement_def posting_sound_def dest: settlement_entries_wf)

section \<open>Reversals\<close>

lemma map_sum_list_length: "map_sum_list f xs = Inr ys \<Longrightarrow> length ys = length xs"
  by (induction xs arbitrary: ys) (auto simp: comp_simps)

lemma map_sum_list_nth:
  "map_sum_list f xs = Inr ys \<Longrightarrow> i < length xs \<Longrightarrow> f (xs ! i) = Inr (ys ! i)"
proof (induction xs arbitrary: ys i)
  case Nil
  then show ?case by simp
next
  case (Cons x xs)
  then show ?case by (cases i) (auto simp: comp_simps)
qed

lemma rethrow_find_never [simp]: "rethrow_database_error E e w = (Inr x, w') \<longleftrightarrow> False"
  by simp

lemma find_posted_Inr:
  assumes "repo_find_posted_for_reversal E m p w = (Inr (Some (orig, iid)), w')"
  shows "quiet w w' \<and> observed w' = observed w \<and> (\<exists>t \<in> set (ledger_transactions w).
     lt_id t = iid \<and> lt_merchant t = m \<and> lt_public_id t = p \<and> lt_posted t \<noteq> None \<and>
     lp_type orig = lt_type t \<and> lp_currency orig = lt_currency t \<and> lp_public_id orig = p \<and>
     map_sum_list (entry_of_row (ledger_accounts w))
       (sort_key er_seq (filter (\<lambda>e. er_tx e = lt_id t \<and> er_merchant e = m) (ledger_entries w)))
       = Inr (lp_entries orig))"
  using assms unfolding repo_find_posted_for_reversal_def
  by (auto simp: comp_simps dest!: find_Some_in intro: quiet_trans[OF quiet_bump(1)] split: option.splits)

text \<open>What a wrongly keyed row cannot do: the accounts a chart names are determined by their key.\<close>

lemma account_ids_unique:
  assumes "accounts_wf (ledger_accounts w)" and "a \<in> set (ledger_accounts w)"
    and "la_merchant a = m" and "la_currency a = cur"
  shows "account_ids (merchant_accounts w m) cur (la_code a) = Some (la_id a)"
proof -
  let ?as = "map (\<lambda>a. (la_code a, la_id a)) (filter (\<lambda>a. la_currency a = cur) (merchant_accounts w m))"
  have "(la_code a, la_id a) \<in> set (rev ?as)" using assms by (auto simp: merchant_accounts_def)
  then obtain i where i: "map_of (rev ?as) (la_code a) = Some i"
    by (metis (no_types, lifting) domD dom_map_of_conv_image_fst image_eqI prod.sel(1))
  then have "account_ids (merchant_accounts w m) cur (la_code a) = Some i" by (simp add: account_ids_def)
  from account_ids_Some[OF this] obtain b where b: "b \<in> set (ledger_accounts w)" "la_merchant b = m"
    "la_currency b = cur" "la_code b = la_code a" "la_id b = i" by (auto simp: merchant_accounts_def)
  have "distinct (map account_key (ledger_accounts w))" using assms(1) by (simp add: accounts_wf_def)
  from distinct_key_eq[OF this b(1) assms(2)] b assms(3,4) have "b = a" by (simp add: account_key_def)
  with b i show ?thesis by (simp add: account_ids_def)
qed

text \<open>The entries read for a reversal are the original's, in sequence order.\<close>

definition reversal_source :: "'a ledger_world_scheme \<Rightarrow> ledger_tx_row \<Rightarrow> ledger_entry list \<Rightarrow> bool" where
  "reversal_source w t es \<longleftrightarrow>
     map_sum_list (entry_of_row (ledger_accounts w))
       (sort_key er_seq (filter (\<lambda>e. er_tx e = lt_id t \<and> er_merchant e = lt_merchant t) (ledger_entries w)))
       = Inr es"

lemma ledger_assert_facts:
  assumes wf: "ledger_wf w" and t: "t \<in> set (ledger_transactions w)"
  shows "lt_posted t \<noteq> None \<and> 2 \<le> length (tx_entries w (lt_id t)) \<and>
    list_all (entry_consistent w t) (tx_entries w (lt_id t)) \<and>
    row_total Debit (tx_entries w (lt_id t)) = row_total Credit (tx_entries w (lt_id t)) \<and>
    length (merchant_accounts w (lt_merchant t)) = 8 \<and>
    (lt_type t = Reversal \<longrightarrow> reversal_assert w t (tx_entries w (lt_id t)) = None)"
proof -
  have "distinct (map lt_id (ledger_transactions w))"
    using wf by (simp add: ledger_wf_def transactions_wf_def)
  from find_key[OF this t] have "List.find (\<lambda>u. lt_id u = lt_id t) (ledger_transactions w) = Some t" .
  moreover have "ledger_assert w (lt_id t) = None" using wf t by (simp add: ledger_wf_def)
  ultimately show ?thesis
    by (auto simp: ledger_assert_def Let_def merchant_accounts_def split: if_splits)
qed

lemma tx_entries_merchant:
  assumes "ledger_wf w" and "t \<in> set (ledger_transactions w)"
  shows "filter (\<lambda>e. er_tx e = lt_id t \<and> er_merchant e = lt_merchant t) (ledger_entries w) =
    tx_entries w (lt_id t)"
proof -
  have "\<forall>e \<in> set (tx_entries w (lt_id t)). er_merchant e = lt_merchant t"
    using ledger_assert_facts[OF assms] by (auto simp: list_all_iff entry_consistent_def)
  then show ?thesis by (auto simp: tx_entries_def intro!: filter_cong)
qed

lemma entry_of_row_Inr:
  "entry_of_row as e = Inr x \<longleftrightarrow> (\<exists>a. List.find (\<lambda>a. la_id a = er_account e) as = Some a \<and>
     x = \<lparr>le_account = la_code a, le_amount = er_amount e, le_currency = er_currency e,
          le_seq = er_seq e, le_side = er_side e\<rparr>)"
  by (auto simp: entry_of_row_def split: option.splits)

lemma reversal_source_rows:
  assumes "ledger_wf w" and "t \<in> set (ledger_transactions w)" and "reversal_source w t es"
  shows "map_sum_list (entry_of_row (ledger_accounts w)) (sort_key er_seq (tx_entries w (lt_id t))) = Inr es"
  using assms by (simp add: reversal_source_def tx_entries_merchant)

lemma map_sum_list_map:
  assumes "map_sum_list f xs = Inr ys" and "\<And>x y. f x = Inr y \<Longrightarrow> h y = g x"
  shows "map h ys = map g xs"
  using assms(1) by (induction xs arbitrary: ys) (auto simp: comp_simps assms(2))

lemma distinct_er_seq:
  assumes "entries_wf ts es"
  shows "distinct (map er_seq (filter (\<lambda>e. er_tx e = tid) es))"
proof -
  have "distinct (map (\<lambda>e. (er_tx e, er_seq e)) es)" using assms by (simp add: entries_wf_def)
  then show ?thesis
  proof (induction es)
    case Nil
    then show ?case by simp
  next
    case (Cons a es)
    have "er_seq a \<noteq> er_seq x" if "er_tx a = tid" "x \<in> set es" "er_tx x = tid" for x
    proof
      assume "er_seq a = er_seq x"
      with that have "(er_tx a, er_seq a) = (er_tx x, er_seq x)" by simp
      then have "(er_tx a, er_seq a) \<in> (\<lambda>e. (er_tx e, er_seq e)) ` set es"
        using that(2) by (metis (no_types, lifting) image_eqI)
      with Cons.prems show False by simp
    qed
    with Cons show ?case by auto
  qed
qed

lemma reversal_source_wf:
  assumes wf: "ledger_wf w" and t: "t \<in> set (ledger_transactions w)" and src: "reversal_source w t es"
  shows "well_formed_posting (lt_currency t) es"
proof -
  let ?rows = "tx_entries w (lt_id t)"
  note rows = reversal_source_rows[OF assms]
  note facts = ledger_assert_facts[OF wf t]
  have entries: "entries_wf (ledger_transactions w) (ledger_entries w)" using wf by (simp add: ledger_wf_def)
  have amounts: "map le_amount es = map er_amount (sort_key er_seq ?rows)"
    and seqs: "map le_seq es = map er_seq (sort_key er_seq ?rows)"
    and curs: "map le_currency es = map er_currency (sort_key er_seq ?rows)"
    by (rule map_sum_list_map[OF rows], auto simp: entry_of_row_Inr)+
  have sides: "map (\<lambda>e. if le_side e = s then le_amount e else 0) es =
      map (\<lambda>e. if er_side e = s then er_amount e else 0) (sort_key er_seq ?rows)" for s
    by (rule map_sum_list_map[OF rows]) (auto simp: entry_of_row_Inr)
  have tot: "side_total s es = row_total s ?rows" for s
  proof -
    have "sum_list (map f (insort_key er_seq x xs)) = f x + sum_list (map f xs)"
      for f :: "ledger_entry_row \<Rightarrow> int" and x xs by (induction xs) auto
    then have "sum_list (map f (sort_key er_seq xs)) = sum_list (map f xs)"
      for f :: "ledger_entry_row \<Rightarrow> int" and xs by (induction xs) auto
    then show ?thesis by (simp add: side_total_def row_total_def sides)
  qed
  have "2 \<le> length es" using facts map_sum_list_length[OF rows] by simp
  moreover have "balanced es" using facts by (simp add: balanced_def tot)
  moreover have "distinct (map le_seq es)"
  proof -
    have "distinct (map er_seq ?rows)" unfolding tx_entries_def by (rule distinct_er_seq[OF entries])
    then show ?thesis unfolding seqs by (simp add: distinct_map)
  qed
  moreover have "\<forall>e \<in> set es. le_currency e = lt_currency t \<and> 1 \<le> le_amount e \<and>
      le_amount e \<le> max_ledger_amount \<and> 1 \<le> le_seq e \<and> le_seq e \<le> 32767"
  proof
    fix e assume "e \<in> set es"
    then obtain i where i: "i < length es" "e = es ! i" by (auto simp: in_set_conv_nth)
    let ?r = "sort_key er_seq ?rows ! i"
    have len: "i < length (sort_key er_seq ?rows)" using i map_sum_list_length[OF rows] by simp
    from map_sum_list_nth[OF rows len] i have x: "entry_of_row (ledger_accounts w) ?r = Inr e" by simp
    have "?r \<in> set ?rows" using nth_mem[OF len] by simp
    then have "er_currency ?r = lt_currency t" "?r \<in> set (ledger_entries w)"
      using facts by (auto simp: list_all_iff entry_consistent_def tx_entries_def)
    with entries x show "le_currency e = lt_currency t \<and> 1 \<le> le_amount e \<and>
      le_amount e \<le> max_ledger_amount \<and> 1 \<le> le_seq e \<and> le_seq e \<le> 32767"
      unfolding entries_wf_def entry_of_row_Inr by auto
  qed
  ultimately show ?thesis by (simp add: well_formed_posting_def)
qed

text \<open>Flipping every entry read gives the exact inverse of the original's rows.\<close>

lemma reversal_rows_inverted:
  assumes wf: "ledger_wf w" and t: "t \<in> set (ledger_transactions w)" and src: "reversal_source w t es"
    and inp: "cp_merchant inp = lt_merchant t" "cp_currency inp = lt_currency t"
    and flip: "build_reversal_entries es = Inr (map ledger_entry.truncate (cp_entries inp))"
  shows "length (tx_entries w (lt_id t)) = length (cp_entries inp) \<and>
    list_all (entry_inverted (tx_entries w (lt_id t))) (posting_rows w inp)"
proof -
  let ?rows = "tx_entries w (lt_id t)"
  let ?ids = "account_ids (merchant_accounts w (lt_merchant t)) (lt_currency t)"
  note rows = reversal_source_rows[OF wf t src]
  note facts = ledger_assert_facts[OF wf t]
  have accs: "accounts_wf (ledger_accounts w)" using wf by (simp add: ledger_wf_def)
  have dist: "distinct (map er_seq ?rows)"
    unfolding tx_entries_def using wf
    by (intro distinct_er_seq[of "ledger_transactions w"]) (simp add: ledger_wf_def)
  from flip have ces: "map ledger_entry.truncate (cp_entries inp) =
      map (\<lambda>entry. entry\<lparr>le_side := flip_side (le_side entry)\<rparr>) es"
    by (simp add: build_reversal_entries_def split: if_splits)
  then have len: "length (cp_entries inp) = length es" by (metis length_map)
  have "entry_inverted ?rows r" if "r \<in> set (posting_rows w inp)" for r
  proof -
    from that obtain i where i: "i < length (cp_entries inp)"
      and r: "r = entry_row_of inp ?ids (cp_entries inp ! i)"
      by (auto simp: posting_rows_def in_set_conv_nth inp)
    define x where "x = sort_key er_seq ?rows ! i"
    have lx: "i < length (sort_key er_seq ?rows)" using i len map_sum_list_length[OF rows] by simp
    from map_sum_list_nth[OF rows lx, folded x_def] obtain a where
      a: "List.find (\<lambda>a. la_id a = er_account x) (ledger_accounts w) = Some a" and
      e: "es ! i = \<lparr>le_account = la_code a, le_amount = er_amount x, le_currency = er_currency x,
          le_seq = er_seq x, le_side = er_side x\<rparr>"
      by (auto simp: entry_of_row_Inr)
    have x_in: "x \<in> set ?rows" using nth_mem[OF lx] by (simp add: x_def)
    with facts have "entry_consistent w t x" unfolding list_all_iff using x_in by blast
    with a have am: "la_merchant a = lt_merchant t" "la_currency a = lt_currency t"
      by (simp_all add: entry_consistent_def)
    from find_Some_in[OF a] have ain: "a \<in> set (ledger_accounts w)" "la_id a = er_account x" by auto
    from account_ids_unique[OF accs ain(1) am] have ids: "?ids (la_code a) = Some (er_account x)"
      by (simp add: ain)
    from ces have "map ledger_entry.truncate (cp_entries inp) ! i =
      map (\<lambda>entry. entry\<lparr>le_side := flip_side (le_side entry)\<rparr>) es ! i" by (simp only:)
    then have "ledger_entry.truncate (cp_entries inp ! i) =
        (es ! i)\<lparr>le_side := flip_side (le_side (es ! i))\<rparr>"
      using i len by (simp only: nth_map)
    then have c0: "ledger_entry.truncate (cp_entries inp ! i) = \<lparr>le_account = la_code a, le_amount = er_amount x,
        le_currency = er_currency x, le_seq = er_seq x, le_side = flip_side (er_side x)\<rparr>"
      by (simp add: e)
    then have c: "le_account (cp_entries inp ! i) = la_code a" "le_amount (cp_entries inp ! i) = er_amount x"
      "le_currency (cp_entries inp ! i) = er_currency x" "le_seq (cp_entries inp ! i) = er_seq x"
      "le_side (cp_entries inp ! i) = flip_side (er_side x)"
      by (simp_all add: ledger_entry.truncate_def)
    have "List.find (\<lambda>y. er_seq y = er_seq x) ?rows = Some x" by (rule find_key[OF dist x_in])
    with c ids show ?thesis by (simp add: entry_inverted_def r entry_row_of_def)
  qed
  then show ?thesis using map_sum_list_length[OF rows] len by (simp add: list_all_iff)
qed

definition posting_of_reversal :: "'a ledger_world_scheme \<Rightarrow> reverse_command \<Rightarrow> ledger_tx_row \<Rightarrow> create_posting \<Rightarrow> bool" where
  "posting_of_reversal w command t inp \<longleftrightarrow>
     t \<in> set (ledger_transactions w) \<and> lt_merchant t = mc_merchant command \<and>
     lt_public_id t = rc_original_public_id command \<and> lt_posted t \<noteq> None \<and> lt_type t \<noteq> Reversal \<and>
     cp_type inp = Reversal \<and> cp_merchant inp = mc_merchant command \<and> cp_currency inp = lt_currency t \<and>
     cp_reference inp = mc_reference command \<and> cp_request inp = mc_request command \<and>
     Some (cp_occurred inp) = mc_occurred command \<and> cp_reversal_of inp = Some (lt_id t) \<and>
     (\<exists>es. reversal_source w t es \<and> build_reversal_entries es = Inr (map ledger_entry.truncate (cp_entries inp)))"

lemma posting_of_reversal_sound:
  assumes wf: "ledger_wf w" and p: "posting_of_reversal w command t inp"
  shows "posting_sound inp w"
proof -
  from p obtain es where t: "t \<in> set (ledger_transactions w)" and src: "reversal_source w t es"
    and flip: "build_reversal_entries es = Inr (map ledger_entry.truncate (cp_entries inp))"
    and inp: "cp_merchant inp = lt_merchant t" "cp_currency inp = lt_currency t"
    unfolding posting_of_reversal_def by auto
  have "well_formed_posting (cp_currency inp) (map ledger_entry.truncate (cp_entries inp))"
    using reversal_entries_wf[OF reversal_source_wf[OF wf t src] flip] inp by simp
  then show ?thesis
    using p reversal_rows_inverted[OF wf t src inp flip]
    unfolding posting_sound_def posting_of_reversal_def by auto
qed

lemma reverse_posting_Inr:
  assumes "reverse_posting E command w = (Inr res, w')"
  shows "\<exists>inp t. posting_of_reversal w command t inp \<and> posting_made inp w w' \<and>
     assert_common_command command = Inr () \<and>
     observed w' = observed w @ [staged_observation Reversal (mc_merchant command) (cp_public_id inp)] \<and>
     lp_posted res = txn_now w \<and> lp_public_id res = cp_public_id inp"
proof -
  from assms obtain orig oid w0 built ents w1 w2 where
    v: "assert_common_command command = Inr ()" and
    f: "repo_find_posted_for_reversal E (mc_merchant command) (rc_original_public_id command) w =
        (Inr (Some (orig, oid)), w0)" and
    nr: "lp_type orig \<noteq> Reversal" and
    b: "build_reversal_entries (lp_entries orig) = Inr built" and
    e: "with_entry_ids E built (bump w0) = (Inr ents, w1)" and
    c: "repo_create_posting E
          \<lparr>cp_reference = mc_reference command, cp_type = Reversal, cp_currency = lp_currency orig,
           cp_entries = ents, cp_id = env_uuid E (tick w1), cp_merchant = mc_merchant command,
           cp_occurred = the (mc_occurred command),
           cp_public_id = ''ltx_'' @ env_ulid E (the (mc_occurred command)) (tick w0),
           cp_request = mc_request command, cp_reversal_of = Some oid,
           cp_reversal_public = Some (lp_public_id orig)\<rparr> (bump w1) = (Inr res, w2)" and
    o: "w' = w2\<lparr>observed := observed w2 @ [staged_observation Reversal (mc_merchant command)
          (''ltx_'' @ env_ulid E (the (mc_occurred command)) (tick w0))]\<rparr>"
    unfolding reverse_posting_def Let_def
    by (clarsimp simp: comp_simps split: option.splits if_splits)
  note ce = with_entry_ids_eq[OF e]
  note cp = create_posting_made[OF c]
  note fp = find_posted_Inr[OF f]
  from ce fp have "quiet w w0" "quiet (bump w0) w1" by auto
  then have q: "quiet w (bump w1)" by (meson quiet_bump(1) quiet_trans)
  then have n: "txn_now w1 = txn_now w" by (simp add: quiet_def)
  obtain tm where tm: "mc_occurred command = Some tm"
    using v by (auto dest: assert_common_occurred)
  let ?inp = "\<lparr>cp_reference = mc_reference command, cp_type = Reversal, cp_currency = lp_currency orig,
           cp_entries = ents, cp_id = env_uuid E (tick w1), cp_merchant = mc_merchant command,
           cp_occurred = the (mc_occurred command),
           cp_public_id = ''ltx_'' @ env_ulid E (the (mc_occurred command)) (tick w0),
           cp_request = mc_request command, cp_reversal_of = Some oid,
           cp_reversal_public = Some (lp_public_id orig)\<rparr>"
  from fp obtain t where t: "t \<in> set (ledger_transactions w)" "lt_id t = oid"
    "lt_merchant t = mc_merchant command" "lt_public_id t = rc_original_public_id command"
    "lt_posted t \<noteq> None" "lp_type orig = lt_type t" "lp_currency orig = lt_currency t"
    and src: "reversal_source w t (lp_entries orig)"
    unfolding reversal_source_def by auto
  have "posting_of_reversal w command t ?inp"
    unfolding posting_of_reversal_def using t src nr b ce tm by auto
  moreover have "posting_made ?inp w w'"
    using cp o by (intro posting_made_quiet[OF q, of _ w2]) simp_all
  ultimately show ?thesis using v cp ce fp o n by auto
qed

end
