(* ===== verification/Ledger_Reach.thy ===== *)
theory Ledger_Reach imports Ledger_Service begin

text \<open>
  The ledger as a state machine: every call of \<open>LedgerService\<close> inside a database transaction is a
  step. Reachable ledgers satisfy the invariant; no step changes or removes a row; account balances
  move by exactly what the posting says.
\<close>

section \<open>Provisioning keeps the invariant\<close>

lemma UNIV_account_code: "(UNIV :: account_code set) = {Fee_revenue, Merchant_payable, Provider_clearing, Settlement_clearing}"
  using account_code.exhaust by auto

lemma UNIV_currency: "(UNIV :: currency set) = {ETB, USD}"
  using currency.exhaust by auto

lemma card_account_slots: "card (UNIV :: (account_code \<times> currency) set) = 8"
  unfolding UNIV_Times_UNIV[symmetric] card_cartesian_product UNIV_account_code UNIV_currency by simp

text \<open>A merchant with eight accounts has one of every code in every currency.\<close>

lemma full_chart:
  assumes wf: "accounts_wf as" and eight: "length (filter (\<lambda>a. la_merchant a = m) as) = 8"
  shows "\<exists>a \<in> set as. la_merchant a = m \<and> la_code a = c \<and> la_currency a = cur"
proof -
  let ?fs = "filter (\<lambda>a. la_merchant a = m) as"
  let ?k = "\<lambda>a. (la_code a, la_currency a)"
  have "distinct (map account_key ?fs)" using wf by (simp add: accounts_wf_def distinct_map_filter)
  moreover have "map account_key ?fs = map (Pair m) (map ?k ?fs)"
    by (simp add: account_key_def)
  ultimately have "distinct (map (Pair m) (map ?k ?fs))" by (simp only:)
  then have "distinct (map ?k ?fs)" unfolding distinct_map[of "Pair m"] by blast
  from distinct_card[OF this] have "card (set (map ?k ?fs)) = card (UNIV :: (account_code \<times> currency) set)"
    using eight by (simp only: card_account_slots length_map)
  moreover have "finite (UNIV :: (account_code \<times> currency) set)"
    by (rule card_ge_0_finite) (simp only: card_account_slots)
  ultimately have "set (map ?k ?fs) = UNIV"
    by (intro card_subset_eq) simp_all
  then have "(c, cur) \<in> set (map ?k ?fs)" by (simp only: UNIV_I)
  then show ?thesis by auto
qed

lemma insert_account_skip_wf:
  assumes "accounts_wf as" and "la_side r = expected_side (la_code r)"
  shows "accounts_wf (insert_account_skip r as)"
  using assms by (auto simp: insert_account_skip_def accounts_wf_def account_key_def)

lemma fold_insert_skip_wf:
  "accounts_wf as \<Longrightarrow> \<forall>r \<in> set rs. la_side r = expected_side (la_code r) \<Longrightarrow>
   accounts_wf (fold insert_account_skip rs as)"
  by (induction rs arbitrary: as) (simp_all add: insert_account_skip_wf)

lemma insert_skip_appends: "\<exists>new. insert_account_skip r as = as @ new \<and> set new \<subseteq> {r}"
  by (cases "insert_account_skip r as = as") (auto simp: insert_account_skip_def)

lemma fold_insert_skip_appends:
  "\<exists>new. fold insert_account_skip rs as = as @ new \<and> set new \<subseteq> set rs"
proof (induction rs arbitrary: as)
  case Nil
  then show ?case by simp
next
  case (Cons r rs)
  obtain n1 where n1: "insert_account_skip r as = as @ n1" "set n1 \<subseteq> {r}"
    using insert_skip_appends by blast
  obtain n2 where n2: "fold insert_account_skip rs (as @ n1) = (as @ n1) @ n2" "set n2 \<subseteq> set rs"
    using Cons.IH by blast
  have "fold insert_account_skip (r # rs) as = as @ (n1 @ n2)" by (simp add: n1 n2)
  moreover have "set (n1 @ n2) \<subseteq> set (r # rs)" using n1(2) n2(2) by auto
  ultimately show ?case by blast
qed

lemma fold_insert_skip_full:
  assumes "\<forall>r \<in> set rs. \<exists>a \<in> set as. la_merchant a = la_merchant r \<and> la_code a = la_code r \<and> la_currency a = la_currency r"
  shows "fold insert_account_skip rs as = as"
  using assms by (induction rs) (auto simp: insert_account_skip_def)

text \<open>Provisioning appends accounts of a merchant that has no transactions, and nothing else.\<close>

definition provision_step :: "string \<Rightarrow> 'a ledger_world_scheme \<Rightarrow> 'a ledger_world_scheme \<Rightarrow> bool" where
  "provision_step m w w' \<longleftrightarrow>
     (\<exists>rs. (\<forall>r \<in> set rs. la_merchant r = m \<and> la_side r = expected_side (la_code r)) \<and>
        ledger_accounts w' = fold insert_account_skip rs (ledger_accounts w)) \<and>
     ledger_transactions w' = ledger_transactions w \<and> ledger_entries w' = ledger_entries w \<and>
     ledger_world.more w' = ledger_world.more w"

lemma provision_step_keeps_wf:
  assumes wf: "ledger_wf w" and step: "provision_step m w w'"
  shows "ledger_wf w'"
proof -
  from step obtain rs where rs: "\<forall>r \<in> set rs. la_merchant r = m \<and> la_side r = expected_side (la_code r)"
    and acc: "ledger_accounts w' = fold insert_account_skip rs (ledger_accounts w)"
    and ts: "ledger_transactions w' = ledger_transactions w" and es: "ledger_entries w' = ledger_entries w"
    by (auto simp: provision_step_def)
  have awf: "accounts_wf (ledger_accounts w)" using wf by (simp add: ledger_wf_def)
  obtain new where new: "ledger_accounts w' = ledger_accounts w @ new" "set new \<subseteq> set rs"
    using fold_insert_skip_appends[of rs "ledger_accounts w"] acc by auto
  have fresh: "la_merchant a \<noteq> lt_merchant t"
    if t: "t \<in> set (ledger_transactions w)" and a: "a \<in> set new" for t a
  proof
    assume eq: "la_merchant a = lt_merchant t"
    have m: "lt_merchant t = m" using a new(2) rs eq by auto
    have "length (filter (\<lambda>a. la_merchant a = m) (ledger_accounts w)) = 8"
      using ledger_assert_facts[OF wf t] m by (simp add: merchant_accounts_def)
    from full_chart[OF awf this] rs have "fold insert_account_skip rs (ledger_accounts w) = ledger_accounts w"
      by (intro fold_insert_skip_full) metis
    with acc new(1) a show False by simp
  qed
  have "accounts_wf (ledger_accounts w')" unfolding acc using awf rs by (simp add: fold_insert_skip_wf)
  moreover have "\<forall>t \<in> set (ledger_transactions w'). ledger_assert w' (lt_id t) = None"
  proof
    fix t assume "t \<in> set (ledger_transactions w')"
    with wf fresh ts es new(1) show "ledger_assert w' (lt_id t) = None"
      by (intro ledger_assert_extend[of w' w new "[]" "[]" t]) (auto simp: ledger_wf_def transactions_wf_def)
  qed
  ultimately show ?thesis using wf by (simp add: ledger_wf_def ts es)
qed

lemma map_comp_all:
  assumes "map_comp f xs w = (Inr ys, w')" and "\<And>x w y w'. x \<in> set xs \<Longrightarrow> f x w = (Inr y, w') \<Longrightarrow> P y \<and> quiet w w'"
  shows "(\<forall>y \<in> set ys. P y) \<and> quiet w w' \<and> length ys = length xs"
  using assms
proof (induction xs arbitrary: w ys)
  case Nil
  then show ?case by (simp add: ok_def)
next
  case (Cons x xs)
  from Cons.prems(1) obtain y w1 ys' where s: "f x w = (Inr y, w1)" "map_comp f xs w1 = (Inr ys', w')" "ys = y # ys'"
    by (auto simp: comp_simps)
  from Cons.prems(2)[OF _ s(1)] have "P y" "quiet w w1" by auto
  moreover have "(\<forall>y \<in> set ys'. P y) \<and> quiet w1 w' \<and> length ys' = length xs"
    using s(2) by (rule Cons.IH) (rule Cons.prems(2), simp_all)
  ultimately show ?case using s(3) by (auto intro: quiet_trans)
qed

lemma provision_accounts_Inr:
  fixes w :: "'a ledger_world_scheme"
  assumes "provision_accounts E m w = (Inr r, w')"
  shows "provision_step m w w' \<and> txn_now w' = txn_now w \<and> is_uuid 5 m \<and> length (fst r) = 8"
proof -
  let ?mk = "\<lambda>(cur, code, side). bindc (new_uuid E) (\<lambda>u.
              ok \<lparr>la_id = u, la_merchant = m, la_code = code, la_currency = cur, la_side = side\<rparr>) :: ('a ledger_world_scheme, error, ledger_account_row) comp"
  from assms obtain accounts w1 persisted where
    v: "assert_identity m = Inr ()" and
    mk: "map_comp ?mk (List.product ledger_currencies account_definitions) w = (Inr accounts, w1)" and
    p: "repo_provision_accounts E accounts w1 = (Inr persisted, w')" and
    n: "length persisted = 8" "r = (persisted, m)"
    unfolding provision_accounts_def by (clarsimp simp: comp_simps split: if_splits)
  have "(\<forall>y \<in> set accounts. la_merchant y = m \<and> la_side y = expected_side (la_code y)) \<and> quiet w w1 \<and>
      length accounts = length (List.product ledger_currencies account_definitions)"
    by (rule map_comp_all[OF mk])
      (auto simp: comp_simps account_definitions_def expected_side_def ledger_currencies_def)
  moreover from p have "w' = (bump (bump w1))\<lparr>ledger_accounts := fold insert_account_skip accounts (ledger_accounts w1)\<rparr>"
    unfolding repo_provision_accounts_def
    by (auto simp: comp_simps bump_def Let_def split: list.splits if_splits)
  ultimately show ?thesis
    using v n same_db_ledger[of w w1]
    by (auto simp: provision_step_def quiet_def assert_identity_def intro!: exI[of _ accounts] split: if_splits)
qed

section \<open>The steps of the ledger\<close>

text \<open>
  One committed effect: a provisioning or a sound, accepted posting. Every operation of the service is
  one when it returns, and none when it throws.
\<close>

inductive ledger_change :: "'a ledger_world_scheme \<Rightarrow> 'a ledger_world_scheme \<Rightarrow> bool" where
  change_provision: "provision_step m w w' \<Longrightarrow> ledger_change w w'"
| change_posting: "posting_made inp w w' \<Longrightarrow> posting_sound inp w \<Longrightarrow> ledger_change w w'"

inductive_cases ledger_changeE: "ledger_change w w'"

lemma ledger_change_keeps_wf: "ledger_change w w' \<Longrightarrow> ledger_wf w \<Longrightarrow> ledger_wf w'"
  by (induction rule: ledger_change.induct)
    (auto simp: posting_made_def intro: provision_step_keeps_wf posting_step_keeps_wf)

definition ledger_extends :: "'a ledger_world_scheme \<Rightarrow> 'a ledger_world_scheme \<Rightarrow> bool" where
  "ledger_extends w w' \<longleftrightarrow> prefix (ledger_accounts w) (ledger_accounts w') \<and>
     prefix (ledger_transactions w) (ledger_transactions w') \<and>
     prefix (ledger_entries w) (ledger_entries w')"

lemma ledger_extends_same_db: "same_db w w' \<Longrightarrow> ledger_extends w w'"
  by (drule same_db_ledger) (simp add: ledger_extends_def)

lemma ledger_extends_trans: "ledger_extends w w' \<Longrightarrow> ledger_extends w' w'' \<Longrightarrow> ledger_extends w w''"
  by (auto simp: ledger_extends_def intro: prefix_order.trans)

lemma ledger_change_extends: "ledger_change w w' \<Longrightarrow> ledger_extends w w'"
proof (erule ledger_changeE)
  fix m assume "provision_step m w w'"
  then show ?thesis
    using fold_insert_skip_appends unfolding provision_step_def ledger_extends_def prefix_def by fastforce
next
  fix inp assume "posting_made inp w w'"
  then show ?thesis by (simp add: posting_made_def posting_step_def ledger_extends_def)
qed

text \<open>A change never trips the deferred trigger at commit.\<close>

lemma ledger_change_deferred:
  assumes "ledger_change w0 w'" and "ledger_wf w0"
  shows "ledger_deferred w w' = None"
proof -
  have wf: "ledger_wf w'" using assms by (rule ledger_change_keeps_wf)
  then have t: "\<forall>t \<in> set (ledger_transactions w'). ledger_assert w' (lt_id t) = None"
    and e: "\<forall>e \<in> set (ledger_entries w'). er_tx e \<in> lt_id ` set (ledger_transactions w')"
    by (simp_all add: ledger_wf_def entries_wf_def)
  then have "\<forall>e \<in> set (ledger_entries w'). ledger_assert w' (er_tx e) = None"
    by (metis imageE)
  with t show ?thesis by (auto simp: ledger_deferred_def first_violation_None)
qed

text \<open>The calls of \<open>LedgerService\<close>, results forgotten.\<close>

datatype ledger_call =
    Provision string
  | Post_capture money_command
  | Post_refund money_command
  | Post_settlement settlement_command
  | Reverse reverse_command

definition forget :: "('s, 'e, 'a) comp \<Rightarrow> ('s, 'e, unit) comp" where
  "forget m = bindc m (\<lambda>_. ok ())"

lemma forget_Inr [comp_simps]: "forget m w = (Inr u, w') \<longleftrightarrow> (\<exists>x. m w = (Inr x, w'))"
  by (simp add: forget_def comp_simps)

lemma forget_Inl [comp_simps]: "forget m w = (Inl e, w') \<longleftrightarrow> m w = (Inl e, w')"
  by (simp add: forget_def comp_simps)

fun ledger_call_body :: "env \<Rightarrow> ledger_call \<Rightarrow> ('a ledger_world_scheme, error, unit) comp" where
  "ledger_call_body E (Provision m) = forget (provision_accounts E m)"
| "ledger_call_body E (Post_capture c) = forget (post_capture E c)"
| "ledger_call_body E (Post_refund c) = forget (post_refund E c)"
| "ledger_call_body E (Post_settlement c) = forget (post_settlement E c)"
| "ledger_call_body E (Reverse c) = forget (reverse_posting E c)"

lemma ledger_call_change:
  assumes "ledger_call_body E call w = (Inr u, w')" and "ledger_wf w"
  shows "ledger_change w w'"
proof (cases call)
  case (Provision m)
  with assms(1) obtain r where "provision_accounts E m w = (Inr r, w')" by (auto simp: comp_simps)
  from provision_accounts_Inr[OF this] show ?thesis by (blast intro: change_provision)
next
  case (Post_capture c)
  with assms(1) obtain r where "ledger_post E c Capture w = (Inr r, w')"
    by (auto simp: comp_simps post_capture_def)
  from ledger_post_Inr[OF this] show ?thesis
    by (auto intro: change_posting posting_of_money_sound)
next
  case (Post_refund c)
  with assms(1) obtain r where "ledger_post E c Refund w = (Inr r, w')"
    by (auto simp: comp_simps post_refund_def)
  from ledger_post_Inr[OF this] show ?thesis
    by (auto intro: change_posting posting_of_money_sound)
next
  case (Post_settlement c)
  with assms(1) obtain r i where "post_settlement E c w = (Inr (r, i), w')" by (auto simp: comp_simps)
  from post_settlement_Inr[OF this] show ?thesis
    by (auto intro: change_posting posting_of_settlement_sound)
next
  case (Reverse c)
  with assms(1) obtain r where "reverse_posting E c w = (Inr r, w')" by (auto simp: comp_simps)
  from reverse_posting_Inr[OF this] assms(2) show ?thesis
    by (auto intro: change_posting posting_of_reversal_sound)
qed

text \<open>The laws of \<open>transactional\<close> hold for every call.\<close>

interpretation ledger_tx: transactional ledger_wf "ledger_call_body E call" for E call
  by unfold_locales (auto intro: ledger_wf_db ledger_change_keeps_wf ledger_call_change)

text \<open>
  A run of the ledger: calls, each in a transaction of its own that any outage may abort, interleaved
  with whatever leaves the database as it is.
\<close>

definition empty_ledger :: "'a ledger_world_scheme \<Rightarrow> bool" where
  "empty_ledger w \<longleftrightarrow> ledger_accounts w = [] \<and> ledger_transactions w = [] \<and> ledger_entries w = []"

inductive ledger_run :: "env \<Rightarrow> 'a ledger_world_scheme \<Rightarrow> 'a ledger_world_scheme \<Rightarrow> bool" for E where
  run_start: "ledger_run E w w"
| run_call: "ledger_run E w w' \<Longrightarrow> transaction E ledger_deferred (ledger_call_body E call) w' = (r, w'') \<Longrightarrow>
    ledger_run E w w''"
| run_other: "ledger_run E w w' \<Longrightarrow> same_db w' w'' \<Longrightarrow> ledger_run E w w''"

lemma empty_ledger_wf: "empty_ledger w \<Longrightarrow> ledger_wf w"
  by (simp add: empty_ledger_def ledger_wf_def wf_parts)

lemma ledger_run_wf: "ledger_run E w w' \<Longrightarrow> ledger_wf w \<Longrightarrow> ledger_wf w'"
proof (induction rule: ledger_run.induct)
  case (run_call w w' call r w'')
  then show ?case by (blast intro: ledger_tx.transaction_keeps)
next
  case (run_other w w' w'')
  then show ?case by (blast intro: ledger_tx.inv_same_db)
qed simp

lemma ledger_run_extends:
  assumes "ledger_run E w w'" and "ledger_wf w"
  shows "ledger_extends w w'"
  using assms
proof (induction rule: ledger_run.induct)
  case (run_start w)
  then show ?case by (simp add: ledger_extends_same_db)
next
  case (run_call w w' call r w'')
  have wf: "ledger_wf w'" using run_call by (blast intro: ledger_run_wf)
  consider "same_db w' w''" | x v where "ledger_call_body E call (begin_txn E w') = (Inr x, v)" "w'' = bump v"
    using transaction_atomic[OF run_call.hyps(2)] by blast
  then have "ledger_extends w' w''"
  proof cases
    case 1
    then show ?thesis by (rule ledger_extends_same_db)
  next
    case 2
    have "ledger_wf (begin_txn E w')" using wf by (rule ledger_tx.inv_same_db) simp
    from ledger_change_extends[OF ledger_call_change[OF 2(1) this]]
    show ?thesis unfolding 2(2)
      by (meson ledger_extends_same_db ledger_extends_trans same_db_begin same_db_bump(1))
  qed
  with run_call show ?case by (blast intro: ledger_extends_trans)
next
  case (run_other w w' w'')
  then show ?case by (blast intro: ledger_extends_trans ledger_extends_same_db)
qed

end
