(* ===== verification/Ledger_Balance.thy ===== *)
theory Ledger_Balance imports Ledger_Reach begin

text \<open>
  Account balances: what each posting does to them, the trial balance, and what a reversal undoes.
\<close>

section \<open>Balances\<close>

definition signed_amount :: "ledger_entry_row \<Rightarrow> int" where
  "signed_amount e = (if er_side e = Debit then er_amount e else - er_amount e)"

definition on_account :: "'a ledger_world_scheme \<Rightarrow> string \<Rightarrow> account_code \<Rightarrow> currency \<Rightarrow> ledger_entry_row \<Rightarrow> bool" where
  "on_account w m c cur e \<longleftrightarrow>
     (case List.find (\<lambda>a. la_id a = er_account e) (ledger_accounts w) of
        None \<Rightarrow> False
      | Some a \<Rightarrow> la_merchant a = m \<and> la_code a = c \<and> la_currency a = cur)"

text \<open>Debits minus credits of the merchant's account of a code in a currency.\<close>

definition account_balance :: "'a ledger_world_scheme \<Rightarrow> string \<Rightarrow> account_code \<Rightarrow> currency \<Rightarrow> int" where
  "account_balance w m c cur =
     (\<Sum>e\<leftarrow>ledger_entries w. if on_account w m c cur e then signed_amount e else 0)"

lemma account_balance_same_db: "same_db w w' \<Longrightarrow> account_balance w' = account_balance w"
  by (intro ext) (drule same_db_ledger, simp add: account_balance_def on_account_def)

lemma on_account_posting_row:
  assumes wf: "accounts_wf (ledger_accounts w)"
    and chart: "\<not> chart_refused (merchant_accounts w (cp_merchant inp)) inp"
    and e: "e \<in> set (cp_entries inp)"
  shows "on_account w m c cur
      (entry_row_of inp (account_ids (merchant_accounts w (cp_merchant inp)) (cp_currency inp)) e) \<longleftrightarrow>
    m = cp_merchant inp \<and> c = le_account e \<and> cur = cp_currency inp"
proof -
  from chart e obtain i where i: "account_ids (merchant_accounts w (cp_merchant inp)) (cp_currency inp) (le_account e) = Some i"
    by (auto simp: chart_refused_def list_ex_iff)
  from account_ids_Some[OF i] obtain a where a: "a \<in> set (ledger_accounts w)" "la_merchant a = cp_merchant inp"
    "la_currency a = cp_currency inp" "la_code a = le_account e" "la_id a = i"
    by (auto simp: merchant_accounts_def)
  from wf have "distinct (map la_id (ledger_accounts w))" by (simp add: accounts_wf_def)
  from find_key[OF this a(1)] a have "List.find (\<lambda>x. la_id x = i) (ledger_accounts w) = Some a" by simp
  with a i show ?thesis by (auto simp: on_account_def entry_row_of_def)
qed

lemma signed_row: "signed_amount (entry_row_of inp ids e) =
    (if le_side e = Debit then le_amount e else - le_amount e)"
  by (simp add: signed_amount_def entry_row_of_def)

lemma sum_list_map_cong: "(\<And>x. x \<in> set xs \<Longrightarrow> f x = g x) \<Longrightarrow> sum_list (map f xs) = sum_list (map g xs)"
  by (metis map_cong)

lemma sum_list_zero: "(\<And>x. x \<in> set xs \<Longrightarrow> f x = (0::int)) \<Longrightarrow> sum_list (map f xs) = 0"
  by (induction xs) auto

text \<open>A posting moves exactly its own merchant's accounts of its own currency.\<close>

lemma posting_balance:
  assumes wf: "ledger_wf w" and made: "posting_made inp w w'"
  shows "account_balance w' m c cur = account_balance w m c cur +
    (if m = cp_merchant inp \<and> cur = cp_currency inp
     then net_effect c (map ledger_entry.truncate (cp_entries inp)) else 0)"
proof -
  let ?row = "entry_row_of inp (account_ids (merchant_accounts w (cp_merchant inp)) (cp_currency inp))"
  have acc: "ledger_accounts w' = ledger_accounts w"
    and es: "ledger_entries w' = ledger_entries w @ map ?row (cp_entries inp)"
    and chart: "\<not> chart_refused (merchant_accounts w (cp_merchant inp)) inp"
    using made by (simp_all add: posting_made_def posting_step_def posting_rows_def posting_accepted_def)
  have awf: "accounts_wf (ledger_accounts w)" using wf by (simp add: ledger_wf_def)
  have on: "on_account w' = on_account w" by (intro ext) (simp add: on_account_def acc)
  have "(\<Sum>e\<leftarrow>map ?row (cp_entries inp). if on_account w m c cur e then signed_amount e else 0) =
      (\<Sum>e\<leftarrow>cp_entries inp. if m = cp_merchant inp \<and> cur = cp_currency inp \<and> c = le_account e
         then (if le_side e = Debit then le_amount e else - le_amount e) else 0)"
    unfolding map_map comp_def
    by (rule sum_list_map_cong)
      (simp add: on_account_posting_row[OF awf chart] signed_row)
  also have "\<dots> = (if m = cp_merchant inp \<and> cur = cp_currency inp
     then net_effect c (map ledger_entry.truncate (cp_entries inp)) else 0)"
    unfolding net_effect_def map_map comp_def
    by (auto simp: ledger_entry.truncate_def intro!: sum_list_map_cong sum_list_zero)
  finally show ?thesis by (simp add: account_balance_def es on)
qed

text \<open>What a capture or a refund of an amount moves on each account.\<close>

definition payment_effect :: "business_type \<Rightarrow> int \<Rightarrow> account_code \<Rightarrow> int" where
  "payment_effect bt a c =
     (if c = Provider_clearing then (if bt = Capture then a else - a)
      else if c = Merchant_payable then (if bt = Capture then - a else a) else 0)"

lemma money_entries_effect:
  "money_entries bt command = Inr es \<Longrightarrow> net_effect c es = payment_effect bt (mc_amount command) c"
  by (cases c) (auto simp: money_entries_def build_capture_entries_def build_refund_entries_def comp_simps
      net_effect_def payment_effect_def split: if_splits)

section \<open>The trial balance\<close>

lemma sum_list_pick:
  assumes "distinct (map k ts)" and "x \<in> k ` set ts"
  shows "(\<Sum>t\<leftarrow>ts. if k t = x then v else 0) = (v::int)"
  using assms
proof (induction ts)
  case Nil
  then show ?case by simp
next
  case (Cons t ts)
  show ?case
  proof (cases "k t = x")
    case True
    with Cons.prems(1) have "\<forall>u \<in> set ts. k u \<noteq> x" by (simp add: image_iff) metis
    then have "(\<Sum>t\<leftarrow>ts. if k t = x then v else 0) = 0" by (intro sum_list_zero) auto
    with True show ?thesis by simp
  next
    case False
    with Cons show ?thesis by auto
  qed
qed

lemma sum_list_group:
  assumes "distinct (map k ts)" and "\<forall>e \<in> set es. g e \<in> k ` set ts"
  shows "(\<Sum>e\<leftarrow>es. f e) = (\<Sum>t\<leftarrow>ts. \<Sum>e\<leftarrow>filter (\<lambda>e. g e = k t) es. (f e :: int))"
  using assms(2)
proof (induction es)
  case Nil
  then show ?case by (simp add: sum_list_zero)
next
  case (Cons e es)
  have "(\<Sum>t\<leftarrow>ts. \<Sum>e\<leftarrow>filter (\<lambda>e. g e = k t) (e # es). f e) =
      (\<Sum>t\<leftarrow>ts. (if k t = g e then f e else 0) + (\<Sum>e\<leftarrow>filter (\<lambda>e. g e = k t) es. f e))"
    by (rule sum_list_map_cong) auto
  also have "\<dots> = (\<Sum>t\<leftarrow>ts. if k t = g e then f e else 0) + (\<Sum>t\<leftarrow>ts. \<Sum>e\<leftarrow>filter (\<lambda>e. g e = k t) es. f e)"
    by (rule sum_list_addf)
  also have "\<dots> = f e + (\<Sum>e\<leftarrow>es. f e)"
    using Cons sum_list_pick[OF assms(1)] by simp
  finally show ?case by simp
qed

definition all_codes :: "account_code list" where
  "all_codes = [Fee_revenue, Merchant_payable, Provider_clearing, Settlement_clearing]"

lemma sum_signed: "(\<Sum>e\<leftarrow>es. signed_amount e) = row_total Debit es - row_total Credit es"
proof (induction es)
  case Nil
  then show ?case by (simp add: row_total_def)
next
  case (Cons e es)
  then show ?case by (cases "er_side e") (simp_all add: row_total_def signed_amount_def)
qed

lemma ledger_trial_balance:
  assumes wf: "ledger_wf w"
  shows "(\<Sum>c\<leftarrow>all_codes. account_balance w m c cur) = 0"
proof -
  let ?in = "\<lambda>e. er_merchant e = m \<and> er_currency e = cur"
  have on: "(\<Sum>c\<leftarrow>all_codes. if on_account w m c cur e then signed_amount e else 0) =
      (if ?in e then signed_amount e else 0)" if e: "e \<in> set (ledger_entries w)" for e
  proof -
    obtain t where t: "t \<in> set (ledger_transactions w)" "er_tx e = lt_id t"
      using wf e by (auto simp: ledger_wf_def entries_wf_def)
    have "e \<in> set (tx_entries w (lt_id t))" using e t by (simp add: tx_entries_def)
    then have "entry_consistent w t e"
      using ledger_assert_facts[OF wf t(1)] unfolding list_all_iff by blast
    then obtain a where "List.find (\<lambda>a. la_id a = er_account e) (ledger_accounts w) = Some a"
      "la_merchant a = er_merchant e" "la_currency a = er_currency e"
      by (auto simp: entry_consistent_def split: option.splits)
    then show ?thesis by (cases "la_code a") (auto simp: on_account_def all_codes_def)
  qed
  have "(\<Sum>c\<leftarrow>all_codes. account_balance w m c cur) =
      (\<Sum>e\<leftarrow>ledger_entries w. \<Sum>c\<leftarrow>all_codes. if on_account w m c cur e then signed_amount e else 0)"
    by (simp add: all_codes_def account_balance_def sum_list_addf)
  also have "\<dots> = (\<Sum>e\<leftarrow>ledger_entries w. if ?in e then signed_amount e else 0)"
    by (rule sum_list_map_cong) (rule on)
  also have "\<dots> = (\<Sum>t\<leftarrow>ledger_transactions w. \<Sum>e\<leftarrow>filter (\<lambda>e. er_tx e = lt_id t) (ledger_entries w).
      if ?in e then signed_amount e else 0)"
    using wf by (intro sum_list_group) (simp_all add: ledger_wf_def transactions_wf_def entries_wf_def)
  also have "\<dots> = 0"
  proof (rule sum_list_zero)
    fix t assume t: "t \<in> set (ledger_transactions w)"
    note f = ledger_assert_facts[OF wf t]
    then have "\<forall>e \<in> set (tx_entries w (lt_id t)). ?in e \<longleftrightarrow> lt_merchant t = m \<and> lt_currency t = cur"
      by (auto simp: list_all_iff entry_consistent_def)
    then have "(\<Sum>e\<leftarrow>tx_entries w (lt_id t). if ?in e then signed_amount e else 0) =
        (\<Sum>e\<leftarrow>tx_entries w (lt_id t). if lt_merchant t = m \<and> lt_currency t = cur then signed_amount e else 0)"
      by (intro sum_list_map_cong) simp
    also have "\<dots> = 0"
    proof (cases "lt_merchant t = m \<and> lt_currency t = cur")
      case True
      with f sum_signed[of "tx_entries w (lt_id t)"] show ?thesis by simp
    next
      case False
      then show ?thesis by (intro sum_list_zero) auto
    qed
    finally show "(\<Sum>e\<leftarrow>filter (\<lambda>e. er_tx e = lt_id t) (ledger_entries w). if ?in e then signed_amount e else 0) = 0"
      by (simp add: tx_entries_def)
  qed
  finally show ?thesis .
qed

section \<open>What a reversal undoes\<close>

text \<open>The contribution of one transaction to the balance of an account.\<close>

definition tx_contribution :: "'a ledger_world_scheme \<Rightarrow> ledger_tx_row \<Rightarrow> account_code \<Rightarrow> int" where
  "tx_contribution w t c =
     (\<Sum>e\<leftarrow>tx_entries w (lt_id t). if on_account w (lt_merchant t) c (lt_currency t) e then signed_amount e else 0)"

lemma sum_list_sort: "sum_list (map f (sort_key k xs)) = (sum_list (map f xs) :: int)"
proof -
  have "sum_list (map f (insort_key k x xs)) = f x + sum_list (map f xs)" for x xs
    by (induction xs) auto
  then show ?thesis by (induction xs) auto
qed

lemma reversal_source_effect:
  assumes wf: "ledger_wf w" and t: "t \<in> set (ledger_transactions w)" and src: "reversal_source w t es"
  shows "net_effect c es = tx_contribution w t c"
proof -
  let ?rows = "tx_entries w (lt_id t)"
  note rows = reversal_source_rows[OF assms]
  have cons: "entry_consistent w t r" if "r \<in> set ?rows" for r
    using ledger_assert_facts[OF wf t] that unfolding list_all_iff by blast
  have len: "length es = length (sort_key er_seq ?rows)" using map_sum_list_length[OF rows] .
  have "map (\<lambda>e. if le_account e = c then (if le_side e = Debit then le_amount e else - le_amount e) else 0) es =
      map (\<lambda>e. if on_account w (lt_merchant t) c (lt_currency t) e then signed_amount e else 0) (sort_key er_seq ?rows)"
  proof (rule nth_equalityI)
    fix i
    assume "i < length (map (\<lambda>e. if le_account e = c then (if le_side e = Debit then le_amount e else - le_amount e) else 0) es)"
    then have i: "i < length es" "i < length (sort_key er_seq ?rows)" using len by simp_all
    define x where "x = sort_key er_seq ?rows ! i"
    from map_sum_list_nth[OF rows i(2), folded x_def] obtain a where
      a: "List.find (\<lambda>a. la_id a = er_account x) (ledger_accounts w) = Some a" and
      e: "es ! i = \<lparr>le_account = la_code a, le_amount = er_amount x, le_currency = er_currency x,
          le_seq = er_seq x, le_side = er_side x\<rparr>"
      by (auto simp: entry_of_row_Inr)
    have "x \<in> set ?rows" using nth_mem[OF i(2)] by (simp add: x_def)
    from cons[OF this] a have "la_merchant a = lt_merchant t" "la_currency a = lt_currency t"
      by (simp_all add: entry_consistent_def)
    with a have "on_account w (lt_merchant t) c (lt_currency t) x \<longleftrightarrow> la_code a = c"
      by (simp add: on_account_def)
    then show "map (\<lambda>e. if le_account e = c then (if le_side e = Debit then le_amount e else - le_amount e) else 0) es ! i =
      map (\<lambda>e. if on_account w (lt_merchant t) c (lt_currency t) e then signed_amount e else 0) (sort_key er_seq ?rows) ! i"
      using i e by (simp add: x_def[symmetric] signed_amount_def)
  qed (simp add: len)
  then show ?thesis by (simp add: net_effect_def tx_contribution_def sum_list_sort)
qed

lemma reversal_balance:
  assumes wf: "ledger_wf w" and p: "posting_of_reversal w command t inp" and made: "posting_made inp w w'"
  shows "account_balance w' m c cur = account_balance w m c cur -
    (if m = lt_merchant t \<and> cur = lt_currency t then tx_contribution w t c else 0)"
proof -
  from p obtain es where t: "t \<in> set (ledger_transactions w)" and src: "reversal_source w t es"
    and flip: "build_reversal_entries es = Inr (map ledger_entry.truncate (cp_entries inp))"
    and inp: "cp_merchant inp = lt_merchant t" "cp_currency inp = lt_currency t"
    unfolding posting_of_reversal_def by auto
  show ?thesis
    using posting_balance[OF wf made] reversal_net_effect[OF flip] reversal_source_effect[OF wf t src] inp
    by simp
qed

text \<open>A well-formed ledger reverses no transaction twice and no reversal at all.\<close>

lemma reversed_once:
  assumes wf: "ledger_wf w" and r: "r \<in> set (ledger_transactions w)" "r' \<in> set (ledger_transactions w)"
    and "lt_reversal_of r = Some i" and "lt_reversal_of r' = Some i"
  shows "r = r'"
proof -
  have "distinct (filter (\<lambda>x. x \<noteq> None) (map lt_reversal_of (ledger_transactions w)))"
    using wf by (simp add: ledger_wf_def transactions_wf_def)
  then have "distinct (map lt_reversal_of (filter (\<lambda>t. lt_reversal_of t \<noteq> None) (ledger_transactions w)))"
    by (simp add: filter_map comp_def)
  from distinct_key_eq[OF this] assms show ?thesis by simp
qed

lemma reversal_target:
  assumes wf: "ledger_wf w" and r: "r \<in> set (ledger_transactions w)" and "lt_reversal_of r = Some i"
  shows "\<exists>t \<in> set (ledger_transactions w). lt_id t = i \<and> lt_type t \<noteq> Reversal \<and>
    lt_merchant t = lt_merchant r \<and> lt_currency t = lt_currency r"
proof -
  have "lt_type r = Reversal" using assms by (auto simp: ledger_wf_def transactions_wf_def)
  then have "reversal_assert w r (tx_entries w (lt_id r)) = None" using ledger_assert_facts[OF wf r] by simp
  then show ?thesis using assms(3)
    by (auto simp: reversal_assert_def dest!: find_Some_in split: option.splits if_splits)
qed

end
