(* ===== verification/Ledger_Live.thy ===== *)
theory Ledger_Live imports Ledger_Balance begin

text \<open>
  The ledger does not refuse what it should accept: the service's validation implies the table's
  checks, and a valid command of a provisioned merchant is posted when the database has no outage and
  the generated identifiers are fresh.
\<close>

section \<open>Validation implies the table's checks\<close>

lemma code_points_control:
  "list_ex (\<lambda>c. c \<le> 31 \<or> c = 127) (code_points us) \<longleftrightarrow> list_ex (\<lambda>c. c \<le> 31 \<or> c = 127) us"
  by (induction us rule: code_points.induct) (auto simp: is_high_def is_low_def)

lemma code_points_nonempty: "us \<noteq> [] \<Longrightarrow> code_points us \<noteq> []"
  by (cases us rule: code_points.cases) auto

lemma js_trim_id:
  assumes "js_trim s = s" and "s \<noteq> []"
  shows "\<not> is_js_space (hd s) \<and> \<not> is_js_space (last s)"
proof -
  have le: "length (dropWhile p xs) \<le> length xs" for p and xs :: "nat list" by (induction xs) auto
  let ?l = "dropWhile is_js_space s"
  have "length s = length (dropWhile is_js_space (rev ?l))"
    using assms(1) by (metis js_trim_def length_rev)
  then have l1: "length s \<le> length ?l" using le[of is_js_space "rev ?l"] by simp
  have hd: "\<not> is_js_space (hd s)"
  proof
    assume "is_js_space (hd s)"
    then have "?l = dropWhile is_js_space (tl s)" using assms(2) by (cases s) auto
    then have "length ?l \<le> length (tl s)" using le[of is_js_space "tl s"] by simp
    with l1 assms(2) show False by (cases s) auto
  qed
  then have "?l = s" using assms(2) by (cases s) auto
  with assms(1) have r: "dropWhile is_js_space (rev s) = rev s" unfolding js_trim_def by (metis rev_rev_ident)
  have "\<not> is_js_space (last s)"
  proof
    assume "is_js_space (last s)"
    moreover have "rev s = last s # rev (butlast s)" using assms(2) by (metis append_butlast_last_id rev_eq_Cons_iff rev_rev_ident)
    ultimately have "dropWhile is_js_space (rev s) = dropWhile is_js_space (rev (butlast s))"
      by (simp only: dropWhile.simps if_True)
    then have "length (rev s) \<le> length (butlast s)" using r le[of is_js_space "rev (butlast s)"] by simp
    then show False using assms(2) by (cases "length s") auto
  qed
  with hd show ?thesis by simp
qed

text \<open>
  A character that the service lets through, \<open>contains_control_character\<close> stopping at \<open>U+007F\<close>, and that the
  table's \<open>[[:cntrl:]]\<close> refuses.
\<close>

definition has_c1_control :: "ustring \<Rightarrow> bool" where
  "has_c1_control s = list_ex (\<lambda>u. 128 \<le> u \<and> u \<le> 159) s"

lemma cntrl_split: "list_ex posix_cntrl s \<longleftrightarrow> list_ex (\<lambda>c. c \<le> 31 \<or> c = 127) s \<or> has_c1_control s"
  unfolding has_c1_control_def by (induction s) (auto simp: posix_cntrl_def)

lemma service_reference_accepted:
  assumes v: "assert_common_command command = Inr u"
    and c1: "\<not> has_c1_control (mc_reference command)"
    and r: "lt_reference r = mc_reference command" "lt_request r = mc_request command"
    and p: "has_ulid_prefix ''ltx'' (lt_public_id r)"
    and s: "lt_type r = Reversal \<longleftrightarrow> lt_reversal_of r \<noteq> None"
  shows "ledger_tx_check r = None"
proof -
  let ?s = "mc_reference command"
  from v have c: "?s \<noteq> []" "length ?s \<le> 255" "js_trim ?s = ?s" "\<not> contains_control_character ?s"
    "is_request_id (mc_request command)"
    by (auto simp: assert_common_command_def comp_simps split: if_splits)
  then have ne: "?s \<noteq> []" by auto
  have sp: "\<not> is_js_space (hd ?s)" "\<not> is_js_space (last ?s)" using js_trim_id[OF c(3) ne] by auto
  have "1 \<le> length (code_points ?s)" using code_points_nonempty[OF ne] by (cases "code_points ?s") auto
  moreover have "length (code_points ?s) \<le> 255" using length_code_points_le[of ?s] c(2) by simp
  moreover have "\<not> list_ex posix_cntrl ?s"
    using c(4) c1 unfolding cntrl_split contains_control_character_def code_points_control by blast
  ultimately show ?thesis
    using sp c(5) p s unfolding ledger_tx_check_def r is_js_space_def posix_space_def by simp
qed

lemma control_reference_refused:
  assumes "has_c1_control (lt_reference r)" and "has_ulid_prefix ''ltx'' (lt_public_id r)"
  shows "ledger_tx_check r = Some ''ledger_transactions_business_reference_check''"
  using assms by (simp add: ledger_tx_check_def cntrl_split)

section \<open>Valid commands are posted\<close>

text \<open>
  No outage from now on, and the identifier sources produce well-formed values that no row has.
\<close>

definition calm :: "env \<Rightarrow> bool" where
  "calm E \<longleftrightarrow> (\<forall>n. env_fault E n = None) \<and> (\<forall>n. env_commit E n = Committed)"

definition fresh_ids :: "env \<Rightarrow> 'a ledger_world_scheme \<Rightarrow> bool" where
  "fresh_ids E w \<longleftrightarrow> inj (env_uuid E) \<and> (\<forall>t n. is_ulid (env_ulid E t n)) \<and>
     (\<forall>n \<ge> tick w. env_uuid E n \<notin> er_id ` set (ledger_entries w) \<and>
        env_uuid E n \<notin> lt_id ` set (ledger_transactions w) \<and>
        (\<forall>t. ''ltx_'' @ env_ulid E t n \<notin> lt_public_id ` set (ledger_transactions w)))"

lemma with_entry_ids_ids:
  "with_entry_ids E es w = (Inr ces, w') \<Longrightarrow>
     map ce_id ces = map (env_uuid E) [tick w..<tick w + length es] \<and> tick w' = tick w + length es"
proof (induction es arbitrary: w ces)
  case Nil
  then show ?case by (auto simp: with_entry_ids_def ok_eq)
next
  case (Cons e es)
  from Cons.prems obtain ces' where t: "with_entry_ids E es (bump w) = (Inr ces', w')"
    "ces = ledger_entry.extend e \<lparr>ce_id = env_uuid E (tick w)\<rparr> # ces'"
    by (auto simp: with_entry_ids_def comp_simps)
  from Cons.IH[OF t(1)] t(2) show ?case
    by (simp add: ledger_entry.extend_def upt_conv_Cons del: upt_Suc)
qed

lemma with_entry_ids_total: "\<exists>ces w'. with_entry_ids E es w = (Inr ces, w')"
  by (cases "with_entry_ids E es w") (metis with_entry_ids_eq)

lemma for_each_insert_total:
  assumes "\<forall>r \<in> set rs. \<not> (\<exists>t \<in> set (ledger_transactions w). lt_id t = er_tx r \<and> lt_posted t \<noteq> None) \<and>
      1 \<le> er_seq r \<and> er_seq r \<le> 32767 \<and> 1 \<le> er_amount r \<and> er_amount r \<le> max_ledger_amount"
    and "distinct (map er_id (ledger_entries w @ rs))"
    and "distinct (map (\<lambda>e. (er_tx e, er_seq e)) (ledger_entries w @ rs))"
  shows "for_each insert_ledger_entry rs w = (Inr (), w\<lparr>ledger_entries := ledger_entries w @ rs\<rparr>)"
  using assms
proof (induction rs arbitrary: w)
  case Nil
  then show ?case by (simp add: ok_def)
next
  case (Cons r rs)
  let ?w = "w\<lparr>ledger_entries := ledger_entries w @ [r]\<rparr>"
  have "er_id r \<notin> er_id ` set (ledger_entries w)"
    and "(er_tx r, er_seq r) \<notin> (\<lambda>e. (er_tx e, er_seq e)) ` set (ledger_entries w)"
    using Cons.prems(2,3) by auto
  then have "insert_ledger_entry r w = (Inr (), ?w)"
    using Cons.prems(1) unfolding insert_ledger_entry_Inr by simp
  moreover have "for_each insert_ledger_entry rs ?w = (Inr (), ?w\<lparr>ledger_entries := ledger_entries ?w @ rs\<rparr>)"
    using Cons.prems by (intro Cons.IH) simp_all
  ultimately show ?case by (simp add: bindc_def)
qed

text \<open>What the repository needs of a posting to accept it, when no statement fails.\<close>

lemma repo_create_posting_total:
  assumes calm: "calm E" and acc: "posting_accepted inp w"
    and wf: "ledger_wf w"
  shows "\<exists>res w'. repo_create_posting E inp w = (Inr res, w')"
proof -
  let ?rows = "merchant_accounts w (cp_merchant inp)"
  define w1 where "w1 = bump (bump w)"
  define w2 where "w2 = w1\<lparr>ledger_transactions := ledger_transactions w @ [tx_row_of inp]\<rparr>"
  have nf: "env_fault E n = None" for n using calm by (simp add: calm_def)
  have tx: "insert_ledger_tx (tx_row_of inp) w1 = (Inr (), w2)"
    using acc by (simp add: insert_ledger_tx_Inr posting_accepted_def w1_def w2_def)
  have fresh: "cp_id inp \<notin> lt_id ` set (ledger_transactions w)"
    using acc by (simp add: posting_accepted_def ledger_tx_unique_None tx_row_of_def)
  have "for_each insert_ledger_entry (posting_rows w inp) (bump w2) =
      (Inr (), (bump w2)\<lparr>ledger_entries := ledger_entries (bump w2) @ posting_rows w inp\<rparr>)"
  proof (rule for_each_insert_total)
    have "\<forall>r \<in> set (posting_rows w inp). er_tx r = cp_id inp"
      by (simp add: posting_rows_def entry_row_of_def)
    moreover have "\<not> (\<exists>t \<in> set (ledger_transactions (bump w2)). lt_id t = cp_id inp \<and> lt_posted t \<noteq> None)"
      using fresh by (auto simp: w2_def w1_def tx_row_of_def dest: fresh_key)
    ultimately show "\<forall>r \<in> set (posting_rows w inp). \<not> (\<exists>t \<in> set (ledger_transactions (bump w2)). lt_id t = er_tx r \<and> lt_posted t \<noteq> None) \<and>
      1 \<le> er_seq r \<and> er_seq r \<le> 32767 \<and> 1 \<le> er_amount r \<and> er_amount r \<le> max_ledger_amount"
      using acc unfolding posting_accepted_def by metis
  qed (use acc wf in \<open>simp_all add: posting_accepted_def ledger_wf_def entries_wf_def w2_def w1_def del: map_append\<close>)
  moreover obtain w3 where w3: "w3 = (bump w2)\<lparr>ledger_entries := ledger_entries (bump w2) @ posting_rows w inp\<rparr>"
    by blast
  moreover have "count_where (\<lambda>t. lt_id t = cp_id inp \<and> lt_merchant t = cp_merchant inp \<and> lt_posted t = None)
      (ledger_transactions (bump w3)) > 0"
    by (simp add: w3 w2_def w1_def count_where_def tx_row_of_def)
  ultimately have "\<exists>res w'. create_posting_body E inp w = (Inr res, w')"
    using acc nf tx unfolding create_posting_body_def bindc_Inr stmt_Inr gets_eq require_eq
    by (auto simp: finalize_ledger_tx_def Let_def posting_accepted_def merchant_accounts_def
        posting_rows_def w1_def ok_def intro!: exI split: list.splits)
  then show ?thesis unfolding repo_create_posting_def by (auto simp: catch_Inr)
qed

text \<open>Eight accounts are a complete chart: the repository finds every account it needs.\<close>

lemma full_chart_accepted:
  assumes wf: "accounts_wf (ledger_accounts w)" and eight: "length (merchant_accounts w (cp_merchant inp)) = 8"
  shows "\<not> chart_refused (merchant_accounts w (cp_merchant inp)) inp"
proof -
  let ?rows = "merchant_accounts w (cp_merchant inp)"
  have eight': "length (filter (\<lambda>a. la_merchant a = cp_merchant inp) (ledger_accounts w)) = 8"
    using eight by (simp add: merchant_accounts_def)
  have all: "account_ids ?rows (cp_currency inp) c \<noteq> None" for c
  proof -
    obtain a where a: "a \<in> set (ledger_accounts w)" "la_merchant a = cp_merchant inp" "la_code a = c"
      "la_currency a = cp_currency inp" using full_chart[OF wf eight'] by blast
    from account_ids_unique[OF wf a(1,2,4)] a(3) show ?thesis by simp
  qed
  have "c \<in> set (map la_code (filter (\<lambda>a. la_currency a = cp_currency inp) ?rows))" for c
  proof -
    from all[of c] obtain i where "account_ids ?rows (cp_currency inp) c = Some i" by auto
    from account_ids_Some[OF this] show ?thesis by force
  qed
  then have "set (map la_code (filter (\<lambda>a. la_currency a = cp_currency inp) ?rows)) = UNIV" by blast
  then have "length (remdups (map la_code (filter (\<lambda>a. la_currency a = cp_currency inp) ?rows))) = card (UNIV :: account_code set)"
    by (simp only: length_remdups_card_conv)
  also have "\<dots> = 4" unfolding UNIV_account_code by simp
  finally have "length (remdups (map la_code (filter (\<lambda>a. la_currency a = cp_currency inp) ?rows))) = 4" .
  moreover have "\<forall>a \<in> set ?rows. la_side a = expected_side (la_code a)"
    using wf by (simp add: merchant_accounts_def accounts_wf_def)
  ultimately show ?thesis
    using all eight unfolding chart_refused_def list_ex_iff by metis
qed

text \<open>A posting with fresh identifiers of a provisioned merchant is accepted.\<close>

definition reference_free :: "'a ledger_world_scheme \<Rightarrow> string \<Rightarrow> business_type \<Rightarrow> ustring \<Rightarrow> bool" where
  "reference_free w m bt r \<longleftrightarrow> (m, bt, r) \<notin> tx_key ` set (ledger_transactions w)"

lemma fresh_posting_accepted:
  assumes wf: "ledger_wf w" and eight: "length (merchant_accounts w (cp_merchant inp)) = 8"
    and chk: "ledger_tx_check (tx_row_of inp) = None"
    and wfp: "well_formed_posting (cp_currency inp) (map ledger_entry.truncate (cp_entries inp))"
    and free: "reference_free w (cp_merchant inp) (cp_type inp) (cp_reference inp)"
    and rev: "cp_reversal_of inp \<noteq> None \<longrightarrow> cp_reversal_of inp \<notin> lt_reversal_of ` set (ledger_transactions w)"
    and ids: "cp_id inp \<notin> lt_id ` set (ledger_transactions w)"
      "cp_public_id inp \<notin> lt_public_id ` set (ledger_transactions w)"
      "distinct (map ce_id (cp_entries inp))"
      "\<forall>e \<in> set (cp_entries inp). ce_id e \<notin> er_id ` set (ledger_entries w)"
  shows "posting_accepted inp w"
proof -
  have awf: "accounts_wf (ledger_accounts w)" and ewf: "entries_wf (ledger_transactions w) (ledger_entries w)"
    using wf by (simp_all add: ledger_wf_def)
  have fields: "map er_id (posting_rows w inp) = map ce_id (cp_entries inp)"
    "map (\<lambda>e. (er_tx e, er_seq e)) (posting_rows w inp) = map (Pair (cp_id inp)) (map le_seq (cp_entries inp))"
    by (simp_all add: posting_rows_def entry_row_of_def)
  have "ledger_tx_unique (ledger_transactions w) (tx_row_of inp) = None"
    using ids free rev
    by (simp add: ledger_tx_unique_None tx_row_of_def reference_free_def tx_key_def)
  moreover have "\<forall>e \<in> set (posting_rows w inp). 1 \<le> er_seq e \<and> er_seq e \<le> 32767 \<and> 1 \<le> er_amount e \<and>
      er_amount e \<le> max_ledger_amount"
    using wfp by (auto simp: posting_rows_def entry_row_of_def well_formed_posting_def ledger_entry.truncate_def)
  moreover have "distinct (map er_id (ledger_entries w @ posting_rows w inp))"
  proof -
    have "distinct (map er_id (ledger_entries w))" using ewf by (simp add: entries_wf_def)
    moreover have "set (map er_id (ledger_entries w)) \<inter> set (map ce_id (cp_entries inp)) = {}"
      using ids(4) by (force simp: image_iff)
    ultimately show ?thesis using ids(3) unfolding map_append distinct_append fields by blast
  qed
  moreover have "distinct (map (\<lambda>e. (er_tx e, er_seq e)) (ledger_entries w @ posting_rows w inp))"
  proof -
    have "distinct (map (\<lambda>e. (er_tx e, er_seq e)) (ledger_entries w))" using ewf by (simp add: entries_wf_def)
    moreover have "map le_seq (map ledger_entry.truncate (cp_entries inp)) = map le_seq (cp_entries inp)"
      by (simp add: ledger_entry.truncate_def)
    then have "distinct (map le_seq (cp_entries inp))" using wfp unfolding well_formed_posting_def by metis
    then have "distinct (map (Pair (cp_id inp)) (map le_seq (cp_entries inp)))"
      by (subst distinct_map) (simp add: inj_on_def)
    moreover have "set (map (\<lambda>e. (er_tx e, er_seq e)) (ledger_entries w)) \<inter>
        set (map (Pair (cp_id inp)) (map le_seq (cp_entries inp))) = {}"
      using ewf ids(1) by (force simp: entries_wf_def)
    ultimately show ?thesis unfolding map_append distinct_append fields by blast
  qed
  ultimately show ?thesis
    using full_chart_accepted[OF awf eight] chk unfolding posting_accepted_def by blast
qed

lemma ledger_post_succeeds:
  assumes calm: "calm E" and fresh: "fresh_ids E w" and wf: "ledger_wf w"
    and eight: "length (merchant_accounts w (mc_merchant command)) = 8"
    and valid: "assert_money_command command = Inr ()" and bt: "bt \<noteq> Reversal"
    and free: "reference_free w (mc_merchant command) bt (mc_reference command)"
    and c1: "\<not> has_c1_control (mc_reference command)"
  shows "\<exists>res w'. ledger_post E command bt w = (Inr res, w')"
proof -
  from valid have common: "assert_common_command command = Inr ()"
    and amt: "1 \<le> mc_amount command" "mc_amount command \<le> max_ledger_amount"
    by (auto simp: assert_money_command_def comp_simps max_ledger_amount_def split: if_splits)
  have "\<exists>built. money_entries bt command = Inr built"
    using amt by (simp add: money_entries_def build_capture_entries_def build_refund_entries_def
        assert_amount_def bind_sum_def)
  then obtain built where built: "money_entries bt command = Inr built" ..
  obtain ents w1 where e: "with_entry_ids E built (bump w) = (Inr ents, w1)" using with_entry_ids_total by blast
  note ce = with_entry_ids_eq[OF e] with_entry_ids_ids[OF e]
  let ?inp = "\<lparr>cp_reference = mc_reference command, cp_type = bt, cp_currency = mc_currency command,
           cp_entries = ents, cp_id = env_uuid E (tick w1), cp_merchant = mc_merchant command,
           cp_occurred = the (mc_occurred command),
           cp_public_id = ''ltx_'' @ env_ulid E (the (mc_occurred command)) (tick w),
           cp_request = mc_request command, cp_reversal_of = None, cp_reversal_public = None\<rparr>"
  have q: "quiet (bump w) w1" using ce by auto
  then have s: "same_db w (bump w1)" using same_db_bump(1) same_db_trans unfolding quiet_def by metis
  note sl = same_db_ledger[OF s]
  have uu: "env_uuid E n \<notin> er_id ` set (ledger_entries w) \<and> env_uuid E n \<notin> lt_id ` set (ledger_transactions w)"
    if "tick w \<le> n" for n using fresh that unfolding fresh_ids_def by blast
  have "posting_accepted ?inp w"
  proof (rule fresh_posting_accepted[OF wf])
    show "ledger_tx_check (tx_row_of ?inp) = None"
      by (rule service_reference_accepted[OF common c1])
        (use fresh bt in \<open>simp_all add: tx_row_of_def has_ulid_prefix_def fresh_ids_def\<close>)
    show "well_formed_posting (cp_currency ?inp) (map ledger_entry.truncate (cp_entries ?inp))"
      using money_entries_wf[OF built] ce by auto
    show "distinct (map ce_id (cp_entries ?inp))"
      using ce(2) fresh by (auto simp: distinct_map fresh_ids_def intro: inj_on_subset)
    show "\<forall>e \<in> set (cp_entries ?inp). ce_id e \<notin> er_id ` set (ledger_entries w)"
    proof
      fix e assume "e \<in> set (cp_entries ?inp)"
      then have "ce_id e \<in> set (map ce_id ents)" by simp
      then obtain n where "ce_id e = env_uuid E n" "tick w \<le> n" using ce(2) by auto
      then show "ce_id e \<notin> er_id ` set (ledger_entries w)" using uu by simp
    qed
    show "cp_public_id ?inp \<notin> lt_public_id ` set (ledger_transactions w)"
      using fresh unfolding fresh_ids_def by simp
  qed (use eight free uu ce(2) in simp_all)
  then have "posting_accepted ?inp (bump w1)" using posting_accepted_same_db[OF s] by simp
  moreover have "ledger_wf (bump w1)" using wf s by (rule ledger_tx.inv_same_db)
  ultimately obtain res w2 where "repo_create_posting E ?inp (bump w1) = (Inr res, w2)"
    using repo_create_posting_total[OF calm] by blast
  with valid built e show ?thesis
    unfolding ledger_post_def money_entries_def[symmetric] Let_def
    by (auto simp: comp_simps)
qed

text \<open>The second posting of a business reference is the conflict error, and nothing is written.\<close>

lemma posted_reference_conflicts:
  assumes calm: "calm E"
    and fresh: "cp_id inp \<notin> lt_id ` set (ledger_transactions w)"
      "cp_public_id inp \<notin> lt_public_id ` set (ledger_transactions w)"
    and chart: "\<not> chart_refused (merchant_accounts w (cp_merchant inp)) inp"
    and chk: "ledger_tx_check (tx_row_of inp) = None"
    and taken: "\<not> reference_free w (cp_merchant inp) (cp_type inp) (cp_reference inp)"
  shows "repo_create_posting E inp w = (Inl (LedgerE LedgerBusinessReferenceConflictError), bump (bump w))"
proof -
  have nf: "env_fault E n = None" for n using calm by (simp add: calm_def)
  have "ledger_tx_unique (ledger_transactions w) (tx_row_of inp) =
      Some ''ledger_transactions_merchant_id_business_type_reference_key''"
    using fresh taken by (simp add: ledger_tx_unique_def tx_row_of_def reference_free_def tx_key_def)
  then have "create_posting_body E inp w =
      (Inl (DbE (ConstraintViolation ''ledger_transactions_merchant_id_business_type_reference_key'')), bump (bump w))"
    using chart chk nf
    by (simp add: create_posting_body_def bindc_def stmt_def gets_def require_def ok_def
        insert_ledger_tx_def raise_constraint_def throw_def merchant_accounts_def)
  then show ?thesis
    by (simp add: repo_create_posting_def catch_def create_posting_error_def throw_def)
qed

text \<open>A refusal of the repository is the answer of the service.\<close>

lemma ledger_post_error:
  assumes fresh: "fresh_ids E w" and valid: "assert_money_command command = Inr ()" and bt: "bt \<noteq> Reversal"
    and refuse: "\<And>inp w1. \<lbrakk>same_db w w1; cp_merchant inp = mc_merchant command; cp_type inp = bt;
        cp_reference inp = mc_reference command; cp_request inp = mc_request command; cp_reversal_of inp = None;
        cp_id inp \<notin> lt_id ` set (ledger_transactions w); cp_public_id inp \<notin> lt_public_id ` set (ledger_transactions w);
        has_ulid_prefix ''ltx'' (cp_public_id inp)\<rbrakk>
      \<Longrightarrow> \<exists>w2. repo_create_posting E inp w1 = (Inl (e :: error), w2) \<and> same_db w1 w2"
  shows "\<exists>w'. ledger_post E command bt w = (Inl e, w') \<and> same_db w w'"
proof -
  from valid have common: "assert_common_command command = Inr ()"
    and amt: "1 \<le> mc_amount command" "mc_amount command \<le> max_ledger_amount"
    by (auto simp: assert_money_command_def comp_simps max_ledger_amount_def split: if_splits)
  have "\<exists>built. money_entries bt command = Inr built"
    using amt by (simp add: money_entries_def build_capture_entries_def build_refund_entries_def
        assert_amount_def bind_sum_def)
  then obtain built where built: "money_entries bt command = Inr built" ..
  obtain ents w1 where e: "with_entry_ids E built (bump w) = (Inr ents, w1)" using with_entry_ids_total by blast
  note ce = with_entry_ids_eq[OF e] with_entry_ids_ids[OF e]
  let ?inp = "\<lparr>cp_reference = mc_reference command, cp_type = bt, cp_currency = mc_currency command,
           cp_entries = ents, cp_id = env_uuid E (tick w1), cp_merchant = mc_merchant command,
           cp_occurred = the (mc_occurred command),
           cp_public_id = ''ltx_'' @ env_ulid E (the (mc_occurred command)) (tick w),
           cp_request = mc_request command, cp_reversal_of = None, cp_reversal_public = None\<rparr>"
  have "quiet (bump w) w1" using ce by auto
  then have s: "same_db w (bump w1)" using same_db_bump(1) same_db_trans unfolding quiet_def by metis
  have "\<exists>w2. repo_create_posting E ?inp (bump w1) = (Inl e, w2) \<and> same_db (bump w1) w2"
    by (rule refuse[OF s]) (use fresh ce in \<open>simp_all add: fresh_ids_def has_ulid_prefix_def\<close>)
  then obtain w2 where r: "repo_create_posting E ?inp (bump w1) = (Inl e, w2)" and s2: "same_db (bump w1) w2" by blast
  have "ledger_post E command bt w = (Inl e, w2\<lparr>observed := observed w2 @ [rejected_observation bt (mc_merchant command)
         (Some (''ltx_'' @ env_ulid E (the (mc_occurred command)) (tick w))) e]\<rparr>)"
    using valid built e r unfolding ledger_post_def money_entries_def[symmetric] Let_def
    by (simp add: bindc_def from_sum_def new_ulid_def new_uuid_def observing_rejection_def catch_def
        observe_def modify_def throw_def)
  moreover have "same_db w (w2\<lparr>observed := os\<rparr>)" for os
    using same_db_trans[OF s s2] by (simp add: same_db_iff)
  ultimately show ?thesis by blast
qed

lemma provisioned_chart:
  assumes "ledger_wf w" and "length (merchant_accounts w m) = 8" and "same_db w w1" and "cp_merchant inp = m"
  shows "\<not> chart_refused (merchant_accounts w1 (cp_merchant inp)) inp"
proof -
  have "\<not> chart_refused (merchant_accounts w (cp_merchant inp)) inp"
    using assms by (intro full_chart_accepted) (simp_all add: ledger_wf_def)
  then show ?thesis using same_db_ledger[OF assms(3)] by (simp add: merchant_accounts_def)
qed

lemma ledger_post_conflict:
  assumes calm: "calm E" and fresh: "fresh_ids E w" and wf: "ledger_wf w"
    and eight: "length (merchant_accounts w (mc_merchant command)) = 8"
    and valid: "assert_money_command command = Inr ()" and bt: "bt \<noteq> Reversal"
    and c1: "\<not> has_c1_control (mc_reference command)"
    and taken: "\<not> reference_free w (mc_merchant command) bt (mc_reference command)"
  shows "\<exists>w'. ledger_post E command bt w = (Inl (LedgerE LedgerBusinessReferenceConflictError), w') \<and>
    same_db w w'"
proof (rule ledger_post_error[OF fresh valid bt])
  fix inp :: create_posting and w1 assume a: "same_db w w1" "cp_merchant inp = mc_merchant command" "cp_type inp = bt"
    "cp_reference inp = mc_reference command" "cp_request inp = mc_request command" "cp_reversal_of inp = None"
    "cp_id inp \<notin> lt_id ` set (ledger_transactions w)" "cp_public_id inp \<notin> lt_public_id ` set (ledger_transactions w)"
    "has_ulid_prefix ''ltx'' (cp_public_id inp)"
  from valid have common: "assert_common_command command = Inr ()"
    by (auto simp: assert_money_command_def comp_simps split: if_splits)
  have "ledger_tx_check (tx_row_of inp) = None"
    by (rule service_reference_accepted[OF common c1]) (use a bt in \<open>simp_all add: tx_row_of_def\<close>)
  then have "repo_create_posting E inp w1 = (Inl (LedgerE LedgerBusinessReferenceConflictError), bump (bump w1))"
    using a taken same_db_ledger[OF a(1)] provisioned_chart[OF wf eight a(1,2)]
    by (intro posted_reference_conflicts[OF calm]) (simp_all add: reference_free_def)
  then show "\<exists>w2. repo_create_posting E inp w1 = (Inl (LedgerE LedgerBusinessReferenceConflictError), w2) \<and> same_db w1 w2"
    using same_db_trans[OF same_db_bump(1) same_db_bump(1)] by blast
qed

text \<open>
  A reference with a C1 control character passes the service and is refused by the table: the error is
  the database's own, and nothing is written.
\<close>

lemma control_reference_error:
  assumes calm: "calm E" and prefix: "has_ulid_prefix ''ltx'' (cp_public_id inp)"
    and chart: "\<not> chart_refused (merchant_accounts w (cp_merchant inp)) inp"
    and c1: "has_c1_control (cp_reference inp)"
  shows "repo_create_posting E inp w =
    (Inl (DbE (ConstraintViolation ''ledger_transactions_business_reference_check'')), bump (bump (bump w)))"
proof -
  have nf: "env_fault E n = None" for n using calm by (simp add: calm_def)
  have "ledger_tx_check (tx_row_of inp) = Some ''ledger_transactions_business_reference_check''"
    using c1 prefix by (intro control_reference_refused) (simp_all add: tx_row_of_def)
  then have "create_posting_body E inp w =
      (Inl (DbE (ConstraintViolation ''ledger_transactions_business_reference_check'')), bump (bump w))"
    using chart nf
    by (simp add: create_posting_body_def bindc_def stmt_def gets_def require_def ok_def
        insert_ledger_tx_def raise_constraint_def throw_def merchant_accounts_def)
  then show ?thesis
    using nf by (simp add: repo_create_posting_def catch_def create_posting_error_def throw_def
        rethrow_database_error_eq ledger_invariant_constraints_def)
qed

lemma ledger_post_control:
  assumes calm: "calm E" and fresh: "fresh_ids E w" and wf: "ledger_wf w"
    and eight: "length (merchant_accounts w (mc_merchant command)) = 8"
    and valid: "assert_money_command command = Inr ()" and bt: "bt \<noteq> Reversal"
    and c1: "has_c1_control (mc_reference command)"
  shows "\<exists>w'. ledger_post E command bt w =
      (Inl (DbE (ConstraintViolation ''ledger_transactions_business_reference_check'')), w') \<and> same_db w w'"
proof (rule ledger_post_error[OF fresh valid bt])
  fix inp :: create_posting and w1 assume a: "same_db w w1" "cp_merchant inp = mc_merchant command"
    "cp_reference inp = mc_reference command" "has_ulid_prefix ''ltx'' (cp_public_id inp)"
  have "repo_create_posting E inp w1 =
      (Inl (DbE (ConstraintViolation ''ledger_transactions_business_reference_check'')), bump (bump (bump w1)))"
    using a c1 by (intro control_reference_error[OF calm] provisioned_chart[OF wf eight a(1,2)]) simp_all
  then show "\<exists>w2. repo_create_posting E inp w1 =
      (Inl (DbE (ConstraintViolation ''ledger_transactions_business_reference_check'')), w2) \<and> same_db w1 w2"
    by (meson same_db_bump(1) same_db_trans)
qed

section \<open>Settlements and reversals are posted too\<close>

text \<open>What the identifiers drawn for a posting's entries are, wherever the calls before it left the state.\<close>

lemma fresh_entry_ids:
  assumes fresh: "fresh_ids E w" and e: "with_entry_ids E built w0 = (Inr ents, w1)" and t: "tick w \<le> tick w0"
  shows "distinct (map ce_id ents) \<and> (\<forall>e \<in> set ents. ce_id e \<notin> er_id ` set (ledger_entries w)) \<and>
    tick w1 = tick w0 + length built \<and> map ledger_entry.truncate ents = built \<and> quiet w0 w1"
proof -
  note ids = with_entry_ids_ids[OF e]
  have "distinct (map ce_id ents)"
    using ids fresh by (auto simp: distinct_map fresh_ids_def intro: inj_on_subset)
  moreover have "ce_id e \<notin> er_id ` set (ledger_entries w)" if e: "e \<in> set ents" for e
  proof -
    have "ce_id e \<in> set (map ce_id ents)" using e by simp
    then obtain n where "ce_id e = env_uuid E n" "tick w \<le> n" using ids t by auto
    then show ?thesis using fresh unfolding fresh_ids_def by simp
  qed
  ultimately show ?thesis using ids with_entry_ids_eq[OF e] by auto
qed

lemma fresh_idsD:
  assumes "fresh_ids E w" and "tick w \<le> n"
  shows "env_uuid E n \<notin> lt_id ` set (ledger_transactions w)"
    and "''ltx_'' @ env_ulid E t n \<notin> lt_public_id ` set (ledger_transactions w)"
    and "is_ulid (env_ulid E t n)"
  using assms unfolding fresh_ids_def by simp_all

lemma post_settlement_succeeds:
  assumes calm: "calm E" and fresh: "fresh_ids E w" and wf: "ledger_wf w"
    and eight: "length (merchant_accounts w (mc_merchant command)) = 8"
    and valid: "assert_settlement_command command = Inr ()"
    and free: "reference_free w (mc_merchant command) Settlement (mc_reference command)"
    and c1: "\<not> has_c1_control (mc_reference command)"
  shows "\<exists>res iid w'. post_settlement E command w = (Inr (res, iid), w')"
proof -
  from valid have common: "assert_common_command command = Inr ()"
    and amt: "1 \<le> sc_gross command" "sc_gross command \<le> max_ledger_amount" "0 \<le> sc_fee command"
      "1 \<le> sc_net command" "sc_gross command = sc_fee command + sc_net command"
    by (auto simp: assert_settlement_command_def comp_simps max_ledger_amount_def split: if_splits)
  have "\<exists>built. build_settlement_entries (sc_gross command) (sc_fee command) (sc_net command) (sc_currency command) = Inr built"
    using amt by (simp add: build_settlement_entries_def assert_amount_def bind_sum_def)
  then obtain built where built: "build_settlement_entries (sc_gross command) (sc_fee command) (sc_net command) (sc_currency command) = Inr built" ..
  obtain ents w1 where e: "with_entry_ids E built (bump (bump w)) = (Inr ents, w1)" using with_entry_ids_total by blast
  note ce = fresh_entry_ids[OF fresh e]
  let ?inp = "\<lparr>cp_reference = mc_reference command, cp_type = Settlement, cp_currency = sc_currency command,
           cp_entries = ents, cp_id = env_uuid E (Suc (tick w)), cp_merchant = mc_merchant command,
           cp_occurred = the (mc_occurred command),
           cp_public_id = ''ltx_'' @ env_ulid E (the (mc_occurred command)) (tick w),
           cp_request = mc_request command, cp_reversal_of = None, cp_reversal_public = None\<rparr>"
  have s: "same_db w w1" using ce by (simp add: quiet_def same_db_bump_trans)
  have "posting_accepted ?inp w"
  proof (rule fresh_posting_accepted[OF wf])
    show "ledger_tx_check (tx_row_of ?inp) = None"
      by (rule service_reference_accepted[OF common c1])
        (use fresh_idsD[OF fresh] in \<open>simp_all add: tx_row_of_def has_ulid_prefix_def\<close>)
    show "well_formed_posting (cp_currency ?inp) (map ledger_entry.truncate (cp_entries ?inp))"
      using settlement_entries_wf[OF built] ce by simp
  qed (use eight free ce fresh_idsD[OF fresh] in simp_all)
  then have "posting_accepted ?inp w1" using posting_accepted_same_db[OF s] by simp
  moreover have "ledger_wf w1" using wf s by (rule ledger_tx.inv_same_db)
  ultimately obtain res w2 where "repo_create_posting E ?inp w1 = (Inr res, w2)"
    using repo_create_posting_total[OF calm] by blast
  with valid built e show ?thesis
    unfolding post_settlement_def Let_def by (auto simp: comp_simps)
qed

lemma map_sum_list_total: "(\<And>x. x \<in> set xs \<Longrightarrow> \<exists>y. f x = Inr y) \<Longrightarrow> \<exists>ys. map_sum_list f xs = Inr ys"
proof (induction xs)
  case Nil
  then show ?case by simp
next
  case (Cons x xs)
  then obtain y ys where "f x = Inr y" "map_sum_list f xs = Inr ys" by fastforce
  then show ?case by (simp add: bind_sum_def)
qed

text \<open>The entries of a stored transaction can always be read back.\<close>

lemma reversal_source_total:
  assumes wf: "ledger_wf w" and t: "t \<in> set (ledger_transactions w)"
  shows "\<exists>es. reversal_source w t es"
proof -
  have "\<exists>y. entry_of_row (ledger_accounts w) e = Inr y" if "e \<in> set (sort_key er_seq (tx_entries w (lt_id t)))" for e
  proof -
    have "entry_consistent w t e" using ledger_assert_facts[OF wf t] that unfolding list_all_iff by simp
    then show ?thesis by (auto simp: entry_consistent_def entry_of_row_def split: option.splits)
  qed
  then have "\<exists>es. map_sum_list (entry_of_row (ledger_accounts w)) (sort_key er_seq (tx_entries w (lt_id t))) = Inr es"
    by (rule map_sum_list_total)
  then show ?thesis unfolding reversal_source_def tx_entries_merchant[OF wf t] .
qed

lemma find_posted_total:
  assumes calm: "calm E" and wf: "ledger_wf w" and t: "t \<in> set (ledger_transactions w)"
  shows "\<exists>orig w'. repo_find_posted_for_reversal E (lt_merchant t) (lt_public_id t) w = (Inr (Some (orig, lt_id t)), w') \<and>
    quiet w w' \<and> tick w \<le> tick w' \<and> lp_type orig = lt_type t \<and> lp_currency orig = lt_currency t \<and>
    reversal_source w t (lp_entries orig)"
proof -
  obtain es where es: "reversal_source w t es" using reversal_source_total[OF wf t] by blast
  obtain p where p: "lt_posted t = Some p" using ledger_assert_facts[OF wf t] by auto
  have "distinct (map lt_public_id (ledger_transactions w))"
    using wf by (simp add: ledger_wf_def transactions_wf_def)
  then have find: "List.find (\<lambda>u. lt_merchant u = lt_merchant t \<and> lt_public_id u = lt_public_id t \<and> lt_posted u \<noteq> None)
      (ledger_transactions w) = Some t" using t p
  proof (induction "ledger_transactions w" arbitrary: w)
    case Nil
    then show ?case by simp
  next
    case (Cons u us)
    show ?case
    proof (cases "u = t")
      case True
      then show ?thesis using Cons.prems(3) unfolding Cons.hyps(2)[symmetric] by simp
    next
      case False
      with Cons.prems(2) Cons.hyps(2) have tu: "t \<in> set us" by (metis set_ConsD)
      have "lt_public_id u \<noteq> lt_public_id t"
        using Cons.prems(1) tu unfolding Cons.hyps(2)[symmetric] by auto
      then show ?thesis
        using Cons.hyps(1)[of "w\<lparr>ledger_transactions := us\<rparr>"] Cons.prems tu
        unfolding Cons.hyps(2)[symmetric] by simp
    qed
  qed
  have nf: "env_fault E n = None" for n using calm by (simp add: calm_def)
  have q: "quiet w (bump (bump w))" by (simp add: quiet_def same_db_iff)
  show ?thesis
    using find es p nf q unfolding repo_find_posted_for_reversal_def reversal_source_def
    by (simp add: catch_def bindc_def stmt_def gets_def from_sum_def ok_def)
qed

lemma reverse_posting_succeeds:
  assumes calm: "calm E" and fresh: "fresh_ids E w" and wf: "ledger_wf w"
    and t: "t \<in> set (ledger_transactions w)" "lt_type t \<noteq> Reversal"
      "\<forall>r \<in> set (ledger_transactions w). lt_reversal_of r \<noteq> Some (lt_id t)"
    and c: "mc_merchant command = lt_merchant t" "rc_original_public_id command = lt_public_id t"
    and prefix: "has_ulid_prefix ''ltx'' (lt_public_id t)"
    and common: "assert_common_command command = Inr ()"
    and free: "reference_free w (lt_merchant t) Reversal (mc_reference command)"
    and c1: "\<not> has_c1_control (mc_reference command)"
  shows "\<exists>res w'. reverse_posting E command w = (Inr res, w')"
proof -
  obtain orig w0 where f: "repo_find_posted_for_reversal E (lt_merchant t) (lt_public_id t) w = (Inr (Some (orig, lt_id t)), w0)"
    and q: "quiet w w0" and k: "tick w \<le> tick w0" and o: "lp_type orig = lt_type t" "lp_currency orig = lt_currency t"
    and src: "reversal_source w t (lp_entries orig)"
    using find_posted_total[OF calm wf t(1)] by blast
  have wfs: "well_formed_posting (lt_currency t) (lp_entries orig)" by (rule reversal_source_wf[OF wf t(1) src])
  then obtain built where built: "build_reversal_entries (lp_entries orig) = Inr built"
    by (simp add: build_reversal_entries_def well_formed_posting_def)
  obtain ents w1 where e: "with_entry_ids E built (bump w0) = (Inr ents, w1)" using with_entry_ids_total by blast
  have k1: "tick w \<le> tick (bump w0)" using k by simp
  note ce = fresh_entry_ids[OF fresh e k1]
  let ?inp = "\<lparr>cp_reference = mc_reference command, cp_type = Reversal, cp_currency = lp_currency orig,
           cp_entries = ents, cp_id = env_uuid E (tick w1), cp_merchant = mc_merchant command,
           cp_occurred = the (mc_occurred command),
           cp_public_id = ''ltx_'' @ env_ulid E (the (mc_occurred command)) (tick w0),
           cp_request = mc_request command, cp_reversal_of = Some (lt_id t),
           cp_reversal_public = Some (lp_public_id orig)\<rparr>"
  have k2: "tick w \<le> tick w1" using ce k1 by simp
  have s: "same_db w (bump w1)"
    using ce q unfolding quiet_def same_db_bump_trans by (meson same_db_bump(1) same_db_trans)
  have "posting_accepted ?inp w"
  proof (rule fresh_posting_accepted[OF wf])
    show "ledger_tx_check (tx_row_of ?inp) = None"
      by (rule service_reference_accepted[OF common c1])
        (use fresh_idsD(3)[OF fresh k] in \<open>simp_all add: tx_row_of_def has_ulid_prefix_def\<close>)
    show "well_formed_posting (cp_currency ?inp) (map ledger_entry.truncate (cp_entries ?inp))"
      using reversal_entries_wf[OF wfs built] ce o by simp
    show "length (merchant_accounts w (cp_merchant ?inp)) = 8"
      using ledger_assert_facts[OF wf t(1)] c by simp
    show "cp_reversal_of ?inp \<noteq> None \<longrightarrow> cp_reversal_of ?inp \<notin> lt_reversal_of ` set (ledger_transactions w)"
      using t(3) by auto
  qed (use free ce c fresh_idsD(1)[OF fresh k2] fresh_idsD(2)[OF fresh k] in simp_all)
  then have "posting_accepted ?inp (bump w1)" using posting_accepted_same_db[OF s] by simp
  moreover have "ledger_wf (bump w1)" using wf s by (rule ledger_tx.inv_same_db)
  ultimately obtain res w2 where "repo_create_posting E ?inp (bump w1) = (Inr res, w2)"
    using repo_create_posting_total[OF calm] by blast
  with common f built e prefix c o t(2) show ?thesis
    unfolding reverse_posting_def Let_def by (auto simp: comp_simps)
qed

section \<open>Fresh identifiers stay fresh\<close>

lemma ledger_post_fresh:
  assumes post: "ledger_post E command bt w = (Inr res, w')" and fresh: "fresh_ids E w"
    and ulid: "\<forall>t t' n. tick w < n \<longrightarrow> env_ulid E t n \<noteq> env_ulid E t' (tick w)"
  shows "fresh_ids E w'"
proof -
  from post obtain built ents w1 w2 where
    e: "with_entry_ids E built (bump w) = (Inr ents, w1)" and
    c: "repo_create_posting E
          \<lparr>cp_reference = mc_reference command, cp_type = bt, cp_currency = mc_currency command,
           cp_entries = ents, cp_id = env_uuid E (tick w1), cp_merchant = mc_merchant command,
           cp_occurred = the (mc_occurred command),
           cp_public_id = ''ltx_'' @ env_ulid E (the (mc_occurred command)) (tick w),
           cp_request = mc_request command, cp_reversal_of = None, cp_reversal_public = None\<rparr> (bump w1) = (Inr res, w2)" and
    o: "w' = w2\<lparr>observed := observed w2 @ [staged_observation bt (mc_merchant command)
          (''ltx_'' @ env_ulid E (the (mc_occurred command)) (tick w))]\<rparr>"
    unfolding ledger_post_def money_entries_def[symmetric] Let_def
    by (clarsimp simp: comp_simps)
  let ?inp = "\<lparr>cp_reference = mc_reference command, cp_type = bt, cp_currency = mc_currency command,
           cp_entries = ents, cp_id = env_uuid E (tick w1), cp_merchant = mc_merchant command,
           cp_occurred = the (mc_occurred command),
           cp_public_id = ''ltx_'' @ env_ulid E (the (mc_occurred command)) (tick w),
           cp_request = mc_request command, cp_reversal_of = None, cp_reversal_public = None\<rparr>"
  note ids = with_entry_ids_ids[OF e] with_entry_ids_eq[OF e]
  note cp = create_posting_made[OF c]
  have "quiet w (bump w1)" using ids by (auto intro: quiet_trans[OF quiet_trans] quiet_bump)
  then have made: "posting_made ?inp w w'"
    using cp o posting_made_quiet[of w "bump w1" ?inp w2 w'] by simp
  have k: "tick w1 < tick w'" using cp o by simp
  have inj: "env_uuid E n = env_uuid E m \<longleftrightarrow> n = m" for n m
    using fresh by (auto simp: fresh_ids_def inj_def)
  have new_e: "er_id r \<in> env_uuid E ` {..tick w1}" if "r \<in> set (posting_rows w ?inp)" for r
  proof -
    have "er_id r \<in> set (map ce_id ents)" using that by (auto simp: posting_rows_def entry_row_of_def)
    then show ?thesis using ids(1) by auto
  qed
  show ?thesis unfolding fresh_ids_def
  proof (intro conjI allI impI)
    show "inj (env_uuid E)" "is_ulid (env_ulid E t n)" for t n using fresh by (simp_all add: fresh_ids_def)
    fix n assume n: "tick w' \<le> n"
    then have wn: "tick w \<le> n" "tick w < n" using k ids(1) by simp_all
    have old: "env_uuid E n \<notin> er_id ` set (ledger_entries w)" using fresh wn by (simp add: fresh_ids_def)
    have "env_uuid E n \<notin> er_id ` set (posting_rows w ?inp)"
      using new_e inj n k by fastforce
    with old made show "env_uuid E n \<notin> er_id ` set (ledger_entries w')"
      by (auto simp: posting_made_def posting_step_def)
    show "env_uuid E n \<notin> lt_id ` set (ledger_transactions w')"
      using made fresh_idsD(1)[OF fresh wn(1)] inj n k
      by (auto simp: posting_made_def posting_step_def finalized_row_def tx_row_of_def)
    fix t
    show "''ltx_'' @ env_ulid E t n \<notin> lt_public_id ` set (ledger_transactions w')"
      using made fresh_idsD(2)[OF fresh wn(1)] ulid wn(2)
      by (auto simp: posting_made_def posting_step_def finalized_row_def tx_row_of_def)
  qed
qed

end
