(* ===== verification/Ledger_Properties.thy ===== *)
theory Ledger_Properties imports Ledger_Live begin

text \<open>
  The properties of the ledger, each applied at a concrete ledger: an environment without outages whose
  identifiers are numbered, and one provisioned merchant.
\<close>

section \<open>A concrete ledger\<close>

definition demo_uuid :: "nat \<Rightarrow> string" where
  "demo_uuid n = replicate n CHR ''i''"

definition demo_ulid :: "int \<Rightarrow> nat \<Rightarrow> string" where
  "demo_ulid t n = replicate (26 - n) CHR ''0'' @ replicate (min n 26) CHR ''1''"

definition demo_env :: env where
  "demo_env = \<lparr>env_clock = (\<lambda>n. 1780000000000 + int n), env_uuid = demo_uuid, env_ulid = demo_ulid,
     env_sha256 = (\<lambda>u. ''digest''), env_fault = (\<lambda>n. None), env_commit = (\<lambda>n. Committed),
     env_fault_message = (\<lambda>f. ''fault'')\<rparr>"

lemma demo_env_sel [simp]:
  "env_fault demo_env n = None" "env_commit demo_env n = Committed"
  "env_uuid demo_env n = demo_uuid n" "env_ulid demo_env t n = demo_ulid t n"
  "env_clock demo_env n = 1780000000000 + int n" "env_sha256 demo_env u = ''digest''"
  "env_fault_message demo_env f = ''fault''"
  by (simp_all add: demo_env_def)

definition demo_merchant :: string where
  "demo_merchant = ''10000000-0000-4000-8000-000000000001''"

lemma demo_merchant_uuid: "is_uuid 5 demo_merchant" by code_simp

lemma demo_identity [simp]: "assert_identity demo_merchant = Inr ()"
  by (simp add: assert_identity_def demo_merchant_uuid)

definition demo_empty :: ledger_world where
  "demo_empty = \<lparr>tick = 0, txn_now = 0, observed = [], ledger_accounts = [], ledger_transactions = [],
     ledger_entries = []\<rparr>"

definition demo_ledger :: ledger_world where
  "demo_ledger = snd (transaction demo_env ledger_deferred (ledger_call_body demo_env (Provision demo_merchant)) demo_empty)"

lemma demo_ledger_run: "ledger_run demo_env demo_empty demo_ledger"
  unfolding demo_ledger_def by (rule run_call[OF run_start prod.collapse[symmetric]])

lemmas provision_accounts_run = provision_accounts_def[THEN fun_cong, unfolded run_rules]
lemmas repo_provision_accounts_run = repo_provision_accounts_def[THEN fun_cong, unfolded run_rules]
lemmas demo_eval = demo_uuid_def ledger_currencies_def account_definitions_def bump_def
  insert_account_skip_def less_eq_account_code_def less_eq_currency_def less_account_code_def
  less_currency_def numeral_eq_Suc

definition demo_rows :: "ledger_account_row list" where
  "demo_rows = map (\<lambda>(i, c, cur). \<lparr>la_id = replicate i CHR ''i'', la_merchant = demo_merchant, la_code = c,
       la_currency = cur, la_side = expected_side c\<rparr>)
     [(1, Provider_clearing, ETB), (2, Merchant_payable, ETB), (3, Fee_revenue, ETB), (4, Settlement_clearing, ETB),
      (5, Provider_clearing, USD), (6, Merchant_payable, USD), (7, Fee_revenue, USD), (8, Settlement_clearing, USD)]"

lemma demo_provision:
  "\<exists>r. provision_accounts demo_env demo_merchant (begin_txn demo_env demo_empty) =
     (Inr r, \<lparr>tick = 11, txn_now = 1780000000000, observed = [], ledger_accounts = demo_rows,
       ledger_transactions = [], ledger_entries = []\<rparr>)"
  apply (simp only: demo_empty_def begin_txn_def provision_accounts_run map_comp_run demo_eval)
  apply (simp add: provision_accounts_run map_comp_run demo_eval del: map_comp.simps)
  apply (simp add: repo_provision_accounts_run demo_eval demo_rows_def expected_side_def)
  done

lemma demo_ledger_eq:
  "demo_ledger = \<lparr>tick = 12, txn_now = 1780000000000, observed = [], ledger_accounts = demo_rows,
     ledger_transactions = [], ledger_entries = []\<rparr>"
proof -
  obtain r where "provision_accounts demo_env demo_merchant (begin_txn demo_env demo_empty) =
     (Inr r, \<lparr>tick = 11, txn_now = 1780000000000, observed = [], ledger_accounts = demo_rows,
       ledger_transactions = [], ledger_entries = []\<rparr>)"
    using demo_provision by blast
  then show ?thesis
    by (simp add: demo_ledger_def transaction_def forget_def bindc_def ok_def ledger_deferred_def
        demo_empty_def bump_def)
qed

lemma demo_ledger_wf: "ledger_wf demo_ledger"
proof -
  have "ledger_wf demo_empty" by (rule empty_ledger_wf) (simp add: empty_ledger_def demo_empty_def)
  with demo_ledger_run show ?thesis by (rule ledger_run_wf)
qed

lemma demo_empty_empty: "empty_ledger demo_empty"
  by (simp add: empty_ledger_def demo_empty_def)

definition demo_capture :: money_command where
  "demo_capture = \<lparr>mc_reference = units ''pay_1'', mc_merchant = demo_merchant, mc_occurred = Some 1779999999000,
     mc_request = ''req_1'', mc_amount = 2500, mc_currency = ETB\<rparr>"

lemma demo_capture_valid: "assert_money_command demo_capture = Inr ()"
proof -
  have "js_trim (units ''pay_1'') = units ''pay_1''" "\<not> contains_control_character (units ''pay_1'')"
    "is_request_id ''req_1''"
    by (simp_all add: js_trim_def is_js_space_def units_def contains_control_character_def is_high_def
        is_request_id_def is_request_char_def char_in_def)
  then show ?thesis
    by (simp add: demo_capture_def assert_money_command_def assert_common_command_def bind_sum_def max_safe_integer_def)
qed

lemma demo_calm: "calm demo_env"
  by (simp add: calm_def)

lemma demo_ulid_ok: "is_ulid (demo_ulid t n)"
proof -
  have zero: "is_ulid_char CHR ''0''" "char_in 48 55 CHR ''0''"
    and one: "is_ulid_char CHR ''1''" "char_in 48 55 CHR ''1''"
    by (simp_all add: is_ulid_char_def char_in_def)
  have "list_all is_ulid_char (replicate k CHR ''0'' @ replicate l CHR ''1'')" for k l
    using zero one by (auto simp: list_all_iff)
  moreover have "hd (demo_ulid t n) = (if n < 26 then CHR ''0'' else CHR ''1'')"
    by (simp add: demo_ulid_def hd_append hd_replicate)
  moreover have "length (demo_ulid t n) = 26" by (simp add: demo_ulid_def)
  moreover have "list_all is_ulid_char (tl xs)" if "list_all is_ulid_char xs" for xs
    using that by (cases xs) auto
  ultimately show ?thesis using zero one by (simp add: is_ulid_def demo_ulid_def)
qed

lemma demo_ledger_fresh: "fresh_ids demo_env demo_ledger"
proof -
  have "inj demo_uuid" unfolding demo_uuid_def by (rule injI) (metis length_replicate)
  then show ?thesis
    using demo_ulid_ok by (simp add: fresh_ids_def demo_ledger_eq demo_env_def)
qed

lemma demo_chart: "length (merchant_accounts demo_ledger demo_merchant) = 8"
proof -
  have "filter (\<lambda>a. la_merchant a = demo_merchant) demo_rows = demo_rows"
    by (simp add: demo_rows_def)
  then show ?thesis by (simp add: merchant_accounts_def demo_ledger_eq demo_rows_def)
qed

lemma demo_capture_merchant: "mc_merchant demo_capture = demo_merchant" "mc_amount demo_capture = 2500"
  "mc_currency demo_capture = ETB"
  by (simp_all add: demo_capture_def)

lemma demo_balance: "account_balance demo_ledger m c cur = 0"
  by (simp add: account_balance_def demo_ledger_eq)

lemma demo_free: "reference_free demo_ledger m bt r"
  by (simp add: reference_free_def demo_ledger_eq)

lemma demo_no_control: "\<not> has_c1_control (units ''pay_1'')"
  by (simp add: has_c1_control_def units_def)

lemma demo_capture_posts: "\<exists>res w'. ledger_post demo_env demo_capture Capture demo_ledger = (Inr res, w')"
  by (rule ledger_post_succeeds[OF demo_calm demo_ledger_fresh demo_ledger_wf])
    (simp_all add: demo_chart demo_capture_merchant demo_capture_valid demo_free,
      simp_all add: demo_capture_def demo_no_control)

definition demo_settlement :: settlement_command where
  "demo_settlement = \<lparr>mc_reference = units ''pay_1'', mc_merchant = demo_merchant,
     mc_occurred = Some 1779999999000, mc_request = ''req_1'', sc_currency = ETB, sc_fee = 25, sc_gross = 2500,
     sc_net = 2475\<rparr>"

lemma demo_settlement_posts: "\<exists>res iid w'. post_settlement demo_env demo_settlement demo_ledger = (Inr (res, iid), w')"
proof (rule post_settlement_succeeds[OF demo_calm demo_ledger_fresh demo_ledger_wf])
  have "assert_common_command demo_settlement = assert_common_command demo_capture"
    by (simp add: assert_common_command_def demo_settlement_def demo_capture_def)
  also have "\<dots> = Inr ()" using demo_capture_valid by (simp add: assert_money_command_def comp_simps)
  finally show "assert_settlement_command demo_settlement = Inr ()"
    by (simp add: assert_settlement_command_def bind_sum_def demo_settlement_def max_safe_integer_def)
qed (simp_all add: demo_settlement_def demo_chart demo_free demo_no_control)

text \<open>The capture, and a reversal of it.\<close>

definition demo_reverse :: "ledger_tx_row \<Rightarrow> reverse_command" where
  "demo_reverse t = \<lparr>mc_reference = units ''pay_1'', mc_merchant = demo_merchant,
     mc_occurred = Some 1779999999000, mc_request = ''req_1'', rc_original_public_id = lt_public_id t\<rparr>"

lemma demo_reversal_posts:
  "\<exists>(w :: ledger_world) t res w'. ledger_wf w \<and> ledger_transactions w = [t] \<and> reverse_posting demo_env (demo_reverse t) w = (Inr res, w')"
proof -
  obtain res w where p: "ledger_post demo_env demo_capture Capture demo_ledger = (Inr res, w)"
    using demo_capture_posts by blast
  from ledger_post_Inr[OF p] obtain inp where i: "posting_of_money Capture demo_capture inp"
    and made: "posting_made inp demo_ledger w" by auto
  have wf: "ledger_wf w"
    using made i demo_ledger_wf by (auto simp: posting_made_def intro: posting_step_keeps_wf posting_of_money_sound)
  define t where "t = finalized_row inp (txn_now demo_ledger)"
  have ts: "ledger_transactions w = [t]"
    using made by (simp add: posting_made_def posting_step_def demo_ledger_eq t_def)
  have "ledger_tx_check (tx_row_of inp) = None" using made by (simp add: posting_made_def posting_accepted_def)
  then have "has_ulid_prefix ''ltx'' (lt_public_id t)"
    by (simp add: t_def finalized_row_def ledger_tx_check_def split: if_splits)
  moreover have "fresh_ids demo_env w"
  proof (rule ledger_post_fresh[OF p demo_ledger_fresh])
    have "demo_ulid t n \<noteq> demo_ulid t' 12" if "12 < n" for t t' n
    proof -
      have "demo_ulid t n ! 13 \<noteq> demo_ulid t' 12 ! 13" if "12 < n"
        using that by (cases "n \<le> 26") (auto simp: demo_ulid_def nth_append)
      with \<open>12 < n\<close> show ?thesis by metis
    qed
    then show "\<forall>t t' n. tick demo_ledger < n \<longrightarrow> env_ulid demo_env t n \<noteq> env_ulid demo_env t' (tick demo_ledger)"
      by (simp add: demo_ledger_eq)
  qed
  moreover have "lt_type t = Capture" "lt_merchant t = demo_merchant" "lt_reversal_of t = None"
    using i by (simp_all add: t_def finalized_row_def tx_row_of_def posting_of_money_def demo_capture_merchant)
  moreover have "assert_common_command (demo_reverse t) = assert_common_command demo_capture"
    by (simp add: assert_common_command_def demo_reverse_def demo_capture_def)
  moreover have "assert_common_command demo_capture = Inr ()"
    using demo_capture_valid by (simp add: assert_money_command_def comp_simps)
  ultimately have "\<exists>res w'. reverse_posting demo_env (demo_reverse t) w = (Inr res, w')"
    by (intro reverse_posting_succeeds[OF demo_calm _ wf, of t])
      (simp_all add: ts demo_reverse_def reference_free_def tx_key_def demo_no_control)
  with wf ts show ?thesis by blast
qed

section \<open>The books balance\<close>

text \<open>
  C1: Whatever calls of the ledger service run, each in its own transaction and interrupted by any
  outage, from an empty ledger: every stored transaction is finalised, has at least two entries, and
  its debits equal its credits; the accounts of every merchant sum to zero in every currency; and the
  ledger is well-formed (unique identifiers and references, amounts in range, at most one reversal).
\<close>

theorem ledger_books_balance:
  assumes "empty_ledger w" and "ledger_run E w w'"
  shows "ledger_wf w' \<and>
    (\<forall>t \<in> set (ledger_transactions w'). lt_posted t \<noteq> None \<and> 2 \<le> length (tx_entries w' (lt_id t)) \<and>
       row_total Debit (tx_entries w' (lt_id t)) = row_total Credit (tx_entries w' (lt_id t))) \<and>
    (\<forall>m cur. (\<Sum>c\<leftarrow>all_codes. account_balance w' m c cur) = 0)"
proof -
  have wf: "ledger_wf w'" using assms by (blast intro: ledger_run_wf empty_ledger_wf)
  then show ?thesis using ledger_assert_facts[OF wf] ledger_trial_balance[OF wf] by blast
qed

theorem ledger_books_balance_witness:
  "(\<Sum>c\<leftarrow>all_codes. account_balance demo_ledger demo_merchant c ETB) = 0"
  using ledger_books_balance[OF demo_empty_empty demo_ledger_run] by blast

text \<open>
  C2: The ledger is append-only: no run of service calls changes, reorders or removes an account, a
  transaction or an entry that is there.
\<close>

theorem ledger_append_only:
  assumes "ledger_wf w" and "ledger_run E w w'"
  shows "prefix (ledger_accounts w) (ledger_accounts w') \<and>
    prefix (ledger_transactions w) (ledger_transactions w') \<and>
    prefix (ledger_entries w) (ledger_entries w')"
  using ledger_run_extends[OF assms(2,1)] by (simp add: ledger_extends_def)

theorem ledger_append_only_witness:
  "prefix (ledger_transactions demo_empty) (ledger_transactions demo_ledger)"
  using ledger_append_only[OF empty_ledger_wf[OF demo_empty_empty] demo_ledger_run] by blast

section \<open>What each posting does\<close>

text \<open>
  C3: A capture that returns debits the provider clearing account and credits the merchant payable
  account of the command's merchant and currency by exactly the amount, a refund does the opposite, and
  no other account of any merchant or currency moves. The posting has the command's reference and the
  transaction's timestamp, and the observer is told \<open>staged\<close> once.
\<close>

theorem ledger_payment_effect:
  assumes "ledger_wf w" and "bt \<noteq> Reversal" and "ledger_post E command bt w = (Inr res, w')"
  shows "ledger_wf w' \<and>
    (\<forall>m c cur. account_balance w' m c cur = account_balance w m c cur +
       (if m = mc_merchant command \<and> cur = mc_currency command
        then payment_effect bt (mc_amount command) c else 0)) \<and>
    (\<exists>t. ledger_transactions w' = ledger_transactions w @ [t] \<and> lt_reference t = mc_reference command \<and>
       lt_type t = bt \<and> lt_merchant t = mc_merchant command \<and> lt_posted t = Some (txn_now w)) \<and>
    observed w' = observed w @ [staged_observation bt (mc_merchant command) (lp_public_id res)]"
proof -
  from ledger_post_Inr[OF assms(3)] obtain inp where
    p: "posting_of_money bt command inp" and made: "posting_made inp w w'" and
    o: "observed w' = observed w @ [staged_observation bt (mc_merchant command) (lp_public_id res)]" by auto
  have "ledger_wf w'"
    using made p assms by (auto simp: posting_made_def intro: posting_step_keeps_wf posting_of_money_sound)
  moreover have "ledger_transactions w' = ledger_transactions w @ [finalized_row inp (txn_now w)]"
    using made by (simp add: posting_made_def posting_step_def)
  ultimately show ?thesis
    using posting_balance[OF assms(1) made] p o money_entries_effect
    by (auto simp: posting_of_money_def finalized_row_def tx_row_of_def)
qed

theorem ledger_payment_effect_witness:
  "\<exists>res w'. ledger_post demo_env demo_capture Capture demo_ledger = (Inr res, w') \<and>
     account_balance w' demo_merchant Merchant_payable ETB = - 2500"
proof -
  obtain res w' where p: "ledger_post demo_env demo_capture Capture demo_ledger = (Inr res, w')"
    using demo_capture_posts by blast
  have "account_balance w' demo_merchant Merchant_payable ETB = - 2500"
    using ledger_payment_effect[OF demo_ledger_wf _ p] demo_balance
    by (simp add: demo_capture_merchant payment_effect_def)
  with p show ?thesis by blast
qed

text \<open>
  C4: A settlement posting that returns moves the whole gross out of the merchant payable account, the
  fee into fee revenue and the net into settlement clearing; it touches no other account; gross is fee
  plus net; and the identifier it returns is that of the new finalised transaction.
\<close>

definition settlement_effect :: "settlement_command \<Rightarrow> account_code \<Rightarrow> int" where
  "settlement_effect command c =
     (case c of Merchant_payable \<Rightarrow> sc_gross command | Fee_revenue \<Rightarrow> - sc_fee command
      | Settlement_clearing \<Rightarrow> - sc_net command | Provider_clearing \<Rightarrow> 0)"

lemma settlement_entries_effect:
  "build_settlement_entries (sc_gross c) (sc_fee c) (sc_net c) cur = Inr es \<Longrightarrow>
   net_effect a es = settlement_effect c a"
  by (cases a) (auto simp: build_settlement_entries_def comp_simps net_effect_def settlement_effect_def
      split: if_splits)

theorem ledger_settlement_effect:
  assumes "ledger_wf w" and "post_settlement E command w = (Inr (res, iid), w')"
  shows "ledger_wf w' \<and> sc_gross command = sc_fee command + sc_net command \<and>
    (\<forall>m c cur. account_balance w' m c cur = account_balance w m c cur +
       (if m = mc_merchant command \<and> cur = sc_currency command then settlement_effect command c else 0)) \<and>
    (\<exists>t. ledger_transactions w' = ledger_transactions w @ [t] \<and> lt_id t = iid \<and> lt_type t = Settlement \<and>
       lt_reference t = mc_reference command \<and> lt_posted t = Some (txn_now w))"
proof -
  from post_settlement_Inr[OF assms(2)] obtain inp where
    p: "posting_of_settlement command inp" and made: "posting_made inp w w'" and
    v: "assert_settlement_command command = Inr ()" and i: "iid = cp_id inp" by auto
  have "ledger_wf w'"
    using made p assms by (auto simp: posting_made_def intro: posting_step_keeps_wf posting_of_settlement_sound)
  moreover have "sc_gross command = sc_fee command + sc_net command"
    using v by (auto simp: assert_settlement_command_def comp_simps split: if_splits)
  moreover have "ledger_transactions w' = ledger_transactions w @ [finalized_row inp (txn_now w)]"
    using made by (simp add: posting_made_def posting_step_def)
  ultimately show ?thesis
    using posting_balance[OF assms(1) made] p i settlement_entries_effect
    by (auto simp: posting_of_settlement_def finalized_row_def tx_row_of_def)
qed

theorem ledger_settlement_effect_witness:
  "\<exists>res iid w'. post_settlement demo_env demo_settlement demo_ledger = (Inr (res, iid), w') \<and>
     account_balance w' demo_merchant Merchant_payable ETB = 2500 \<and>
     account_balance w' demo_merchant Fee_revenue ETB = - 25"
proof -
  obtain res iid w' where p: "post_settlement demo_env demo_settlement demo_ledger = (Inr (res, iid), w')"
    using demo_settlement_posts by blast
  have "account_balance w' demo_merchant Merchant_payable ETB = 2500 \<and>
     account_balance w' demo_merchant Fee_revenue ETB = - 25"
    using ledger_settlement_effect[OF demo_ledger_wf p] demo_balance
    by (simp add: demo_settlement_def settlement_effect_def)
  with p show ?thesis by blast
qed

text \<open>
  C5: A reversal that returns takes back, on every account, exactly what the original transaction put
  there. In every well-formed ledger a transaction has at most one reversal, the target of a reversal
  exists, is of the same merchant and currency, and is not itself a reversal.
\<close>

theorem ledger_reversal_undoes:
  assumes "ledger_wf w" and "reverse_posting E command w = (Inr res, w')"
  shows "ledger_wf w' \<and>
    (\<exists>t \<in> set (ledger_transactions w). lt_merchant t = mc_merchant command \<and>
       lt_public_id t = rc_original_public_id command \<and> lt_type t \<noteq> Reversal \<and>
       (\<forall>m c cur. account_balance w' m c cur = account_balance w m c cur -
          (if m = lt_merchant t \<and> cur = lt_currency t then tx_contribution w t c else 0)) \<and>
       (\<forall>r \<in> set (ledger_transactions w). lt_reversal_of r \<noteq> Some (lt_id t)) \<and>
       (\<exists>r. ledger_transactions w' = ledger_transactions w @ [r] \<and> lt_reversal_of r = Some (lt_id t)))"
proof -
  from reverse_posting_Inr[OF assms(2)] obtain inp t where
    p: "posting_of_reversal w command t inp" and made: "posting_made inp w w'" by auto
  have wf': "ledger_wf w'"
    using made p assms by (auto simp: posting_made_def intro: posting_step_keeps_wf posting_of_reversal_sound)
  have ts: "ledger_transactions w' = ledger_transactions w @ [finalized_row inp (txn_now w)]"
    and r: "lt_reversal_of (finalized_row inp (txn_now w)) = Some (lt_id t)"
    using made p by (simp_all add: posting_made_def posting_step_def posting_of_reversal_def finalized_row_def tx_row_of_def)
  have once: "lt_reversal_of r' \<noteq> Some (lt_id t)" if "r' \<in> set (ledger_transactions w)" for r'
  proof
    assume a: "lt_reversal_of r' = Some (lt_id t)"
    have "ledger_tx_unique (ledger_transactions w) (tx_row_of inp) = None"
      using made by (simp add: posting_made_def posting_accepted_def)
    then have "Some (lt_id t) \<notin> lt_reversal_of ` set (ledger_transactions w)"
      using p by (simp add: ledger_tx_unique_None tx_row_of_def posting_of_reversal_def)
    with a that show False by (metis image_eqI)
  qed
  show ?thesis
    using wf' reversal_balance[OF assms(1) p made] p once ts r
    unfolding posting_of_reversal_def by (intro conjI bexI[of _ t]) auto
qed

theorem ledger_reversal_undoes_witness:
  "\<exists>(w :: ledger_world) t res w'. ledger_wf w \<and> ledger_transactions w = [t] \<and>
     reverse_posting demo_env (demo_reverse t) w = (Inr res, w') \<and>
     (\<exists>r. ledger_transactions w' = [t, r] \<and> lt_reversal_of r = Some (lt_id t))"
proof -
  obtain w :: ledger_world and t res w' where d: "ledger_wf w" "ledger_transactions w = [t]"
    "reverse_posting demo_env (demo_reverse t) w = (Inr res, w')" using demo_reversal_posts by blast
  with ledger_reversal_undoes[OF d(1,3)]
  have "\<exists>r. ledger_transactions w' = [t, r] \<and> lt_reversal_of r = Some (lt_id t)" by auto
  with d show ?thesis by blast
qed

section \<open>What the ledger accepts and refuses\<close>

text \<open>
  C6: A call that returns inside a transaction is never refused by the deferred integrity trigger at
  commit: the service builds only postings the database accepts.
\<close>

theorem ledger_commit_accepts:
  assumes "ledger_wf w0" and "ledger_call_body E call w0 = (Inr u, w')"
  shows "ledger_deferred w w' = None"
  using assms by (blast intro: ledger_change_deferred ledger_call_change)

theorem ledger_commit_accepts_witness:
  "\<exists>w'. ledger_call_body demo_env (Post_capture demo_capture) demo_ledger = (Inr (), w') \<and>
     ledger_deferred demo_ledger w' = None"
proof -
  obtain res w' where "ledger_post demo_env demo_capture Capture demo_ledger = (Inr res, w')"
    using demo_capture_posts by blast
  then have c: "ledger_call_body demo_env (Post_capture demo_capture) demo_ledger = (Inr (), w')"
    by (simp add: forget_Inr post_capture_def)
  from ledger_commit_accepts[OF demo_ledger_wf c] c show ?thesis by blast
qed

text \<open>
  C7: A valid capture or refund of a provisioned merchant, with fresh identifiers and no outage, is
  decided by its business reference alone. A reference with a control character of \<open>U+0080-U+009F\<close>, which
  the service's validation lets through, is refused by the check of the table, with the database's own
  error; any other is posted when it is unused and refused with the business reference conflict when it
  is used. A refusal leaves the database as it is.
\<close>

theorem ledger_reference_decides:
  assumes "calm E" and "fresh_ids E w" and "ledger_wf w"
    and "length (merchant_accounts w (mc_merchant command)) = 8"
    and "assert_money_command command = Inr ()" and "bt \<noteq> Reversal"
  shows "if has_c1_control (mc_reference command)
    then \<exists>w'. ledger_post E command bt w =
        (Inl (DbE (ConstraintViolation ''ledger_transactions_business_reference_check'')), w') \<and> same_db w w'
    else if reference_free w (mc_merchant command) bt (mc_reference command)
    then \<exists>res w'. ledger_post E command bt w = (Inr res, w')
    else \<exists>w'. ledger_post E command bt w = (Inl (LedgerE LedgerBusinessReferenceConflictError), w') \<and> same_db w w'"
  using ledger_post_control[OF assms] ledger_post_succeeds[OF assms] ledger_post_conflict[OF assms] by simp

definition control_capture :: money_command where
  "control_capture = demo_capture\<lparr>mc_reference := units ''pay'' @ [133] @ units ''1''\<rparr>"

lemma control_capture_valid: "assert_money_command control_capture = Inr ()"
proof -
  have "js_trim (units ''pay'' @ [133] @ units ''1'') = units ''pay'' @ [133] @ units ''1''"
    "\<not> contains_control_character (units ''pay'' @ [133] @ units ''1'')" "is_request_id ''req_1''"
    by (simp_all add: js_trim_def is_js_space_def units_def contains_control_character_def is_high_def
        is_request_id_def is_request_char_def char_in_def)
  then show ?thesis
    by (simp add: control_capture_def demo_capture_def assert_money_command_def assert_common_command_def bind_sum_def
        max_safe_integer_def)
qed

theorem ledger_reference_decides_witness:
  "(\<exists>res w'. ledger_post demo_env demo_capture Capture demo_ledger = (Inr res, w')) \<and>
   (\<exists>w'. ledger_post demo_env control_capture Capture demo_ledger =
      (Inl (DbE (ConstraintViolation ''ledger_transactions_business_reference_check'')), w') \<and> same_db demo_ledger w')"
proof -
  note decides = ledger_reference_decides[OF demo_calm demo_ledger_fresh demo_ledger_wf]
  have "\<not> has_c1_control (mc_reference demo_capture)" by (simp add: demo_capture_def demo_no_control)
  then have "\<exists>res w'. ledger_post demo_env demo_capture Capture demo_ledger = (Inr res, w')"
    using decides[of demo_capture Capture] by (simp add: demo_chart demo_capture_merchant demo_capture_valid demo_free)
  moreover have "has_c1_control (mc_reference control_capture)" "mc_merchant control_capture = demo_merchant"
    by (simp_all add: control_capture_def demo_capture_def has_c1_control_def)
  then have "\<exists>w'. ledger_post demo_env control_capture Capture demo_ledger =
      (Inl (DbE (ConstraintViolation ''ledger_transactions_business_reference_check'')), w') \<and> same_db demo_ledger w'"
    using decides[of control_capture Capture] by (simp add: demo_chart control_capture_valid)
  ultimately show ?thesis by blast
qed

end
