(* ===== verification/Json.thy ===== *)
theory Json imports Prelude begin

text \<open>
  JSON values and the text the program makes of numbers, strings and dates: decimal notation,
  \<open>JSON.stringify\<close> of a string, \<open>Date.prototype.toISOString\<close>. Object keys are ASCII in every contract of
  the program and are kept as \<open>string\<close>.
\<close>

section \<open>Values\<close>

datatype json =
    JNull
  | JBool bool
  | JInt int          \<comment> \<open>a number that is an integer\<close>
  | JFrac             \<comment> \<open>any other number\<close>
  | JStr ustring
  | JArr "json list"
  | JObj "(string \<times> json) list"

fun obj_get :: "json \<Rightarrow> string \<Rightarrow> json option" where
  "obj_get (JObj fs) k = map_of fs k"
| "obj_get v k = None"

fun is_json_object :: "json \<Rightarrow> bool" where
  "is_json_object (JObj fs) \<longleftrightarrow> True"
| "is_json_object v \<longleftrightarrow> False"

fun is_json_string :: "json option \<Rightarrow> bool" where
  "is_json_string (Some (JStr s)) \<longleftrightarrow> True"
| "is_json_string v \<longleftrightarrow> False"

fun is_json_number :: "json option \<Rightarrow> bool" where
  "is_json_number (Some (JInt i)) \<longleftrightarrow> True"
| "is_json_number (Some JFrac) \<longleftrightarrow> True"
| "is_json_number v \<longleftrightarrow> False"

text \<open>\<open>typeof v === 'number' && Number.isSafeInteger(v)\<close>.\<close>

fun is_safe_number :: "json option \<Rightarrow> bool" where
  "is_safe_number (Some (JInt i)) \<longleftrightarrow> - max_safe_integer \<le> i \<and> i \<le> max_safe_integer"
| "is_safe_number v \<longleftrightarrow> False"

definition jstr :: "string \<Rightarrow> json" where
  "jstr s = JStr (units s)"

lemma jstr_eq [simp]: "jstr a = jstr b \<longleftrightarrow> a = b"
  by (simp add: jstr_def)

lemma jstr_string [simp]: "is_json_string (Some (jstr s))"
  by (simp add: jstr_def)

text \<open>\<open>{...object, key: value}\<close>: an existing member keeps its place.\<close>

fun set_member :: "string \<Rightarrow> json \<Rightarrow> (string \<times> json) list \<Rightarrow> (string \<times> json) list" where
  "set_member k v [] = [(k, v)]"
| "set_member k v (m # ms) = (if fst m = k then (k, v) # ms else m # set_member k v ms)"

lemma set_member_new: "k \<notin> fst ` set ms \<Longrightarrow> set_member k v ms = ms @ [(k, v)]"
  by (induction ms) auto

section \<open>Decimal notation\<close>

fun dec_nat :: "nat \<Rightarrow> ustring" where
  "dec_nat n = (if n < 10 then [48 + n] else dec_nat (n div 10) @ [48 + n mod 10])"

declare dec_nat.simps [simp del]

lemma dec_nat_eval:
  "n < 10 \<Longrightarrow> dec_nat n = [48 + n]"
  "10 \<le> n \<Longrightarrow> dec_nat n = dec_nat (n div 10) @ [48 + n mod 10]"
  by (simp_all add: dec_nat.simps[of n])

definition dec_int :: "int \<Rightarrow> ustring" where
  "dec_int i = (if i < 0 then 45 # dec_nat (nat (- i)) else dec_nat (nat i))"

fun dec_value :: "ustring \<Rightarrow> nat" where
  "dec_value us = foldl (\<lambda>a u. 10 * a + (u - 48)) 0 us"

lemma dec_value_dec_nat: "dec_value (dec_nat n) = n"
proof (induction n rule: dec_nat.induct)
  case (1 n)
  show ?case
  proof (cases "n < 10")
    case True
    then show ?thesis by (simp add: dec_nat.simps[of n])
  next
    case False
    then show ?thesis using 1 by (simp add: dec_nat.simps[of n])
  qed
qed

lemma dec_nat_inj: "dec_nat a = dec_nat b \<Longrightarrow> a = b"
  by (metis dec_value_dec_nat)

lemma dec_nat_digits: "u \<in> set (dec_nat n) \<Longrightarrow> 48 \<le> u \<and> u \<le> 57"
proof (induction n rule: dec_nat.induct)
  case (1 n)
  show ?case
  proof (cases "n < 10")
    case True
    with 1(2) show ?thesis by (simp add: dec_nat.simps[of n])
  next
    case False
    with 1(2) consider "u \<in> set (dec_nat (n div 10))" | "u = 48 + n mod 10"
      by (auto simp: dec_nat.simps[of n])
    then show ?thesis
    proof cases
      case 1
      then show ?thesis using "1.IH" False by simp
    next
      case 2
      have "n mod 10 < 10" by simp
      then show ?thesis using 2 by simp
    qed
  qed
qed

lemma dec_int_inj: "dec_int a = dec_int b \<Longrightarrow> a = b"
proof -
  have neq: "45 # xs \<noteq> dec_nat n" for xs n
  proof
    assume "45 # xs = dec_nat n"
    then have "45 \<in> set (dec_nat n)" by (metis list.set_intros(1))
    then show False using dec_nat_digits by fastforce
  qed
  assume "dec_int a = dec_int b"
  then show ?thesis
    using neq neq[symmetric] by (auto simp: dec_int_def dest!: dec_nat_inj split: if_splits)
qed

lemma dec_int_no_quote: "34 \<notin> set (dec_int i)"
  using dec_nat_digits by (fastforce simp: dec_int_def split: if_splits)

section \<open>Dates\<close>

definition ms_per_day :: int where
  "ms_per_day = 86400000"

text \<open>The civil date of a day counted from 1970-01-01, in the proleptic Gregorian calendar.\<close>

definition civil_of_days :: "int \<Rightarrow> int \<times> int \<times> int" where
  "civil_of_days days =
     (let z = days + 719468; era = z div 146097; doe = z mod 146097;
          yoe = (doe - doe div 1460 + doe div 36524 - doe div 146096) div 365;
          doy = doe - (365 * yoe + yoe div 4 - yoe div 100);
          mp = (5 * doy + 2) div 153;
          d = doy - (153 * mp + 2) div 5 + 1;
          m = (if mp < 10 then mp + 3 else mp - 9)
      in (yoe + era * 400 + (if m \<le> 2 then 1 else 0), m, d))"

definition pad :: "nat \<Rightarrow> int \<Rightarrow> ustring" where
  "pad k i = (let ds = dec_nat (nat i) in replicate (k - length ds) 48 @ ds)"

definition iso_year :: "int \<Rightarrow> ustring" where
  "iso_year y = (if 0 \<le> y \<and> y \<le> 9999 then pad 4 y
                 else (if y < 0 then 45 else 43) # pad 6 (abs y))"

definition to_iso :: "int \<Rightarrow> ustring" where
  "to_iso t = (case civil_of_days (t div ms_per_day) of (y, m, d) \<Rightarrow>
     let r = t mod ms_per_day in
     iso_year y @ [45] @ pad 2 m @ [45] @ pad 2 d @ [84] @ pad 2 (r div 3600000) @ [58] @
     pad 2 (r div 60000 mod 60) @ [58] @ pad 2 (r div 1000 mod 60) @ [46] @ pad 3 (r mod 1000) @ [90])"

lemma to_iso_eq:
  assumes "civil_of_days (t div ms_per_day) = (y, m, d)" and "t mod ms_per_day = r"
  shows "to_iso t = iso_year y @ [45] @ pad 2 m @ [45] @ pad 2 d @ [84] @ pad 2 (r div 3600000) @ [58] @
     pad 2 (r div 60000 mod 60) @ [58] @ pad 2 (r div 1000 mod 60) @ [46] @ pad 3 (r mod 1000) @ [90]"
  using assms by (simp add: to_iso_def)

lemma to_iso_epoch: "to_iso 0 = units ''1970-01-01T00:00:00.000Z''"
proof -
  have "civil_of_days (0 div ms_per_day) = (1970, 1, 1)" "0 mod ms_per_day = 0"
    by code_simp+
  from to_iso_eq[OF this] show ?thesis by (simp add: iso_year_def pad_def dec_nat_eval units_def numeral_2_eq_2)
qed

lemma to_iso_leap_day: "to_iso 951782400123 = units ''2000-02-29T00:00:00.123Z''"
proof -
  have "civil_of_days (951782400123 div ms_per_day) = (2000, 2, 29)" "951782400123 mod ms_per_day = 123"
    by code_simp+
  from to_iso_eq[OF this] show ?thesis by (simp add: iso_year_def pad_def dec_nat_eval units_def numeral_2_eq_2)
qed

section \<open>Quoting a string\<close>

text \<open>
  \<open>JSON.stringify\<close> of a string (well-formed variant): quotation mark, backslash and control characters
  are escaped, and a surrogate that is not part of a pair.
\<close>

definition hex_digit :: "nat \<Rightarrow> nat" where
  "hex_digit n = (if n < 10 then 48 + n else 87 + n)"

definition unicode_escape :: "nat \<Rightarrow> ustring" where
  "unicode_escape u =
     [92, 117, hex_digit (u div 4096 mod 16), hex_digit (u div 256 mod 16), hex_digit (u div 16 mod 16),
      hex_digit (u mod 16)]"

definition quote_unit :: "nat \<Rightarrow> ustring" where
  "quote_unit u =
     (if u = 34 then [92, 34] else if u = 92 then [92, 92]
      else if u = 8 then [92, 98] else if u = 12 then [92, 102] else if u = 10 then [92, 110]
      else if u = 13 then [92, 114] else if u = 9 then [92, 116]
      else if u < 32 \<or> is_high u \<or> is_low u then unicode_escape u
      else [u])"

fun quote_units :: "ustring \<Rightarrow> ustring" where
  "quote_units (h # l # us) =
     (if is_high h \<and> is_low l then h # l # quote_units us else quote_unit h @ quote_units (l # us))"
| "quote_units [u] = quote_unit u"
| "quote_units [] = []"

definition json_quote :: "ustring \<Rightarrow> ustring" where
  "json_quote s = [34] @ quote_units s @ [34]"

text \<open>
  Reading a JSON string, from after its opening quotation mark: the string and what follows it. Control
  characters and unknown escapes are refused. It inverts quoting, so quoted strings are told apart
  wherever they stand.
\<close>

definition is_hex_unit :: "nat \<Rightarrow> bool" where
  "is_hex_unit c \<longleftrightarrow> (48 \<le> c \<and> c \<le> 57) \<or> (65 \<le> c \<and> c \<le> 70) \<or> (97 \<le> c \<and> c \<le> 102)"

definition hex_value :: "nat \<Rightarrow> nat" where
  "hex_value c = (if c \<le> 57 then c - 48 else if c \<le> 70 then c - 55 else c - 87)"

definition is_simple_escape :: "nat \<Rightarrow> bool" where
  "is_simple_escape c \<longleftrightarrow> c \<in> {34, 92, 47, 98, 102, 110, 114, 116}"

definition unescape :: "nat \<Rightarrow> nat" where
  "unescape c = (if c = 98 then 8 else if c = 102 then 12 else if c = 110 then 10
                 else if c = 114 then 13 else if c = 116 then 9 else c)"

fun unquote :: "ustring \<Rightarrow> (ustring \<times> ustring) option" where
  "unquote [] = None"
| "unquote (u # us) =
     (if u = 34 then Some ([], us)
      else if u = 92 then
        (case us of
           c # rest \<Rightarrow>
             if c = 117 then
               (case rest of
                  a # b # d # e # rest' \<Rightarrow>
                    if list_all is_hex_unit [a, b, d, e]
                    then map_option (apfst (Cons (4096 * hex_value a + 256 * hex_value b + 16 * hex_value d + hex_value e)))
                           (unquote rest')
                    else None
                | _ \<Rightarrow> None)
             else if is_simple_escape c then map_option (apfst (Cons (unescape c))) (unquote rest)
             else None
         | [] \<Rightarrow> None)
      else if u < 32 then None
      else map_option (apfst (Cons u)) (unquote us))"

lemma hex_unit_digit: "a < 16 \<Longrightarrow> is_hex_unit (hex_digit a)"
  by (simp add: is_hex_unit_def hex_digit_def)

lemma hex_value_digit: "a < 16 \<Longrightarrow> hex_value (hex_digit a) = a"
  by (simp add: hex_value_def hex_digit_def)

lemma hex_split:
  fixes n :: nat
  assumes "n < 65536"
  shows "4096 * (n div 4096 mod 16) + 256 * (n div 256 mod 16) + 16 * (n div 16 mod 16) + n mod 16 = n"
proof -
  have d: "n div 256 = n div 16 div 16" "n div 4096 = n div 256 div 16"
    using div_mult2_eq[of n 16 16] div_mult2_eq[of n 256 16] by auto
  have "n div 4096 < 16" using assms by (simp add: less_mult_imp_div_less)
  then have m: "n div 4096 mod 16 = n div 4096" by simp
  have e: "4096 * a = 256 * (16 * a)" "256 * b = 16 * (16 * b)" for a b :: nat by simp_all
  have "16 * (n div 16) + n mod 16 = n" by (rule mult_div_mod_eq)
  moreover have "16 * (n div 256) + n div 16 mod 16 = n div 16" unfolding d(1) by (rule mult_div_mod_eq)
  moreover have "16 * (n div 4096) + n div 256 mod 16 = n div 256" unfolding d(2) by (rule mult_div_mod_eq)
  ultimately show ?thesis unfolding m by (simp only: e)
qed

lemma unquote_plain: "u \<noteq> 34 \<Longrightarrow> u \<noteq> 92 \<Longrightarrow> 32 \<le> u \<Longrightarrow> unquote (u # us) = map_option (apfst (Cons u)) (unquote us)"
  by simp

lemma unquote_escape: "c \<noteq> 117 \<Longrightarrow> is_simple_escape c \<Longrightarrow> unquote (92 # c # us) = map_option (apfst (Cons (unescape c))) (unquote us)"
  by simp

lemma unquote_unicode:
  assumes "u < 65536"
  shows "unquote (unicode_escape u @ rest) = map_option (apfst (Cons u)) (unquote rest)"
proof -
  have "4096 * hex_value (hex_digit (u div 4096 mod 16)) + 256 * hex_value (hex_digit (u div 256 mod 16)) +
      16 * hex_value (hex_digit (u div 16 mod 16)) + hex_value (hex_digit (u mod 16)) = u"
    using hex_split[OF assms] by (simp only: hex_value_digit mod_less_divisor zero_less_numeral)
  moreover have "list_all is_hex_unit [hex_digit (u div 4096 mod 16), hex_digit (u div 256 mod 16),
      hex_digit (u div 16 mod 16), hex_digit (u mod 16)]"
    by (simp add: hex_unit_digit)
  ultimately show ?thesis
    by (simp only: unicode_escape_def append_Cons append_Nil unquote.simps list.case if_True) simp
qed

declare unquote.simps(2) [simp del]

lemma unquote_unit:
  assumes "u < 65536"
  shows "unquote (quote_unit u @ rest) = map_option (apfst (Cons u)) (unquote rest)"
  unfolding quote_unit_def
  using assms by (simp add: unquote_unicode unquote_escape unquote_plain unescape_def is_simple_escape_def)

lemma unquote_quote:
  assumes "\<forall>u \<in> set s. u < 65536"
  shows "unquote (quote_units s @ 34 # rest) = Some (s, rest)"
  using assms
proof (induction s rule: quote_units.induct)
  case (1 h l us)
  show ?case
  proof (cases "is_high h \<and> is_low l")
    case True
    then have "h \<noteq> 34" "h \<noteq> 92" "l \<noteq> 34" "l \<noteq> 92" "32 \<le> h" "32 \<le> l" by (auto simp: is_high_def is_low_def)
    with True 1 show ?thesis by (simp add: unquote_plain)
  next
    case False
    then have "quote_units (h # l # us) = quote_unit h @ quote_units (l # us)" by (simp only: quote_units.simps if_False)
    moreover have "unquote (quote_units (l # us) @ 34 # rest) = Some (l # us, rest)"
      using 1 False by simp
    moreover have "h < 65536" using 1(3) by simp
    ultimately show ?thesis by (simp only: append_assoc unquote_unit option.map) simp
  qed
next
  case (2 u)
  then show ?case by (simp add: unquote_unit unquote.simps(2))
next
  case 3
  show ?case by (simp add: unquote.simps(2))
qed

lemma json_quote_inj:
  assumes "\<forall>u \<in> set s. u < 65536" and "\<forall>u \<in> set s'. u < 65536"
    and "json_quote s @ r = json_quote s' @ r'"
  shows "s = s' \<and> r = r'"
proof -
  have "unquote (quote_units s @ 34 # r) = unquote (quote_units s' @ 34 # r')"
    using assms(3) by (simp add: json_quote_def)
  then show ?thesis using unquote_quote[OF assms(1)] unquote_quote[OF assms(2)] by simp
qed

end
