(* ===== verification/Instant.thy ===== *)
theory Instant imports Json begin

text \<open>
  Reading an ISO instant, \<open>new Date(text)\<close>, for the texts \<open>toISOString\<close> makes: years of four digits, or
  of six with a sign. It inverts \<open>to_iso\<close> on every valid time value, so the code's test
  \<open>date.toISOString() === text\<close> accepts a text for exactly one date.
\<close>

section \<open>The calendar\<close>

definition days_of_civil :: "int \<Rightarrow> int \<Rightarrow> int \<Rightarrow> int" where
  "days_of_civil y m d =
     (let y' = (if m \<le> 2 then y - 1 else y); era = y' div 400; yoe = y' mod 400;
          mp = (if m \<le> 2 then m + 9 else m - 3);
          doy = (153 * mp + 2) div 5 + d - 1;
          doe = yoe * 365 + yoe div 4 - yoe div 100 + doy
      in era * 146097 + doe - 719468)"

text \<open>The year of an era and the day of the year, for each of the era's 146097 days.\<close>

lemma year_of_era:
  fixes doe :: int
  assumes "0 \<le> doe" and "doe < 146097"
  defines "yoe \<equiv> (doe - doe div 1460 + doe div 36524 - doe div 146096) div 365"
  shows "0 \<le> yoe" and "yoe < 400" and "0 \<le> doe - (365 * yoe + yoe div 4 - yoe div 100)"
    and "doe - (365 * yoe + yoe div 4 - yoe div 100) \<le> 365"
proof -
  define a where "a = doe div 1460"
  define b where "b = doe div 36524"
  define c where "c = doe div 146096"
  have a: "1460 * a \<le> doe" "doe < 1460 * a + 1460" unfolding a_def by linarith+
  have b: "36524 * b \<le> doe" "doe < 36524 * b + 36524" unfolding b_def by linarith+
  have c: "146096 * c \<le> doe" "doe < 146096 * c + 146096" unfolding c_def by linarith+
  have y: "365 * yoe \<le> doe - a + b - c" "doe - a + b - c < 365 * yoe + 365"
    unfolding yoe_def a_def b_def c_def by linarith+
  show "0 \<le> yoe" using a b c y assms by linarith
  have c01: "c = 0 \<or> c = 1" using c assms by linarith
  have b3: "b \<le> 3" if "c = 0" using that b c by linarith
  have last: "doe = 146096" if "c = 1" using that c assms by linarith
  show y400: "yoe < 400"
  proof (cases "c = 0")
    case True
    then show ?thesis using b3 a b c y by linarith
  next
    case False
    then have "doe = 146096" using c01 last by blast
    then show ?thesis by (simp add: yoe_def)
  qed
  define p where "p = yoe div 4"
  define q where "q = yoe div 100"
  have p: "4 * p \<le> yoe" "yoe < 4 * p + 4" unfolding p_def by linarith+
  have q: "100 * q \<le> yoe" "yoe < 100 * q + 100" unfolding q_def by linarith+
  have "365 * yoe + p - q \<le> doe \<and> doe \<le> 365 * yoe + p - q + 365"
  proof (cases "c = 0")
    case True
    have "0 \<le> b" "b \<le> 3" using True b3 b assms by linarith+
    have lo: "36500 * b \<le> doe - a + b"
    proof (cases "a \<le> 25 * b")
      case True
      then show ?thesis using b by linarith
    next
      case False
      then show ?thesis using a \<open>b \<le> 3\<close> by linarith
    qed
    have hi: "doe - a + b < 36500 * b + 36500"
      using a b c \<open>0 \<le> b\<close> by linarith
    have "q = b" using lo hi y q True by linarith
    have "p \<le> a" using \<open>q = b\<close> True \<open>0 \<le> b\<close> \<open>b \<le> 3\<close> a b y p q by linarith
    moreover have "a \<le> p + 1" using \<open>q = b\<close> True \<open>0 \<le> b\<close> \<open>b \<le> 3\<close> a b y p q y400 by linarith
    ultimately show ?thesis using y \<open>q = b\<close> True by linarith
  next
    case False
    then have "doe = 146096" using c01 last by blast
    then have "a = 100" "b = 4" "c = 1" by (simp_all add: a_def b_def c_def)
    then have "yoe = 399" using y \<open>doe = 146096\<close> by linarith
    then show ?thesis using \<open>doe = 146096\<close> by (simp add: p_def q_def)
  qed
  then show "0 \<le> doe - (365 * yoe + yoe div 4 - yoe div 100)"
    and "doe - (365 * yoe + yoe div 4 - yoe div 100) \<le> 365"
    unfolding p_def q_def by linarith+
qed

lemma month_of_year:
  fixes doy :: int
  assumes "0 \<le> doy" and "doy \<le> 365"
  defines "mp \<equiv> (5 * doy + 2) div 153"
  shows "0 \<le> mp" and "mp \<le> 11" and "1 \<le> doy - (153 * mp + 2) div 5 + 1"
    and "doy - (153 * mp + 2) div 5 + 1 \<le> 31"
proof -
  have m: "153 * mp \<le> 5 * doy + 2" "5 * doy + 2 < 153 * mp + 153" unfolding mp_def by linarith+
  show "0 \<le> mp" "mp \<le> 11" using m assms by linarith+
  define k where "k = (153 * mp + 2) div 5"
  have k: "5 * k \<le> 153 * mp + 2" "153 * mp + 2 < 5 * k + 5" unfolding k_def by linarith+
  show "1 \<le> doy - (153 * mp + 2) div 5 + 1" "doy - (153 * mp + 2) div 5 + 1 \<le> 31"
    unfolding k_def[symmetric] using m k by linarith+
qed

lemma civil_fields:
  assumes "civil_of_days z = (y, m, d)"
  shows "1 \<le> m" and "m \<le> 12" and "1 \<le> d" and "d \<le> 31" and "days_of_civil y m d = z"
    and "400 * ((z + 719468) div 146097) \<le> y" and "y \<le> 400 * ((z + 719468) div 146097) + 400"
proof -
  define era where "era = (z + 719468) div 146097"
  define doe where "doe = (z + 719468) mod 146097"
  define yoe where "yoe = (doe - doe div 1460 + doe div 36524 - doe div 146096) div 365"
  define doy where "doy = doe - (365 * yoe + yoe div 4 - yoe div 100)"
  define mp where "mp = (5 * doy + 2) div 153"
  have doe: "0 \<le> doe" "doe < 146097" by (simp_all add: doe_def)
  note Y = year_of_era[OF doe, folded yoe_def, folded doy_def]
  note M = month_of_year[OF Y(3,4), folded mp_def]
  have "civil_of_days z = (let m = (if mp < 10 then mp + 3 else mp - 9) in
      (yoe + era * 400 + (if m \<le> 2 then 1 else 0), m, doy - (153 * mp + 2) div 5 + 1))"
    unfolding civil_of_days_def Let_def era_def[symmetric] doe_def[symmetric] yoe_def[symmetric]
      doy_def[symmetric] mp_def[symmetric] by (rule refl)
  with assms have f: "(y, m, d) = (let m = (if mp < 10 then mp + 3 else mp - 9) in
      (yoe + era * 400 + (if m \<le> 2 then 1 else 0), m, doy - (153 * mp + 2) div 5 + 1))"
    by (rule trans[OF sym])
  have m: "m = (if mp < 10 then mp + 3 else mp - 9)"
    and d: "d = doy - (153 * mp + 2) div 5 + 1"
    using f by (simp_all only: Let_def prod.inject)
  have y: "y = yoe + era * 400 + (if m \<le> 2 then 1 else 0)"
    using f unfolding m Let_def prod.inject by (rule conjunct1)
  show "1 \<le> m" "m \<le> 12" using M unfolding m by auto
  show "1 \<le> d" "d \<le> 31" using M unfolding d by blast+
  show "400 * ((z + 719468) div 146097) \<le> y" "y \<le> 400 * ((z + 719468) div 146097) + 400"
    using Y unfolding y era_def[symmetric] by auto
  have y': "(if m \<le> 2 then y - 1 else y) = era * 400 + yoe" unfolding y m by simp
  have mp': "(if m \<le> 2 then m + 9 else m - 3) = mp" using M m by auto
  have "(era * 400 + yoe) div 400 = era" "(era * 400 + yoe) mod 400 = yoe" using Y by simp_all
  then have "days_of_civil y m d = era * 146097 + doe - 719468"
    unfolding days_of_civil_def Let_def y' mp' d doy_def by simp
  also have "\<dots> = z" unfolding era_def doe_def by (simp add: mult.commute)
  finally show "days_of_civil y m d = z" .
qed

section \<open>Digits\<close>

lemma length_dec_nat: "n < 10 ^ k \<Longrightarrow> 0 < k \<Longrightarrow> length (dec_nat n) \<le> k"
proof (induction n arbitrary: k rule: dec_nat.induct)
  case (1 n)
  show ?case
  proof (cases "n < 10")
    case True
    then show ?thesis using 1 by (simp add: dec_nat.simps[of n])
  next
    case False
    then obtain j where k: "k = Suc j" using 1(2,3) by (cases k) auto
    with 1(2) False have "0 < j" by (cases j) auto
    moreover have "n div 10 < 10 ^ j" using 1(2) k by (simp add: less_mult_imp_div_less mult.commute)
    ultimately show ?thesis using 1(1)[OF False] False k by (simp add: dec_nat.simps[of n])
  qed
qed

lemma pad_length:
  assumes "i < 10 ^ k" and "0 < k"
  shows "length (pad k i) = k"
proof -
  have "nat i < nat (10 ^ k)" using assms(1) by (simp only: nat_mono_iff zero_less_power zero_less_numeral)
  then have "nat i < 10 ^ k" by (simp add: nat_power_eq)
  then have "length (dec_nat (nat i)) \<le> k" using assms length_dec_nat by blast
  then show ?thesis by (simp add: pad_def Let_def)
qed

lemma dec_value_pad: "0 \<le> i \<Longrightarrow> int (dec_value (pad k i)) = i"
proof -
  assume "0 \<le> i"
  have z: "foldl (\<lambda>a u. 10 * a + (u - 48)) (0::nat) (replicate n 48) = 0" for n
    by (induction n) simp_all
  have "dec_value (pad k i) = dec_value (dec_nat (nat i))" by (simp add: pad_def Let_def z)
  then show ?thesis using \<open>0 \<le> i\<close> by (simp add: dec_value_dec_nat del: dec_value.simps)
qed

section \<open>Instants\<close>

definition max_time :: int where
  "max_time = 8640000000000000"

definition read_instant :: "ustring \<Rightarrow> int" where
  "read_instant s =
     (let extended = (s \<noteq> [] \<and> (hd s = 43 \<or> hd s = 45));
          n = (if extended then 7 else 4);
          y = (if extended
               then (if hd s = 45 then - 1 else 1) * int (dec_value (take 6 (drop 1 s)))
               else int (dec_value (take 4 s)));
          field = (\<lambda>i k. int (dec_value (take k (drop i (drop n s)))))
      in days_of_civil y (field 1 2) (field 4 2) * ms_per_day + field 7 2 * 3600000 +
         field 10 2 * 60000 + field 13 2 * 1000 + field 16 3)"

text \<open>
  \<open>const d = new Date(s)\<close> with \<open>Number.isFinite(d.getTime()) && d.toISOString() === s\<close>.
\<close>

definition exact_instant :: "ustring \<Rightarrow> int option" where
  "exact_instant s =
     (let t = read_instant s in if \<bar>t\<bar> \<le> max_time \<and> to_iso t = s then Some t else None)"

lemma iso_year_fields:
  assumes "\<bar>y\<bar> < 1000000"
  shows "iso_year y \<noteq> []"
    and "(hd (iso_year y @ r) = 43 \<or> hd (iso_year y @ r) = 45) \<longleftrightarrow> \<not> (0 \<le> y \<and> y \<le> 9999)"
    and "0 \<le> y \<Longrightarrow> y \<le> 9999 \<Longrightarrow> length (iso_year y) = 4 \<and> int (dec_value (iso_year y)) = y"
    and "\<not> (0 \<le> y \<and> y \<le> 9999) \<Longrightarrow> length (iso_year y) = 7 \<and>
      (if hd (iso_year y @ r) = 45 then - 1 else 1) * int (dec_value (drop 1 (iso_year y))) = y"
proof -
  have p4: "length (pad 4 y) = 4" if "y \<le> 9999" using that by (intro pad_length) simp_all
  have p6: "length (pad 6 \<bar>y\<bar>) = 6" using assms by (intro pad_length) simp_all
  have digits: "u \<in> set (pad k i) \<Longrightarrow> 48 \<le> u" for u k i
    using dec_nat_digits by (fastforce simp: pad_def Let_def)
  have ne4: "pad 4 y \<noteq> []" if "y \<le> 9999" using p4[OF that] by auto
  show "iso_year y \<noteq> []" using ne4 by (auto simp: iso_year_def)
  show "(hd (iso_year y @ r) = 43 \<or> hd (iso_year y @ r) = 45) \<longleftrightarrow> \<not> (0 \<le> y \<and> y \<le> 9999)"
  proof (cases "0 \<le> y \<and> y \<le> 9999")
    case True
    then have "hd (iso_year y @ r) \<in> set (pad 4 y)" using ne4 by (simp add: iso_year_def)
    then have "48 \<le> hd (iso_year y @ r)" by (rule digits)
    then show ?thesis using True by auto
  next
    case False
    then show ?thesis by (auto simp: iso_year_def)
  qed
  show "0 \<le> y \<Longrightarrow> y \<le> 9999 \<Longrightarrow> length (iso_year y) = 4 \<and> int (dec_value (iso_year y)) = y"
    using p4 dec_value_pad[of y 4] by (simp add: iso_year_def del: dec_value.simps)
  show "\<not> (0 \<le> y \<and> y \<le> 9999) \<Longrightarrow> length (iso_year y) = 7 \<and>
      (if hd (iso_year y @ r) = 45 then - 1 else 1) * int (dec_value (drop 1 (iso_year y))) = y"
    using p6 dec_value_pad[of "\<bar>y\<bar>" 6] by (auto simp: iso_year_def simp del: dec_value.simps)
qed

lemma read_to_iso:
  assumes "\<bar>t\<bar> \<le> max_time"
  shows "read_instant (to_iso t) = t"
proof -
  obtain y m d where c: "civil_of_days (t div ms_per_day) = (y, m, d)" by (metis prod_cases3)
  note F = civil_fields[OF c]
  define r where "r = t mod ms_per_day"
  have r: "0 \<le> r" "r < 86400000" by (simp_all add: r_def ms_per_day_def)
  have days: "- 100000000 \<le> t div ms_per_day" "t div ms_per_day \<le> 100000000"
    using assms unfolding max_time_def ms_per_day_def by linarith+
  have y: "\<bar>y\<bar> < 1000000" using F(6,7) days by linarith
  define rest where "rest = [45] @ pad 2 m @ [45] @ pad 2 d @ [84] @ pad 2 (r div 3600000) @ [58] @
     pad 2 (r div 60000 mod 60) @ [58] @ pad 2 (r div 1000 mod 60) @ [46] @ pad 3 (r mod 1000) @ [90]"
  have iso: "to_iso t = iso_year y @ rest"
    using to_iso_eq[OF c r_def[symmetric]] by (simp add: rest_def)
  note Y = iso_year_fields(1)[OF y] iso_year_fields(2)[OF y, of rest] iso_year_fields(3)[OF y]
    iso_year_fields(4)[OF y, of rest]
  have h: "0 \<le> r div 3600000" "r div 3600000 < 100" using r by linarith+
  have l: "length (pad 2 m) = 2" "length (pad 2 d) = 2" "length (pad 2 (r div 3600000)) = 2"
    "length (pad 2 (r div 60000 mod 60)) = 2" "length (pad 2 (r div 1000 mod 60)) = 2"
    "length (pad 3 (r mod 1000)) = 3"
    by (rule pad_length; use F h in simp)+
  have v: "int (dec_value (pad 2 m)) = m" "int (dec_value (pad 2 d)) = d"
    "int (dec_value (pad 2 (r div 3600000))) = r div 3600000"
    "int (dec_value (pad 2 (r div 60000 mod 60))) = r div 60000 mod 60"
    "int (dec_value (pad 2 (r div 1000 mod 60))) = r div 1000 mod 60"
    "int (dec_value (pad 3 (r mod 1000))) = r mod 1000"
    using F h by (simp_all add: dec_value_pad del: dec_value.simps)
  have f: "take 2 (drop 1 rest) = pad 2 m" "take 2 (drop 4 rest) = pad 2 d"
    "take 2 (drop 7 rest) = pad 2 (r div 3600000)" "take 2 (drop 10 rest) = pad 2 (r div 60000 mod 60)"
    "take 2 (drop 13 rest) = pad 2 (r div 1000 mod 60)" "take 3 (drop 16 rest) = pad 3 (r mod 1000)"
    by (simp_all add: rest_def l)
  note f = f f[unfolded One_nat_def]
  have time: "r div 3600000 * 3600000 + r div 60000 mod 60 * 60000 + r div 1000 mod 60 * 1000 + r mod 1000 = r"
  proof -
    have e: "r div 60000 = r div 1000 div 60" "r div 3600000 = r div 60000 div 60"
      using zdiv_zmult2_eq[of 60 r 1000] zdiv_zmult2_eq[of 60 r 60000] by auto
    have "r div 1000 = 60 * (r div 60000) + r div 1000 mod 60" unfolding e by simp
    moreover have "r div 60000 = 60 * (r div 3600000) + r div 60000 mod 60" unfolding e(2) by simp
    moreover have "r = 1000 * (r div 1000) + r mod 1000" by simp
    ultimately show ?thesis by linarith
  qed
  have t: "t div ms_per_day * ms_per_day + r = t" by (simp add: r_def)
  show ?thesis
  proof (cases "0 \<le> y \<and> y \<le> 9999")
    case True
    then have "read_instant (to_iso t) = days_of_civil y m d * ms_per_day + r div 3600000 * 3600000 +
        r div 60000 mod 60 * 60000 + r div 1000 mod 60 * 1000 + r mod 1000"
      using Y by (simp add: read_instant_def iso f v del: dec_value.simps)
    then show ?thesis unfolding F(5) using time t by linarith
  next
    case False
    then have "take 6 (drop 1 (to_iso t)) = drop 1 (iso_year y)" "drop 7 (to_iso t) = rest"
      using Y(4) by (simp_all add: iso)
    with False have "read_instant (to_iso t) = days_of_civil y m d * ms_per_day + r div 3600000 * 3600000 +
        r div 60000 mod 60 * 60000 + r div 1000 mod 60 * 1000 + r mod 1000"
      using Y(1,2,4) by (auto simp: read_instant_def f v iso simp del: dec_value.simps split: if_splits)
    then show ?thesis unfolding F(5) using time t by linarith
  qed
qed

lemma exact_instant_iff: "exact_instant s = Some t \<longleftrightarrow> \<bar>t\<bar> \<le> max_time \<and> s = to_iso t"
  using read_to_iso[of t] by (auto simp: exact_instant_def Let_def)

section \<open>The pattern of a UTC instant\<close>

text \<open>\<open>/^\d{4}-\d{2}-\d{2}T\d{2}:\d{2}:\d{2}\.\d{3}Z$/u\<close>; in the template \<open>D\<close> stands for a digit.\<close>

definition utc_template :: ustring where
  "utc_template = units ''DDDD-DD-DDTDD:DD:DD.DDDZ''"

definition fits :: "nat \<Rightarrow> nat \<Rightarrow> bool" where
  "fits p u = (if p = 68 then 48 \<le> u \<and> u \<le> 57 else u = p)"

definition is_utc_millis :: "ustring \<Rightarrow> bool" where
  "is_utc_millis s = list_all2 fits utc_template s"

definition four_digit_year :: "int \<Rightarrow> bool" where
  "four_digit_year t = (0 \<le> fst (civil_of_days (t div ms_per_day)) \<and> fst (civil_of_days (t div ms_per_day)) \<le> 9999)"

lemma fits_pad: "length (pad k i) = n \<Longrightarrow> list_all2 fits (replicate n 68) (pad k i)"
proof -
  assume "length (pad k i) = n"
  moreover have "48 \<le> u \<and> u \<le> 57" if "u \<in> set (pad k i)" for u
    using that dec_nat_digits by (fastforce simp: pad_def Let_def)
  ultimately show ?thesis
    by (auto simp: list_all2_conv_all_nth fits_def)
qed

lemma to_iso_is_utc_millis:
  assumes "four_digit_year t"
  shows "is_utc_millis (to_iso t)"
proof -
  obtain y m d where c: "civil_of_days (t div ms_per_day) = (y, m, d)" by (metis prod_cases3)
  note F = civil_fields[OF c]
  define r where "r = t mod ms_per_day"
  have r: "0 \<le> r" "r < 86400000" by (simp_all add: r_def ms_per_day_def)
  have y: "0 \<le> y" "y \<le> 9999" using assms by (simp_all add: four_digit_year_def c)
  have h: "r div 3600000 < 100" using r by linarith
  have l: "length (pad 4 y) = 4" "length (pad 2 m) = 2" "length (pad 2 d) = 2" "length (pad 2 (r div 3600000)) = 2"
    "length (pad 2 (r div 60000 mod 60)) = 2" "length (pad 2 (r div 1000 mod 60)) = 2"
    "length (pad 3 (r mod 1000)) = 3"
    by (rule pad_length; use F h y in simp)+
  have t: "utc_template = replicate 4 68 @ [45] @ replicate 2 68 @ [45] @ replicate 2 68 @ [84] @ replicate 2 68 @
      [58] @ replicate 2 68 @ [58] @ replicate 2 68 @ [46] @ replicate 3 68 @ [90]"
    by (simp add: utc_template_def units_def numeral_eq_Suc)
  have one: "list_all2 fits [45] [45]" "list_all2 fits [84] [84]" "list_all2 fits [58] [58]"
    "list_all2 fits [46] [46]" "list_all2 fits [90] [90]"
    by (simp_all add: fits_def)
  have iy: "iso_year y = pad 4 y" using y by (simp add: iso_year_def)
  show ?thesis
    unfolding is_utc_millis_def t to_iso_eq[OF c r_def[symmetric]] iy
    by (intro list_all2_appendI one fits_pad l)
qed

end
