(* ===== verification/Eventing.thy ===== *)
theory Eventing imports Instant Ledger_Store begin

text \<open>
  The event side of a command: the five domain events and \<open>EventingService\<close>
  (\<open>packages/modules/eventing/src/eventing.service.ts\<close>, \<open>eventing.types.ts\<close>), the transactional
  outbox table with its constraints (migrations \<open>20260801095331\<close> and \<open>20260803100000\<close>) and
  \<open>PrismaOutboxRepository\<close> (\<open>prisma-outbox.repository.ts\<close>).
\<close>

section \<open>Events\<close>

record event_base =
  de_event_id :: string
  de_merchant :: string
  de_occurred :: int
  de_request :: string

record payment_event_base = event_base +
  pe_currency :: currency
  pe_payment :: string

text \<open>The literal field \<open>status: 'CREATED'\<close> is the constant of its type.\<close>

record payment_created_event = payment_event_base +
  pce_amount :: int

record payment_captured_event = payment_event_base +
  pcap_available_on :: int
  pcap_amount :: int
  pcap_ledger_tx :: string

record payment_refunded_event = payment_event_base +
  prf_amount :: int
  prf_cumulative :: int
  prf_ledger_tx :: string
  prf_refund :: string

record settlement_finalized_event = event_base +
  sfe_batch :: string
  sfe_currency :: currency
  sfe_cutoff :: int
  sfe_fee :: int
  sfe_gross :: int
  sfe_items :: int
  sfe_net :: int

record reconciliation_completed_event = event_base +
  rce_import :: string
  rce_matched :: int
  rce_mismatch :: int
  rce_difference_etb :: int
  rce_difference_usd :: int

datatype domain_event =
    PaymentCreated payment_created_event
  | PaymentCaptured payment_captured_event
  | PaymentRefunded payment_refunded_event
  | SettlementFinalized settlement_finalized_event
  | ReconciliationCompleted reconciliation_completed_event

fun event_type_name :: "domain_event \<Rightarrow> string" where
  "event_type_name (PaymentCreated e) = ''payment.created.v1''"
| "event_type_name (PaymentCaptured e) = ''payment.captured.v1''"
| "event_type_name (PaymentRefunded e) = ''payment.refunded.v1''"
| "event_type_name (SettlementFinalized e) = ''settlement.finalized.v1''"
| "event_type_name (ReconciliationCompleted e) = ''reconciliation.completed.v1''"

fun event_base_of :: "domain_event \<Rightarrow> event_base" where
  "event_base_of (PaymentCreated e) = event_base.truncate e"
| "event_base_of (PaymentCaptured e) = event_base.truncate e"
| "event_base_of (PaymentRefunded e) = event_base.truncate e"
| "event_base_of (SettlementFinalized e) = event_base.truncate e"
| "event_base_of (ReconciliationCompleted e) = event_base.truncate e"

section \<open>\<open>EventingService\<close>\<close>

record payment_created_input =
  pci_amount :: int
  pci_currency :: currency
  pci_merchant :: string
  pci_payment :: string
  pci_request :: string

record payment_captured_input =
  pai_available_on :: int
  pai_amount :: int
  pai_currency :: currency
  pai_ledger_tx :: string
  pai_merchant :: string
  pai_payment :: string
  pai_request :: string

record payment_refunded_input =
  pri_amount :: int
  pri_cumulative :: int
  pri_currency :: currency
  pri_ledger_tx :: string
  pri_merchant :: string
  pri_payment :: string
  pri_refund :: string
  pri_request :: string

definition event_id :: "env \<Rightarrow> int \<Rightarrow> ('a world_scheme, error, string) comp" where
  "event_id E occurredAt = bindc (new_ulid E occurredAt) (\<lambda>u. ok (''evt_'' @ u))"

definition create_payment_created_event ::
  "env \<Rightarrow> payment_created_input \<Rightarrow> int \<Rightarrow> ('a world_scheme, error, payment_created_event) comp" where
  "create_payment_created_event E inp occurredAt =
     bindc (event_id E occurredAt) (\<lambda>eventId. ok
       \<lparr>de_event_id = eventId, de_merchant = pci_merchant inp, de_occurred = occurredAt,
        de_request = pci_request inp, pe_currency = pci_currency inp, pe_payment = pci_payment inp,
        pce_amount = pci_amount inp\<rparr>)"

definition create_payment_captured_event ::
  "env \<Rightarrow> payment_captured_input \<Rightarrow> int \<Rightarrow> ('a world_scheme, error, payment_captured_event) comp" where
  "create_payment_captured_event E inp occurredAt =
     bindc (event_id E occurredAt) (\<lambda>eventId. ok
       \<lparr>de_event_id = eventId, de_merchant = pai_merchant inp, de_occurred = occurredAt,
        de_request = pai_request inp, pe_currency = pai_currency inp, pe_payment = pai_payment inp,
        pcap_available_on = pai_available_on inp, pcap_amount = pai_amount inp,
        pcap_ledger_tx = pai_ledger_tx inp\<rparr>)"

definition create_payment_refunded_event ::
  "env \<Rightarrow> payment_refunded_input \<Rightarrow> int \<Rightarrow> ('a world_scheme, error, payment_refunded_event) comp" where
  "create_payment_refunded_event E inp occurredAt =
     bindc (event_id E occurredAt) (\<lambda>eventId. ok
       \<lparr>de_event_id = eventId, de_merchant = pri_merchant inp, de_occurred = occurredAt,
        de_request = pri_request inp, pe_currency = pri_currency inp, pe_payment = pri_payment inp,
        prf_amount = pri_amount inp, prf_cumulative = pri_cumulative inp,
        prf_ledger_tx = pri_ledger_tx inp, prf_refund = pri_refund inp\<rparr>)"

text \<open>
  The two operational events copy their input (\<open>...input\<close>) around the identifier and the date; the
  input is the event record whose identifier and date are replaced.
\<close>

definition create_settlement_finalized_event ::
  "env \<Rightarrow> settlement_finalized_event \<Rightarrow> int \<Rightarrow> ('a world_scheme, error, settlement_finalized_event) comp"
where
  "create_settlement_finalized_event E inp occurredAt =
     bindc (event_id E occurredAt) (\<lambda>eventId. ok (inp\<lparr>de_event_id := eventId, de_occurred := occurredAt\<rparr>))"

definition create_reconciliation_completed_event ::
  "env \<Rightarrow> reconciliation_completed_event \<Rightarrow> int \<Rightarrow>
   ('a world_scheme, error, reconciliation_completed_event) comp"
where
  "create_reconciliation_completed_event E inp occurredAt =
     bindc (event_id E occurredAt) (\<lambda>eventId. ok (inp\<lparr>de_event_id := eventId, de_occurred := occurredAt\<rparr>))"

section \<open>\<open>toPayload\<close>\<close>

definition common_payload :: "string \<Rightarrow> 'a event_base_scheme \<Rightarrow> (string \<times> json) list" where
  "common_payload t e =
     [(''eventId'', jstr (de_event_id e)), (''eventType'', jstr t),
      (''occurredAt'', JStr (to_iso (de_occurred e))), (''requestId'', jstr (de_request e)),
      (''merchantId'', jstr (de_merchant e))]"

fun to_payload :: "domain_event \<Rightarrow> json" where
  "to_payload (SettlementFinalized e) = JObj (common_payload ''settlement.finalized.v1'' e @
     [(''batchId'', jstr (sfe_batch e)), (''cutoffAt'', JStr (to_iso (sfe_cutoff e))),
      (''grossAmountMinor'', JInt (sfe_gross e)), (''feeAmountMinor'', JInt (sfe_fee e)),
      (''netAmountMinor'', JInt (sfe_net e)), (''currency'', jstr (currency_code (sfe_currency e))),
      (''itemCount'', JInt (sfe_items e))])"
| "to_payload (ReconciliationCompleted e) = JObj (common_payload ''reconciliation.completed.v1'' e @
     [(''importId'', jstr (rce_import e)), (''matchedExactCount'', JInt (rce_matched e)),
      (''mismatchCount'', JInt (rce_mismatch e)),
      (''unexplainedDifferenceMinorByCurrency'',
         JObj [(''ETB'', JInt (rce_difference_etb e)), (''USD'', JInt (rce_difference_usd e))])])"
| "to_payload (PaymentCreated e) = JObj (common_payload ''payment.created.v1'' e @
     [(''paymentId'', jstr (pe_payment e)), (''amountMinor'', JInt (pce_amount e)),
      (''currency'', jstr (currency_code (pe_currency e))), (''status'', jstr ''CREATED'')])"
| "to_payload (PaymentCaptured e) = JObj (common_payload ''payment.captured.v1'' e @
     [(''paymentId'', jstr (pe_payment e)), (''capturedAmountMinor'', JInt (pcap_amount e)),
      (''currency'', jstr (currency_code (pe_currency e))),
      (''availableOn'', JStr (to_iso (pcap_available_on e))),
      (''ledgerTransactionId'', jstr (pcap_ledger_tx e))])"
| "to_payload (PaymentRefunded e) = JObj (common_payload ''payment.refunded.v1'' e @
     [(''paymentId'', jstr (pe_payment e)), (''refundId'', jstr (prf_refund e)),
      (''amountMinor'', JInt (prf_amount e)), (''currency'', jstr (currency_code (pe_currency e))),
      (''cumulativeRefundedAmountMinor'', JInt (prf_cumulative e)),
      (''ledgerTransactionId'', jstr (prf_ledger_tx e))])"

section \<open>The outbox table\<close>

text \<open>\<open>created_at\<close> and \<open>updated_at\<close> are not read by any code and are left out.\<close>

record outbox_row =
  ob_id :: string
  ob_event_id :: string
  ob_event_type :: string
  ob_merchant :: string
  ob_aggregate_type :: string
  ob_aggregate_id :: string
  ob_occurred :: int
  ob_request :: string
  ob_payload :: json
  ob_available :: int
  ob_attempts :: nat
  ob_locked_by :: "string option"
  ob_locked_at :: "int option"
  ob_lease_expires :: "int option"
  ob_published :: "int option"

record eventing_world = ledger_world +
  outbox_events :: "outbox_row list"

text \<open>SQL truth values: a \<open>CHECK\<close> refuses a row only when its condition is false, not when it is unknown.\<close>

type_synonym sql_bool = "bool option"

definition sql_all :: "sql_bool list \<Rightarrow> sql_bool" where
  "sql_all bs = (if Some False \<in> set bs then Some False else if None \<in> set bs then None else Some True)"

definition sql_any :: "sql_bool list \<Rightarrow> sql_bool" where
  "sql_any bs = (if Some True \<in> set bs then Some True else if None \<in> set bs then None else Some False)"

definition sql_rel :: "('x \<Rightarrow> 'y \<Rightarrow> bool) \<Rightarrow> 'x option \<Rightarrow> 'y option \<Rightarrow> sql_bool" where
  "sql_rel f a b = (case (a, b) of (Some x, Some y) \<Rightarrow> Some (f x y) | _ \<Rightarrow> None)"

definition sql_refuses :: "sql_bool \<Rightarrow> bool" where
  "sql_refuses b \<longleftrightarrow> b = Some False"

text \<open>\<open>payload ->> 'k'\<close> and its cast to \<open>numeric\<close>, for scalar members.\<close>

fun json_text :: "json option \<Rightarrow> ustring option" where
  "json_text (Some (JStr s)) = Some s"
| "json_text (Some (JInt i)) = Some (dec_int i)"
| "json_text v = None"

fun json_numeric :: "json option \<Rightarrow> int option" where
  "json_numeric (Some (JInt i)) = Some i"
| "json_numeric v = None"

text \<open>\<open>v - ARRAY[...] = '{}'\<close>.\<close>

fun only_keys :: "string list \<Rightarrow> json option \<Rightarrow> sql_bool" where
  "only_keys ks (Some (JObj fs)) = Some (list_all (\<lambda>f. fst f \<in> set ks) fs)"
| "only_keys ks v = None"

definition common_keys :: "string list" where
  "common_keys = [''eventId'', ''eventType'', ''occurredAt'', ''requestId'', ''merchantId'']"

definition payment_contract :: "outbox_row \<Rightarrow> string \<Rightarrow> string list \<Rightarrow> sql_bool" where
  "payment_contract r t ks = sql_all
     [Some (ob_event_type r = t), Some (ob_aggregate_type r = ''payment_intent''),
      sql_rel (=) (json_text (obj_get (ob_payload r) ''paymentId'')) (Some (units (ob_aggregate_id r))),
      only_keys (common_keys @ ''paymentId'' # ks) (Some (ob_payload r))]"

definition settlement_contract :: "outbox_row \<Rightarrow> sql_bool" where
  "settlement_contract r =
     (let num = (\<lambda>k. json_numeric (obj_get (ob_payload r) k));
          between = (\<lambda>lo hi x. sql_rel (\<lambda>x b. lo \<le> x \<and> x \<le> b) x (Some hi)) in
      sql_all
       [Some (ob_event_type r = ''settlement.finalized.v1''), Some (ob_aggregate_type r = ''settlement_batch''),
        sql_rel (=) (json_text (obj_get (ob_payload r) ''batchId'')) (Some (units (ob_aggregate_id r))),
        only_keys (common_keys @ [''batchId'', ''cutoffAt'', ''grossAmountMinor'', ''feeAmountMinor'',
                     ''netAmountMinor'', ''currency'', ''itemCount'']) (Some (ob_payload r)),
        sql_rel (\<lambda>x c. x \<in> c) (json_text (obj_get (ob_payload r) ''currency''))
          (Some {units ''ETB'', units ''USD''}),
        between 1 max_safe_integer (num ''grossAmountMinor''),
        between 1 max_safe_integer (num ''feeAmountMinor''),
        between 1 max_safe_integer (num ''netAmountMinor''),
        sql_rel (=) (num ''grossAmountMinor'')
          (case (num ''feeAmountMinor'', num ''netAmountMinor'') of
             (Some f, Some n) \<Rightarrow> Some (f + n) | _ \<Rightarrow> None),
        between 1 500 (num ''itemCount'')])"

definition reconciliation_contract :: "outbox_row \<Rightarrow> sql_bool" where
  "reconciliation_contract r = sql_all
     [Some (ob_event_type r = ''reconciliation.completed.v1''),
      Some (ob_aggregate_type r = ''reconciliation_import''),
      sql_rel (=) (json_text (obj_get (ob_payload r) ''importId'')) (Some (units (ob_aggregate_id r))),
      only_keys (common_keys @ [''importId'', ''matchedExactCount'', ''mismatchCount'',
                   ''unexplainedDifferenceMinorByCurrency'']) (Some (ob_payload r)),
      map_option is_json_object (obj_get (ob_payload r) ''unexplainedDifferenceMinorByCurrency''),
      only_keys [''ETB'', ''USD''] (obj_get (ob_payload r) ''unexplainedDifferenceMinorByCurrency'')]"

text \<open>\<open>merchant_id::text\<close> is the text of the UUID that the column read from the row's merchant.\<close>

definition payload_contract :: "outbox_row \<Rightarrow> sql_bool" where
  "payload_contract r =
     (let text = (\<lambda>k. json_text (obj_get (ob_payload r) k)) in
      sql_all
       [Some (is_json_object (ob_payload r)),
        sql_rel (=) (text ''eventId'') (Some (units (ob_event_id r))),
        sql_rel (=) (text ''eventType'') (Some (units (ob_event_type r))),
        sql_rel (=) (text ''requestId'') (Some (units (ob_request r))),
        sql_rel (=) (text ''merchantId'') (Some (uuid_text (units (ob_merchant r)))),
        map_option (\<lambda>v. is_json_string (Some v)) (obj_get (ob_payload r) ''occurredAt''),
        Some (case text ''occurredAt'' of
                Some s \<Rightarrow> is_utc_millis s \<and> read_instant s = ob_occurred r
              | None \<Rightarrow> False),
        sql_any
         [sql_all [payment_contract r ''payment.created.v1'' [''amountMinor'', ''currency'', ''status''],
                   sql_rel (=) (text ''status'') (Some (units ''CREATED''))],
          payment_contract r ''payment.captured.v1''
            [''capturedAmountMinor'', ''currency'', ''availableOn'', ''ledgerTransactionId''],
          payment_contract r ''payment.refunded.v1''
            [''refundId'', ''amountMinor'', ''currency'', ''cumulativeRefundedAmountMinor'',
             ''ledgerTransactionId''],
          settlement_contract r, reconciliation_contract r]])"

definition outbox_event_types :: "string list" where
  "outbox_event_types = [''payment.created.v1'', ''payment.captured.v1'', ''payment.refunded.v1'',
     ''settlement.finalized.v1'', ''reconciliation.completed.v1'']"

text \<open>The \<open>CHECK\<close>s in the order PostgreSQL tests them, by name.\<close>

definition outbox_check :: "outbox_row \<Rightarrow> string option" where
  "outbox_check r =
     (if \<not> ((ob_aggregate_type r = ''payment_intent'' \<and> has_ulid_prefix ''pi'' (ob_aggregate_id r)) \<or>
            (ob_aggregate_type r = ''settlement_batch'' \<and> has_ulid_prefix ''stb'' (ob_aggregate_id r)) \<or>
            (ob_aggregate_type r = ''reconciliation_import'' \<and> has_ulid_prefix ''rec'' (ob_aggregate_id r)))
      then Some ''outbox_events_aggregate_id_format_check''
      else if \<not> has_ulid_prefix ''evt'' (ob_event_id r)
      then Some ''outbox_events_event_id_format_check''
      else if ob_event_type r \<notin> set outbox_event_types
      then Some ''outbox_events_event_type_check''
      else if (case (ob_lease_expires r, ob_locked_at r) of (Some l, Some k) \<Rightarrow> l \<le> k | _ \<Rightarrow> False)
      then Some ''outbox_events_lease_order_check''
      else if \<not> ((ob_locked_by r = None) = (ob_locked_at r = None) \<and>
                 (ob_locked_by r = None) = (ob_lease_expires r = None))
      then Some ''outbox_events_lock_consistency_check''
      else if sql_refuses (payload_contract r)
      then Some ''outbox_events_payload_contract_check''
      else if (case ob_published r of None \<Rightarrow> False
               | Some p \<Rightarrow> ob_locked_by r \<noteq> None \<or> ob_locked_at r \<noteq> None \<or> ob_lease_expires r \<noteq> None \<or>
                           p < ob_occurred r)
      then Some ''outbox_events_publish_consistency_check''
      else if \<not> is_request_id (ob_request r)
      then Some ''outbox_events_request_id_format_check''
      else None)"

section \<open>\<open>PrismaOutboxRepository\<close>\<close>

fun aggregate_of :: "domain_event \<Rightarrow> string \<times> string" where
  "aggregate_of (SettlementFinalized e) = (sfe_batch e, ''settlement_batch'')"
| "aggregate_of (ReconciliationCompleted e) = (rce_import e, ''reconciliation_import'')"
| "aggregate_of (PaymentCreated e) = (pe_payment e, ''payment_intent'')"
| "aggregate_of (PaymentCaptured e) = (pe_payment e, ''payment_intent'')"
| "aggregate_of (PaymentRefunded e) = (pe_payment e, ''payment_intent'')"

text \<open>The row of an event; \<open>id\<close> and \<open>available_at\<close> are the defaults Prisma fills in.\<close>

definition outbox_row_of :: "string \<Rightarrow> int \<Rightarrow> domain_event \<Rightarrow> outbox_row" where
  "outbox_row_of i now event =
     \<lparr>ob_id = i, ob_event_id = de_event_id (event_base_of event), ob_event_type = event_type_name event,
      ob_merchant = de_merchant (event_base_of event), ob_aggregate_type = snd (aggregate_of event),
      ob_aggregate_id = fst (aggregate_of event), ob_occurred = de_occurred (event_base_of event),
      ob_request = de_request (event_base_of event), ob_payload = to_payload event, ob_available = now,
      ob_attempts = 0, ob_locked_by = None, ob_locked_at = None, ob_lease_expires = None,
      ob_published = None\<rparr>"

text \<open>
  A merchant that is no UUID does not reach the table: the driver reports it. A row that passes the checks
  has a payload whose merchant is the column's text.
\<close>

definition insert_outbox_row :: "outbox_row \<Rightarrow> ('a eventing_world_scheme, error, unit) comp" where
  "insert_outbox_row r = (\<lambda>w.
     if \<not> uuid_syntax (ob_merchant r) then throw (DbE (OtherFault ''inconsistent column data'')) w
     else case outbox_check r of
       Some c \<Rightarrow> raise_constraint c w
     | None \<Rightarrow>
        if ob_id r \<in> ob_id ` set (outbox_events w) then raise_constraint ''outbox_events_pkey'' w
        else if ob_event_id r \<in> ob_event_id ` set (outbox_events w)
        then raise_constraint ''outbox_events_event_id_key'' w
        else (Inr (), w\<lparr>outbox_events := outbox_events w @ [r]\<rparr>))"

definition insert_domain_event :: "env \<Rightarrow> domain_event \<Rightarrow> ('a eventing_world_scheme, error, unit) comp" where
  "insert_domain_event E event =
     catch
       (bindc (new_uuid E) (\<lambda>i. bindc (read_clock E) (\<lambda>now.
        stmt E (insert_outbox_row (outbox_row_of i now event)))))
       (\<lambda>e. case find_database_constraint e of
              Some c \<Rightarrow>
                if c = ''outbox_events_event_id_key'' \<or> c = ''event_id'' \<or> c = ''eventId''
                then throw (EventingE EventIdentifierCollisionError) else throw e
            | None \<Rightarrow> throw e)"

definition persist_payment_event :: "env \<Rightarrow> domain_event \<Rightarrow> ('a eventing_world_scheme, error, unit) comp" where
  "persist_payment_event E event = insert_domain_event E event"

definition persist_domain_event :: "env \<Rightarrow> domain_event \<Rightarrow> ('a eventing_world_scheme, error, unit) comp" where
  "persist_domain_event E event = insert_domain_event E event"

section \<open>The outbox accepts what the service builds\<close>

text \<open>
  A well-formed event: prefixed identifiers, dates that JavaScript can print, the event's own of four year
  digits, and for a settlement amounts
  as \<open>settlement.finalized.v1\<close> and the wire contract allow them, the fee from zero.
\<close>

definition event_base_ok :: "'a event_base_scheme \<Rightarrow> bool" where
  "event_base_ok e \<longleftrightarrow> has_ulid_prefix ''evt'' (de_event_id e) \<and> is_request_id (de_request e) \<and>
     \<bar>de_occurred e\<bar> \<le> max_time \<and> four_digit_year (de_occurred e)"

fun event_ok :: "domain_event \<Rightarrow> bool" where
  "event_ok (PaymentCreated e) \<longleftrightarrow> event_base_ok e \<and> has_ulid_prefix ''pi'' (pe_payment e)"
| "event_ok (PaymentCaptured e) \<longleftrightarrow> event_base_ok e \<and> has_ulid_prefix ''pi'' (pe_payment e) \<and>
     \<bar>pcap_available_on e\<bar> \<le> max_time"
| "event_ok (PaymentRefunded e) \<longleftrightarrow> event_base_ok e \<and> has_ulid_prefix ''pi'' (pe_payment e)"
| "event_ok (SettlementFinalized e) \<longleftrightarrow> event_base_ok e \<and> has_ulid_prefix ''stb'' (sfe_batch e) \<and>
     \<bar>sfe_cutoff e\<bar> \<le> max_time \<and> 0 \<le> sfe_fee e \<and> 1 \<le> sfe_net e \<and> sfe_gross e \<le> max_safe_integer \<and>
     sfe_gross e = sfe_fee e + sfe_net e \<and> 1 \<le> sfe_items e \<and> sfe_items e \<le> 500"
| "event_ok (ReconciliationCompleted e) \<longleftrightarrow> event_base_ok e \<and> has_ulid_prefix ''rec'' (rce_import e)"

fun free_settlement :: "domain_event \<Rightarrow> bool" where
  "free_settlement (SettlementFinalized e) \<longleftrightarrow> sfe_fee e = 0"
| "free_settlement e \<longleftrightarrow> False"

lemma currency_text: "units (currency_code c) = units ''ETB'' \<or> units (currency_code c) = units ''USD''"
  by (cases c) simp_all

lemmas contract_simps = payload_contract_def payment_contract_def settlement_contract_def
  reconciliation_contract_def sql_all_def sql_any_def sql_rel_def sql_refuses_def outbox_row_of_def
  common_payload_def common_keys_def jstr_def event_base_ok_def event_base.defs

lemma payload_contract_decides:
  assumes "event_ok event"
  shows "payload_contract (outbox_row_of i now event) =
    Some (uuid_text (units (de_merchant (event_base_of event))) = units (de_merchant (event_base_of event)) \<and>
      \<not> free_settlement event)"
proof (cases event)
  case (PaymentCreated e)
  then show ?thesis using assms by (auto simp: contract_simps to_iso_is_utc_millis read_to_iso)
next
  case (PaymentCaptured e)
  then show ?thesis using assms by (auto simp: contract_simps to_iso_is_utc_millis read_to_iso)
next
  case (PaymentRefunded e)
  then show ?thesis using assms by (auto simp: contract_simps to_iso_is_utc_millis read_to_iso)
next
  case (SettlementFinalized e)
  then show ?thesis using assms currency_text[of "sfe_currency e"]
    by (cases "sfe_fee e = 0") (auto simp: contract_simps to_iso_is_utc_millis read_to_iso)
next
  case (ReconciliationCompleted e)
  then show ?thesis using assms by (auto simp: contract_simps to_iso_is_utc_millis read_to_iso)
qed

lemma outbox_check_decides:
  assumes "event_ok event"
  shows "outbox_check (outbox_row_of i now event) =
    (if uuid_text (units (de_merchant (event_base_of event))) = units (de_merchant (event_base_of event)) \<and>
        \<not> free_settlement event
     then None else Some ''outbox_events_payload_contract_check'')"
proof -
  have "sql_refuses (payload_contract (outbox_row_of i now event)) \<longleftrightarrow>
      \<not> (uuid_text (units (de_merchant (event_base_of event))) = units (de_merchant (event_base_of event)) \<and>
        \<not> free_settlement event)"
    using payload_contract_decides[OF assms] by (auto simp: sql_refuses_def)
  then show ?thesis
    using assms
    by (cases event) (auto simp: outbox_check_def outbox_row_of_def outbox_event_types_def
        event_base_ok_def event_base.defs)
qed

text \<open>The insertion of the row of a well-formed event, decided by its merchant and its fee.\<close>

lemma insert_outbox_decides:
  fixes w :: "'a eventing_world_scheme"
  assumes "event_ok event" and "i \<notin> ob_id ` set (outbox_events w)"
    and "de_event_id (event_base_of event) \<notin> ob_event_id ` set (outbox_events w)"
  shows "insert_outbox_row (outbox_row_of i now event) w =
    (let m = de_merchant (event_base_of event) in
     if \<not> uuid_syntax m then (Inl (DbE (OtherFault ''inconsistent column data'')), w)
     else if uuid_text (units m) \<noteq> units m \<or> free_settlement event
     then (Inl (DbE (ConstraintViolation ''outbox_events_payload_contract_check'')), w)
     else (Inr (), w\<lparr>outbox_events := outbox_events w @ [outbox_row_of i now event]\<rparr>))"
proof -
  have "ob_id (outbox_row_of i now event) = i" "ob_event_id (outbox_row_of i now event) = de_event_id (event_base_of event)"
    "ob_merchant (outbox_row_of i now event) = de_merchant (event_base_of event)"
    by (simp_all add: outbox_row_of_def)
  then show ?thesis
    using assms(2,3) outbox_check_decides[OF assms(1), of i now]
    by (simp add: insert_outbox_row_def raise_constraint_def throw_def Let_def)
qed

end
