(* ===== verification/Idempotency.thy ===== *)
theory Idempotency imports Eventing Database begin

text \<open>
  Idempotent commands: the \<open>idempotency_keys\<close> table with its constraints (migrations \<open>20260801095331\<close>,
  \<open>20260803100000\<close>), \<open>PrismaIdempotencyRepository\<close> and \<open>IdempotencyService\<close>
  (\<open>packages/modules/idempotency/src\<close>). A key is acquired in one transaction and completed, together
  with the effects of the command and the response to replay, in another.
\<close>

section \<open>Types\<close>

record idempotency_options =
  io_lease_ms :: int
  io_replay_ms :: int

record acquire_command =
  ac_canonical :: ustring
  ac_key :: ustring
  ac_merchant :: string
  ac_now :: int
  ac_route :: string
  ac_method :: string

record ownership =
  ow_token :: string
  ow_record :: string

text \<open>\<open>StoredHttpResponse\<close>; the body is a JSON object.\<close>

record stored_response =
  sr_body :: json
  sr_content_type :: string
  sr_headers :: "(string \<times> ustring) list"
  sr_reference :: "string option"
  sr_status :: int

datatype acquire_result = Acquired ownership | Replay stored_response

record hashed_command =
  hc_key_hash :: string
  hc_merchant :: string
  hc_now :: int
  hc_route :: string
  hc_method :: string
  hc_owner :: string
  hc_record :: string
  hc_request_hash :: string

section \<open>The table\<close>

datatype idempotency_state = In_progress | Completed

record idempotency_row =
  ik_id :: string
  ik_merchant :: string
  ik_method :: string
  ik_route :: string
  ik_key_hash :: string
  ik_request_hash :: string
  ik_state :: idempotency_state
  ik_owner :: "string option"
  ik_lease :: "int option"
  ik_status :: "int option"
  ik_content_type :: "string option"
  ik_headers :: "json option"
  ik_body :: "json option"
  ik_reference :: "string option"
  ik_completed_at :: "int option"
  ik_expires :: "int option"

record idempotency_world = eventing_world +
  idempotency_keys :: "idempotency_row list"

definition idempotency_key :: "idempotency_row \<Rightarrow> string \<times> string \<times> string \<times> string" where
  "idempotency_key r = (ik_merchant r, ik_method r, ik_route r, ik_key_hash r)"

definition idempotent_routes :: "string list" where
  "idempotent_routes = [''/v1/payment-intents'', ''/v1/payment-intents/{id}/capture'',
     ''/v1/payment-intents/{id}/refunds'', ''/v1/settlement-runs'', ''/v1/reconciliation-imports'']"

definition result_reference_ok :: "string option \<Rightarrow> bool" where
  "result_reference_ok v = (case v of None \<Rightarrow> True
     | Some s \<Rightarrow> has_ulid_prefix ''pi'' s \<or> has_ulid_prefix ''rf'' s \<or> has_ulid_prefix ''str'' s \<or>
                 has_ulid_prefix ''rec'' s)"

text \<open>\<open>idempotency_keys_state_consistency_check\<close>.\<close>

definition state_consistent :: "idempotency_row \<Rightarrow> bool" where
  "state_consistent r \<longleftrightarrow>
     (ik_state r = In_progress \<and> ik_owner r \<noteq> None \<and> ik_lease r \<noteq> None \<and> ik_status r = None \<and>
      ik_content_type r = None \<and> ik_headers r = None \<and> ik_body r = None \<and> ik_reference r = None \<and>
      ik_completed_at r = None \<and> ik_expires r = None) \<or>
     (ik_state r = Completed \<and> ik_owner r = None \<and> ik_lease r = None \<and> ik_completed_at r \<noteq> None \<and>
      ik_expires r \<noteq> None \<and>
      ((ik_status r \<noteq> None \<and> ik_content_type r \<noteq> None \<and> ik_headers r \<noteq> None \<and> ik_body r \<noteq> None) \<or>
       (ik_status r = None \<and> ik_content_type r = None \<and> ik_headers r = None \<and> ik_body r = None)))"

definition day_ms :: int where
  "day_ms = 86400000"

text \<open>The \<open>CHECK\<close>s by name; digests have 32 octets.\<close>

definition idempotency_check :: "idempotency_row \<Rightarrow> string option" where
  "idempotency_check r =
     (if ik_method r \<noteq> ''POST'' then Some ''idempotency_keys_http_method_check''
      else if length (ik_key_hash r) \<noteq> 32 then Some ''idempotency_keys_key_hash_length_check''
      else if (case (ik_expires r, ik_completed_at r) of (Some e, Some c) \<Rightarrow> e < c + day_ms | _ \<Rightarrow> False)
      then Some ''idempotency_keys_minimum_replay_window_check''
      else if ik_route r \<notin> set idempotent_routes then Some ''idempotency_keys_normalized_route_check''
      else if length (ik_request_hash r) \<noteq> 32 then Some ''idempotency_keys_request_hash_length_check''
      else if (case ik_body r of None \<Rightarrow> False | Some v \<Rightarrow> \<not> is_json_object v)
      then Some ''idempotency_keys_response_body_object_check''
      else if (case ik_content_type r of None \<Rightarrow> False
               | Some t \<Rightarrow> t \<noteq> ''application/json'' \<and> t \<noteq> ''application/problem+json'')
      then Some ''idempotency_keys_response_content_type_check''
      else if (case ik_headers r of None \<Rightarrow> False | Some v \<Rightarrow> \<not> is_json_object v)
      then Some ''idempotency_keys_response_headers_object_check''
      else if (case ik_status r of None \<Rightarrow> False | Some s \<Rightarrow> s < 100 \<or> 599 < s)
      then Some ''idempotency_keys_response_status_check''
      else if \<not> result_reference_ok (ik_reference r)
      then Some ''idempotency_keys_result_reference_format_check''
      else if \<not> state_consistent r then Some ''idempotency_keys_state_consistency_check''
      else None)"

section \<open>\<open>PrismaIdempotencyRepository\<close>\<close>

definition max_transaction_attempts :: nat where
  "max_transaction_attempts = 3"

definition equal_digest :: "string \<Rightarrow> string \<Rightarrow> bool" where
  "equal_digest l r \<longleftrightarrow> length l = length r \<and> l = r"

text \<open>\<open>toHeaders\<close>: a JSON object of strings.\<close>

fun string_members :: "(string \<times> json) list \<Rightarrow> (string \<times> ustring) list option" where
  "string_members [] = Some []"
| "string_members ((k, JStr v) # fs) = map_option (Cons (k, v)) (string_members fs)"
| "string_members ((k, v) # fs) = None"

fun to_headers :: "json option \<Rightarrow> (string \<times> ustring) list option" where
  "to_headers (Some (JObj fs)) = string_members fs"
| "to_headers v = None"

definition to_stored_response :: "idempotency_row \<Rightarrow> stored_response option" where
  "to_stored_response r =
     (case (ik_status r, ik_content_type r, to_headers (ik_headers r), ik_body r) of
        (Some status, Some t, Some headers, Some body) \<Rightarrow>
          if (t = ''application/json'' \<or> t = ''application/problem+json'') \<and> is_json_object body
          then Some \<lparr>sr_body = body, sr_content_type = t, sr_headers = headers,
                     sr_reference = ik_reference r, sr_status = status\<rparr>
          else None
      | _ \<Rightarrow> None)"

text \<open>\<open>set_config\<close> of the two timeouts: a statement that changes no row.\<close>

definition set_transaction_timeouts :: "env \<Rightarrow> ('a world_scheme, error, unit) comp" where
  "set_transaction_timeouts E = stmt E (ok ())"

definition new_key_row :: "hashed_command \<Rightarrow> int \<Rightarrow> idempotency_row" where
  "new_key_row c lease =
     \<lparr>ik_id = hc_record c, ik_merchant = hc_merchant c, ik_method = hc_method c, ik_route = hc_route c,
      ik_key_hash = hc_key_hash c, ik_request_hash = hc_request_hash c, ik_state = In_progress,
      ik_owner = Some (hc_owner c), ik_lease = Some lease, ik_status = None, ik_content_type = None,
      ik_headers = None, ik_body = None, ik_reference = None, ik_completed_at = None,
      ik_expires = None\<rparr>"

text \<open>\<open>INSERT ... ON CONFLICT (merchant_id, http_method, normalized_route, key_hash) DO UPDATE ... RETURNING\<close>.\<close>

definition insert_or_find_key ::
  "idempotency_row \<Rightarrow> ('a idempotency_world_scheme, error, idempotency_row) comp" where
  "insert_or_find_key r = (\<lambda>w.
     case idempotency_check r of
       Some c \<Rightarrow> raise_constraint c w
     | None \<Rightarrow>
        (case List.find (\<lambda>k. idempotency_key k = idempotency_key r) (idempotency_keys w) of
           Some k \<Rightarrow> (Inr k, w)
         | None \<Rightarrow>
            if ik_id r \<in> ik_id ` set (idempotency_keys w) then raise_constraint ''idempotency_keys_pkey'' w
            else (Inr r, w\<lparr>idempotency_keys := idempotency_keys w @ [r]\<rparr>)))"

definition lease_expired :: "int \<Rightarrow> string \<Rightarrow> idempotency_row \<Rightarrow> bool" where
  "lease_expired now i k \<longleftrightarrow> ik_id k = i \<and> ik_state k = In_progress \<and>
     (case ik_lease k of Some l \<Rightarrow> l \<le> now | None \<Rightarrow> False)"

text \<open>The takeover: \<open>UPDATE ... WHERE id = .. AND state = 'in_progress' AND lease_expires_at <= now\<close>.\<close>

definition take_over_key ::
  "string \<Rightarrow> string \<Rightarrow> int \<Rightarrow> int \<Rightarrow> ('a idempotency_world_scheme, error, nat) comp" where
  "take_over_key i token lease now = (\<lambda>w.
     (Inr (count_where (lease_expired now i) (idempotency_keys w)),
      w\<lparr>idempotency_keys := update_where (lease_expired now i)
          (\<lambda>k. k\<lparr>ik_owner := Some token, ik_lease := Some lease\<rparr>) (idempotency_keys w)\<rparr>))"

text \<open>What the row found or inserted decides: reuse, replay, expiry, ownership, progress or a takeover.\<close>

definition acquire_decision ::
  "env \<Rightarrow> int \<Rightarrow> hashed_command \<Rightarrow> idempotency_row \<Rightarrow> ('a idempotency_world_scheme, error, acquire_result) comp"
where
  "acquire_decision E lease c row =
     (let mine = Acquired \<lparr>ow_token = hc_owner c, ow_record = ik_id row\<rparr> in
      if \<not> equal_digest (ik_request_hash row) (hc_request_hash c)
      then throw (IdempotencyE IdempotencyKeyReusedError)
      else if ik_state row = Completed then
        (case (to_stored_response row, ik_expires row) of
           (Some response, Some expires) \<Rightarrow>
             if expires \<le> hc_now c then throw (IdempotencyE IdempotencyKeyExpiredError)
             else ok (Replay response)
         | _ \<Rightarrow> throw (IdempotencyE IdempotencyKeyExpiredError))
      else if ik_owner row = Some (hc_owner c) then ok mine
      else if (case ik_lease row of Some l \<Rightarrow> hc_now c < l | None \<Rightarrow> False)
      then throw (IdempotencyE IdempotencyRequestInProgressError)
      else
        bindc (stmt E (take_over_key (ik_id row) (hc_owner c) lease (hc_now c))) (\<lambda>taken.
        if taken = 0 then throw (IdempotencyE IdempotencyRequestInProgressError)
        else ok mine))"

definition acquire_body ::
  "env \<Rightarrow> idempotency_options \<Rightarrow> hashed_command \<Rightarrow> ('a idempotency_world_scheme, error, acquire_result) comp"
where
  "acquire_body E opt c =
     (let lease = hc_now c + io_lease_ms opt in
      bindc (set_transaction_timeouts E) (\<lambda>_.
      bindc (stmt E (insert_or_find_key (new_key_row c lease))) (\<lambda>row.
      acquire_decision E lease c row)))"

text \<open>
  \<open>D\<close> is what the deferred triggers of the schema report at commit; the module itself has none.
\<close>

type_synonym 'w deferred = "'w \<Rightarrow> 'w \<Rightarrow> string option"

definition repo_acquire ::
  "env \<Rightarrow> ('a idempotency_world_scheme) deferred \<Rightarrow> idempotency_options \<Rightarrow> hashed_command \<Rightarrow>
   ('a idempotency_world_scheme, error, acquire_result) comp" where
  "repo_acquire E D opt c =
     catch (transaction E D (acquire_body E opt c))
       (\<lambda>e. if e = IdempotencyE IdempotencyKeyExpiredError \<or> e = IdempotencyE IdempotencyKeyReusedError \<or>
              e = IdempotencyE IdempotencyRequestInProgressError
            then throw e else rethrow_database_error E e)"

definition owned :: "ownership \<Rightarrow> idempotency_row \<Rightarrow> bool" where
  "owned own k \<longleftrightarrow> ik_id k = ow_record own \<and> ik_owner k = Some (ow_token own) \<and> ik_state k = In_progress"

definition headers_json :: "(string \<times> ustring) list \<Rightarrow> json" where
  "headers_json hs = JObj (map (\<lambda>(k, v). (k, JStr v)) hs)"

definition completed_row :: "stored_response \<Rightarrow> int \<Rightarrow> int \<Rightarrow> idempotency_row \<Rightarrow> idempotency_row" where
  "completed_row response completedAt expires k =
     k\<lparr>ik_state := Completed, ik_owner := None, ik_lease := None, ik_status := Some (sr_status response),
       ik_content_type := Some (sr_content_type response),
       ik_headers := Some (headers_json (sr_headers response)), ik_body := Some (sr_body response),
       ik_reference := sr_reference response, ik_completed_at := Some completedAt,
       ik_expires := Some expires\<rparr>"

text \<open>The final \<open>UPDATE\<close>, with the number of rows; a \<open>CHECK\<close> may refuse the new row.\<close>

definition store_response ::
  "ownership \<Rightarrow> stored_response \<Rightarrow> int \<Rightarrow> int \<Rightarrow> ('a idempotency_world_scheme, error, nat) comp" where
  "store_response own response completedAt expires = (\<lambda>w.
     case first_violation (\<lambda>k. idempotency_check (completed_row response completedAt expires k))
            (filter (owned own) (idempotency_keys w)) of
       Some c \<Rightarrow> raise_constraint c w
     | None \<Rightarrow>
        (Inr (count_where (owned own) (idempotency_keys w)),
         w\<lparr>idempotency_keys := update_where (owned own) (completed_row response completedAt expires)
             (idempotency_keys w)\<rparr>))"

type_synonym ('s, 'v) idempotent_operation = "('s, error, stored_response \<times> 'v) comp"

definition complete_body ::
  "env \<Rightarrow> idempotency_options \<Rightarrow> ownership \<Rightarrow> ('a idempotency_world_scheme, 'v) idempotent_operation \<Rightarrow>
   ('a idempotency_world_scheme, error, 'v) comp" where
  "complete_body E opt own op =
     bindc (set_transaction_timeouts E) (\<lambda>_.
     bindc (stmt E (gets (\<lambda>w. List.find (owned own) (idempotency_keys w)))) (\<lambda>locked.
     if locked = None then throw (IdempotencyE IdempotencyOwnershipLostError)
     else bindc op (\<lambda>(response, value).
       bindc (read_clock E) (\<lambda>completedAt.
       bindc (stmt E (store_response own response completedAt (completedAt + io_replay_ms opt))) (\<lambda>updated.
       if updated \<noteq> 1 then throw (IdempotencyE IdempotencyOwnershipLostError)
       else ok value)))))"

text \<open>The retry loop; its first argument is the number of attempts left.\<close>

fun complete_attempts ::
  "nat \<Rightarrow> env \<Rightarrow> ('a idempotency_world_scheme) deferred \<Rightarrow> idempotency_options \<Rightarrow> ownership \<Rightarrow>
   ('a idempotency_world_scheme, 'v) idempotent_operation \<Rightarrow> ('a idempotency_world_scheme, error, 'v) comp"
where
  "complete_attempts 0 E D opt own op = throw (PlainE ''Idempotency transaction retry exhausted'')"
| "complete_attempts (Suc n) E D opt own op =
     catch (transaction E D (complete_body E opt own op))
       (\<lambda>e. if is_transient_transaction_error e \<and> 0 < n then complete_attempts n E D opt own op
            else if e = IdempotencyE IdempotencyOwnershipLostError then throw e
            else rethrow_database_error E e)"

definition repo_complete ::
  "env \<Rightarrow> ('a idempotency_world_scheme) deferred \<Rightarrow> idempotency_options \<Rightarrow> ownership \<Rightarrow>
   ('a idempotency_world_scheme, 'v) idempotent_operation \<Rightarrow> ('a idempotency_world_scheme, error, 'v) comp"
where
  "repo_complete E D opt own op = complete_attempts max_transaction_attempts E D opt own op"

section \<open>\<open>IdempotencyService\<close>\<close>

definition idempotency_acquire ::
  "env \<Rightarrow> ('a idempotency_world_scheme) deferred \<Rightarrow> idempotency_options \<Rightarrow> acquire_command \<Rightarrow>
   ('a idempotency_world_scheme, error, acquire_result) comp" where
  "idempotency_acquire E D opt c =
     bindc (new_uuid E) (\<lambda>token.
     bindc (new_uuid E) (\<lambda>recordId.
     repo_acquire E D opt
       \<lparr>hc_key_hash = env_sha256 E (ac_key c), hc_merchant = ac_merchant c, hc_now = ac_now c,
        hc_route = ac_route c, hc_method = ac_method c, hc_owner = token, hc_record = recordId,
        hc_request_hash = env_sha256 E (ac_canonical c)\<rparr>))"

definition idempotency_complete ::
  "env \<Rightarrow> ('a idempotency_world_scheme) deferred \<Rightarrow> idempotency_options \<Rightarrow> ownership \<Rightarrow>
   ('a idempotency_world_scheme, 'v) idempotent_operation \<Rightarrow> ('a idempotency_world_scheme, error, 'v) comp"
where
  "idempotency_complete E D opt own op = repo_complete E D opt own op"

end
