(* ===== verification/Payments_Store.thy ===== *)
theory Payments_Store imports Idempotency begin

text \<open>
  Payment intents and refunds: the tables with their constraints and guard triggers (migrations
  \<open>20260801095331\<close>, \<open>20260802210000\<close>) and \<open>PrismaPaymentIntentRepository\<close>
  (\<open>packages/modules/payments/src/prisma-payment-intent.repository.ts\<close>). \<open>captureMethod\<close> has one value
  only, \<open>manual\<close>, and is not kept as a field.
\<close>

section \<open>Tables\<close>

datatype db_payment_status = Db_created | Db_authorized | Db_captured | Db_partially_refunded | Db_refunded | Db_voided

datatype payment_status = Created | Captured | Partially_refunded | Refunded

record payment_row =
  pi_id :: string
  pi_public_id :: string
  pi_merchant :: string
  pi_ref :: ustring
  pi_amount :: int
  pi_currency :: currency
  pi_status :: db_payment_status
  pi_captured :: int
  pi_refunded :: int
  pi_version :: int
  pi_created :: int
  pi_updated :: int
  pi_captured_at :: "int option"
  pi_available_at :: "int option"

record refund_row =
  rf_id :: string
  rf_public_id :: string
  rf_merchant :: string
  rf_payment :: string
  rf_ref :: ustring
  rf_amount :: int
  rf_currency :: currency
  rf_created :: int

record payments_world = idempotency_world +
  payment_intents :: "payment_row list"
  refunds :: "refund_row list"

section \<open>Constraints\<close>

definition reference_format_ok :: "ustring \<Rightarrow> bool" where
  "reference_format_ok s \<longleftrightarrow> 1 \<le> length (code_points s) \<and> length (code_points s) \<le> 255 \<and>
     \<not> posix_space (hd s) \<and> \<not> posix_space (last s) \<and> \<not> list_ex posix_cntrl s"

text \<open>\<open>payment_intents_status_projection_check\<close> of \<open>20260802210000\<close>.\<close>

definition status_projection :: "payment_row \<Rightarrow> bool" where
  "status_projection p \<longleftrightarrow>
     (pi_status p = Db_created \<and> pi_captured p = 0 \<and> pi_refunded p = 0 \<and>
      pi_captured_at p = None \<and> pi_available_at p = None) \<or>
     (pi_captured_at p \<noteq> None \<and> pi_available_at p = pi_captured_at p \<and> pi_captured p = pi_amount p \<and>
      ((pi_status p = Db_captured \<and> pi_refunded p = 0) \<or>
       (pi_status p = Db_partially_refunded \<and> 0 < pi_refunded p \<and> pi_refunded p < pi_captured p) \<or>
       (pi_status p = Db_refunded \<and> pi_refunded p = pi_captured p)))"

definition payment_check :: "payment_row \<Rightarrow> string option" where
  "payment_check p =
     (if \<not> (1 \<le> pi_amount p \<and> pi_amount p \<le> max_safe_integer)
      then Some ''payment_intents_amount_minor_range_check''
      else if \<not> (0 \<le> pi_captured p \<and> pi_captured p \<le> pi_amount p)
      then Some ''payment_intents_captured_amount_range_check''
      else if \<not> reference_format_ok (pi_ref p) then Some ''payment_intents_external_ref_format_check''
      else if \<not> has_ulid_prefix ''pi'' (pi_public_id p)
      then Some ''payment_intents_public_id_format_check''
      else if \<not> (0 \<le> pi_refunded p \<and> pi_refunded p \<le> pi_captured p)
      then Some ''payment_intents_refunded_amount_range_check''
      else if \<not> status_projection p then Some ''payment_intents_status_projection_check''
      else if pi_version p < 0 then Some ''payment_intents_version_nonnegative_check''
      else None)"

definition payment_unique :: "payment_row list \<Rightarrow> payment_row \<Rightarrow> string option" where
  "payment_unique rows p =
     (if pi_id p \<in> pi_id ` set rows then Some ''payment_intents_pkey''
      else if pi_public_id p \<in> pi_public_id ` set rows then Some ''payment_intents_public_id_key''
      else if (pi_merchant p, pi_ref p) \<in> (\<lambda>q. (pi_merchant q, pi_ref q)) ` set rows
      then Some ''payment_intents_merchant_id_external_ref_key''
      else None)"

text \<open>\<open>payment_intents_guard_financial_update\<close>, the trigger before every update.\<close>

definition payment_update_guard :: "payment_row \<Rightarrow> payment_row \<Rightarrow> string option" where
  "payment_update_guard old new =
     (if pi_id new \<noteq> pi_id old \<or> pi_public_id new \<noteq> pi_public_id old \<or> pi_merchant new \<noteq> pi_merchant old \<or>
         pi_ref new \<noteq> pi_ref old \<or> pi_amount new \<noteq> pi_amount old \<or> pi_currency new \<noteq> pi_currency old \<or>
         pi_created new \<noteq> pi_created old \<or> pi_version new \<noteq> pi_version old + 1 \<or>
         pi_updated new < pi_updated old
      then Some ''payment_intents_financial_update_guard_check''
      else if pi_status old = Db_created then
        (if pi_status new \<noteq> Db_captured \<or> pi_captured new \<noteq> pi_amount old \<or> pi_refunded new \<noteq> 0 \<or>
            pi_captured_at new = None \<or> pi_available_at new \<noteq> pi_captured_at new
         then Some ''payment_intents_capture_transition_check'' else None)
      else if pi_status old = Db_captured \<or> pi_status old = Db_partially_refunded then
        (if (pi_status new \<noteq> Db_partially_refunded \<and> pi_status new \<noteq> Db_refunded) \<or>
            pi_captured new \<noteq> pi_captured old \<or> pi_refunded new \<le> pi_refunded old \<or>
            pi_captured_at new \<noteq> pi_captured_at old \<or> pi_available_at new \<noteq> pi_available_at old
         then Some ''payment_intents_refund_transition_check'' else None)
      else Some ''payment_intents_terminal_transition_check'')"

definition refund_check :: "refund_row \<Rightarrow> string option" where
  "refund_check r =
     (if \<not> (1 \<le> rf_amount r \<and> rf_amount r \<le> max_safe_integer)
      then Some ''refunds_amount_minor_range_check''
      else if \<not> reference_format_ok (rf_ref r) then Some ''refunds_external_ref_format_check''
      else if \<not> has_ulid_prefix ''rf'' (rf_public_id r) then Some ''refunds_public_id_format_check''
      else None)"

definition refund_unique :: "refund_row list \<Rightarrow> refund_row \<Rightarrow> string option" where
  "refund_unique rows r =
     (if rf_id r \<in> rf_id ` set rows then Some ''refunds_pkey''
      else if rf_public_id r \<in> rf_public_id ` set rows then Some ''refunds_public_id_key''
      else if (rf_merchant r, rf_ref r) \<in> (\<lambda>q. (rf_merchant q, rf_ref q)) ` set rows
      then Some ''refunds_merchant_id_external_ref_key''
      else None)"

definition insert_payment :: "payment_row \<Rightarrow> ('a payments_world_scheme, error, payment_row) comp" where
  "insert_payment p = (\<lambda>w.
     case payment_check p of
       Some c \<Rightarrow> raise_constraint c w
     | None \<Rightarrow>
        (case payment_unique (payment_intents w) p of
           Some c \<Rightarrow> raise_constraint c w
         | None \<Rightarrow> (Inr p, w\<lparr>payment_intents := payment_intents w @ [p]\<rparr>)))"

text \<open>\<open>UPDATE payment_intents ... WHERE\<close>: guard trigger and \<open>CHECK\<close>s of every row it would write.\<close>

definition update_payments ::
  "(payment_row \<Rightarrow> bool) \<Rightarrow> (payment_row \<Rightarrow> payment_row) \<Rightarrow> ('a payments_world_scheme, error, nat) comp"
where
  "update_payments p f = (\<lambda>w.
     case first_violation (\<lambda>r. case payment_update_guard r (f r) of
              Some c \<Rightarrow> Some c | None \<Rightarrow> payment_check (f r)) (filter p (payment_intents w)) of
       Some c \<Rightarrow> raise_constraint c w
     | None \<Rightarrow> (Inr (count_where p (payment_intents w)),
                w\<lparr>payment_intents := update_where p f (payment_intents w)\<rparr>))"

text \<open>Refunds reference a payment of their merchant and currency; they are append-only.\<close>

definition insert_refund :: "refund_row \<Rightarrow> ('a payments_world_scheme, error, refund_row) comp" where
  "insert_refund r = (\<lambda>w.
     case refund_check r of
       Some c \<Rightarrow> raise_constraint c w
     | None \<Rightarrow>
        (case refund_unique (refunds w) r of
           Some c \<Rightarrow> raise_constraint c w
         | None \<Rightarrow>
            if \<not> (\<exists>p \<in> set (payment_intents w). pi_id p = rf_payment r \<and> pi_merchant p = rf_merchant r \<and>
                    pi_currency p = rf_currency r)
            then raise_constraint ''refunds_payment_intent_id_merchant_id_currency_fkey'' w
            else (Inr r, w\<lparr>refunds := refunds w @ [r]\<rparr>)))"

section \<open>Records\<close>

record payment_record =
  pr_amount :: int
  pr_available_at :: "int option"
  pr_captured :: int
  pr_captured_at :: "int option"
  pr_created :: int
  pr_currency :: currency
  pr_ref :: ustring
  pr_id :: string
  pr_merchant :: string
  pr_status :: payment_status
  pr_public_id :: string
  pr_refunded :: int
  pr_updated :: int
  pr_version :: int

definition to_safe_amount :: "int \<Rightarrow> error + int" where
  "to_safe_amount value =
     (if value < 0 \<or> max_safe_integer < value
      then Inl (PlainE ''Persisted payment amount is outside the approved JSON-safe range'')
      else Inr value)"

fun to_status :: "db_payment_status \<Rightarrow> error + payment_status" where
  "to_status Db_created = Inr Created"
| "to_status Db_captured = Inr Captured"
| "to_status Db_partially_refunded = Inr Partially_refunded"
| "to_status Db_refunded = Inr Refunded"
| "to_status s = Inl (PlainE ''Persisted payment lifecycle is outside the direct capture/refund contract'')"

definition to_record :: "payment_row \<Rightarrow> error + payment_record" where
  "to_record r =
     bind_sum (to_safe_amount (pi_amount r)) (\<lambda>amount.
     bind_sum (to_safe_amount (pi_captured r)) (\<lambda>captured.
     bind_sum (to_status (pi_status r)) (\<lambda>status.
     bind_sum (to_safe_amount (pi_refunded r)) (\<lambda>refunded. Inr
       \<lparr>pr_amount = amount, pr_available_at = pi_available_at r, pr_captured = captured,
        pr_captured_at = pi_captured_at r, pr_created = pi_created r, pr_currency = pi_currency r,
        pr_ref = pi_ref r, pr_id = pi_id r, pr_merchant = pi_merchant r, pr_status = status,
        pr_public_id = pi_public_id r, pr_refunded = refunded, pr_updated = pi_updated r,
        pr_version = pi_version r\<rparr>))))"

record create_payment_record =
  cpr_amount :: int
  cpr_currency :: currency
  cpr_ref :: ustring
  cpr_merchant :: string
  cpr_public_id :: string

record create_refund_record =
  crr_amount :: int
  crr_created :: int
  crr_currency :: currency
  crr_ref :: ustring
  crr_id :: string
  crr_merchant :: string
  crr_payment :: string
  crr_public_id :: string

record refund_record =
  rr_amount :: int
  rr_created :: int
  rr_currency :: currency
  rr_ref :: ustring
  rr_id :: string
  rr_merchant :: string
  rr_payment :: string
  rr_public_id :: string

section \<open>\<open>PrismaPaymentIntentRepository\<close>\<close>

definition matches :: "string option \<Rightarrow> string list \<Rightarrow> bool" where
  "matches value candidates \<longleftrightarrow> (case value of None \<Rightarrow> False | Some v \<Rightarrow> v \<in> set candidates)"

text \<open>The \<open>catch\<close> of \<open>create\<close> and of \<open>createRefund\<close>: the table's two unique keys.\<close>

definition unique_conflict_error ::
  "env \<Rightarrow> string \<Rightarrow> payments_error \<Rightarrow> payments_error \<Rightarrow> error \<Rightarrow> ('a world_scheme, error, 'r) comp" where
  "unique_conflict_error E table collision conflict e =
     (let constraint = find_database_constraint e in
      if matches constraint [table @ ''_public_id_key'', ''public_id'', ''publicId'']
      then throw (PaymentsE collision)
      else if matches constraint [table @ ''_merchant_id_external_ref_key'', ''merchant_id,external_ref'',
                                  ''merchantId,externalRef'']
      then throw (PaymentsE conflict)
      else rethrow_database_error E e)"

text \<open>The identifier and the two timestamps are the defaults Prisma fills in.\<close>

definition payment_row_of :: "string \<Rightarrow> int \<Rightarrow> create_payment_record \<Rightarrow> payment_row" where
  "payment_row_of i now inp =
     \<lparr>pi_id = i, pi_public_id = cpr_public_id inp, pi_merchant = cpr_merchant inp, pi_ref = cpr_ref inp,
      pi_amount = cpr_amount inp, pi_currency = cpr_currency inp, pi_status = Db_created, pi_captured = 0,
      pi_refunded = 0, pi_version = 0, pi_created = now, pi_updated = now, pi_captured_at = None,
      pi_available_at = None\<rparr>"

definition repo_create_payment ::
  "env \<Rightarrow> create_payment_record \<Rightarrow> ('a payments_world_scheme, error, payment_record) comp" where
  "repo_create_payment E inp =
     catch
       (bindc (new_uuid E) (\<lambda>i. bindc (read_clock E) (\<lambda>now.
        bindc (stmt E (insert_payment (payment_row_of i now inp))) (\<lambda>row. from_sum (to_record row)))))
       (unique_conflict_error E ''payment_intents'' PaymentIdentifierCollisionError
          ExternalReferenceConflictError)"

definition find_payment :: "(payment_row \<Rightarrow> bool) \<Rightarrow> ('a payments_world_scheme, error, payment_row option) comp" where
  "find_payment p = gets (\<lambda>w. List.find p (payment_intents w))"

definition repo_find_by_public_id ::
  "env \<Rightarrow> string \<Rightarrow> string \<Rightarrow> ('a payments_world_scheme, error, payment_record option) comp" where
  "repo_find_by_public_id E merchantId publicId =
     catch
       (bindc (stmt E (find_payment (\<lambda>r. pi_merchant r = merchantId \<and> pi_public_id r = publicId))) (\<lambda>found.
        case found of None \<Rightarrow> ok None
        | Some row \<Rightarrow> bindc (from_sum (to_record row)) (\<lambda>record. ok (Some record))))
       (rethrow_database_error E)"

text \<open>\<open>GREATEST(clock_timestamp(), updated_at)\<close>, read in the statement.\<close>

definition transaction_time ::
  "env \<Rightarrow> (payment_row \<Rightarrow> bool) \<Rightarrow> ('a payments_world_scheme, error, int option) comp" where
  "transaction_time E p =
     bindc (read_clock E) (\<lambda>now.
     gets (\<lambda>w. map_option (\<lambda>r. max now (pi_updated r)) (List.find p (payment_intents w))))"

definition repo_lock_by_public_id ::
  "env \<Rightarrow> string \<Rightarrow> string \<Rightarrow> ('a payments_world_scheme, error, (payment_record \<times> int) option) comp" where
  "repo_lock_by_public_id E merchantId publicId =
     bindc (stmt E (find_payment (\<lambda>r. pi_merchant r = merchantId \<and> pi_public_id r = publicId))) (\<lambda>locked.
     case locked of
       None \<Rightarrow> ok None
     | Some lockedRow \<Rightarrow>
         let mine = (\<lambda>r. pi_id r = pi_id lockedRow \<and> pi_merchant r = merchantId) in
         bindc (stmt E (find_payment mine)) (\<lambda>payment.
         case payment of
           None \<Rightarrow> throw (PaymentsE PaymentProjectionInvariantError)
         | Some row \<Rightarrow>
             bindc (stmt E (transaction_time E mine)) (\<lambda>time.
             case time of
               None \<Rightarrow> throw (PaymentsE PaymentProjectionInvariantError)
             | Some t \<Rightarrow> bindc (from_sum (to_record row)) (\<lambda>record. ok (Some (record, t))))))"

definition find_locked_record ::
  "env \<Rightarrow> string \<Rightarrow> string \<Rightarrow> ('a payments_world_scheme, error, payment_record) comp" where
  "find_locked_record E i merchantId =
     bindc (stmt E (find_payment (\<lambda>r. pi_id r = i \<and> pi_merchant r = merchantId))) (\<lambda>record.
     case record of None \<Rightarrow> throw (PaymentsE PaymentProjectionInvariantError)
     | Some row \<Rightarrow> from_sum (to_record row))"

definition capture_target :: "payment_record \<Rightarrow> payment_row \<Rightarrow> bool" where
  "capture_target payment r \<longleftrightarrow> pi_captured r = 0 \<and> pi_id r = pr_id payment \<and>
     pi_merchant r = pr_merchant payment \<and> pi_status r = Db_created \<and> pi_refunded r = 0 \<and>
     pi_version r = pr_version payment"

definition captured_row :: "payment_record \<Rightarrow> int \<Rightarrow> payment_row \<Rightarrow> payment_row" where
  "captured_row payment occurredAt r =
     r\<lparr>pi_available_at := Some occurredAt, pi_captured := pr_amount payment,
       pi_captured_at := Some occurredAt, pi_status := Db_captured, pi_updated := occurredAt,
       pi_version := pi_version r + 1\<rparr>"

definition repo_capture ::
  "env \<Rightarrow> payment_record \<Rightarrow> int \<Rightarrow> ('a payments_world_scheme, error, payment_record) comp" where
  "repo_capture E payment occurredAt =
     bindc (stmt E (update_payments (capture_target payment) (captured_row payment occurredAt))) (\<lambda>count.
     if count \<noteq> 1 then throw (PaymentsE PaymentProjectionInvariantError)
     else find_locked_record E (pr_id payment) (pr_merchant payment))"

definition refund_row_of :: "create_refund_record \<Rightarrow> refund_row" where
  "refund_row_of inp =
     \<lparr>rf_id = crr_id inp, rf_public_id = crr_public_id inp, rf_merchant = crr_merchant inp,
      rf_payment = crr_payment inp, rf_ref = crr_ref inp, rf_amount = crr_amount inp,
      rf_currency = crr_currency inp, rf_created = crr_created inp\<rparr>"

definition refund_record_of :: "refund_row \<Rightarrow> error + refund_record" where
  "refund_record_of r =
     bind_sum (to_safe_amount (rf_amount r)) (\<lambda>amount. Inr
       \<lparr>rr_amount = amount, rr_created = rf_created r, rr_currency = rf_currency r, rr_ref = rf_ref r,
        rr_id = rf_id r, rr_merchant = rf_merchant r, rr_payment = rf_payment r,
        rr_public_id = rf_public_id r\<rparr>)"

definition repo_create_refund ::
  "env \<Rightarrow> create_refund_record \<Rightarrow> ('a payments_world_scheme, error, refund_record) comp" where
  "repo_create_refund E inp =
     catch
       (bindc (stmt E (insert_refund (refund_row_of inp))) (\<lambda>row. from_sum (refund_record_of row)))
       (unique_conflict_error E ''refunds'' RefundIdentifierCollisionError
          RefundExternalReferenceConflictError)"

definition refund_target :: "payment_record \<Rightarrow> payment_row \<Rightarrow> bool" where
  "refund_target payment r \<longleftrightarrow> pi_captured r = pr_captured payment \<and> pi_id r = pr_id payment \<and>
     pi_merchant r = pr_merchant payment \<and>
     pi_status r = (if pr_status payment = Captured then Db_captured else Db_partially_refunded) \<and>
     pi_refunded r = pr_refunded payment \<and> pi_version r = pr_version payment"

text \<open>\<open>refundedAmountMinor + amountMinor\<close> and the comparison are on numbers below \<open>2 ^ 54\<close>.\<close>

definition refunded_row :: "payment_record \<Rightarrow> int \<Rightarrow> int \<Rightarrow> payment_row \<Rightarrow> payment_row" where
  "refunded_row payment amountMinor occurredAt r =
     r\<lparr>pi_status := (if pr_refunded payment + amountMinor = pr_captured payment then Db_refunded
                     else Db_partially_refunded),
       pi_refunded := pi_refunded r + amountMinor, pi_updated := occurredAt,
       pi_version := pi_version r + 1\<rparr>"

definition repo_apply_refund ::
  "env \<Rightarrow> payment_record \<Rightarrow> int \<Rightarrow> int \<Rightarrow> ('a payments_world_scheme, error, payment_record) comp" where
  "repo_apply_refund E payment amountMinor occurredAt =
     bindc (stmt E (update_payments (refund_target payment) (refunded_row payment amountMinor occurredAt))) (\<lambda>count.
     if count \<noteq> 1 then throw (PaymentsE PaymentProjectionInvariantError)
     else find_locked_record E (pr_id payment) (pr_merchant payment))"

end
