(* ===== verification/Payments.thy ===== *)
theory Payments imports Payments_Store Ledger begin

text \<open>
  \<open>payment-intent.validation.ts\<close>, \<open>payment-execution.ts\<close> and \<open>PaymentIntentService\<close>
  (\<open>payment-intent.service.ts\<close>) of \<open>packages/modules/payments/src\<close>. Commands hold validated fields.
  The representations a command returns are the JSON objects it stores and replays.
\<close>

section \<open>Validation\<close>

definition is_lone_surrogate :: "nat \<Rightarrow> bool" where
  "is_lone_surrogate c \<longleftrightarrow> 0xD800 \<le> c \<and> c \<le> 0xDFFF"

definition scalar_length :: "ustring \<Rightarrow> nat" where
  "scalar_length value = length (code_points value)"

definition external_reference_ok :: "ustring \<Rightarrow> bool" where
  "external_reference_ok s \<longleftrightarrow> \<not> (scalar_length s < 1 \<or> scalar_length s > 255 \<or>
     list_ex is_cc (code_points s) \<or> list_ex is_lone_surrogate (code_points s) \<or>
     is_js_space (hd s) \<or> is_js_space (last s))"

fun validate_external_reference :: "json option \<Rightarrow> error + ustring" where
  "validate_external_reference (Some (JStr s)) =
     (if external_reference_ok s then Inr s
      else Inl (PaymentsE (InvalidPaymentIntentRequestError (Some ''externalRef''))))"
| "validate_external_reference v = Inl (PaymentsE (InvalidPaymentIntentRequestError (Some ''externalRef'')))"

definition is_currency_pattern :: "ustring \<Rightarrow> bool" where
  "is_currency_pattern s \<longleftrightarrow> length s = 3 \<and> list_all (\<lambda>u. 65 \<le> u \<and> u \<le> 90) s"

fun validate_payment_currency :: "json option \<Rightarrow> error + currency" where
  "validate_payment_currency (Some (JStr s)) =
     (if \<not> is_currency_pattern s then Inl (PaymentsE (InvalidPaymentIntentRequestError (Some ''currency'')))
      else if s = units ''ETB'' then Inr ETB
      else if s = units ''USD'' then Inr USD
      else Inl (PaymentsE UnsupportedPaymentCurrencyError))"
| "validate_payment_currency v = Inl (PaymentsE (InvalidPaymentIntentRequestError (Some ''currency'')))"

fun validate_capture_method :: "json option \<Rightarrow> error + unit" where
  "validate_capture_method (Some (JStr s)) =
     (if s = units ''manual'' then Inr () else Inl (PaymentsE UnsupportedCaptureMethodError))"
| "validate_capture_method v = Inl (PaymentsE (InvalidPaymentIntentRequestError (Some ''captureMethod'')))"

fun validate_amount_minor :: "json option \<Rightarrow> error + int" where
  "validate_amount_minor (Some (JInt i)) =
     (if 1 \<le> i \<and> i \<le> max_safe_integer then Inr i
      else Inl (PaymentsE (InvalidPaymentIntentRequestError (Some ''amountMinor''))))"
| "validate_amount_minor v = Inl (PaymentsE (InvalidPaymentIntentRequestError (Some ''amountMinor'')))"

record capture_fields =
  vf_amount :: int
  vf_currency :: currency

record refund_fields = capture_fields +
  vf_ref :: ustring

text \<open>\<open>ValidatedPaymentIntentFields\<close> has the same fields and the constant capture method.\<close>

definition validate_payment_intent_fields ::
  "json option \<Rightarrow> json option \<Rightarrow> json option \<Rightarrow> json option \<Rightarrow> error + refund_fields" where
  "validate_payment_intent_fields amountMinor captureMethod cur externalRef =
     bind_sum (validate_amount_minor amountMinor) (\<lambda>a.
     bind_sum (validate_capture_method captureMethod) (\<lambda>_.
     bind_sum (validate_payment_currency cur) (\<lambda>c.
     bind_sum (validate_external_reference externalRef) (\<lambda>r.
     Inr \<lparr>vf_amount = a, vf_currency = c, vf_ref = r\<rparr>))))"

definition validate_capture_fields :: "json option \<Rightarrow> json option \<Rightarrow> error + capture_fields" where
  "validate_capture_fields amountMinor cur =
     bind_sum (validate_amount_minor amountMinor) (\<lambda>a.
     bind_sum (validate_payment_currency cur) (\<lambda>c. Inr \<lparr>vf_amount = a, vf_currency = c\<rparr>))"

definition validate_refund_fields ::
  "json option \<Rightarrow> json option \<Rightarrow> json option \<Rightarrow> error + refund_fields" where
  "validate_refund_fields amountMinor cur externalRef =
     bind_sum (validate_amount_minor amountMinor) (\<lambda>a.
     bind_sum (validate_payment_currency cur) (\<lambda>c.
     bind_sum (validate_external_reference externalRef) (\<lambda>r.
     Inr \<lparr>vf_amount = a, vf_currency = c, vf_ref = r\<rparr>)))"

definition is_valid_payment_intent_id :: "string \<Rightarrow> bool" where
  "is_valid_payment_intent_id value = has_ulid_prefix ''pi'' value"

definition assert_valid_payment_intent_id :: "string \<Rightarrow> error + unit" where
  "assert_valid_payment_intent_id value =
     require_sum (is_valid_payment_intent_id value)
       (PaymentsE (InvalidPaymentIntentRequestError (Some ''id'')))"

definition is_valid_refund_id :: "string \<Rightarrow> bool" where
  "is_valid_refund_id value = has_ulid_prefix ''rf'' value"

section \<open>Commands and the execution port\<close>

record payment_command = refund_fields +
  pc_key :: ustring
  pc_merchant :: string
  pc_request :: string

record payment_id_command = capture_fields +
  cc_key :: ustring
  cc_merchant :: string
  cc_payment :: string
  cc_request :: string

record refund_payment_command = refund_fields +
  rp_key :: ustring
  rp_merchant :: string
  rp_payment :: string
  rp_request :: string

record execution_command =
  xc_amount :: int
  xc_currency :: currency
  xc_payment :: string

datatype execution_result = Approved | Declined

text \<open>\<open>PaymentExecutionPort\<close>: an injected provider, which may also throw (\<open>None\<close>).\<close>

record execution_port =
  xp_capture :: "execution_command \<Rightarrow> nat \<Rightarrow> execution_result option"
  xp_refund :: "execution_command \<Rightarrow> nat \<Rightarrow> execution_result option"

definition deterministic_mock_execution ::
  "(execution_command \<Rightarrow> string \<Rightarrow> execution_result) \<Rightarrow> execution_port" where
  "deterministic_mock_execution outcome =
     \<lparr>xp_capture = (\<lambda>c n. Some (outcome c ''capture'')), xp_refund = (\<lambda>c n. Some (outcome c ''refund''))\<rparr>"

section \<open>Canonical requests\<close>

text \<open>\<open>JSON.stringify\<close> of an object: its members in order.\<close>

fun json_members :: "(string \<times> ustring) list \<Rightarrow> ustring" where
  "json_members [] = []"
| "json_members ((k, v) # ms) =
     json_quote (units k) @ [58] @ v @ (if ms = [] then [] else [44] @ json_members ms)"

definition json_object_text :: "(string \<times> ustring) list \<Rightarrow> ustring" where
  "json_object_text ms = [123] @ json_members ms @ [125]"

definition canonical_create_command :: "payment_command \<Rightarrow> ustring" where
  "canonical_create_command command = json_object_text
     [(''v'', units ''1''), (''externalRef'', json_quote (vf_ref command)),
      (''amountMinor'', json_quote (dec_int (vf_amount command))),
      (''currency'', json_quote (units (currency_code (vf_currency command)))),
      (''captureMethod'', json_quote (units ''manual''))]"

definition canonical_capture_command :: "payment_id_command \<Rightarrow> ustring" where
  "canonical_capture_command command = json_object_text
     [(''v'', units ''1''), (''paymentId'', json_quote (units (cc_payment command))),
      (''amountMinor'', json_quote (dec_int (vf_amount command))),
      (''currency'', json_quote (units (currency_code (vf_currency command))))]"

definition canonical_refund_command :: "refund_payment_command \<Rightarrow> ustring" where
  "canonical_refund_command command = json_object_text
     [(''v'', units ''1''), (''paymentId'', json_quote (units (rp_payment command))),
      (''externalRef'', json_quote (vf_ref command)),
      (''amountMinor'', json_quote (dec_int (vf_amount command))),
      (''currency'', json_quote (units (currency_code (vf_currency command))))]"

section \<open>Representations\<close>

fun status_name :: "payment_status \<Rightarrow> string" where
  "status_name Created = ''created''"
| "status_name Captured = ''captured''"
| "status_name Partially_refunded = ''partially_refunded''"
| "status_name Refunded = ''refunded''"

definition to_representation :: "payment_record \<Rightarrow> (string \<times> json) list" where
  "to_representation r =
     [(''amountMinor'', JInt (pr_amount r)), (''captureMethod'', jstr ''manual''),
      (''capturedAmountMinor'', JInt (pr_captured r)), (''createdAt'', JStr (to_iso (pr_created r))),
      (''currency'', jstr (currency_code (pr_currency r))), (''externalRef'', JStr (pr_ref r)),
      (''id'', jstr (pr_public_id r)), (''paymentStatus'', jstr (status_name (pr_status r))),
      (''refundedAmountMinor'', JInt (pr_refunded r)), (''settlementStatus'', jstr ''NOT_ELIGIBLE''),
      (''updatedAt'', JStr (to_iso (pr_updated r))), (''version'', JInt (pr_version r))]"

definition captured_representation :: "payment_record \<Rightarrow> string \<Rightarrow> json" where
  "captured_representation r ledgerTx =
     JObj (set_member ''paymentStatus'' (jstr ''captured'')
             (set_member ''ledgerTransactionId'' (jstr ledgerTx) (to_representation r)))"

definition refund_representation :: "refund_record \<Rightarrow> payment_record \<Rightarrow> string \<Rightarrow> json" where
  "refund_representation refund updated ledgerTx = JObj
     [(''amountMinor'', JInt (rr_amount refund)), (''createdAt'', JStr (to_iso (rr_created refund))),
      (''cumulativeRefundedAmountMinor'', JInt (pr_refunded updated)),
      (''currency'', jstr (currency_code (rr_currency refund))), (''externalRef'', JStr (rr_ref refund)),
      (''id'', jstr (rr_public_id refund)), (''ledgerTransactionId'', jstr ledgerTx),
      (''paymentId'', jstr (pr_public_id updated)),
      (''paymentStatus'', jstr (if pr_status updated = Refunded then ''refunded'' else ''partially_refunded''))]"

definition is_currency_member :: "json option \<Rightarrow> bool" where
  "is_currency_member v \<longleftrightarrow> v = Some (jstr ''ETB'') \<or> v = Some (jstr ''USD'')"

definition is_payment_intent_representation :: "json \<Rightarrow> bool" where
  "is_payment_intent_representation v \<longleftrightarrow> is_json_object v \<and>
     is_json_string (obj_get v ''id'') \<and> is_json_string (obj_get v ''externalRef'') \<and>
     is_safe_number (obj_get v ''amountMinor'') \<and> is_currency_member (obj_get v ''currency'') \<and>
     obj_get v ''captureMethod'' = Some (jstr ''manual'') \<and>
     (obj_get v ''paymentStatus'' = Some (jstr ''created'') \<or>
      obj_get v ''paymentStatus'' = Some (jstr ''captured'') \<or>
      obj_get v ''paymentStatus'' = Some (jstr ''partially_refunded'') \<or>
      obj_get v ''paymentStatus'' = Some (jstr ''refunded'')) \<and>
     obj_get v ''settlementStatus'' = Some (jstr ''NOT_ELIGIBLE'') \<and>
     is_json_number (obj_get v ''capturedAmountMinor'') \<and>
     is_json_number (obj_get v ''refundedAmountMinor'') \<and> is_json_number (obj_get v ''version'') \<and>
     is_json_string (obj_get v ''createdAt'') \<and> is_json_string (obj_get v ''updatedAt'')"

definition is_captured_representation :: "json \<Rightarrow> bool" where
  "is_captured_representation v \<longleftrightarrow> is_payment_intent_representation v \<and>
     obj_get v ''paymentStatus'' = Some (jstr ''captured'') \<and>
     is_json_string (obj_get v ''ledgerTransactionId'')"

definition is_refund_representation :: "json \<Rightarrow> bool" where
  "is_refund_representation v \<longleftrightarrow> is_json_object v \<and>
     is_json_string (obj_get v ''id'') \<and> is_json_string (obj_get v ''paymentId'') \<and>
     is_json_string (obj_get v ''externalRef'') \<and> is_safe_number (obj_get v ''amountMinor'') \<and>
     is_currency_member (obj_get v ''currency'') \<and>
     (obj_get v ''paymentStatus'' = Some (jstr ''partially_refunded'') \<or>
      obj_get v ''paymentStatus'' = Some (jstr ''refunded'')) \<and>
     is_json_number (obj_get v ''cumulativeRefundedAmountMinor'') \<and>
     is_json_string (obj_get v ''ledgerTransactionId'') \<and> is_json_string (obj_get v ''createdAt'')"

section \<open>Stored problems\<close>

definition problem :: "string \<Rightarrow> int \<Rightarrow> string \<Rightarrow> string \<Rightarrow> string \<Rightarrow> stored_response" where
  "problem requestId status code title detail =
     \<lparr>sr_body = JObj [(''code'', jstr code), (''detail'', jstr detail), (''requestId'', jstr requestId),
        (''status'', JInt status), (''title'', jstr title),
        (''type'', jstr (''https://docs.settleflow.dev/problems/'' @ code))],
      sr_content_type = ''application/problem+json'', sr_headers = [], sr_reference = None,
      sr_status = status\<rparr>"

definition external_reference_problem :: "string \<Rightarrow> stored_response" where
  "external_reference_problem requestId =
     problem requestId 409 ''external_reference_conflict'' ''External reference conflict''
       ''The external reference is already used by this merchant.''"

text \<open>An error that is not a stored outcome is thrown again.\<close>

fun command_problem :: "error \<Rightarrow> string \<Rightarrow> error + stored_response" where
  "command_problem (PaymentsE ExternalReferenceConflictError) requestId =
     Inr (external_reference_problem requestId)"
| "command_problem (PaymentsE PaymentIntentNotFoundError) requestId =
     Inr (problem requestId 404 ''payment_intent_not_found'' ''Payment intent not found''
            ''The payment intent was not found.'')"
| "command_problem (PaymentsE PaymentCurrencyMismatchError) requestId =
     Inr (problem requestId 422 ''currency_mismatch'' ''Currency mismatch''
            ''The command currency does not match the payment currency.'')"
| "command_problem (PaymentsE CaptureAmountMismatchError) requestId =
     Inr (problem requestId 409 ''capture_amount_mismatch'' ''Capture amount mismatch''
            ''The capture amount must equal the full payment amount.'')"
| "command_problem (PaymentsE PaymentIntentNotCapturableError) requestId =
     Inr (problem requestId 409 ''payment_intent_not_capturable'' ''Payment intent not capturable''
            ''The payment intent cannot be captured in its current state.'')"
| "command_problem (PaymentsE PaymentIntentNotRefundableError) requestId =
     Inr (problem requestId 409 ''payment_intent_not_refundable'' ''Payment intent not refundable''
            ''The payment intent cannot be refunded in its current state.'')"
| "command_problem (PaymentsE RefundAmountExceedsAvailableError) requestId =
     Inr (problem requestId 409 ''refund_amount_exceeds_available'' ''Refund amount exceeds available''
            ''The refund amount exceeds the remaining captured amount.'')"
| "command_problem (PaymentsE RefundExternalReferenceConflictError) requestId =
     Inr (problem requestId 409 ''refund_external_reference_conflict'' ''Refund external reference conflict''
            ''The refund external reference is already used by this merchant.'')"
| "command_problem (PaymentsE PaymentProviderDeclinedError) requestId =
     Inr (problem requestId 422 ''payment_provider_declined'' ''Payment provider declined''
            ''The simulated payment provider declined the command.'')"
| "command_problem e requestId = Inl e"

definition replay_errors :: "(string \<times> payments_error) list" where
  "replay_errors =
     [(''capture_amount_mismatch'', CaptureAmountMismatchError),
      (''currency_mismatch'', PaymentCurrencyMismatchError),
      (''payment_intent_not_capturable'', PaymentIntentNotCapturableError),
      (''payment_intent_not_found'', PaymentIntentNotFoundError),
      (''payment_intent_not_refundable'', PaymentIntentNotRefundableError),
      (''payment_provider_declined'', PaymentProviderDeclinedError),
      (''refund_amount_exceeds_available'', RefundAmountExceedsAvailableError),
      (''refund_external_reference_conflict'', RefundExternalReferenceConflictError)]"

text \<open>The error \<open>replayError\<close> throws.\<close>

definition replay_error :: "stored_response \<Rightarrow> error" where
  "replay_error response =
     (case List.find (\<lambda>(code, e). obj_get (sr_body response) ''code'' = Some (jstr code)) replay_errors of
        Some (code, e) \<Rightarrow> PaymentsE e
      | None \<Rightarrow> PlainE ''Stored idempotency response is outside the contract'')"

fun observation_code :: "error \<Rightarrow> string" where
  "observation_code (PaymentsE CaptureAmountMismatchError) = ''capture_amount_mismatch''"
| "observation_code (PaymentsE PaymentCurrencyMismatchError) = ''currency_mismatch''"
| "observation_code (PaymentsE PaymentIntentNotCapturableError) = ''payment_intent_not_capturable''"
| "observation_code (PaymentsE PaymentIntentNotFoundError) = ''payment_intent_not_found''"
| "observation_code (PaymentsE PaymentIntentNotRefundableError) = ''payment_intent_not_refundable''"
| "observation_code (PaymentsE PaymentProviderDeclinedError) = ''payment_provider_declined''"
| "observation_code (PaymentsE PaymentProviderUnavailableError) = ''payment_provider_unavailable''"
| "observation_code (PaymentsE RefundAmountExceedsAvailableError) = ''refund_amount_exceeds_available''"
| "observation_code (PaymentsE RefundExternalReferenceConflictError) = ''refund_external_reference_conflict''"
| "observation_code (PaymentsE IdentifierGenerationExhaustedError) = ''identifier_generation_exhausted''"
| "observation_code e = ''internal_error''"

end
