(* ===== verification/Payment_Service.thy ===== *)
theory Payment_Service imports Payments begin

text \<open>
  \<open>PaymentIntentService\<close> (\<open>packages/modules/payments/src/payment-intent.service.ts\<close>): every command
  acquires its idempotency key, asks the provider where it must, and completes the key in a
  transaction that holds the payment, the ledger posting, the event and the response to replay.
\<close>

section \<open>Shared steps\<close>

definition max_identifier_attempts :: nat where
  "max_identifier_attempts = 3"

datatype 'v command_result = Failed error | Done 'v

text \<open>\<open>errorResult\<close>: the stored problem becomes the response of the command.\<close>

definition error_result ::
  "error \<Rightarrow> string \<Rightarrow> ('s, error, stored_response \<times> 'v command_result) comp" where
  "error_result e requestId =
     bindc (from_sum (command_problem e requestId)) (\<lambda>response. ok (response, Failed e))"

fun unwrap :: "'v command_result \<Rightarrow> error + 'v" where
  "unwrap (Failed e) = Inl e"
| "unwrap (Done v) = Inr v"

definition complete_problem ::
  "env \<Rightarrow> idempotency_options \<Rightarrow> ownership \<Rightarrow> error \<Rightarrow> string \<Rightarrow> ('a payments_world_scheme, error, unit) comp"
where
  "complete_problem E opt own e requestId =
     idempotency_complete E ledger_deferred opt own
       (bindc (from_sum (command_problem e requestId)) (\<lambda>response. ok (response, ())))"

definition execute_provider ::
  "env \<Rightarrow> idempotency_options \<Rightarrow> (nat \<Rightarrow> execution_result option) \<Rightarrow> ownership \<Rightarrow> string \<Rightarrow>
   ('a payments_world_scheme, error, unit) comp" where
  "execute_provider E opt operation own requestId = (\<lambda>w.
     case operation (tick w) of
       None \<Rightarrow> throw (PaymentsE PaymentProviderUnavailableError) (bump w)
     | Some Approved \<Rightarrow> ok () (bump w)
     | Some Declined \<Rightarrow>
         bindc (complete_problem E opt own (PaymentsE PaymentProviderDeclinedError) requestId)
           (\<lambda>_. throw (PaymentsE PaymentProviderDeclinedError)) (bump w))"

definition rejected_command_observation :: "string \<Rightarrow> string \<Rightarrow> string \<Rightarrow> string \<Rightarrow> error \<Rightarrow> observation" where
  "rejected_command_observation operation merchantId paymentId requestId e =
     [(''code'', observation_code e), (''merchantId'', merchantId), (''operation'', operation),
      (''outcome'', ''rejected''), (''paymentId'', paymentId), (''requestId'', requestId)]"

definition success_observation :: "string \<Rightarrow> string \<Rightarrow> string \<Rightarrow> string \<Rightarrow> string \<Rightarrow> observation" where
  "success_observation operation outcome merchantId paymentId requestId =
     [(''merchantId'', merchantId), (''operation'', operation), (''outcome'', outcome),
      (''paymentId'', paymentId), (''requestId'', requestId)]"

text \<open>\<open>observeRejected\<close> followed by \<open>throw\<close>.\<close>

definition observe_and_throw :: "observation \<Rightarrow> error \<Rightarrow> ('a world_scheme, error, 'r) comp" where
  "observe_and_throw ob e = bindc (observe ob) (\<lambda>_. throw e)"

fun capture_error :: "payment_record option \<Rightarrow> payment_id_command \<Rightarrow> error option" where
  "capture_error None command = Some (PaymentsE PaymentIntentNotFoundError)"
| "capture_error (Some payment) command =
     (if pr_currency payment \<noteq> vf_currency command then Some (PaymentsE PaymentCurrencyMismatchError)
      else if pr_status payment \<noteq> Created then Some (PaymentsE PaymentIntentNotCapturableError)
      else if pr_amount payment \<noteq> vf_amount command then Some (PaymentsE CaptureAmountMismatchError)
      else None)"

fun refund_error :: "payment_record option \<Rightarrow> refund_payment_command \<Rightarrow> error option" where
  "refund_error None command = Some (PaymentsE PaymentIntentNotFoundError)"
| "refund_error (Some payment) command =
     (if pr_currency payment \<noteq> vf_currency command then Some (PaymentsE PaymentCurrencyMismatchError)
      else if pr_status payment \<noteq> Captured \<and> pr_status payment \<noteq> Partially_refunded
      then Some (PaymentsE PaymentIntentNotRefundableError)
      else if pr_captured payment - pr_refunded payment < vf_amount command
      then Some (PaymentsE RefundAmountExceedsAvailableError)
      else None)"

definition created_response :: "json \<Rightarrow> string \<Rightarrow> int \<Rightarrow> stored_response" where
  "created_response body reference status =
     \<lparr>sr_body = body, sr_content_type = ''application/json'', sr_headers = [],
      sr_reference = Some reference, sr_status = status\<rparr>"

section \<open>Create\<close>

definition create_operation ::
  "env \<Rightarrow> payment_command \<Rightarrow> string \<Rightarrow> payment_created_event \<Rightarrow>
   ('a payments_world_scheme, json) idempotent_operation" where
  "create_operation E command paymentId event =
     bindc (repo_create_payment E
       \<lparr>cpr_amount = vf_amount command, cpr_currency = vf_currency command, cpr_ref = vf_ref command,
        cpr_merchant = pc_merchant command, cpr_public_id = paymentId\<rparr>) (\<lambda>record.
     bindc (persist_payment_event E (PaymentCreated event)) (\<lambda>_.
     ok (created_response (JObj (to_representation record)) (pr_public_id record) 201,
         JObj (to_representation record))))"

fun create_attempts ::
  "nat \<Rightarrow> env \<Rightarrow> idempotency_options \<Rightarrow> payment_command \<Rightarrow> ownership \<Rightarrow> ('a payments_world_scheme, error, json) comp"
where
  "create_attempts 0 E opt command own = throw (PaymentsE IdentifierGenerationExhaustedError)"
| "create_attempts (Suc n) E opt command own =
     bindc (read_clock E) (\<lambda>occurredAt.
     bindc (new_ulid E occurredAt) (\<lambda>u.
     let paymentId = ''pi_'' @ u in
     bindc (create_payment_created_event E
       \<lparr>pci_amount = vf_amount command, pci_currency = vf_currency command,
        pci_merchant = pc_merchant command, pci_payment = paymentId, pci_request = pc_request command\<rparr>
       occurredAt) (\<lambda>event.
     catch
       (idempotency_complete E ledger_deferred opt own (create_operation E command paymentId event))
       (\<lambda>e. if e = PaymentsE ExternalReferenceConflictError
            then bindc (complete_problem E opt own e (pc_request command)) (\<lambda>_. throw e)
            else if e = PaymentsE PaymentIdentifierCollisionError \<or> e = EventingE EventIdentifierCollisionError
            then (if 0 < n then create_attempts n E opt command own
                  else throw (PaymentsE IdentifierGenerationExhaustedError))
            else throw e))))"

definition create_payment ::
  "env \<Rightarrow> idempotency_options \<Rightarrow> payment_command \<Rightarrow> ('a payments_world_scheme, error, json) comp" where
  "create_payment E opt command =
     bindc (read_clock E) (\<lambda>now.
     bindc (idempotency_acquire E ledger_deferred opt
       \<lparr>ac_canonical = canonical_create_command command, ac_key = pc_key command,
        ac_merchant = pc_merchant command, ac_now = now, ac_route = ''/v1/payment-intents'',
        ac_method = ''POST''\<rparr>) (\<lambda>acquisition.
     case acquisition of
       Replay response \<Rightarrow>
         if sr_status response = 409 then throw (PaymentsE ExternalReferenceConflictError)
         else if sr_status response \<noteq> 201 \<or> \<not> is_payment_intent_representation (sr_body response)
         then throw (PlainE ''Stored idempotency response is outside the Payment Intent contract'')
         else ok (sr_body response)
     | Acquired own \<Rightarrow> create_attempts max_identifier_attempts E opt command own))"

section \<open>Capture\<close>

definition capture_operation ::
  "env \<Rightarrow> payment_id_command \<Rightarrow> ('a payments_world_scheme, (json \<times> string) command_result) idempotent_operation"
where
  "capture_operation E command =
     bindc (repo_lock_by_public_id E (cc_merchant command) (cc_payment command)) (\<lambda>locked.
     case capture_error (map_option fst locked) command of
       Some validationError \<Rightarrow> error_result validationError (cc_request command)
     | None \<Rightarrow>
         let payment = fst (the locked); occurredAt = snd (the locked) in
         bindc (post_capture E
           \<lparr>mc_reference = units (pr_public_id payment), mc_merchant = cc_merchant command,
            mc_occurred = Some occurredAt, mc_request = cc_request command,
            mc_amount = vf_amount command, mc_currency = pr_currency payment\<rparr>) (\<lambda>ledger.
         bindc (repo_capture E payment occurredAt) (\<lambda>updated.
         bindc (create_payment_captured_event E
           \<lparr>pai_available_on = occurredAt, pai_amount = pr_captured updated,
            pai_currency = pr_currency updated, pai_ledger_tx = lp_public_id ledger,
            pai_merchant = cc_merchant command, pai_payment = pr_public_id updated,
            pai_request = cc_request command\<rparr> occurredAt) (\<lambda>event.
         bindc (persist_payment_event E (PaymentCaptured event)) (\<lambda>_.
         let response = captured_representation updated (lp_public_id ledger) in
         ok (created_response response (pr_public_id updated) 200,
             Done (response, lp_public_id ledger)))))))"

definition capture_rejected :: "payment_id_command \<Rightarrow> error \<Rightarrow> observation" where
  "capture_rejected command e =
     rejected_command_observation ''capture'' (cc_merchant command) (cc_payment command)
       (cc_request command) e"

definition is_retryable_collision :: "error \<Rightarrow> bool" where
  "is_retryable_collision e \<longleftrightarrow>
     e = EventingE EventIdentifierCollisionError \<or> e = LedgerE LedgerIdentifierCollisionError"

fun capture_attempts ::
  "nat \<Rightarrow> env \<Rightarrow> idempotency_options \<Rightarrow> payment_id_command \<Rightarrow> ownership \<Rightarrow>
   ('a payments_world_scheme, error, json) comp"
where
  "capture_attempts 0 E opt command own = throw (PaymentsE IdentifierGenerationExhaustedError)"
| "capture_attempts (Suc n) E opt command own =
     catch
       (bindc (idempotency_complete E ledger_deferred opt own (capture_operation E command)) (\<lambda>result.
        bindc (from_sum (unwrap result)) (\<lambda>(response, ledgerTx).
        bindc (observe ((''ledgerTransactionId'', ledgerTx) #
                 success_observation ''capture'' ''committed'' (cc_merchant command) (cc_payment command)
                   (cc_request command))) (\<lambda>_.
        ok response))))
       (\<lambda>e. if is_retryable_collision e
            then (if 0 < n then capture_attempts n E opt command own
                  else observe_and_throw
                         (capture_rejected command (PaymentsE IdentifierGenerationExhaustedError))
                         (PaymentsE IdentifierGenerationExhaustedError))
            else observe_and_throw (capture_rejected command e) e)"

definition capture_payment ::
  "env \<Rightarrow> idempotency_options \<Rightarrow> execution_port \<Rightarrow> payment_id_command \<Rightarrow>
   ('a payments_world_scheme, error, json) comp" where
  "capture_payment E opt port command =
     bindc (from_sum (assert_valid_payment_intent_id (cc_payment command))) (\<lambda>_.
     bindc (read_clock E) (\<lambda>now.
     bindc (idempotency_acquire E ledger_deferred opt
       \<lparr>ac_canonical = canonical_capture_command command, ac_key = cc_key command,
        ac_merchant = cc_merchant command, ac_now = now,
        ac_route = ''/v1/payment-intents/{id}/capture'', ac_method = ''POST''\<rparr>) (\<lambda>acquisition.
     case acquisition of
       Replay response \<Rightarrow>
         if sr_status response = 200 \<and> is_captured_representation (sr_body response)
         then bindc (observe (success_observation ''capture'' ''replayed'' (cc_merchant command)
                       (cc_payment command) (cc_request command))) (\<lambda>_. ok (sr_body response))
         else throw (replay_error response)
     | Acquired own \<Rightarrow>
         bindc
           (catch
             (execute_provider E opt
                (xp_capture port \<lparr>xc_amount = vf_amount command, xc_currency = vf_currency command,
                                  xc_payment = cc_payment command\<rparr>)
                own (cc_request command))
             (\<lambda>e. observe_and_throw (capture_rejected command e) e)) (\<lambda>_.
         capture_attempts max_identifier_attempts E opt command own))))"

section \<open>Refund\<close>

definition refund_operation ::
  "env \<Rightarrow> refund_payment_command \<Rightarrow> string \<Rightarrow>
   ('a payments_world_scheme, (json \<times> string \<times> string) command_result) idempotent_operation" where
  "refund_operation E command refundId =
     bindc (repo_lock_by_public_id E (rp_merchant command) (rp_payment command)) (\<lambda>locked.
     case refund_error (map_option fst locked) command of
       Some validationError \<Rightarrow> error_result validationError (rp_request command)
     | None \<Rightarrow>
         let payment = fst (the locked); occurredAt = snd (the locked) in
         bindc (new_uuid E) (\<lambda>i.
         bindc (repo_create_refund E
           \<lparr>crr_amount = vf_amount command, crr_created = occurredAt, crr_currency = pr_currency payment,
            crr_ref = vf_ref command, crr_id = i, crr_merchant = rp_merchant command,
            crr_payment = pr_id payment, crr_public_id = refundId\<rparr>) (\<lambda>refund.
         bindc (post_refund E
           \<lparr>mc_reference = units (rr_public_id refund), mc_merchant = rp_merchant command,
            mc_occurred = Some occurredAt, mc_request = rp_request command,
            mc_amount = vf_amount command, mc_currency = pr_currency payment\<rparr>) (\<lambda>ledger.
         bindc (repo_apply_refund E payment (vf_amount command) occurredAt) (\<lambda>updated.
         bindc (create_payment_refunded_event E
           \<lparr>pri_amount = vf_amount command, pri_cumulative = pr_refunded updated,
            pri_currency = pr_currency updated, pri_ledger_tx = lp_public_id ledger,
            pri_merchant = rp_merchant command, pri_payment = pr_public_id updated,
            pri_refund = rr_public_id refund, pri_request = rp_request command\<rparr> occurredAt) (\<lambda>event.
         bindc (persist_payment_event E (PaymentRefunded event)) (\<lambda>_.
         let response = refund_representation refund updated (lp_public_id ledger) in
         ok (created_response response (rr_public_id refund) 201,
             Done (response, rr_public_id refund, lp_public_id ledger)))))))))"

definition refund_rejected :: "refund_payment_command \<Rightarrow> error \<Rightarrow> observation" where
  "refund_rejected command e =
     rejected_command_observation ''refund'' (rp_merchant command) (rp_payment command)
       (rp_request command) e"

fun refund_attempts ::
  "nat \<Rightarrow> env \<Rightarrow> idempotency_options \<Rightarrow> refund_payment_command \<Rightarrow> ownership \<Rightarrow>
   ('a payments_world_scheme, error, json) comp"
where
  "refund_attempts 0 E opt command own = throw (PaymentsE IdentifierGenerationExhaustedError)"
| "refund_attempts (Suc n) E opt command own =
     bindc (read_clock E) (\<lambda>t.
     bindc (new_ulid E t) (\<lambda>u.
     let refundId = ''rf_'' @ u in
     catch
       (bindc (idempotency_complete E ledger_deferred opt own (refund_operation E command refundId)) (\<lambda>result.
        bindc (from_sum (unwrap result)) (\<lambda>(response, responseId, ledgerTx).
        bindc (observe ((''ledgerTransactionId'', ledgerTx) # (''refundId'', responseId) #
                 success_observation ''refund'' ''committed'' (rp_merchant command) (rp_payment command)
                   (rp_request command))) (\<lambda>_.
        ok response))))
       (\<lambda>e. if e = PaymentsE RefundExternalReferenceConflictError
            then bindc (complete_problem E opt own e (rp_request command)) (\<lambda>_.
                 observe_and_throw (refund_rejected command e) e)
            else if e = PaymentsE RefundIdentifierCollisionError \<or> is_retryable_collision e
            then (if 0 < n then refund_attempts n E opt command own
                  else observe_and_throw
                         (refund_rejected command (PaymentsE IdentifierGenerationExhaustedError))
                         (PaymentsE IdentifierGenerationExhaustedError))
            else observe_and_throw (refund_rejected command e) e)))"

text \<open>The observation of a replay carries the identifier of the stored refund (\<open>body.id\<close>).\<close>

definition replayed_refund_id :: "json \<Rightarrow> string" where
  "replayed_refund_id body =
     (case obj_get body ''id'' of Some (JStr s) \<Rightarrow> map char_of s | _ \<Rightarrow> [])"

definition refund_payment ::
  "env \<Rightarrow> idempotency_options \<Rightarrow> execution_port \<Rightarrow> refund_payment_command \<Rightarrow>
   ('a payments_world_scheme, error, json) comp" where
  "refund_payment E opt port command =
     bindc (from_sum (assert_valid_payment_intent_id (rp_payment command))) (\<lambda>_.
     bindc (read_clock E) (\<lambda>now.
     bindc (idempotency_acquire E ledger_deferred opt
       \<lparr>ac_canonical = canonical_refund_command command, ac_key = rp_key command,
        ac_merchant = rp_merchant command, ac_now = now,
        ac_route = ''/v1/payment-intents/{id}/refunds'', ac_method = ''POST''\<rparr>) (\<lambda>acquisition.
     case acquisition of
       Replay response \<Rightarrow>
         if sr_status response = 201 \<and> is_refund_representation (sr_body response)
         then bindc (observe ((''refundId'', replayed_refund_id (sr_body response)) #
                 success_observation ''refund'' ''replayed'' (rp_merchant command) (rp_payment command)
                   (rp_request command))) (\<lambda>_. ok (sr_body response))
         else throw (replay_error response)
     | Acquired own \<Rightarrow>
         bindc
           (catch
             (execute_provider E opt
                (xp_refund port \<lparr>xc_amount = vf_amount command, xc_currency = vf_currency command,
                                 xc_payment = rp_payment command\<rparr>)
                own (rp_request command))
             (\<lambda>e. observe_and_throw (refund_rejected command e) e)) (\<lambda>_.
         refund_attempts max_identifier_attempts E opt command own))))"

section \<open>Get\<close>

definition get_payment ::
  "env \<Rightarrow> string \<Rightarrow> string \<Rightarrow> ('a payments_world_scheme, error, json) comp" where
  "get_payment E merchantId publicId =
     bindc (from_sum (assert_valid_payment_intent_id publicId)) (\<lambda>_.
     bindc (repo_find_by_public_id E merchantId publicId) (\<lambda>record.
     case record of None \<Rightarrow> throw (PaymentsE PaymentIntentNotFoundError)
     | Some r \<Rightarrow> ok (JObj (to_representation r))))"

end
