(* ===== verification/Payments_Effect.thy ===== *)
theory Payments_Effect imports Payment_Service Ledger_Reach begin

text \<open>
  What the database holds after each step of a payment command: exact effects of the repositories and
  of the three command operations, and the step relation of the payment part of the program.
\<close>

section \<open>Tables of a payments world\<close>

lemma same_db_payments:
  "same_db w w' \<Longrightarrow> ledger_accounts w' = ledger_accounts w \<and> ledger_transactions w' = ledger_transactions w \<and>
     ledger_entries w' = ledger_entries w \<and> outbox_events w' = outbox_events w \<and>
     idempotency_keys w' = idempotency_keys w \<and> payment_intents w' = payment_intents w \<and>
     refunds w' = refunds w \<and> payments_world.more w' = payments_world.more w"
  by (cases w; cases w') (auto simp: same_db_iff)

lemma ledger_more_payments:
  fixes w w' :: "'a payments_world_scheme"
  assumes "ledger_world.more w' = ledger_world.more w"
  shows "outbox_events w' = outbox_events w \<and> idempotency_keys w' = idempotency_keys w \<and>
     payment_intents w' = payment_intents w \<and> refunds w' = refunds w \<and>
     payments_world.more w' = payments_world.more w"
  using assms by (cases w; cases w') auto

lemma bump_payments [simp]:
  "outbox_events (bump (w :: 'a payments_world_scheme)) = outbox_events w"
  "idempotency_keys (bump (w :: 'a payments_world_scheme)) = idempotency_keys w"
  "payment_intents (bump (w :: 'a payments_world_scheme)) = payment_intents w"
  "refunds (bump (w :: 'a payments_world_scheme)) = refunds w"
  "payments_world.more (bump (w :: 'a payments_world_scheme)) = payments_world.more w"
  by (simp_all add: bump_def)

lemma raise_constraint_eq [comp_simps]:
  "raise_constraint c w = (r, w') \<longleftrightarrow> r = Inl (DbE (ConstraintViolation c)) \<and> w' = w"
  by (auto simp: raise_constraint_def throw_def)

section \<open>The repositories\<close>

lemma insert_outbox_row_Inr:
  "insert_outbox_row r w = (Inr u, w') \<longleftrightarrow> uuid_syntax (ob_merchant r) \<and> outbox_check r = None \<and>
     ob_id r \<notin> ob_id ` set (outbox_events w) \<and> ob_event_id r \<notin> ob_event_id ` set (outbox_events w) \<and>
     w' = w\<lparr>outbox_events := outbox_events w @ [r]\<rparr>"
  by (auto simp: insert_outbox_row_def comp_simps split: option.splits)

lemma event_conflict_never [simp]:
  "(case find_database_constraint e of
      Some c \<Rightarrow> if c = a \<or> c = b \<or> c = d then throw e1 else throw e
    | None \<Rightarrow> throw e) w \<noteq> (Inr u, w')"
  by (auto simp: throw_def split: option.splits)

lemma insert_domain_event_Inr:
  fixes w :: "'a eventing_world_scheme"
  assumes "insert_domain_event E event w = (Inr u, w')"
  shows "\<exists>i now. let r = outbox_row_of i now event in outbox_check r = None \<and>
     ob_id r \<notin> ob_id ` set (outbox_events w) \<and> ob_event_id r \<notin> ob_event_id ` set (outbox_events w) \<and>
     w' = (bump (bump (bump w)))\<lparr>outbox_events := outbox_events w @ [r]\<rparr>"
proof -
  have b: "outbox_events (bump v) = outbox_events v" for v :: "'a eventing_world_scheme"
    by (simp add: bump_def)
  from assms show ?thesis
    unfolding insert_domain_event_def
    by (fastforce simp: comp_simps insert_outbox_row_Inr b Let_def)
qed

lemma unique_conflict_never [simp]: "unique_conflict_error E t c1 c2 e w \<noteq> (Inr x, w')"
  by (auto simp: unique_conflict_error_def Let_def throw_def)

lemma insert_payment_Inr:
  "insert_payment p w = (Inr x, w') \<longleftrightarrow> payment_check p = None \<and>
     payment_unique (payment_intents w) p = None \<and> x = p \<and>
     w' = w\<lparr>payment_intents := payment_intents w @ [p]\<rparr>"
  by (auto simp: insert_payment_def comp_simps split: option.splits)

lemma repo_create_payment_Inr:
  assumes "repo_create_payment E inp w = (Inr record, w')"
  shows "\<exists>i now. let p = payment_row_of i now inp in payment_check p = None \<and>
     payment_unique (payment_intents w) p = None \<and> to_record p = Inr record \<and>
     w' = (bump (bump (bump w)))\<lparr>payment_intents := payment_intents w @ [p]\<rparr>"
  using assms unfolding repo_create_payment_def
  by (fastforce simp: comp_simps insert_payment_Inr Let_def)

lemma update_payments_Inr:
  "update_payments p f w = (Inr n, w') \<longleftrightarrow>
     (\<forall>r \<in> set (payment_intents w). p r \<longrightarrow> payment_update_guard r (f r) = None \<and> payment_check (f r) = None) \<and>
     n = count_where p (payment_intents w) \<and>
     w' = w\<lparr>payment_intents := update_where p f (payment_intents w)\<rparr>"
proof -
  have "(case payment_update_guard r (f r) of Some c \<Rightarrow> Some c | None \<Rightarrow> payment_check (f r)) = None \<longleftrightarrow>
      payment_update_guard r (f r) = None \<and> payment_check (f r) = None" for r
    by (auto split: option.splits)
  then have "first_violation (\<lambda>r. case payment_update_guard r (f r) of
              Some c \<Rightarrow> Some c | None \<Rightarrow> payment_check (f r)) (filter p (payment_intents w)) = None \<longleftrightarrow>
      (\<forall>r \<in> set (payment_intents w). p r \<longrightarrow> payment_update_guard r (f r) = None \<and> payment_check (f r) = None)"
    by (auto simp: first_violation_None)
  then show ?thesis
    by (auto simp: update_payments_def comp_simps split: option.splits)
qed

lemma find_payment_eq [comp_simps]:
  "find_payment p w = (r, w') \<longleftrightarrow> r = Inr (List.find p (payment_intents w)) \<and> w' = w"
  by (auto simp: find_payment_def comp_simps)

lemma transaction_time_Inr:
  "transaction_time E p w = (Inr t, w') \<longleftrightarrow>
     t = map_option (\<lambda>r. max (env_clock E (tick w)) (pi_updated r)) (List.find p (payment_intents w)) \<and> w' = bump w"
  by (auto simp: transaction_time_def comp_simps)

text \<open>The lock reads the payment of its merchant and a time not before its last update.\<close>

lemma repo_lock_Inr:
  assumes "repo_lock_by_public_id E m p w = (Inr found, w')"
    and "distinct (map pi_id (payment_intents w))"
  shows "same_db w w' \<and> txn_now w' = txn_now w \<and> observed w' = observed w \<and>
     (case found of
        None \<Rightarrow> \<forall>r \<in> set (payment_intents w). \<not> (pi_merchant r = m \<and> pi_public_id r = p)
      | Some (payment, t) \<Rightarrow> \<exists>r \<in> set (payment_intents w). pi_merchant r = m \<and> pi_public_id r = p \<and>
          to_record r = Inr payment \<and> pi_updated r \<le> t)"
proof (cases "List.find (\<lambda>r. pi_merchant r = m \<and> pi_public_id r = p) (payment_intents w)")
  case None
  then have "\<forall>r \<in> set (payment_intents w). \<not> (pi_merchant r = m \<and> pi_public_id r = p)"
    by (simp add: find_None_iff)
  moreover have "found = None" "w' = bump w"
    using assms(1) None by (auto simp: repo_lock_by_public_id_def comp_simps)
  ultimately show ?thesis by simp
next
  case (Some r)
  then have r: "r \<in> set (payment_intents w)" "pi_merchant r = m" "pi_public_id r = p"
    by (auto dest: find_Some_in)
  have "List.find (\<lambda>x. pi_id x = pi_id r \<and> pi_merchant x = m) (payment_intents w) = Some r"
  proof -
    obtain r' where f: "List.find (\<lambda>x. pi_id x = pi_id r \<and> pi_merchant x = m) (payment_intents w) = Some r'"
      using r by (cases "List.find (\<lambda>x. pi_id x = pi_id r \<and> pi_merchant x = m) (payment_intents w)")
        (auto simp: find_None_iff)
    then have "r' \<in> set (payment_intents w)" "pi_id r' = pi_id r" by (auto dest: find_Some_in)
    then show ?thesis using f distinct_key_eq[OF assms(2) _ r(1)] by blast
  qed
  with Some assms(1) obtain payment t where "found = Some (payment, t)" "to_record r = Inr payment"
    "pi_updated r \<le> t" "w' = bump (bump (bump (bump w)))"
    unfolding repo_lock_by_public_id_def
    by (auto simp: comp_simps transaction_time_Inr Let_def)
  with r show ?thesis by (auto simp: same_db_iff)
qed

lemma find_locked_record_Inr:
  assumes "find_locked_record E i m w = (Inr rec, w')"
  shows "w' = bump w \<and> (\<exists>r. List.find (\<lambda>r. pi_id r = i \<and> pi_merchant r = m) (payment_intents w) = Some r \<and>
     to_record r = Inr rec)"
  using assms unfolding find_locked_record_def
  by (auto simp: comp_simps split: option.splits)

lemma to_record_fields:
  assumes "to_record r = Inr p"
  shows "pr_amount p = pi_amount r" "pr_captured p = pi_captured r" "pr_refunded p = pi_refunded r"
    "pr_currency p = pi_currency r" "pr_ref p = pi_ref r" "pr_id p = pi_id r" "pr_merchant p = pi_merchant r"
    "pr_public_id p = pi_public_id r" "pr_created p = pi_created r" "pr_updated p = pi_updated r"
    "pr_version p = pi_version r" "to_status (pi_status r) = Inr (pr_status p)"
    "pr_captured_at p = pi_captured_at r" "pr_available_at p = pi_available_at r"
    "0 \<le> pi_captured r" "pi_captured r \<le> max_safe_integer"
  using assms by (auto simp: to_record_def comp_simps to_safe_amount_def split: if_splits)

text \<open>
  An update of the one row it locked: where identifiers are unique, exactly that row changes.
\<close>

lemma locked_update:
  assumes "distinct (map pi_id rows)" and "r \<in> set rows" and "count_where p rows = 1"
    and "\<And>x. p x \<Longrightarrow> pi_id x = pi_id r"
  shows "p r" and "\<And>x. x \<in> set rows \<Longrightarrow> p x \<longleftrightarrow> x = r"
    and "update_where p f rows = update_where (\<lambda>x. pi_id x = pi_id r) f rows"
proof -
  have "filter p rows \<noteq> []" using assms(3) by (auto simp: count_where_def)
  then obtain y where y: "y \<in> set rows" "p y" by (meson filter_False)
  then have "y = r" using distinct_key_eq[OF assms(1) y(1) assms(2)] assms(4) by blast
  with y show p: "p r" by simp
  show eq: "x \<in> set rows \<Longrightarrow> p x \<longleftrightarrow> x = r" for x
    using distinct_key_eq[OF assms(1) _ assms(2)] assms(4) p by blast
  have "x \<in> set rows \<Longrightarrow> p x \<longleftrightarrow> pi_id x = pi_id r" for x
    using eq distinct_key_eq[OF assms(1) _ assms(2)] by blast
  then show "update_where p f rows = update_where (\<lambda>x. pi_id x = pi_id r) f rows"
    by (auto simp: update_where_def)
qed

lemma find_updated:
  assumes "distinct (map pi_id rows)" and "r \<in> set rows" and "pi_id (f r) = pi_id r"
    and "pi_merchant (f r) = m"
  shows "List.find (\<lambda>x. pi_id x = pi_id r \<and> pi_merchant x = m)
     (update_where (\<lambda>x. pi_id x = pi_id r) f rows) = Some (f r)"
  using assms
proof (induction rows)
  case Nil
  then show ?case by simp
next
  case (Cons x rows)
  show ?case
  proof (cases "x = r")
    case True
    then show ?thesis using Cons.prems by simp
  next
    case False
    with Cons.prems have r: "r \<in> set rows" by simp
    then have "pi_id x \<noteq> pi_id r" using Cons.prems(1) by (metis distinct.simps(2) image_eqI list.simps(9) set_map)
    then show ?thesis using Cons r by simp
  qed
qed

lemma repo_capture_Inr:
  fixes w :: "'a payments_world_scheme"
  assumes "repo_capture E payment t w = (Inr updated, w')"
    and "distinct (map pi_id (payment_intents w))" and "r \<in> set (payment_intents w)"
    and "to_record r = Inr payment"
  shows "pi_status r = Db_created \<and> payment_update_guard r (captured_row payment t r) = None \<and>
     payment_check (captured_row payment t r) = None \<and> to_record (captured_row payment t r) = Inr updated \<and>
     w' = (bump (bump w))\<lparr>payment_intents :=
       update_where (\<lambda>x. pi_id x = pi_id r) (captured_row payment t) (payment_intents w)\<rparr>"
proof -
  let ?T = "capture_target payment" and ?f = "captured_row payment t"
  have p: "pr_id payment = pi_id r" "pr_merchant payment = pi_merchant r"
    by (simp_all add: to_record_fields[OF assms(4)])
  from assms(1) obtain w1 where c: "count_where ?T (payment_intents w) = 1"
    and g: "\<forall>x \<in> set (payment_intents w). ?T x \<longrightarrow> payment_update_guard x (?f x) = None \<and> payment_check (?f x) = None"
    and w1: "w1 = (bump w)\<lparr>payment_intents := update_where ?T ?f (payment_intents w)\<rparr>"
    and l: "find_locked_record E (pi_id r) (pi_merchant r) w1 = (Inr updated, w')"
    unfolding repo_capture_def p by (auto simp: comp_simps update_payments_Inr split: if_splits)
  have ids: "?T x \<Longrightarrow> pi_id x = pi_id r" for x by (simp add: capture_target_def p)
  note L = locked_update[OF assms(2,3) c ids]
  have w1': "w1 = (bump w)\<lparr>payment_intents := update_where (\<lambda>x. pi_id x = pi_id r) ?f (payment_intents w)\<rparr>"
    unfolding w1 by (simp only: L(3)[of ?f])
  have "List.find (\<lambda>x. pi_id x = pi_id r \<and> pi_merchant x = pi_merchant r)
      (update_where (\<lambda>x. pi_id x = pi_id r) ?f (payment_intents w)) = Some (?f r)"
    by (rule find_updated[OF assms(2,3)]) (simp_all add: captured_row_def)
  with find_locked_record_Inr[OF l] have "w' = bump w1" "to_record (?f r) = Inr updated"
    by (auto simp: w1')
  with L(1) g assms(3) show ?thesis by (simp add: w1' capture_target_def bump_def)
qed

lemma insert_refund_Inr:
  "insert_refund r w = (Inr x, w') \<longleftrightarrow> refund_check r = None \<and> refund_unique (refunds w) r = None \<and>
     (\<exists>p \<in> set (payment_intents w). pi_id p = rf_payment r \<and> pi_merchant p = rf_merchant r \<and>
        pi_currency p = rf_currency r) \<and> x = r \<and> w' = w\<lparr>refunds := refunds w @ [r]\<rparr>"
  by (auto simp: insert_refund_def comp_simps split: option.splits)

lemma repo_create_refund_Inr:
  assumes "repo_create_refund E inp w = (Inr record, w')"
  shows "let r = refund_row_of inp in refund_check r = None \<and> refund_unique (refunds w) r = None \<and>
     (\<exists>p \<in> set (payment_intents w). pi_id p = rf_payment r \<and> pi_merchant p = rf_merchant r \<and>
        pi_currency p = rf_currency r) \<and>
     rr_amount record = crr_amount inp \<and> rr_created record = crr_created inp \<and>
     rr_currency record = crr_currency inp \<and> rr_ref record = crr_ref inp \<and>
     rr_public_id record = crr_public_id inp \<and> w' = (bump w)\<lparr>refunds := refunds w @ [r]\<rparr>"
  using assms unfolding repo_create_refund_def
  by (auto simp: comp_simps insert_refund_Inr Let_def refund_record_of_def to_safe_amount_def refund_row_of_def
      split: if_splits)

lemma repo_apply_refund_Inr:
  fixes w :: "'a payments_world_scheme"
  assumes "repo_apply_refund E payment a t w = (Inr updated, w')"
    and "distinct (map pi_id (payment_intents w))" and "r \<in> set (payment_intents w)"
    and "to_record r = Inr payment"
  shows "payment_update_guard r (refunded_row payment a t r) = None \<and>
     payment_check (refunded_row payment a t r) = None \<and> to_record (refunded_row payment a t r) = Inr updated \<and>
     w' = (bump (bump w))\<lparr>payment_intents :=
       update_where (\<lambda>x. pi_id x = pi_id r) (refunded_row payment a t) (payment_intents w)\<rparr>"
proof -
  let ?T = "refund_target payment" and ?f = "refunded_row payment a t"
  have p: "pr_id payment = pi_id r" "pr_merchant payment = pi_merchant r"
    by (simp_all add: to_record_fields[OF assms(4)])
  from assms(1) obtain w1 where c: "count_where ?T (payment_intents w) = 1"
    and g: "\<forall>x \<in> set (payment_intents w). ?T x \<longrightarrow> payment_update_guard x (?f x) = None \<and> payment_check (?f x) = None"
    and w1: "w1 = (bump w)\<lparr>payment_intents := update_where ?T ?f (payment_intents w)\<rparr>"
    and l: "find_locked_record E (pi_id r) (pi_merchant r) w1 = (Inr updated, w')"
    unfolding repo_apply_refund_def p by (auto simp: comp_simps update_payments_Inr split: if_splits)
  have ids: "?T x \<Longrightarrow> pi_id x = pi_id r" for x by (simp add: refund_target_def p)
  note L = locked_update[OF assms(2,3) c ids]
  have w1': "w1 = (bump w)\<lparr>payment_intents := update_where (\<lambda>x. pi_id x = pi_id r) ?f (payment_intents w)\<rparr>"
    unfolding w1 by (simp only: L(3)[of ?f])
  have "List.find (\<lambda>x. pi_id x = pi_id r \<and> pi_merchant x = pi_merchant r)
      (update_where (\<lambda>x. pi_id x = pi_id r) ?f (payment_intents w)) = Some (?f r)"
    by (rule find_updated[OF assms(2,3)]) (simp_all add: refunded_row_def)
  with find_locked_record_Inr[OF l] have "w' = bump w1" "to_record (?f r) = Inr updated"
    by (auto simp: w1')
  with L(1) g assms(3) show ?thesis by (simp add: w1' refund_target_def bump_def)
qed

section \<open>The effect of a command\<close>

definition ledger_view :: "'a ledger_world_scheme \<Rightarrow> ledger_account_row list \<times> ledger_tx_row list \<times> ledger_entry_row list" where
  "ledger_view w = (ledger_accounts w, ledger_transactions w, ledger_entries w)"

text \<open>A posting made somewhere between two worlds that differ from its own in other tables only.\<close>

definition ledger_posted :: "create_posting \<Rightarrow> 'a ledger_world_scheme \<Rightarrow> 'a ledger_world_scheme \<Rightarrow> bool" where
  "ledger_posted inp w w' \<longleftrightarrow>
     (\<exists>(w1 :: 'a ledger_world_scheme) (w2 :: 'a ledger_world_scheme). ledger_view w1 = ledger_view w \<and> posting_made inp w1 w2 \<and> ledger_view w' = ledger_view w2)"

definition outbox_grows :: "domain_event \<Rightarrow> 'a eventing_world_scheme \<Rightarrow> 'a eventing_world_scheme \<Rightarrow> bool" where
  "outbox_grows event w w' \<longleftrightarrow>
     (\<exists>i now. let r = outbox_row_of i now event in outbox_check r = None \<and>
        ob_id r \<notin> ob_id ` set (outbox_events w) \<and> ob_event_id r \<notin> ob_event_id ` set (outbox_events w) \<and>
        outbox_events w' = outbox_events w @ [r])"

definition rest_kept :: "'a payments_world_scheme \<Rightarrow> 'a payments_world_scheme \<Rightarrow> bool" where
  "rest_kept w w' \<longleftrightarrow> payments_world.more w' = payments_world.more w"

definition replace_payment :: "payment_row \<Rightarrow> payment_row \<Rightarrow> payment_row list \<Rightarrow> payment_row list" where
  "replace_payment p q = update_where (\<lambda>x. pi_id x = pi_id p) (\<lambda>_. q)"

definition update_accepted :: "payment_row \<Rightarrow> payment_row \<Rightarrow> bool" where
  "update_accepted p q \<longleftrightarrow> payment_update_guard p q = None \<and> payment_check q = None"

text \<open>A new payment and its event.\<close>

definition created_effect ::
  "payment_row \<Rightarrow> payment_created_event \<Rightarrow> 'a payments_world_scheme \<Rightarrow> 'a payments_world_scheme \<Rightarrow> bool" where
  "created_effect p ev w w' \<longleftrightarrow>
     payment_check p = None \<and> payment_unique (payment_intents w) p = None \<and> pi_status p = Db_created \<and>
     pe_payment ev = pi_public_id p \<and> de_merchant ev = pi_merchant p \<and> pce_amount ev = pi_amount p \<and>
     pe_currency ev = pi_currency p \<and>
     payment_intents w' = payment_intents w @ [p] \<and> refunds w' = refunds w \<and>
     ledger_view w' = ledger_view w \<and> outbox_grows (PaymentCreated ev) w w' \<and> rest_kept w w'"

text \<open>The capture of payment \<open>p\<close>, which becomes \<open>q\<close>, with its posting and its event.\<close>

definition captured_effect ::
  "payment_row \<Rightarrow> payment_row \<Rightarrow> create_posting \<Rightarrow> payment_captured_event \<Rightarrow>
   'a payments_world_scheme \<Rightarrow> 'a payments_world_scheme \<Rightarrow> bool" where
  "captured_effect p q inp ev w w' \<longleftrightarrow>
     p \<in> set (payment_intents w) \<and> pi_status p = Db_created \<and> update_accepted p q \<and>
     (\<exists>c. posting_of_money Capture c inp \<and> mc_amount c = pi_amount p \<and> mc_currency c = pi_currency p \<and>
        mc_merchant c = pi_merchant p \<and> mc_reference c = units (pi_public_id p)) \<and>
     pe_payment ev = pi_public_id p \<and> de_merchant ev = pi_merchant p \<and> pcap_amount ev = pi_captured q \<and>
     pe_currency ev = pi_currency p \<and> pcap_ledger_tx ev = cp_public_id inp \<and>
     payment_intents w' = replace_payment p q (payment_intents w) \<and> refunds w' = refunds w \<and>
     ledger_posted inp w w' \<and> outbox_grows (PaymentCaptured ev) w w' \<and> rest_kept w w'"

text \<open>The refund \<open>f\<close> of payment \<open>p\<close>, which becomes \<open>q\<close>.\<close>

definition refunded_effect ::
  "payment_row \<Rightarrow> payment_row \<Rightarrow> refund_row \<Rightarrow> create_posting \<Rightarrow> payment_refunded_event \<Rightarrow>
   'a payments_world_scheme \<Rightarrow> 'a payments_world_scheme \<Rightarrow> bool" where
  "refunded_effect p q f inp ev w w' \<longleftrightarrow>
     p \<in> set (payment_intents w) \<and> update_accepted p q \<and> pi_status p \<noteq> Db_created \<and>
     pi_refunded q = pi_refunded p + rf_amount f \<and>
     rf_payment f = pi_id p \<and> rf_merchant f = pi_merchant p \<and> rf_currency f = pi_currency p \<and>
     refund_check f = None \<and> refund_unique (refunds w) f = None \<and>
     (\<exists>c. posting_of_money Refund c inp \<and> mc_amount c = rf_amount f \<and> mc_currency c = pi_currency p \<and>
        mc_merchant c = pi_merchant p \<and> mc_reference c = units (rf_public_id f)) \<and>
     pe_payment ev = pi_public_id p \<and> de_merchant ev = pi_merchant p \<and> prf_amount ev = rf_amount f \<and>
     prf_cumulative ev = pi_refunded q \<and> prf_refund ev = rf_public_id f \<and>
     pe_currency ev = pi_currency p \<and> prf_ledger_tx ev = cp_public_id inp \<and>
     payment_intents w' = replace_payment p q (payment_intents w) \<and> refunds w' = refunds w @ [f] \<and>
     ledger_posted inp w w' \<and> outbox_grows (PaymentRefunded ev) w w' \<and> rest_kept w w'"

lemma ledger_view_payments [simp]:
  "ledger_view (bump w) = ledger_view w"
  "ledger_view ((v :: 'a payments_world_scheme)\<lparr>payment_intents := ps\<rparr>) = ledger_view v"
  "ledger_view (v\<lparr>refunds := rs\<rparr>) = ledger_view v"
  "ledger_view (v\<lparr>outbox_events := os\<rparr>) = ledger_view v"
  "ledger_view (v\<lparr>idempotency_keys := ks\<rparr>) = ledger_view v"
  by (simp_all add: ledger_view_def)

lemma outbox_grows_insert:
  fixes w v :: "'a payments_world_scheme"
  assumes "insert_domain_event E event v = (Inr u, v')" and "outbox_events v = outbox_events w"
  shows "outbox_grows event w v'"
  using insert_domain_event_Inr[OF assms(1)] assms(2) unfolding outbox_grows_def Let_def
  by (elim exE) (intro exI, auto)

lemma replace_payment_update:
  assumes "distinct (map pi_id rows)" and "p \<in> set rows"
  shows "update_where (\<lambda>x. pi_id x = pi_id p) f rows = replace_payment p (f p) rows"
  unfolding replace_payment_def update_where_def
  using distinct_key_eq[OF assms(1) _ assms(2)] by (auto intro!: map_cong)

lemma create_operation_Inr:
  fixes w :: "'a payments_world_scheme"
  assumes "create_operation E command pid ev w = (Inr (response, value), w')"
    and "de_merchant ev = pc_merchant command" and "pe_payment ev = pid"
    and "pce_amount ev = vf_amount command" and "pe_currency ev = vf_currency command"
  shows "\<exists>p rec. created_effect p ev w w' \<and> idempotency_keys w' = idempotency_keys w \<and> to_record p = Inr rec \<and> pi_public_id p = pid \<and>
     pi_merchant p = pc_merchant command \<and> pi_ref p = vf_ref command \<and>
     value = JObj (to_representation rec) \<and> response = created_response value pid 201"
proof -
  let ?inp = "\<lparr>cpr_amount = vf_amount command, cpr_currency = vf_currency command, cpr_ref = vf_ref command,
        cpr_merchant = pc_merchant command, cpr_public_id = pid\<rparr>"
  from assms(1) obtain rec w1 u where c: "repo_create_payment E ?inp w = (Inr rec, w1)"
    and e: "insert_domain_event E (PaymentCreated ev) w1 = (Inr u, w')"
    and r: "value = JObj (to_representation rec)" "response = created_response value (pr_public_id rec) 201"
    unfolding create_operation_def persist_payment_event_def by (auto simp: comp_simps)
  from repo_create_payment_Inr[OF c] obtain i now where
    p: "payment_check (payment_row_of i now ?inp) = None"
    "payment_unique (payment_intents w) (payment_row_of i now ?inp) = None"
    "to_record (payment_row_of i now ?inp) = Inr rec"
    and w1: "w1 = (bump (bump (bump w)))\<lparr>payment_intents := payment_intents w @ [payment_row_of i now ?inp]\<rparr>"
    unfolding Let_def by blast
  let ?p = "payment_row_of i now ?inp"
  have g: "outbox_grows (PaymentCreated ev) w w'"
    by (rule outbox_grows_insert[OF e]) (simp add: w1)
  have "created_effect ?p ev w w'"
    unfolding created_effect_def
    using p assms(2-5) g insert_domain_event_Inr[OF e]
    by (auto simp: Let_def w1 payment_row_of_def rest_kept_def)
  moreover have "idempotency_keys w' = idempotency_keys w"
    using insert_domain_event_Inr[OF e] by (auto simp: Let_def w1)
  moreover have "pr_public_id rec = pid" using to_record_fields(8)[OF p(3)] by (simp add: payment_row_of_def)
  ultimately show ?thesis using p(3) r by (intro exI[of _ ?p] exI[of _ rec]) (simp add: payment_row_of_def)
qed

lemma error_result_Inr:
  "error_result e rid w = (Inr (response, value), w') \<longleftrightarrow>
     command_problem e rid = Inr response \<and> value = Failed e \<and> w' = w"
  by (auto simp: error_result_def comp_simps)

lemma posting_made_payments:
  fixes v v' :: "'a payments_world_scheme"
  assumes "posting_made inp v v'"
  shows "outbox_events v' = outbox_events v \<and> idempotency_keys v' = idempotency_keys v \<and>
     payment_intents v' = payment_intents v \<and> refunds v' = refunds v \<and>
     payments_world.more v' = payments_world.more v"
  by (rule ledger_more_payments) (use assms in \<open>simp add: posting_made_def posting_step_def\<close>)

lemma ledger_postedI:
  fixes w v v' w' :: "'a payments_world_scheme"
  assumes "posting_made inp v v'" and "ledger_view v = ledger_view w" and "ledger_view w' = ledger_view v'"
  shows "ledger_posted inp w w'"
  using assms unfolding ledger_posted_def by blast

text \<open>
  A capture either stores the problem of its validation error and changes nothing, or has the whole
  effect of a capture.
\<close>

lemma capture_operation_Inr:
  fixes w :: "'a payments_world_scheme"
  assumes "capture_operation E command w = (Inr (response, value), w')"
    and ids: "distinct (map pi_id (payment_intents w))"
  shows "(\<exists>e found. value = Failed e \<and> capture_error found command = Some e \<and>
        command_problem e (cc_request command) = Inr response \<and> same_db w w') \<or>
     (\<exists>p q inp ev updated. captured_effect p q inp ev w w' \<and> idempotency_keys w' = idempotency_keys w \<and> pi_merchant p = cc_merchant command \<and>
        pi_public_id p = cc_payment command \<and> pi_amount p = vf_amount command \<and>
        pi_currency p = vf_currency command \<and> to_record q = Inr updated \<and>
        value = Done (captured_representation updated (cp_public_id inp), cp_public_id inp) \<and>
        response = created_response (captured_representation updated (cp_public_id inp)) (cc_payment command) 200)"
proof -
  obtain locked w1 where l: "repo_lock_by_public_id E (cc_merchant command) (cc_payment command) w = (Inr locked, w1)"
    using assms(1) unfolding capture_operation_def by (auto simp: comp_simps)
  note L = repo_lock_Inr[OF l ids]
  have d: "same_db w w1" using L by blast
  note D = same_db_payments[OF d]
  show ?thesis
  proof (cases "capture_error (map_option fst locked) command")
    case (Some e)
    with assms(1) l have "error_result e (cc_request command) w1 = (Inr (response, value), w')"
      unfolding capture_operation_def by (simp add: comp_simps)
    then show ?thesis using Some d by (auto simp: error_result_Inr)
  next
    case None
    then obtain payment t where k: "locked = Some (payment, t)" by (cases locked) auto
    with L obtain p where p: "p \<in> set (payment_intents w)" "pi_merchant p = cc_merchant command"
      "pi_public_id p = cc_payment command" "to_record p = Inr payment" "pi_updated p \<le> t" by auto
    note F = to_record_fields[OF p(4)]
    from None k F have v: "pi_currency p = vf_currency command" "pr_status payment = Created"
      "pi_amount p = vf_amount command" by (auto split: if_splits)
    let ?c = "\<lparr>mc_reference = units (pr_public_id payment), mc_merchant = cc_merchant command,
            mc_occurred = Some t, mc_request = cc_request command,
            mc_amount = vf_amount command, mc_currency = pr_currency payment\<rparr>"
    from assms(1) l None k obtain ledger w2 updated w3 ev w4 u where
      g: "ledger_post E ?c Capture w1 = (Inr ledger, w2)" and
      c: "repo_capture E payment t w2 = (Inr updated, w3)" and
      e: "create_payment_captured_event E
           \<lparr>pai_available_on = t, pai_amount = pr_captured updated,
            pai_currency = pr_currency updated, pai_ledger_tx = lp_public_id ledger,
            pai_merchant = cc_merchant command, pai_payment = pr_public_id updated,
            pai_request = cc_request command\<rparr> t w3 = (Inr ev, w4)" and
      i: "insert_domain_event E (PaymentCaptured ev) w4 = (Inr u, w')" and
      r: "response = created_response (captured_representation updated (lp_public_id ledger)) (pr_public_id updated) 200"
        "value = Done (captured_representation updated (lp_public_id ledger), lp_public_id ledger)"
      unfolding capture_operation_def post_capture_def persist_payment_event_def Let_def
      by (clarsimp simp: comp_simps)
    from ledger_post_Inr[OF g] obtain inp where inp: "posting_of_money Capture ?c inp" "posting_made inp w1 w2"
      "lp_public_id ledger = cp_public_id inp" by blast
    note M = posting_made_payments[OF inp(2)]
    have p2: "p \<in> set (payment_intents w2)" "distinct (map pi_id (payment_intents w2))"
      using p(1) ids M D by simp_all
    note C = repo_capture_Inr[OF c p2(2,1) p(4)]
    let ?q = "captured_row payment t p"
    have w3: "w3 = (bump (bump w2))\<lparr>payment_intents := replace_payment p ?q (payment_intents w2)\<rparr>"
      using C by (simp add: replace_payment_update[OF p2(2,1)])
    have w4: "w4 = bump w3" and ev: "pe_payment ev = pr_public_id updated" "de_merchant ev = cc_merchant command"
      "pcap_amount ev = pr_captured updated" "pe_currency ev = pr_currency updated"
      "pcap_ledger_tx ev = lp_public_id ledger"
      using e by (auto simp: create_payment_captured_event_def event_id_def comp_simps)
    have o: "outbox_grows (PaymentCaptured ev) w w'"
      by (rule outbox_grows_insert[OF i]) (simp add: w4 w3 M D)
    have qid: "pi_public_id ?q = pi_public_id p" "pi_currency ?q = pi_currency p" "pi_captured ?q = pi_amount p"
      using F by (simp_all add: captured_row_def)
    have q: "to_record ?q = Inr updated" and cs: "pi_status p = Db_created"
      "payment_update_guard p ?q = None" "payment_check ?q = None" using C by blast+
    note Q = to_record_fields[OF q]
    have w': "payment_intents w' = payment_intents w4" "refunds w' = refunds w4" "ledger_view w' = ledger_view w4"
      "rest_kept w4 w'" "idempotency_keys w' = idempotency_keys w4"
      using insert_domain_event_Inr[OF i] by (auto simp: Let_def rest_kept_def)
    have "ledger_posted inp w w'"
      by (rule ledger_postedI[OF inp(2)]) (use D w' in \<open>simp_all add: ledger_view_def w4 w3\<close>)
    moreover have "\<exists>c. posting_of_money Capture c inp \<and> mc_amount c = pi_amount p \<and> mc_currency c = pi_currency p \<and>
        mc_merchant c = pi_merchant p \<and> mc_reference c = units (pi_public_id p)"
      by (intro exI[of _ ?c] conjI inp(1)) (use v p F in simp_all)
    ultimately have "captured_effect p ?q inp ev w w'"
      unfolding captured_effect_def update_accepted_def
      using cs p o ev Q qid w' M D inp(3) by (simp add: w4 w3 rest_kept_def)
    moreover have "idempotency_keys w' = idempotency_keys w" using w' M D by (simp add: w4 w3)
    ultimately show ?thesis using p v q r inp(3) Q(8) qid(1) by auto
  qed
qed

lemma refund_operation_Inr:
  fixes w :: "'a payments_world_scheme"
  assumes "refund_operation E command refundId w = (Inr (response, value), w')"
    and ids: "distinct (map pi_id (payment_intents w))"
  shows "(\<exists>e found. value = Failed e \<and> refund_error found command = Some e \<and>
        command_problem e (rp_request command) = Inr response \<and> same_db w w') \<or>
     (\<exists>p q f inp ev refund updated. refunded_effect p q f inp ev w w' \<and> idempotency_keys w' = idempotency_keys w \<and> pi_merchant p = rp_merchant command \<and>
        pi_public_id p = rp_payment command \<and> rf_amount f = vf_amount command \<and> rf_ref f = vf_ref command \<and>
        rf_public_id f = refundId \<and> pi_currency p = vf_currency command \<and>
        vf_amount command \<le> pi_captured p - pi_refunded p \<and> to_record q = Inr updated \<and>
        refund_record_of f = Inr refund \<and>
        value = Done (refund_representation refund updated (cp_public_id inp), refundId, cp_public_id inp) \<and>
        response = created_response (refund_representation refund updated (cp_public_id inp)) refundId 201)"
proof -
  obtain locked w1 where l: "repo_lock_by_public_id E (rp_merchant command) (rp_payment command) w = (Inr locked, w1)"
    using assms(1) unfolding refund_operation_def by (auto simp: comp_simps)
  note L = repo_lock_Inr[OF l ids]
  have d: "same_db w w1" using L by blast
  note D = same_db_payments[OF d]
  show ?thesis
  proof (cases "refund_error (map_option fst locked) command")
    case (Some e)
    with assms(1) l have "error_result e (rp_request command) w1 = (Inr (response, value), w')"
      unfolding refund_operation_def by (simp add: comp_simps)
    then show ?thesis using Some d by (auto simp: error_result_Inr)
  next
    case None
    then obtain payment t where k: "locked = Some (payment, t)" by (cases locked) auto
    with L obtain p where p: "p \<in> set (payment_intents w)" "pi_merchant p = rp_merchant command"
      "pi_public_id p = rp_payment command" "to_record p = Inr payment" "pi_updated p \<le> t" by auto
    note F = to_record_fields[OF p(4)]
    from None k F have v: "pi_currency p = vf_currency command"
      "pr_status payment = Captured \<or> pr_status payment = Partially_refunded"
      "vf_amount command \<le> pi_captured p - pi_refunded p" by (auto split: if_splits)
    have st: "pi_status p \<noteq> Db_created" using F(12) v(2) by auto
    let ?c = "\<lambda>refund. \<lparr>mc_reference = units (rr_public_id refund), mc_merchant = rp_merchant command,
            mc_occurred = Some t, mc_request = rp_request command,
            mc_amount = vf_amount command, mc_currency = pr_currency payment\<rparr>"
    let ?i = "\<lparr>crr_amount = vf_amount command, crr_created = t, crr_currency = pr_currency payment,
            crr_ref = vf_ref command, crr_id = env_uuid E (tick w1), crr_merchant = rp_merchant command,
            crr_payment = pr_id payment, crr_public_id = refundId\<rparr>"
    let ?f = "refund_row_of ?i"
    from assms(1) l None k obtain refund w1' ledger w2 updated w3 ev w4 u where
      rf: "repo_create_refund E ?i (bump w1) = (Inr refund, w1')" and
      g: "ledger_post E (?c refund) Refund w1' = (Inr ledger, w2)" and
      c: "repo_apply_refund E payment (vf_amount command) t w2 = (Inr updated, w3)" and
      e: "create_payment_refunded_event E
           \<lparr>pri_amount = vf_amount command, pri_cumulative = pr_refunded updated,
            pri_currency = pr_currency updated, pri_ledger_tx = lp_public_id ledger,
            pri_merchant = rp_merchant command, pri_payment = pr_public_id updated,
            pri_refund = rr_public_id refund, pri_request = rp_request command\<rparr> t w3 = (Inr ev, w4)" and
      i: "insert_domain_event E (PaymentRefunded ev) w4 = (Inr u, w')" and
      r: "response = created_response (refund_representation refund updated (lp_public_id ledger)) (rr_public_id refund) 201"
        "value = Done (refund_representation refund updated (lp_public_id ledger), rr_public_id refund, lp_public_id ledger)"
      unfolding refund_operation_def post_refund_def persist_payment_event_def Let_def
      by (clarsimp simp: comp_simps)
    note R = repo_create_refund_Inr[OF rf, unfolded Let_def]
    have rid: "rr_public_id refund = refundId" using R by simp
    have frec: "refund_record_of ?f = Inr refund"
      using rf unfolding repo_create_refund_def
      by (auto simp: comp_simps insert_refund_Inr)
    have fields: "rf_amount ?f = vf_amount command" "rf_payment ?f = pi_id p" "rf_merchant ?f = pi_merchant p"
      "rf_currency ?f = pi_currency p" "rf_public_id ?f = refundId" "rf_ref ?f = vf_ref command"
      using p F by (simp_all add: refund_row_of_def)
    have w1': "w1' = (bump (bump w1))\<lparr>refunds := refunds w1 @ [?f]\<rparr>" using R by simp
    from ledger_post_Inr[OF g] obtain inp where inp: "posting_of_money Refund (?c refund) inp" "posting_made inp w1' w2"
      "lp_public_id ledger = cp_public_id inp" by blast
    note M = posting_made_payments[OF inp(2)]
    have p2: "p \<in> set (payment_intents w2)" "distinct (map pi_id (payment_intents w2))"
      using p(1) ids M D by (simp_all add: w1')
    note C = repo_apply_refund_Inr[OF c p2(2,1) p(4)]
    let ?q = "refunded_row payment (vf_amount command) t p"
    have w3: "w3 = (bump (bump w2))\<lparr>payment_intents := replace_payment p ?q (payment_intents w2)\<rparr>"
      using C by (simp add: replace_payment_update[OF p2(2,1)])
    have w4: "w4 = bump w3" and ev: "pe_payment ev = pr_public_id updated" "de_merchant ev = rp_merchant command"
      "prf_amount ev = vf_amount command" "prf_cumulative ev = pr_refunded updated" "prf_refund ev = refundId"
      "pe_currency ev = pr_currency updated" "prf_ledger_tx ev = lp_public_id ledger"
      using e rid by (auto simp: create_payment_refunded_event_def event_id_def comp_simps)
    have o: "outbox_grows (PaymentRefunded ev) w w'"
      by (rule outbox_grows_insert[OF i]) (simp add: w4 w3 M w1' D)
    have qid: "pi_public_id ?q = pi_public_id p" "pi_currency ?q = pi_currency p"
      "pi_refunded ?q = pi_refunded p + vf_amount command"
      by (simp_all add: refunded_row_def)
    have q: "to_record ?q = Inr updated" and cs: "payment_update_guard p ?q = None" "payment_check ?q = None"
      using C by blast+
    note Q = to_record_fields[OF q]
    have w': "payment_intents w' = payment_intents w4" "refunds w' = refunds w4" "ledger_view w' = ledger_view w4"
      "rest_kept w4 w'" "idempotency_keys w' = idempotency_keys w4"
      using insert_domain_event_Inr[OF i] by (auto simp: Let_def rest_kept_def)
    have "ledger_posted inp w w'"
      by (rule ledger_postedI[OF inp(2)]) (use D w' in \<open>simp_all add: ledger_view_def w4 w3 w1'\<close>)
    moreover have "\<exists>c. posting_of_money Refund c inp \<and> mc_amount c = rf_amount ?f \<and> mc_currency c = pi_currency p \<and>
        mc_merchant c = pi_merchant p \<and> mc_reference c = units (rf_public_id ?f)"
      by (intro exI[of _ "?c refund"] conjI inp(1)) (use p F fields rid in simp_all)
    moreover have "refund_check ?f = None" "refund_unique (refunds w) ?f = None" using R D by simp_all
    ultimately have "refunded_effect p ?q ?f inp ev w w'"
      unfolding refunded_effect_def update_accepted_def
      using cs p o ev Q qid w' M D inp(3) fields st by (simp add: w4 w3 w1' rest_kept_def)
    moreover have "idempotency_keys w' = idempotency_keys w" using w' M D by (simp add: w4 w3 w1')
    ultimately show ?thesis
      by (intro disjI2 exI conjI) (use p v r inp(3) fields q frec rid in \<open>simp_all\<close>)
  qed
qed

end
