(* ===== verification/Idempotency_Laws.thy ===== *)
theory Idempotency_Laws imports Idempotency begin

text \<open>
  What acquiring and completing a key do to the database, whatever fails on the way: a key is added or
  taken over; or the effect of one run of the operation and the response are stored together, once.
\<close>

section \<open>Computations that stay within a relation\<close>

definition within :: "('s \<Rightarrow> 's \<Rightarrow> bool) \<Rightarrow> ('s, 'e, 'a) comp \<Rightarrow> bool" where
  "within R m \<longleftrightarrow> (\<forall>w r w'. m w = (r, w') \<longrightarrow> R w w')"

lemma withinD: "within R m \<Longrightarrow> m w = (r, w') \<Longrightarrow> R w w'"
  by (simp add: within_def)

text \<open>
  A relation between database states that a computation can be followed along: quiet moves are in it
  and it composes. Every service call is then within it when its statements and transactions are.
\<close>

locale effect_order =
  fixes R :: "'a world_scheme \<Rightarrow> 'a world_scheme \<Rightarrow> bool"
  assumes same_R: "same_db w w' \<Longrightarrow> R w w'"
    and trans_R: "R w w' \<Longrightarrow> R w' w'' \<Longrightarrow> R w w''"
begin

lemma within_quiet: "(\<And>w r w'. m w = (r, w') \<Longrightarrow> same_db w w') \<Longrightarrow> within R m"
  using same_R by (auto simp: within_def)

lemma within_ok: "within R (ok x)" and within_throw: "within R (throw e)"
  and within_gets: "within R (gets f)" and within_from_sum: "within R (from_sum s)"
  and within_require: "within R (require b e)"
  by (auto intro!: within_quiet simp: comp_simps)

lemma within_observe: "within R (observe ob)" and within_clock: "within R (read_clock E)"
  and within_uuid: "within R (new_uuid E)" and within_ulid: "within R (new_ulid E t)"
  by (auto intro!: within_quiet simp: comp_simps)

lemma within_rethrow: "within R (rethrow_database_error E e)"
  by (rule within_quiet) (rule rethrow_same_db)

lemma within_bindc:
  assumes "within R m" and "\<And>x. within R (f x)"
  shows "within R (bindc m f)"
proof (unfold within_def, intro allI impI)
  fix w r w' assume b: "bindc m f w = (r, w')"
  obtain r1 w1 where m: "m w = (r1, w1)" by fastforce
  with assms(1) have "R w w1" by (rule withinD)
  moreover have "R w1 w'"
  proof (cases r1)
    case (Inl e)
    with b m show ?thesis by (simp add: bindc_def same_R)
  next
    case (Inr x)
    with b m have "f x w1 = (r, w')" by (simp add: bindc_def)
    with assms(2) show ?thesis by (rule withinD)
  qed
  ultimately show "R w w'" by (rule trans_R)
qed

lemma within_catch:
  assumes "within R m" and "\<And>e. within R (h e)"
  shows "within R (catch m h)"
proof (unfold within_def, intro allI impI)
  fix w r w' assume b: "catch m h w = (r, w')"
  obtain r1 w1 where m: "m w = (r1, w1)" by fastforce
  with assms(1) have "R w w1" by (rule withinD)
  moreover have "R w1 w'"
  proof (cases r1)
    case (Inr x)
    with b m show ?thesis by (simp add: catch_def same_R)
  next
    case (Inl e)
    with b m have "h e w1 = (r, w')" by (simp add: catch_def)
    with assms(2) show ?thesis by (rule withinD)
  qed
  ultimately show "R w w'" by (rule trans_R)
qed

lemma within_if: "within R m \<Longrightarrow> within R m' \<Longrightarrow> within R (if b then m else m')"
  by simp

lemma within_transaction:
  assumes "\<And>w x w'. m w = (Inr x, w') \<Longrightarrow> R w w'"
  shows "within R (transaction E D m)"
proof (unfold within_def, intro allI impI)
  fix w r w' assume t: "transaction E D m w = (r, w')"
  from transaction_atomic[OF t] consider "same_db w w'" | x v where "m (begin_txn E w) = (Inr x, v)" "w' = bump v"
    by blast
  then show "R w w'"
  proof cases
    case 1
    then show ?thesis by (rule same_R)
  next
    case (2 x v)
    have "R w v" using trans_R[OF same_R[OF same_db_begin] assms[OF 2(1)]] .
    then show ?thesis unfolding 2(2) using trans_R same_R same_db_bump(1) by blast
  qed
qed

lemmas within_basic = within_ok within_throw within_gets within_from_sum within_require
  within_observe within_clock within_uuid within_ulid within_rethrow within_bindc within_catch within_if

end

lemma transaction_unacked:
  assumes "transaction E D m w = (r, w2)"
  shows "(same_db w w2 \<and> (\<exists>e. r = Inl e)) \<or>
         (\<exists>x w'. m (begin_txn E w) = (Inr x, w') \<and> w2 = bump w' \<and>
            (r = Inr x \<or> (\<exists>f n. r = Inl (DbE f) \<and> env_commit E n = CommittedUnacked f)))"
  using assms
  by (auto simp: transaction_def split: option.splits prod.splits sum.splits commit_outcome.splits)

section \<open>Acquiring a key\<close>

lemma idempotency_world_bump [simp]:
  "idempotency_keys (bump (w :: 'a idempotency_world_scheme)) = idempotency_keys w"
  "idempotency_world.more (bump (w :: 'a idempotency_world_scheme)) = idempotency_world.more w"
  by (simp_all add: bump_def)

lemma more_keys_update [simp]:
  "world.more ((w :: 'a idempotency_world_scheme)\<lparr>tick := n, idempotency_keys := ks\<rparr>) =
     world.more (w\<lparr>idempotency_keys := ks\<rparr>)"
  by (cases w) simp

lemma same_db_keys:
  "same_db w w' \<Longrightarrow> idempotency_keys w' = idempotency_keys w"
  by (cases w; cases w') (auto simp: same_db_iff)

lemma set_timeouts_eq [comp_simps]:
  "set_transaction_timeouts E w = (r, w') \<longleftrightarrow>
     (case env_fault E (tick w) of None \<Rightarrow> r = Inr () | Some f \<Rightarrow> r = Inl (DbE f)) \<and> w' = bump w"
  by (auto simp: set_transaction_timeouts_def stmt_def ok_def split: option.splits)

text \<open>A new key, or an expired lease taken over.\<close>

definition key_acquired :: "idempotency_row list \<Rightarrow> idempotency_row list \<Rightarrow> bool" where
  "key_acquired ks ks' \<longleftrightarrow>
     (\<exists>r. idempotency_check r = None \<and> ik_state r = In_progress \<and>
        idempotency_key r \<notin> idempotency_key ` set ks \<and> ik_id r \<notin> ik_id ` set ks \<and> ks' = ks @ [r]) \<or>
     (\<exists>now i token lease. ks' = update_where (lease_expired now i)
        (\<lambda>k. k\<lparr>ik_owner := Some token, ik_lease := Some lease\<rparr>) ks) \<or> ks' = ks"

lemma key_acquired_takeover [simp]:
  "key_acquired ks (update_where (lease_expired now i) (\<lambda>k. k\<lparr>ik_owner := Some token, ik_lease := Some lease\<rparr>) ks)"
  unfolding key_acquired_def by blast

lemma key_acquired_refl [simp]: "key_acquired ks ks"
  by (simp add: key_acquired_def)

lemma insert_or_find_key_Inr:
  "insert_or_find_key r w = (Inr row, w') \<Longrightarrow>
     (row \<in> set (idempotency_keys w) \<and> idempotency_key row = idempotency_key r \<and> w' = w) \<or>
     (row = r \<and> idempotency_check r = None \<and> idempotency_key r \<notin> idempotency_key ` set (idempotency_keys w) \<and>
      ik_id r \<notin> ik_id ` set (idempotency_keys w) \<and>
      w' = w\<lparr>idempotency_keys := idempotency_keys w @ [r]\<rparr>)"
  by (auto simp: insert_or_find_key_def raise_constraint_def throw_def find_None_iff
      split: option.splits if_splits dest: find_Some_in)

lemma take_over_key_eq [comp_simps]:
  "take_over_key i token lease now w = (r, w') \<longleftrightarrow>
     r = Inr (count_where (lease_expired now i) (idempotency_keys w)) \<and>
     w' = w\<lparr>idempotency_keys := update_where (lease_expired now i)
          (\<lambda>k. k\<lparr>ik_owner := Some token, ik_lease := Some lease\<rparr>) (idempotency_keys w)\<rparr>"
  by (auto simp: take_over_key_def)

text \<open>The ways to a result, with what each does to the table.\<close>

definition acquire_outcome ::
  "int \<Rightarrow> hashed_command \<Rightarrow> idempotency_row \<Rightarrow> 'a idempotency_world_scheme \<Rightarrow> acquire_result \<Rightarrow>
   'a idempotency_world_scheme \<Rightarrow> bool" where
  "acquire_outcome lease c row w res w' \<longleftrightarrow> ik_request_hash row = hc_request_hash c \<and>
     (case res of
        Replay response \<Rightarrow> ik_state row = Completed \<and> to_stored_response row = Some response \<and>
          (\<exists>expires. ik_expires row = Some expires \<and> hc_now c < expires) \<and> w' = w
      | Acquired own \<Rightarrow> ik_state row = In_progress \<and> own = \<lparr>ow_token = hc_owner c, ow_record = ik_id row\<rparr> \<and>
          (ik_owner row = Some (hc_owner c) \<and> w' = w \<or>
           (case ik_lease row of Some l \<Rightarrow> l \<le> hc_now c | None \<Rightarrow> True) \<and>
           count_where (lease_expired (hc_now c) (ik_id row)) (idempotency_keys w) \<noteq> 0 \<and>
           w' = (bump w)\<lparr>idempotency_keys := update_where (lease_expired (hc_now c) (ik_id row))
             (\<lambda>k. k\<lparr>ik_owner := Some (hc_owner c), ik_lease := Some lease\<rparr>) (idempotency_keys w)\<rparr>))"

lemma acquire_decision_Inr:
  fixes w :: "'a idempotency_world_scheme"
  assumes "acquire_decision E lease c row w = (Inr res, w')"
  shows "acquire_outcome lease c row w res w'"
proof -
  have eq: "equal_digest a b \<longleftrightarrow> a = b" for a b by (auto simp: equal_digest_def)
  have h: "ik_request_hash row = hc_request_hash c"
    using assms by (auto simp: acquire_decision_def eq Let_def throw_def split: if_splits)
  note d = assms[unfolded acquire_decision_def Let_def eq h]
  show ?thesis
  proof (cases "ik_state row")
    case In_progress
    then show ?thesis using d h by (auto simp: acquire_outcome_def comp_simps split: if_splits option.splits)
  next
    case Completed
    then show ?thesis using d h by (auto simp: acquire_outcome_def comp_simps split: if_splits option.splits)
  qed
qed

lemma acquire_body_Inr:
  fixes w :: "'a idempotency_world_scheme"
  assumes "acquire_body E opt c w = (Inr res, w')"
  shows "\<exists>row w1. insert_or_find_key (new_key_row c (hc_now c + io_lease_ms opt)) (bump (bump w)) = (Inr row, w1) \<and>
     acquire_outcome (hc_now c + io_lease_ms opt) c row w1 res w'"
  using assms unfolding acquire_body_def Let_def
  by (auto simp: bindc_Inr set_timeouts_eq stmt_Inr dest!: acquire_decision_Inr)

lemma acquire_body_keys:
  fixes w :: "'a idempotency_world_scheme"
  assumes "acquire_body E opt c w = (Inr res, w')"
  shows "\<exists>ks ks'. key_acquired (idempotency_keys w) ks \<and> key_acquired ks ks' \<and> ks' = idempotency_keys w' \<and>
     same_db (w\<lparr>idempotency_keys := ks'\<rparr>) w'"
proof -
  from acquire_body_Inr[OF assms] obtain row w1 where
    i: "insert_or_find_key (new_key_row c (hc_now c + io_lease_ms opt)) (bump (bump w)) = (Inr row, w1)"
    and o: "acquire_outcome (hc_now c + io_lease_ms opt) c row w1 res w'" by blast
  have 1: "key_acquired (idempotency_keys w) (idempotency_keys w1) \<and>
      same_db (w\<lparr>idempotency_keys := idempotency_keys w1\<rparr>) w1"
    using insert_or_find_key_Inr[OF i]
    by (auto simp: key_acquired_def new_key_row_def same_db_iff bump_def)
  have 2: "key_acquired (idempotency_keys w1) (idempotency_keys w') \<and>
      same_db (w1\<lparr>idempotency_keys := idempotency_keys w'\<rparr>) w'"
    using o by (auto simp: acquire_outcome_def same_db_iff bump_def split: acquire_result.splits)
  have "same_db (w\<lparr>idempotency_keys := idempotency_keys w'\<rparr>) (w1\<lparr>idempotency_keys := idempotency_keys w'\<rparr>)"
    using 1 by (cases w; cases w1) (auto simp: same_db_iff)
  with 1 2 show ?thesis by (blast intro: same_db_trans)
qed

section \<open>Completing a key\<close>

definition key_completed ::
  "ownership \<Rightarrow> stored_response \<Rightarrow> int \<Rightarrow> int \<Rightarrow> idempotency_row list \<Rightarrow> idempotency_row list \<Rightarrow> bool" where
  "key_completed own response t expires ks ks' \<longleftrightarrow> count_where (owned own) ks = 1 \<and>
     (\<forall>k \<in> set ks. owned own k \<longrightarrow> idempotency_check (completed_row response t expires k) = None) \<and>
     ks' = update_where (owned own) (completed_row response t expires) ks"

lemma store_response_Inr:
  "store_response own response t expires w = (Inr n, w') \<longleftrightarrow>
     (\<forall>k \<in> set (idempotency_keys w). owned own k \<longrightarrow> idempotency_check (completed_row response t expires k) = None) \<and>
     n = count_where (owned own) (idempotency_keys w) \<and>
     w' = w\<lparr>idempotency_keys := update_where (owned own) (completed_row response t expires) (idempotency_keys w)\<rparr>"
proof -
  have "first_violation (\<lambda>k. idempotency_check (completed_row response t expires k))
      (filter (owned own) (idempotency_keys w)) = None \<longleftrightarrow>
      (\<forall>k \<in> set (idempotency_keys w). owned own k \<longrightarrow> idempotency_check (completed_row response t expires k) = None)"
    by (auto simp: first_violation_None)
  then show ?thesis
    by (auto simp: store_response_def raise_constraint_def throw_def split: option.splits)
qed

lemma complete_body_Inr:
  fixes w :: "'a idempotency_world_scheme"
  assumes "complete_body E opt own op w = (Inr v, w')"
  shows "\<exists>w1 response w2 t. same_db w w1 \<and> op w1 = (Inr (response, v), w2) \<and>
     (\<exists>k \<in> set (idempotency_keys w). owned own k) \<and>
     key_completed own response t (t + io_replay_ms opt) (idempotency_keys w2) (idempotency_keys w') \<and>
     same_db (w2\<lparr>idempotency_keys := idempotency_keys w'\<rparr>) w'"
proof -
  from assms obtain response w2 where
    f: "List.find (owned own) (idempotency_keys w) \<noteq> None"
    and o: "op (bump (bump w)) = (Inr (response, v), w2)"
    and s: "store_response own response (env_clock E (tick w2)) (env_clock E (tick w2) + io_replay_ms opt) (bump (bump w2)) = (Inr 1, w')"
    unfolding complete_body_def
    by (auto simp: bindc_Inr set_timeouts_eq stmt_Inr gets_eq throw_def read_clock_eq ok_eq split: if_splits)
  have w': "w' = (bump (bump w2))\<lparr>idempotency_keys := update_where (owned own)
      (completed_row response (env_clock E (tick w2)) (env_clock E (tick w2) + io_replay_ms opt)) (idempotency_keys w2)\<rparr>"
    using s by (simp add: store_response_Inr)
  have "key_completed own response (env_clock E (tick w2)) (env_clock E (tick w2) + io_replay_ms opt)
      (idempotency_keys w2) (idempotency_keys w')"
    using s by (auto simp: key_completed_def store_response_Inr)
  moreover have "same_db (w2\<lparr>idempotency_keys := idempotency_keys w'\<rparr>) w'"
    unfolding w' by (cases w2) (simp add: same_db_iff bump_def)
  moreover have "same_db w (bump (bump w))" by (simp add: same_db_iff)
  moreover have "\<exists>k \<in> set (idempotency_keys w). owned own k"
    using f by (auto simp: find_None_iff)
  ultimately show ?thesis using o by blast
qed

text \<open>A completed key is owned by nobody: what was stored once is never stored again.\<close>

lemma completed_not_owned:
  "key_completed own response t e ks ks' \<Longrightarrow> k \<in> set ks' \<Longrightarrow> \<not> owned own k"
  by (auto simp: key_completed_def update_where_def owned_def completed_row_def split: if_splits)

text \<open>Errors of the database and of lost ownership, as opposed to those the operation itself throws.\<close>

definition infra_error :: "error \<Rightarrow> bool" where
  "infra_error e \<longleftrightarrow> (\<exists>f. e = DbE f) \<or> e = DatabaseUnavailableError \<or> e = IdempotencyE IdempotencyOwnershipLostError"

lemma infra_error_simps [simp]: "infra_error (DbE f)" "infra_error DatabaseUnavailableError"
  "infra_error (IdempotencyE IdempotencyOwnershipLostError)" "\<not> infra_error (PaymentsE x)"
  "\<not> infra_error (EventingE y)" "\<not> infra_error (LedgerE z)" "\<not> infra_error (PlainE s)"
  by (simp_all add: infra_error_def)

lemma complete_handler:
  assumes "(if e = IdempotencyE IdempotencyOwnershipLostError then throw e else rethrow_database_error E e) w = (r, w')"
  shows "same_db w w' \<and> (r = Inl e \<or> r = Inl DatabaseUnavailableError)"
  using assms rethrow_same_db rethrow_cases by (fastforce simp: throw_def split: if_splits)

lemma complete_body_not_owned:
  fixes w :: "'a idempotency_world_scheme"
  assumes "\<forall>k \<in> set (idempotency_keys w). \<not> owned own k" and "complete_body E opt own op w = (r, w')"
  shows "\<exists>e. r = Inl e \<and> infra_error e"
proof -
  have "List.find (owned own) (idempotency_keys w) = None" using assms(1) by (simp add: find_None_iff)
  then show ?thesis
    using assms(2) unfolding complete_body_def
    by (auto simp: bindc_def set_transaction_timeouts_def stmt_def ok_def gets_def throw_def split: option.splits)
qed

lemma complete_not_owned:
  fixes w :: "'a idempotency_world_scheme"
  assumes "\<forall>k \<in> set (idempotency_keys w). \<not> owned own k"
    and "complete_attempts n E D opt own op w = (r, w')" and "0 < n"
  shows "same_db w w' \<and> (\<exists>e. r = Inl e \<and> infra_error e)"
  using assms
proof (induction n arbitrary: w)
  case 0
  then show ?case by simp
next
  case (Suc n)
  obtain r1 w1 where t: "transaction E D (complete_body E opt own op) w = (r1, w1)" by fastforce
  have k: "\<forall>k \<in> set (idempotency_keys (begin_txn E w)). \<not> owned own k"
    using Suc.prems(1) same_db_keys[OF same_db_begin[of w E]] by simp
  have n: "complete_body E opt own op (begin_txn E w) \<noteq> (Inr x, v)" for x v
    using complete_body_not_owned[OF k] by blast
  with transaction_atomic[OF t] obtain e where s: "same_db w w1" "r1 = Inl e" by blast
  have i: "infra_error e"
    using transaction_Inl_body[OF t[unfolded s(2)]] complete_body_not_owned[OF k] by fastforce
  have o: "\<forall>k \<in> set (idempotency_keys w1). \<not> owned own k" using Suc.prems(1) same_db_keys[OF s(1)] by simp
  show ?case
  proof (cases "is_transient_transaction_error e \<and> 0 < n")
    case True
    then have "complete_attempts n E D opt own op w1 = (r, w')" using Suc.prems(2) t s by (simp add: catch_def)
    then show ?thesis using Suc.IH[OF o] True s(1) same_db_trans by blast
  next
    case False
    then have "(if e = IdempotencyE IdempotencyOwnershipLostError then throw e else rethrow_database_error E e) w1 = (r, w')"
      using Suc.prems(2) t s by (auto simp: catch_def split: if_splits)
    from complete_handler[OF this] show ?thesis using s(1) i same_db_trans by fastforce
  qed
qed

text \<open>
  Completing has no effect, or the effect of exactly one run of the operation with its response; a
  result without an error is that run's. An error after a commit means its acknowledgement was lost,
  and is an error of the database.
\<close>

lemma complete_once:
  fixes w :: "'a idempotency_world_scheme"
  assumes "complete_attempts n E D opt own op w = (r, w')"
  shows "(same_db w w' \<and> (\<exists>e. r = Inl e)) \<or>
     (\<exists>w1 v w2. same_db w w1 \<and> complete_body E opt own op w1 = (Inr v, w2) \<and> same_db w2 w' \<and>
        (r = Inr v \<or> (\<exists>e. r = Inl e \<and> infra_error e \<and> (\<exists>m f. env_commit E m = CommittedUnacked f))))"
  using assms
proof (induction n arbitrary: w)
  case 0
  then show ?case by (auto simp: throw_def)
next
  case (Suc n)
  obtain r1 w1 where t: "transaction E D (complete_body E opt own op) w = (r1, w1)" by fastforce
  from transaction_unacked[OF t] consider
      e where "same_db w w1" "r1 = Inl e"
    | x v where "complete_body E opt own op (begin_txn E w) = (Inr x, v)" "w1 = bump v" "r1 = Inr x"
    | x v f m where "complete_body E opt own op (begin_txn E w) = (Inr x, v)" "w1 = bump v" "r1 = Inl (DbE f)"
        "env_commit E m = CommittedUnacked f"
    by blast
  then show ?case
  proof cases
    case (1 e)
    show ?thesis
    proof (cases "is_transient_transaction_error e \<and> 0 < n")
      case True
      then have "complete_attempts n E D opt own op w1 = (r, w')" using Suc.prems t 1 by (simp add: catch_def)
      from Suc.IH[OF this] show ?thesis using 1(1) same_db_trans by blast
    next
      case False
      then have "(if e = IdempotencyE IdempotencyOwnershipLostError then throw e else rethrow_database_error E e) w1 = (r, w')"
        using Suc.prems t 1 by (auto simp: catch_def split: if_splits)
      from complete_handler[OF this] show ?thesis using 1(1) same_db_trans by blast
    qed
  next
    case (2 x v)
    then have "r = Inr x" "w' = w1" using Suc.prems t by (simp_all add: catch_def)
    then show ?thesis using 2 same_db_begin same_db_bump(1) by blast
  next
    case (3 x v f m)
    from complete_body_Inr[OF 3(1)] obtain ks response t' where
      "key_completed own response t' (t' + io_replay_ms opt) ks (idempotency_keys v)" by blast
    then have o: "\<forall>k \<in> set (idempotency_keys w1). \<not> owned own k"
      using completed_not_owned unfolding 3(2) by (fastforce simp: bump_def)
    have "same_db w1 w' \<and> (\<exists>e. r = Inl e \<and> infra_error e)"
    proof (cases "is_transient_transaction_error (DbE f) \<and> 0 < n")
      case True
      then have "complete_attempts n E D opt own op w1 = (r, w')" using Suc.prems t 3 by (simp add: catch_def)
      then show ?thesis using complete_not_owned[OF o] True by blast
    next
      case False
      then have "rethrow_database_error E (DbE f) w1 = (r, w')"
        using Suc.prems t 3 by (auto simp: catch_def split: if_splits)
      then show ?thesis using rethrow_same_db rethrow_cases by fastforce
    qed
    then have "same_db v w'" "\<exists>e. r = Inl e \<and> infra_error e" using 3(2) same_db_trans same_db_bump(1) by blast+
    then show ?thesis using 3(1,4) same_db_begin by blast
  qed
qed

end
