(* ===== verification/Payments_Invariant.thy ===== *)
theory Payments_Invariant imports Payments_Effect Idempotency_Laws Ledger_Balance begin

text \<open>
  The payment part of the program as a state machine: a step is a key acquired or taken over, or a key
  completed together with the whole effect of its command. The invariant of the tables and its
  preservation.
\<close>

section \<open>Steps\<close>

definition command_effect :: "'a payments_world_scheme \<Rightarrow> 'a payments_world_scheme \<Rightarrow> bool" where
  "command_effect w w' \<longleftrightarrow> idempotency_keys w' = idempotency_keys w \<and>
     ((\<exists>p ev. created_effect p ev w w') \<or> (\<exists>p q inp ev. captured_effect p q inp ev w w') \<or>
      (\<exists>p q f inp ev. refunded_effect p q f inp ev w w'))"

definition keys_set :: "idempotency_row list \<Rightarrow> 'a payments_world_scheme \<Rightarrow> 'a payments_world_scheme \<Rightarrow> bool" where
  "keys_set ks w w' \<longleftrightarrow> same_db (w\<lparr>idempotency_keys := ks\<rparr>) w'"

inductive payment_step :: "'a payments_world_scheme \<Rightarrow> 'a payments_world_scheme \<Rightarrow> bool" where
  step_quiet: "same_db w w' \<Longrightarrow> payment_step w w'"
| step_provision: "provision_step m w w' \<Longrightarrow> payment_step w w'"
| step_acquire: "key_acquired (idempotency_keys w) ks \<Longrightarrow> keys_set ks w w' \<Longrightarrow> payment_step w w'"
| step_complete: "command_effect w w1 \<or> same_db w w1 \<Longrightarrow>
    key_completed own response t e (idempotency_keys w) ks \<Longrightarrow> keys_set ks w1 w' \<Longrightarrow> payment_step w w'"

inductive_cases payment_stepE: "payment_step w w'"

section \<open>The invariant\<close>

definition payments_table_wf :: "payment_row list \<Rightarrow> refund_row list \<Rightarrow> bool" where
  "payments_table_wf ps fs \<longleftrightarrow>
     distinct (map pi_id ps) \<and> distinct (map pi_public_id ps) \<and>
     distinct (map (\<lambda>p. (pi_merchant p, pi_ref p)) ps) \<and> (\<forall>p \<in> set ps. payment_check p = None) \<and>
     distinct (map rf_id fs) \<and> distinct (map rf_public_id fs) \<and>
     distinct (map (\<lambda>f. (rf_merchant f, rf_ref f)) fs) \<and> (\<forall>f \<in> set fs. refund_check f = None) \<and>
     (\<forall>f \<in> set fs. \<exists>p \<in> set ps. pi_id p = rf_payment f \<and> pi_merchant p = rf_merchant f \<and>
        pi_currency p = rf_currency f) \<and>
     (\<forall>p \<in> set ps. pi_refunded p = (\<Sum>f\<leftarrow>fs. if rf_payment f = pi_id p then rf_amount f else 0))"

definition outbox_wf :: "outbox_row list \<Rightarrow> bool" where
  "outbox_wf os \<longleftrightarrow> distinct (map ob_id os) \<and> distinct (map ob_event_id os) \<and>
     (\<forall>r \<in> set os. outbox_check r = None)"

definition keys_wf :: "idempotency_row list \<Rightarrow> bool" where
  "keys_wf ks \<longleftrightarrow> distinct (map ik_id ks) \<and> distinct (map idempotency_key ks) \<and>
     (\<forall>k \<in> set ks. idempotency_check k = None)"

definition payments_wf :: "'a payments_world_scheme \<Rightarrow> bool" where
  "payments_wf w \<longleftrightarrow> ledger_wf w \<and> payments_table_wf (payment_intents w) (refunds w) \<and>
     outbox_wf (outbox_events w) \<and> keys_wf (idempotency_keys w)"

lemma ledger_wf_view:
  "ledger_view w' = ledger_view w \<Longrightarrow> ledger_wf w' = ledger_wf w"
  by (rule ledger_wf_cong) (simp_all add: ledger_view_def)

lemma same_db_view:
  fixes w w' :: "'a payments_world_scheme"
  shows "same_db w w' \<Longrightarrow> ledger_view w' = ledger_view w"
  by (drule same_db_payments) (simp add: ledger_view_def)

lemma payments_wf_same_db: "same_db w w' \<Longrightarrow> payments_wf w \<Longrightarrow> payments_wf w'"
  using ledger_wf_view[OF same_db_view, of w w'] same_db_payments[of w w'] by (simp add: payments_wf_def)

lemma account_balance_view:
  "ledger_view w' = ledger_view w \<Longrightarrow> account_balance w' = account_balance w"
  by (intro ext) (simp add: ledger_view_def account_balance_def on_account_def)

subsection \<open>Preservation\<close>

lemma outbox_grows_wf: "outbox_grows ev w w' \<Longrightarrow> outbox_wf (outbox_events w) \<Longrightarrow> outbox_wf (outbox_events w')"
  by (auto simp: outbox_grows_def outbox_wf_def Let_def)

lemma ledger_posted_wf:
  fixes w :: "'a ledger_world_scheme"
  assumes "ledger_posted inp w w'" and "posting_of_money bt c inp" and "bt \<noteq> Reversal" and "ledger_wf w"
  shows "ledger_wf w'"
proof -
  from assms(1) obtain w1 w2 :: "'a ledger_world_scheme" where
    v: "ledger_view w1 = ledger_view w" "posting_made inp w1 w2" "ledger_view w' = ledger_view w2"
    unfolding ledger_posted_def by blast
  have "ledger_wf w1" using assms(4) ledger_wf_view[OF v(1)] by simp
  moreover have "posting_sound inp w1" using posting_of_money_sound[OF assms(2,3)] .
  ultimately have "ledger_wf w2"
    using v(2) by (auto simp: posting_made_def intro: posting_step_keeps_wf)
  then show ?thesis using ledger_wf_view[OF v(3)] by simp
qed

lemma ledger_posted_balance:
  fixes w :: "'a ledger_world_scheme"
  assumes "ledger_posted inp w w'" and "posting_of_money bt c inp" and "ledger_wf w"
  shows "account_balance w' m a cur = account_balance w m a cur +
    (if m = mc_merchant c \<and> cur = mc_currency c then payment_effect bt (mc_amount c) a else 0)"
proof -
  from assms(1) obtain w1 w2 :: "'a ledger_world_scheme" where
    v: "ledger_view w1 = ledger_view w" "posting_made inp w1 w2" "ledger_view w' = ledger_view w2"
    unfolding ledger_posted_def by blast
  have "ledger_wf w1" using assms(3) ledger_wf_view[OF v(1)] by simp
  from posting_balance[OF this v(2)] assms(2) money_entries_effect
  have "account_balance w2 m a cur = account_balance w1 m a cur +
    (if m = mc_merchant c \<and> cur = mc_currency c then payment_effect bt (mc_amount c) a else 0)"
    by (auto simp: posting_of_money_def)
  then show ?thesis using account_balance_view[OF v(1)] account_balance_view[OF v(3)] by simp
qed

text \<open>What the guard trigger lets an update change.\<close>

lemma update_accepted_fields:
  assumes "update_accepted p q"
  shows "pi_id q = pi_id p" "pi_public_id q = pi_public_id p" "pi_merchant q = pi_merchant p"
    "pi_ref q = pi_ref p" "pi_amount q = pi_amount p" "pi_currency q = pi_currency p"
    "pi_created q = pi_created p" "pi_version q = pi_version p + 1" "pi_updated p \<le> pi_updated q"
    "payment_check q = None" "pi_status p \<noteq> Db_refunded"
    "pi_status p = Db_created \<Longrightarrow> pi_status q = Db_captured \<and> pi_captured q = pi_amount p \<and> pi_refunded q = 0"
    "pi_status p \<noteq> Db_created \<Longrightarrow> pi_captured q = pi_captured p \<and> pi_refunded p < pi_refunded q"
  using assms
  by (auto simp: update_accepted_def payment_update_guard_def payment_check_def split: if_splits)

lemma in_replace:
  assumes "distinct (map pi_id ps)" and "p \<in> set ps"
  shows "x \<in> set (replace_payment p q ps) \<longleftrightarrow> x = q \<or> (x \<in> set ps \<and> x \<noteq> p)"
proof -
  have "pi_id x = pi_id p \<longleftrightarrow> x = p" if "x \<in> set ps" for x
    using distinct_key_eq[OF assms(1) that assms(2)] by blast
  then show ?thesis using assms(2) by (auto simp: replace_payment_def update_where_def image_iff)
qed

lemma map_replace:
  assumes "distinct (map pi_id ps)" and "p \<in> set ps" and "k q = k p"
  shows "map k (replace_payment p q ps) = map k ps"
proof -
  have "x \<in> set ps \<Longrightarrow> k (if pi_id x = pi_id p then q else x) = k x" for x
    using distinct_key_eq[OF assms(1) _ assms(2)] assms(3) by auto
  then show ?thesis by (simp add: replace_payment_def update_where_def)
qed

lemma sum_replace:
  fixes g :: "payment_row \<Rightarrow> int"
  assumes "distinct (map pi_id ps)" and "p \<in> set ps"
  shows "(\<Sum>x\<leftarrow>replace_payment p q ps. g x) = (\<Sum>x\<leftarrow>ps. g x) - g p + g q"
  using assms
proof (induction ps)
  case Nil
  then show ?case by simp
next
  case (Cons x ps)
  show ?case
  proof (cases "x = p")
    case True
    then have "pi_id p \<notin> pi_id ` set ps" using Cons.prems by simp
    then have "replace_payment p q ps = ps"
      unfolding replace_payment_def by (intro update_where_none) (metis image_eqI)
    then show ?thesis using True by (simp add: replace_payment_def)
  next
    case False
    with Cons.prems have p: "p \<in> set ps" by simp
    then have "pi_id x \<noteq> pi_id p" using Cons.prems(1) by (metis distinct.simps(2) image_eqI list.simps(9) set_map)
    then show ?thesis using Cons p by (simp add: replace_payment_def)
  qed
qed

text \<open>A new payment, a replaced one, a new refund.\<close>

lemma created_table_wf:
  assumes "payments_table_wf ps fs" and "payment_check p = None" and "payment_unique ps p = None"
    and "pi_status p = Db_created"
  shows "payments_table_wf (ps @ [p]) fs"
proof -
  have "pi_refunded p = 0"
    using assms(2,4) by (auto simp: payment_check_def status_projection_def split: if_splits)
  moreover have "rf_payment f \<noteq> pi_id p" if "f \<in> set fs" for f
  proof -
    have "rf_payment f \<in> pi_id ` set ps" using assms(1) that by (force simp: payments_table_wf_def)
    moreover have "pi_id p \<notin> pi_id ` set ps" using assms(3) by (auto simp: payment_unique_def split: if_splits)
    ultimately show ?thesis by metis
  qed
  then have "(\<Sum>f\<leftarrow>fs. if rf_payment f = pi_id p then rf_amount f else 0) = 0"
    by (intro sum_list_zero) auto
  ultimately show ?thesis
    using assms unfolding payments_table_wf_def payment_unique_def by (auto split: if_splits)
qed

lemma replaced_table_wf:
  assumes wf: "payments_table_wf ps fs" and p: "p \<in> set ps" and u: "update_accepted p q"
    and r: "pi_refunded q = pi_refunded p"
  shows "payments_table_wf (replace_payment p q ps) fs"
proof -
  note U = update_accepted_fields[OF u]
  have d: "distinct (map pi_id ps)" using wf by (simp add: payments_table_wf_def)
  have "pi_refunded x = (\<Sum>f\<leftarrow>fs. if rf_payment f = pi_id x then rf_amount f else 0)"
    if "x \<in> set (replace_payment p q ps)" for x
    using that wf p U(1) r by (auto simp: in_replace[OF d p] payments_table_wf_def)
  moreover have "\<exists>x \<in> set (replace_payment p q ps). pi_id x = rf_payment f \<and> pi_merchant x = rf_merchant f \<and>
        pi_currency x = rf_currency f" if "f \<in> set fs" for f
  proof -
    from wf that obtain x where x: "x \<in> set ps" "pi_id x = rf_payment f" "pi_merchant x = rf_merchant f"
      "pi_currency x = rf_currency f" by (auto simp: payments_table_wf_def)
    show ?thesis
    proof (cases "x = p")
      case True
      with x U have "pi_id q = rf_payment f \<and> pi_merchant q = rf_merchant f \<and> pi_currency q = rf_currency f" by simp
      then show ?thesis using in_replace[OF d p] by blast
    next
      case False
      then show ?thesis using x in_replace[OF d p] by blast
    qed
  qed
  moreover have "x \<in> set (replace_payment p q ps) \<Longrightarrow> payment_check x = None" for x
    using wf U by (auto simp: in_replace[OF d p] payments_table_wf_def)
  ultimately show ?thesis
    using wf U unfolding payments_table_wf_def by (simp add: map_replace[OF d p])
qed

text \<open>A refund adds to the refunded amount of exactly its payment.\<close>

lemma refunded_table_wf:
  assumes wf: "payments_table_wf ps fs" and p: "p \<in> set ps" and u: "update_accepted p q"
    and r: "pi_refunded q = pi_refunded p + rf_amount f" and f: "rf_payment f = pi_id p"
    "rf_merchant f = pi_merchant p" "rf_currency f = pi_currency p"
    and c: "refund_check f = None" "refund_unique fs f = None"
  shows "payments_table_wf (replace_payment p q ps) (fs @ [f])"
proof -
  note U = update_accepted_fields[OF u]
  have d: "distinct (map pi_id ps)" using wf by (simp add: payments_table_wf_def)
  have sums: "pi_refunded x = (\<Sum>g\<leftarrow>fs @ [f]. if rf_payment g = pi_id x then rf_amount g else 0)"
    if "x \<in> set (replace_payment p q ps)" for x
  proof (cases "x = q")
    case True
    then show ?thesis using wf p U(1) r f by (simp add: payments_table_wf_def)
  next
    case False
    with that have x: "x \<in> set ps" "x \<noteq> p" by (auto simp: in_replace[OF d p])
    then have "pi_id x \<noteq> pi_id p" using distinct_key_eq[OF d _ p] by blast
    then show ?thesis using wf x f by (simp add: payments_table_wf_def)
  qed
  have owner: "\<exists>x \<in> set (replace_payment p q ps). pi_id x = rf_payment g \<and> pi_merchant x = rf_merchant g \<and>
        pi_currency x = rf_currency g" if "g \<in> set (fs @ [f])" for g
  proof -
    have "\<exists>x \<in> set ps. pi_id x = rf_payment g \<and> pi_merchant x = rf_merchant g \<and> pi_currency x = rf_currency g"
      using wf that p f by (auto simp: payments_table_wf_def)
    then obtain x where x: "x \<in> set ps" "pi_id x = rf_payment g" "pi_merchant x = rf_merchant g"
      "pi_currency x = rf_currency g" by blast
    show ?thesis
    proof (cases "x = p")
      case True
      with x U have "pi_id q = rf_payment g \<and> pi_merchant q = rf_merchant g \<and> pi_currency q = rf_currency g" by simp
      then show ?thesis using in_replace[OF d p] by blast
    next
      case False
      then show ?thesis using x in_replace[OF d p] by blast
    qed
  qed
  have checks: "x \<in> set (replace_payment p q ps) \<Longrightarrow> payment_check x = None" for x
    using wf U by (auto simp: in_replace[OF d p] payments_table_wf_def)
  have uniq: "distinct (map rf_id (fs @ [f]))" "distinct (map rf_public_id (fs @ [f]))"
    "distinct (map (\<lambda>f. (rf_merchant f, rf_ref f)) (fs @ [f]))" "\<forall>g \<in> set (fs @ [f]). refund_check g = None"
    using wf c by (auto simp: payments_table_wf_def refund_unique_def split: if_splits)
  show ?thesis
    unfolding payments_table_wf_def
    using wf U sums owner checks uniq by (simp only: payments_table_wf_def map_replace[OF d p]) blast
qed

lemma created_effect_wf: "created_effect p ev w w' \<Longrightarrow> idempotency_keys w' = idempotency_keys w \<Longrightarrow> payments_wf w \<Longrightarrow> payments_wf w'"
  using ledger_wf_view[of w' w] outbox_grows_wf[of "PaymentCreated ev" w w']
    created_table_wf[of "payment_intents w" "refunds w" p]
  by (simp add: created_effect_def payments_wf_def rest_kept_def)

lemma captured_refunded_none:
  assumes "payments_table_wf ps fs" and "p \<in> set ps" and "pi_status p = Db_created" and "update_accepted p q"
  shows "pi_refunded q = pi_refunded p"
proof -
  have "payment_check p = None" using assms(1,2) by (simp add: payments_table_wf_def)
  then have "pi_refunded p = 0" using assms(3) by (auto simp: payment_check_def status_projection_def split: if_splits)
  then show ?thesis using update_accepted_fields(12)[OF assms(4,3)] by simp
qed

lemma captured_effect_wf:
  assumes e: "captured_effect p q inp ev w w'" and keys: "idempotency_keys w' = idempotency_keys w" and wf: "payments_wf w"
  shows "payments_wf w'"
proof -
  from e obtain c where c: "posting_of_money Capture c inp" "ledger_posted inp w w'"
    unfolding captured_effect_def by blast
  have "ledger_wf w'" using ledger_posted_wf[OF c(2,1)] wf by (simp add: payments_wf_def)
  moreover have "payments_table_wf (payment_intents w') (refunds w')"
    using e wf captured_refunded_none replaced_table_wf
    unfolding captured_effect_def payments_wf_def by metis
  moreover have "outbox_wf (outbox_events w')"
    using e wf outbox_grows_wf[of "PaymentCaptured ev" w w']
    by (simp_all add: captured_effect_def payments_wf_def)
  ultimately show ?thesis using wf keys by (simp add: payments_wf_def)
qed

lemma refunded_effect_wf:
  assumes e: "refunded_effect p q f inp ev w w'" and keys: "idempotency_keys w' = idempotency_keys w" and wf: "payments_wf w"
  shows "payments_wf w'"
proof -
  from e obtain c where c: "posting_of_money Refund c inp" "ledger_posted inp w w'"
    unfolding refunded_effect_def by blast
  have "ledger_wf w'" using ledger_posted_wf[OF c(2,1)] wf by (simp add: payments_wf_def)
  moreover have "payments_table_wf (payment_intents w') (refunds w')"
    using e wf refunded_table_wf[of "payment_intents w" "refunds w" p q f]
    unfolding refunded_effect_def payments_wf_def by simp
  moreover have "outbox_wf (outbox_events w')"
    using e wf outbox_grows_wf[of "PaymentRefunded ev" w w']
    by (simp_all add: refunded_effect_def payments_wf_def)
  ultimately show ?thesis using wf keys by (simp add: payments_wf_def)
qed

lemma command_effect_wf: "command_effect w w' \<Longrightarrow> payments_wf w \<Longrightarrow> payments_wf w'"
  unfolding command_effect_def using created_effect_wf captured_effect_wf refunded_effect_wf by blast

lemma command_effect_keys: "command_effect w w' \<Longrightarrow> idempotency_keys w' = idempotency_keys w"
  by (simp add: command_effect_def)

text \<open>Keys.\<close>

lemma keys_wf_acquired: "key_acquired ks ks' \<Longrightarrow> keys_wf ks \<Longrightarrow> keys_wf ks'"
proof -
  have take: "keys_wf (update_where (lease_expired now i) (\<lambda>k. k\<lparr>ik_owner := Some token, ik_lease := Some lease\<rparr>) ks)"
    if "keys_wf ks" for now i token lease
  proof -
    have "idempotency_check (k\<lparr>ik_owner := Some token, ik_lease := Some lease\<rparr>) = None"
      if "idempotency_check k = None" "lease_expired now i k" for k
      using that by (auto simp: idempotency_check_def state_consistent_def lease_expired_def
          split: if_splits option.splits)
    then show ?thesis
      using that by (auto simp: keys_wf_def map_update_where idempotency_key_def dest: in_update_where)
  qed
  assume "key_acquired ks ks'" "keys_wf ks"
  then show ?thesis using take by (auto simp: key_acquired_def) (auto simp: keys_wf_def)
qed

lemma keys_wf_completed: "key_completed own response t e ks ks' \<Longrightarrow> keys_wf ks \<Longrightarrow> keys_wf ks'"
  by (auto simp: keys_wf_def key_completed_def map_update_where completed_row_def idempotency_key_def
      dest!: in_update_where)

lemma keys_set_fields:
  assumes "keys_set ks w w'"
  shows "idempotency_keys w' = ks" "payment_intents w' = payment_intents w" "refunds w' = refunds w"
    "outbox_events w' = outbox_events w" "ledger_view w' = ledger_view w"
    "payments_world.more w' = payments_world.more w"
  using same_db_payments[OF assms[unfolded keys_set_def]] by (simp_all add: ledger_view_def)

lemma keys_set_wf: "keys_set ks w w' \<Longrightarrow> payments_wf w \<Longrightarrow> keys_wf ks \<Longrightarrow> payments_wf w'"
  using keys_set_fields[of ks w w'] ledger_wf_view[of w' w] by (simp add: payments_wf_def)

lemma payment_step_wf: "payment_step w w' \<Longrightarrow> payments_wf w \<Longrightarrow> payments_wf w'"
proof (induction rule: payment_step.induct)
  case (step_quiet w w')
  then show ?case by (rule payments_wf_same_db)
next
  case (step_provision m w w')
  then have "ledger_wf w'" using provision_step_keeps_wf by (auto simp: payments_wf_def)
  moreover have "ledger_world.more w' = ledger_world.more w"
    using step_provision.hyps by (simp add: provision_step_def)
  ultimately show ?case using step_provision.prems ledger_more_payments[of w' w] by (simp add: payments_wf_def)
next
  case (step_acquire w ks w')
  then have "keys_wf ks" using keys_wf_acquired by (auto simp: payments_wf_def)
  then show ?case using step_acquire keys_set_wf by blast
next
  case (step_complete w w1 own response t e ks w')
  have "payments_wf w1" using step_complete command_effect_wf payments_wf_same_db by blast
  moreover have "keys_wf ks" using step_complete keys_wf_completed by (auto simp: payments_wf_def)
  ultimately show ?case using keys_set_wf step_complete by blast
qed

section \<open>Conservation\<close>

text \<open>
  What the provider has taken and not given back: the provider clearing balance is the sum, over the
  merchant's payments in the currency, of what is captured and not refunded.
\<close>

definition outstanding :: "string \<Rightarrow> currency \<Rightarrow> payment_row \<Rightarrow> int" where
  "outstanding m cur p = (if pi_merchant p = m \<and> pi_currency p = cur then pi_captured p - pi_refunded p else 0)"

definition clearing_agrees :: "'a payments_world_scheme \<Rightarrow> bool" where
  "clearing_agrees w \<longleftrightarrow>
     (\<forall>m cur. account_balance w m Provider_clearing cur = (\<Sum>p\<leftarrow>payment_intents w. outstanding m cur p))"

lemma created_outstanding:
  "payment_check p = None \<Longrightarrow> pi_status p = Db_created \<Longrightarrow> outstanding m cur p = 0 \<and> pi_captured p = 0"
  by (auto simp: outstanding_def payment_check_def status_projection_def split: if_splits)

lemma command_effect_clearing:
  assumes "command_effect w w'" and wf: "payments_wf w" and c: "clearing_agrees w"
  shows "clearing_agrees w'"
proof -
  have lwf: "ledger_wf w" and d: "distinct (map pi_id (payment_intents w))"
    using wf by (simp_all add: payments_wf_def payments_table_wf_def)
  consider (1) p ev where "created_effect p ev w w'" | (2) p q inp ev where "captured_effect p q inp ev w w'"
    | (3) p q f inp ev where "refunded_effect p q f inp ev w w'"
    using assms(1) unfolding command_effect_def by blast
  then show ?thesis
  proof cases
    case 1
    then show ?thesis
      using c account_balance_view[of w' w] created_outstanding
      by (simp add: created_effect_def clearing_agrees_def)
  next
    case 2
    then obtain k where k: "posting_of_money Capture k inp" "ledger_posted inp w w'" "mc_amount k = pi_amount p"
      "mc_currency k = pi_currency p" "mc_merchant k = pi_merchant p"
      and p: "p \<in> set (payment_intents w)" "pi_status p = Db_created" "update_accepted p q"
      "payment_intents w' = replace_payment p q (payment_intents w)"
      unfolding captured_effect_def by blast
    have "payment_check p = None" using p(1) wf by (simp add: payments_wf_def payments_table_wf_def)
    note O = created_outstanding[OF this p(2)]
    note U = update_accepted_fields[OF p(3)]
    have oq: "outstanding m cur q = (if pi_merchant p = m \<and> pi_currency p = cur then pi_amount p else 0)" for m cur
      using U(12)[OF p(2)] U(3,6) by (simp add: outstanding_def)
    show ?thesis
      unfolding clearing_agrees_def ledger_posted_balance[OF k(2,1) lwf] p(4) sum_replace[OF d p(1)]
      using c O k by (auto simp: clearing_agrees_def payment_effect_def oq)
  next
    case 3
    then obtain k where k: "posting_of_money Refund k inp" "ledger_posted inp w w'" "mc_amount k = rf_amount f"
      "mc_currency k = pi_currency p" "mc_merchant k = pi_merchant p"
      and p: "p \<in> set (payment_intents w)" "pi_status p \<noteq> Db_created" "update_accepted p q"
      "pi_refunded q = pi_refunded p + rf_amount f"
      "payment_intents w' = replace_payment p q (payment_intents w)"
      unfolding refunded_effect_def by blast
    note U = update_accepted_fields[OF p(3)]
    have oq: "outstanding m cur q = outstanding m cur p -
        (if pi_merchant p = m \<and> pi_currency p = cur then rf_amount f else 0)" for m cur
      using U(13)[OF p(2)] U(3,6) p(4) by (simp add: outstanding_def)
    show ?thesis
      unfolding clearing_agrees_def ledger_posted_balance[OF k(2,1) lwf] p(5) sum_replace[OF d p(1)]
      using c k by (auto simp: clearing_agrees_def payment_effect_def oq)
  qed
qed

lemma clearing_agrees_view:
  "ledger_view w' = ledger_view w \<Longrightarrow> payment_intents w' = payment_intents w \<Longrightarrow>
     clearing_agrees w \<Longrightarrow> clearing_agrees w'"
  using account_balance_view[of w' w] by (simp add: clearing_agrees_def)

text \<open>New accounts hold nothing: every entry already has its account.\<close>

lemma provision_step_balance:
  assumes "provision_step m w w'" and wf: "ledger_wf w"
  shows "account_balance w' = account_balance w"
proof (intro ext)
  fix n c cur
  from assms(1) obtain new where as: "ledger_accounts w' = ledger_accounts w @ new"
    and es: "ledger_entries w' = ledger_entries w"
    using fold_insert_skip_appends unfolding provision_step_def by metis
  have "on_account w' n c cur e = on_account w n c cur e" if e: "e \<in> set (ledger_entries w)" for e
  proof -
    have "er_tx e \<in> lt_id ` set (ledger_transactions w)" using wf e by (simp add: ledger_wf_def entries_wf_def)
    then obtain t where t: "t \<in> set (ledger_transactions w)" "er_tx e = lt_id t" by blast
    from wf t(1) have "ledger_assert w (lt_id t) = None" by (simp add: ledger_wf_def)
    moreover have "distinct (map lt_id (ledger_transactions w))" using wf by (simp add: ledger_wf_def transactions_wf_def)
    from find_key[OF this t(1)] have "List.find (\<lambda>x. lt_id x = lt_id t) (ledger_transactions w) = Some t" .
    ultimately have "list_all (entry_consistent w t) (tx_entries w (lt_id t))"
      by (auto simp: ledger_assert_def Let_def split: if_splits)
    moreover have "e \<in> set (tx_entries w (lt_id t))" using e t by (simp add: tx_entries_def)
    ultimately have "entry_consistent w t e" by (simp add: list_all_iff)
    then obtain a where "List.find (\<lambda>a. la_id a = er_account e) (ledger_accounts w) = Some a"
      by (auto simp: entry_consistent_def split: option.splits)
    then show ?thesis by (simp add: on_account_def as find_append_Some)
  qed
  then show "account_balance w' n c cur = account_balance w n c cur"
    unfolding account_balance_def es by (intro sum_list_map_cong) simp
qed

lemma payment_step_clearing:
  "payment_step w w' \<Longrightarrow> payments_wf w \<Longrightarrow> clearing_agrees w \<Longrightarrow> clearing_agrees w'"
proof (induction rule: payment_step.induct)
  case (step_quiet w w')
  then show ?case using clearing_agrees_view same_db_view same_db_payments by blast
next
  case (step_provision m w w')
  then have "account_balance w' = account_balance w"
    by (intro provision_step_balance) (simp_all add: payments_wf_def)
  moreover have "ledger_world.more w' = ledger_world.more w"
    using step_provision.hyps by (simp add: provision_step_def)
  ultimately show ?case using step_provision.prems ledger_more_payments[of w' w] by (simp add: clearing_agrees_def)
next
  case (step_acquire w ks w')
  then show ?case using clearing_agrees_view keys_set_fields by blast
next
  case (step_complete w w1 own response t e ks w')
  have "clearing_agrees w1"
    using step_complete command_effect_clearing clearing_agrees_view same_db_view same_db_payments by blast
  then show ?case using clearing_agrees_view keys_set_fields step_complete.hyps(3) by blast
qed

end
