(* ===== verification/Payments_Run.thy ===== *)
theory Payments_Run imports Payments_Invariant begin

text \<open>
  Every call of \<open>PaymentIntentService\<close>, whatever fails, moves the database along payment steps only; so
  the invariant and the conservation law hold in every reachable state.
\<close>

section \<open>Calls stay within payment steps\<close>

definition payments_reach :: "'a payments_world_scheme \<Rightarrow> 'a payments_world_scheme \<Rightarrow> bool" where
  "payments_reach w w' \<longleftrightarrow> (payments_wf w \<longrightarrow> payment_step\<^sup>*\<^sup>* w w')"

lemma payment_steps_wf: "payment_step\<^sup>*\<^sup>* w w' \<Longrightarrow> payments_wf w \<Longrightarrow> payments_wf w'"
  by (induction rule: rtranclp_induct) (auto intro: payment_step_wf)

lemma payment_steps_clearing:
  "payment_step\<^sup>*\<^sup>* w w' \<Longrightarrow> payments_wf w \<Longrightarrow> clearing_agrees w \<Longrightarrow> clearing_agrees w'"
  by (induction rule: rtranclp_induct) (auto intro: payment_step_clearing payment_steps_wf)

interpretation pay: effect_order payments_reach
proof
  fix w w' w'' :: "'a payments_world_scheme"
  show "same_db w w' \<Longrightarrow> payments_reach w w'"
    by (auto simp: payments_reach_def intro: step_quiet)
  show "payments_reach w w' \<Longrightarrow> payments_reach w' w'' \<Longrightarrow> payments_reach w w''"
    by (auto simp: payments_reach_def intro: payment_steps_wf)
qed

lemma reach_step: "payment_step w w' \<Longrightarrow> payments_reach w w'"
  by (auto simp: payments_reach_def)

lemma acquire_body_reach:
  fixes w :: "'a payments_world_scheme"
  assumes "acquire_body E opt c w = (Inr res, w')"
  shows "payments_reach w w'"
proof -
  from acquire_body_keys[OF assms] obtain ks ks' where
    k: "key_acquired (idempotency_keys w) ks" "key_acquired ks ks'" "same_db (w\<lparr>idempotency_keys := ks'\<rparr>) w'" by blast
  have "payment_step w (w\<lparr>idempotency_keys := ks\<rparr>)"
    by (rule step_acquire[OF k(1)]) (simp add: keys_set_def)
  moreover have "payment_step (w\<lparr>idempotency_keys := ks\<rparr>) w'"
    by (rule step_acquire[of _ ks']) (simp_all add: k keys_set_def)
  ultimately show ?thesis using pay.trans_R reach_step by blast
qed

lemma within_acquire: "within payments_reach (idempotency_acquire E D opt c)"
  unfolding idempotency_acquire_def repo_acquire_def
  by (intro pay.within_basic pay.within_transaction acquire_body_reach)

text \<open>
  Completing stays within the steps when every run of the operation that returns has the effect of a
  command or none.
\<close>

definition effectful :: "('a payments_world_scheme, 'v) idempotent_operation \<Rightarrow> bool" where
  "effectful op \<longleftrightarrow> (\<forall>w x w'. payments_wf w \<longrightarrow> op w = (Inr x, w') \<longrightarrow> command_effect w w' \<or> same_db w w')"

lemma complete_body_step:
  fixes w :: "'a payments_world_scheme"
  assumes "complete_body E opt own op w = (Inr v, w')" and "effectful op" and "payments_wf w"
  shows "payment_step\<^sup>*\<^sup>* w w'"
proof -
  from complete_body_Inr[OF assms(1)] obtain w1 response w2 t where
    s: "same_db w w1" and o: "op w1 = (Inr (response, v), w2)" and
    k: "key_completed own response t (t + io_replay_ms opt) (idempotency_keys w2) (idempotency_keys w')" and
    e: "same_db (w2\<lparr>idempotency_keys := idempotency_keys w'\<rparr>) w'" by blast
  have "payments_wf w1" using s assms(3) by (rule payments_wf_same_db)
  then have c: "command_effect w1 w2 \<or> same_db w1 w2" using assms(2) o by (auto simp: effectful_def)
  then have "idempotency_keys w2 = idempotency_keys w1" using command_effect_keys same_db_payments by blast
  then have "payment_step w1 w'"
    using step_complete[OF c, of own response t "t + io_replay_ms opt" "idempotency_keys w'" w'] k e
    by (simp add: keys_set_def)
  then show ?thesis using step_quiet[OF s] by auto
qed

lemma within_complete:
  assumes "effectful op"
  shows "within payments_reach (idempotency_complete E D opt own op)"
proof (unfold within_def idempotency_complete_def repo_complete_def, intro allI impI)
  fix w :: "'a payments_world_scheme" and r w'
  assume c: "complete_attempts max_transaction_attempts E D opt own op w = (r, w')"
  from complete_once[OF c] consider "same_db w w'"
    | w1 v w2 where "same_db w w1" "complete_body E opt own op w1 = (Inr v, w2)" "same_db w2 w'"
    by blast
  then show "payments_reach w w'"
  proof cases
    case 1
    then show ?thesis by (rule pay.same_R)
  next
    case (2 w1 v w2)
    then show ?thesis
      using complete_body_step[OF 2(2) assms] payments_wf_same_db step_quiet
      unfolding payments_reach_def by (meson converse_rtranclp_into_rtranclp rtranclp.rtrancl_into_rtrancl)
  qed
qed

lemma effectful_problem: "effectful (bindc (from_sum (command_problem e rid)) (\<lambda>response. ok (response, ())))"
  by (auto simp: effectful_def comp_simps)

lemma effectful_capture: "effectful (capture_operation E command)"
proof (unfold effectful_def, intro allI impI)
  fix w w' :: "'a payments_world_scheme" and x
  assume wf: "payments_wf w" and c: "capture_operation E command w = (Inr x, w')"
  have d: "distinct (map pi_id (payment_intents w))" using wf by (simp add: payments_wf_def payments_table_wf_def)
  obtain response v where "x = (response, v)" by fastforce
  from capture_operation_Inr[OF c[unfolded this] d] show "command_effect w w' \<or> same_db w w'"
    unfolding command_effect_def by blast
qed

lemma effectful_refund: "effectful (refund_operation E command refundId)"
proof (unfold effectful_def, intro allI impI)
  fix w w' :: "'a payments_world_scheme" and x
  assume wf: "payments_wf w" and c: "refund_operation E command refundId w = (Inr x, w')"
  have d: "distinct (map pi_id (payment_intents w))" using wf by (simp add: payments_wf_def payments_table_wf_def)
  obtain response v where "x = (response, v)" by fastforce
  from refund_operation_Inr[OF c[unfolded this] d] show "command_effect w w' \<or> same_db w w'"
    unfolding command_effect_def by blast
qed

text \<open>The event of a creation is built from the command.\<close>

definition event_of_create :: "payment_command \<Rightarrow> string \<Rightarrow> payment_created_event \<Rightarrow> bool" where
  "event_of_create command pid ev \<longleftrightarrow> de_merchant ev = pc_merchant command \<and> pe_payment ev = pid \<and>
     pce_amount ev = vf_amount command \<and> pe_currency ev = vf_currency command"

lemma effectful_create: "event_of_create command pid ev \<Longrightarrow> effectful (create_operation E command pid ev)"
  unfolding effectful_def command_effect_def event_of_create_def
  using create_operation_Inr by fast

lemma created_event_of:
  "create_payment_created_event E inp t w = (Inr ev, w') \<Longrightarrow>
     de_merchant ev = pci_merchant inp \<and> pe_payment ev = pci_payment inp \<and> pce_amount ev = pci_amount inp \<and>
     pe_currency ev = pci_currency inp \<and> de_request ev = pci_request inp \<and> de_occurred ev = t \<and> same_db w w'"
  by (auto simp: create_payment_created_event_def event_id_def comp_simps)

lemma within_bindc_post:
  assumes "within payments_reach m" and "\<And>w x w'. m w = (Inr x, w') \<Longrightarrow> P x"
    and "\<And>x. P x \<Longrightarrow> within payments_reach (f x)"
  shows "within payments_reach (bindc m f)"
proof -
  have e: "bindc m f = bindc m (\<lambda>x. if P x then f x else throw undefined)"
    using assms(2) by (fastforce simp: bindc_def fun_eq_iff split: prod.splits sum.splits)
  show ?thesis
    unfolding e using assms(1,3) by (intro pay.within_bindc) (auto intro: pay.within_throw)
qed

lemma within_problem: "within payments_reach (complete_problem E opt own e rid)"
  unfolding complete_problem_def by (rule within_complete[OF effectful_problem])

lemma within_observe_throw: "within payments_reach (observe_and_throw ob e)"
  unfolding observe_and_throw_def by (intro pay.within_basic)

lemma within_provider: "within payments_reach (execute_provider E opt operation own rid)"
proof (unfold within_def, intro allI impI)
  fix w r w' assume e: "execute_provider E opt operation own rid w = (r, w')"
  have "within payments_reach (bindc (complete_problem E opt own (PaymentsE PaymentProviderDeclinedError) rid)
      (\<lambda>_. throw (PaymentsE PaymentProviderDeclinedError)))"
    by (intro pay.within_bindc within_problem pay.within_throw)
  note d = withinD[OF this, of "bump w"]
  have b: "payments_reach w (bump w)" by (rule pay.same_R) simp
  show "payments_reach w w'"
  proof (cases "operation (tick w) = Some Declined")
    case True
    then have "payments_reach (bump w) w'" using e d by (simp add: execute_provider_def)
    then show ?thesis by (rule pay.trans_R[OF b])
  next
    case False
    then have "w' = bump w" using e
      by (auto simp: execute_provider_def comp_simps split: option.splits execution_result.splits)
    then show ?thesis using b by simp
  qed
qed

lemma within_create_attempts: "within payments_reach (create_attempts n E opt command own)"
proof (induction n)
  case 0
  show ?case by (simp add: pay.within_throw)
next
  case (Suc n)
  have "within payments_reach (create_payment_created_event E inp t)" for inp t
    unfolding create_payment_created_event_def event_id_def by (intro pay.within_basic)
  then show ?case
    unfolding create_attempts.simps Let_def
    by (intro pay.within_basic within_bindc_post[where P = "event_of_create command pid" for pid]
        within_complete effectful_create Suc.IH within_problem)
      (auto simp: event_of_create_def dest: created_event_of)
qed

lemma within_capture_attempts: "within payments_reach (capture_attempts n E opt command own)"
proof (induction n)
  case 0
  show ?case by (simp add: pay.within_throw)
next
  case (Suc n)
  show ?case
    unfolding capture_attempts.simps case_prod_beta
    by (intro pay.within_basic within_complete effectful_capture Suc.IH within_observe_throw)
qed

lemma within_refund_attempts: "within payments_reach (refund_attempts n E opt command own)"
proof (induction n)
  case 0
  show ?case by (simp add: pay.within_throw)
next
  case (Suc n)
  show ?case
    unfolding refund_attempts.simps case_prod_beta Let_def
    by (intro pay.within_basic within_complete effectful_refund Suc.IH within_observe_throw within_problem)
qed

lemma within_replay:
  "(\<And>own. within payments_reach (f own)) \<Longrightarrow> (\<And>response. within payments_reach (g response)) \<Longrightarrow>
     within payments_reach (case a of Acquired own \<Rightarrow> f own | Replay response \<Rightarrow> g response)"
  by (cases a) simp_all

lemma within_create: "within payments_reach (create_payment E opt command)"
  unfolding create_payment_def
  by (intro pay.within_basic within_acquire within_replay within_create_attempts)

lemma within_capture: "within payments_reach (capture_payment E opt port command)"
  unfolding capture_payment_def
  by (intro pay.within_basic within_acquire within_replay within_capture_attempts within_provider within_observe_throw)

lemma within_refund: "within payments_reach (refund_payment E opt port command)"
  unfolding refund_payment_def
  by (intro pay.within_basic within_acquire within_replay within_refund_attempts within_provider within_observe_throw)

lemma within_get: "within payments_reach (get_payment E m p)"
proof -
  have s: "within payments_reach (stmt E (find_payment q))" for q
    by (rule pay.within_quiet) (auto simp: stmt_def find_payment_def gets_def split: option.splits)
  have o: "within payments_reach (case x of None \<Rightarrow> f | Some y \<Rightarrow> g y)"
    if "within payments_reach f" "\<And>y. within payments_reach (g y)" for x f and g :: "'b \<Rightarrow> ('a payments_world_scheme, error, 'c) comp"
    using that by (cases x) simp_all
  show ?thesis
    unfolding get_payment_def repo_find_by_public_id_def
    by (intro pay.within_basic s o)
qed

section \<open>Runs\<close>

datatype payments_call =
    Create_call payment_command
  | Capture_call payment_id_command
  | Refund_call refund_payment_command
  | Get_call string string
  | Provision_call string

fun payments_call_comp :: "env \<Rightarrow> idempotency_options \<Rightarrow> execution_port \<Rightarrow> payments_call \<Rightarrow>
    ('a payments_world_scheme, error, unit) comp" where
  "payments_call_comp E opt port (Create_call c) = forget (create_payment E opt c)"
| "payments_call_comp E opt port (Capture_call c) = forget (capture_payment E opt port c)"
| "payments_call_comp E opt port (Refund_call c) = forget (refund_payment E opt port c)"
| "payments_call_comp E opt port (Get_call m p) = forget (get_payment E m p)"
| "payments_call_comp E opt port (Provision_call m) =
     transaction E ledger_deferred (forget (provision_accounts E m))"

lemma within_forget: "within payments_reach m \<Longrightarrow> within payments_reach (forget m)"
  unfolding forget_def by (intro pay.within_basic)

lemma within_call: "within payments_reach (payments_call_comp E opt port call)"
proof (cases call)
  case (Provision_call m)
  have "payments_reach w w'" if p: "forget (provision_accounts E m) w = (Inr x, w')"
    for w w' :: "'a payments_world_scheme" and x
  proof -
    from p obtain r where r: "provision_accounts E m w = (Inr r, w')" by (auto simp: comp_simps)
    have "provision_step m w w'" using provision_accounts_Inr[OF r] by blast
    then show ?thesis by (intro reach_step step_provision)
  qed
  then show ?thesis unfolding Provision_call payments_call_comp.simps by (rule pay.within_transaction)
qed (auto intro!: within_forget within_create within_capture within_refund within_get)

text \<open>
  A run: calls one after the other, each with its own environment of clocks, identifiers and outages, and
  quiet moves in between.
\<close>

inductive payments_run ::
  "idempotency_options \<Rightarrow> execution_port \<Rightarrow> 'a payments_world_scheme \<Rightarrow> 'a payments_world_scheme \<Rightarrow> bool"
  for opt port where
  pay_start: "payments_run opt port w w"
| pay_call: "payments_run opt port w w' \<Longrightarrow> payments_call_comp E opt port call w' = (r, w'') \<Longrightarrow>
    payments_run opt port w w''"
| pay_other: "payments_run opt port w w' \<Longrightarrow> same_db w' w'' \<Longrightarrow> payments_run opt port w w''"

lemma payments_run_steps: "payments_run opt port w w' \<Longrightarrow> payments_wf w \<Longrightarrow> payment_step\<^sup>*\<^sup>* w w'"
proof (induction rule: payments_run.induct)
  case (pay_start w)
  then show ?case by simp
next
  case (pay_call w w' E call r w'')
  have "payments_reach w' w''" using within_call pay_call.hyps(2) by (rule withinD)
  then show ?case using pay_call payment_steps_wf unfolding payments_reach_def by (meson rtranclp_trans)
next
  case (pay_other w w' w'')
  then show ?case using step_quiet by (meson rtranclp.rtrancl_into_rtrancl)
qed

definition empty_payments :: "'a payments_world_scheme \<Rightarrow> bool" where
  "empty_payments w \<longleftrightarrow> empty_ledger w \<and> payment_intents w = [] \<and> refunds w = [] \<and> outbox_events w = [] \<and>
     idempotency_keys w = []"

lemma empty_payments_wf: "empty_payments w \<Longrightarrow> payments_wf w \<and> clearing_agrees w"
  by (simp add: empty_payments_def payments_wf_def empty_ledger_wf payments_table_wf_def outbox_wf_def
      keys_wf_def clearing_agrees_def account_balance_def empty_ledger_def)

end
