(* ===== verification/Payments_Results.thy ===== *)
theory Payments_Results imports Payments_Run begin

text \<open>
  What a call of \<open>PaymentIntentService\<close> amounts to, whatever fails: it throws and the business tables are
  as before; or it replays a stored response; or it has the whole effect of its command, its response is
  stored under its key, and it returns that response - or throws because the acknowledgement of the
  commit was lost.
\<close>

section \<open>The business tables\<close>

definition business_same :: "'a payments_world_scheme \<Rightarrow> 'a payments_world_scheme \<Rightarrow> bool" where
  "business_same w w' \<longleftrightarrow> payment_intents w' = payment_intents w \<and> refunds w' = refunds w \<and>
     outbox_events w' = outbox_events w \<and> ledger_view w' = ledger_view w \<and>
     payments_world.more w' = payments_world.more w"

lemma business_same_db: "same_db w w' \<Longrightarrow> business_same w w'"
  using same_db_payments[of w w'] by (simp add: business_same_def ledger_view_def)

lemma business_refl [simp]: "business_same w w"
  by (simp add: business_same_def)

lemma business_trans: "business_same w w' \<Longrightarrow> business_same w' w'' \<Longrightarrow> business_same w w''"
  by (simp add: business_same_def)

lemma business_keys_set: "keys_set ks w w' \<Longrightarrow> business_same w w'"
  using keys_set_fields[of ks w w'] by (simp add: business_same_def)

text \<open>The effects are effects on the business tables.\<close>

lemma ledger_posted_view:
  fixes w w' w1 w2 :: "'a payments_world_scheme"
  shows "ledger_view w1 = ledger_view w \<Longrightarrow> ledger_view w' = ledger_view w2 \<Longrightarrow> ledger_posted inp w1 w2 \<Longrightarrow> ledger_posted inp w w'"
  unfolding ledger_posted_def by metis

lemma effects_business:
  assumes "business_same w w1" and "business_same w2 w'"
  shows "created_effect p ev w1 w2 \<Longrightarrow> created_effect p ev w w'"
    and "captured_effect p q inp cev w1 w2 \<Longrightarrow> captured_effect p q inp cev w w'"
    and "refunded_effect p q f inp fev w1 w2 \<Longrightarrow> refunded_effect p q f inp fev w w'"
  using assms ledger_posted_view[of w1 w w' w2]
  unfolding created_effect_def captured_effect_def refunded_effect_def business_same_def outbox_grows_def rest_kept_def
  by (simp_all add: Let_def) 

section \<open>Stored responses\<close>

lemma to_headers_json: "to_headers (Some (headers_json hs)) = Some hs"
proof -
  have "string_members (map (\<lambda>(k, v). (k, JStr v)) hs) = Some hs"
    by (induction hs) auto
  then show ?thesis by (simp add: headers_json_def)
qed

text \<open>A response that was accepted into a completed row is read back as it was.\<close>

lemma stored_response_round_trip:
  assumes "idempotency_check (completed_row response t e k) = None"
  shows "to_stored_response (completed_row response t e k) = Some response"
proof -
  have "is_json_object (sr_body response)"
    "sr_content_type response = ''application/json'' \<or> sr_content_type response = ''application/problem+json''"
    using assms by (auto simp: idempotency_check_def completed_row_def split: if_splits)
  then show ?thesis
    by (simp add: to_stored_response_def completed_row_def to_headers_json)
qed

text \<open>The row of a key holds a response that expires after \<open>e\<close>.\<close>

definition response_stored ::
  "string \<times> string \<times> string \<times> string \<Rightarrow> string \<Rightarrow> stored_response \<Rightarrow> int \<Rightarrow> 'a idempotency_world_scheme \<Rightarrow> bool" where
  "response_stored key hash response expires w \<longleftrightarrow>
     (\<exists>k \<in> set (idempotency_keys w). idempotency_key k = key \<and> ik_request_hash k = hash \<and>
        ik_state k = Completed \<and> to_stored_response k = Some response \<and> ik_expires k = Some expires)"

lemma response_stored_same_db: "same_db w w' \<Longrightarrow> response_stored key h r e w \<Longrightarrow> response_stored key h r e w'"
  using same_db_keys[of w w'] by (simp add: response_stored_def)

text \<open>The key a command has acquired.\<close>

definition holds_key :: "ownership \<Rightarrow> string \<times> string \<times> string \<times> string \<Rightarrow> string \<Rightarrow> 'a idempotency_world_scheme \<Rightarrow> bool" where
  "holds_key own key hash w \<longleftrightarrow>
     (\<forall>k \<in> set (idempotency_keys w). owned own k \<longrightarrow> idempotency_key k = key \<and> ik_request_hash k = hash)"

lemma holds_key_same_db: "same_db w w' \<Longrightarrow> holds_key own key h w \<Longrightarrow> holds_key own key h w'"
  using same_db_keys[of w w'] by (simp add: holds_key_def)

lemma completed_stored:
  assumes "key_completed own response t e (idempotency_keys w) (idempotency_keys w')" and "holds_key own key h w"
  shows "response_stored key h response e w'"
proof -
  from assms(1) have "filter (owned own) (idempotency_keys w) \<noteq> []"
    by (auto simp: key_completed_def count_where_def)
  then obtain k where k: "k \<in> set (idempotency_keys w)" "owned own k" by (meson filter_False)
  let ?k = "completed_row response t e k"
  have "?k \<in> set (idempotency_keys w')" using assms(1) k by (auto simp: key_completed_def update_where_def)
  moreover have "idempotency_key ?k = key" "ik_request_hash ?k = h" "ik_state ?k = Completed" "ik_expires ?k = Some e"
    using assms(2) k by (simp_all add: holds_key_def completed_row_def idempotency_key_def)
  moreover have "to_stored_response ?k = Some response"
    using assms(1) k by (intro stored_response_round_trip) (simp add: key_completed_def)
  ultimately show ?thesis unfolding response_stored_def by blast
qed

section \<open>Completing a command\<close>

definition unacked :: "env \<Rightarrow> error \<Rightarrow> bool" where
  "unacked E e \<longleftrightarrow> infra_error e \<and> (\<exists>m f. env_commit E m = CommittedUnacked f)"

text \<open>
  One call of \<open>complete\<close> with an operation that satisfies \<open>P\<close>: nothing, or one run of the operation and
  its stored response.
\<close>

definition completed_once ::
  "env \<Rightarrow> ownership \<Rightarrow> (stored_response \<Rightarrow> 'v \<Rightarrow> 'a payments_world_scheme \<Rightarrow> 'a payments_world_scheme \<Rightarrow> bool) \<Rightarrow>
   'a payments_world_scheme \<Rightarrow> error + 'v \<Rightarrow> 'a payments_world_scheme \<Rightarrow> bool" where
  "completed_once E own P w r w' \<longleftrightarrow>
     (\<exists>w1 response v w2 t e. same_db w w1 \<and> P response v w1 w2 \<and>
        key_completed own response t e (idempotency_keys w2) (idempotency_keys w') \<and> business_same w2 w' \<and>
        (r = Inr v \<or> (\<exists>e. r = Inl e \<and> unacked E e)))"

lemma complete_result:
  fixes w :: "'a payments_world_scheme"
  assumes "idempotency_complete E D opt own op w = (r, w')" and "payments_wf w"
    and "\<And>w response v w'. payments_wf w \<Longrightarrow> op w = (Inr (response, v), w') \<Longrightarrow> P response v w w'"
  shows "(same_db w w' \<and> (\<exists>e. r = Inl e)) \<or> completed_once E own P w r w'"
proof -
  from complete_once[OF assms(1)[unfolded idempotency_complete_def repo_complete_def]]
  consider "same_db w w' \<and> (\<exists>e. r = Inl e)"
    | w1 v w2 where "same_db w w1" "complete_body E opt own op w1 = (Inr v, w2)" "same_db w2 w'"
      "r = Inr v \<or> (\<exists>e. r = Inl e \<and> unacked E e)"
    unfolding unacked_def by blast
  then show ?thesis
  proof cases
    case 1
    then show ?thesis by blast
  next
    case (2 w1 v w2)
    from complete_body_Inr[OF 2(2)] obtain w3 response w4 t where
      s: "same_db w1 w3" and o: "op w3 = (Inr (response, v), w4)" and
      k: "key_completed own response t (t + io_replay_ms opt) (idempotency_keys w4) (idempotency_keys w2)" and
      e: "same_db (w4\<lparr>idempotency_keys := idempotency_keys w2\<rparr>) w2" by blast
    have s3: "same_db w w3" using 2(1) s by (rule same_db_trans)
    have "P response v w3 w4" using assms(3) o payments_wf_same_db[OF s3 assms(2)] by blast
    moreover have "key_completed own response t (t + io_replay_ms opt) (idempotency_keys w4) (idempotency_keys w')"
      using k same_db_payments[OF 2(3)] by simp
    moreover have "business_same w4 w'"
      using business_trans[OF business_keys_set business_same_db[OF 2(3)]] e by (simp add: keys_set_def)
    ultimately show ?thesis using s3 2(4) unfolding completed_once_def by blast
  qed
qed

section \<open>Acquiring\<close>

definition command_key :: "env \<Rightarrow> string \<Rightarrow> string \<Rightarrow> ustring \<Rightarrow> string \<times> string \<times> string \<times> string" where
  "command_key E merchantId route key = (merchantId, ''POST'', route, env_sha256 E key)"

text \<open>An acquisition, and what it must answer when the key is completed already.\<close>

definition key_answer :: "string \<times> string \<times> string \<times> string \<Rightarrow> error + acquire_result \<Rightarrow> 'a idempotency_world_scheme \<Rightarrow> bool" where
  "key_answer key r w \<longleftrightarrow> (\<forall>k \<in> set (idempotency_keys w). idempotency_key k = key \<longrightarrow> ik_state k = Completed \<longrightarrow>
     (\<exists>e. r = Inl e) \<or> (\<exists>response. r = Inr (Replay response) \<and> to_stored_response k = Some response))"

lemma acquire_handler:
  assumes "(if e = IdempotencyE IdempotencyKeyExpiredError \<or> e = IdempotencyE IdempotencyKeyReusedError \<or>
      e = IdempotencyE IdempotencyRequestInProgressError then throw e else rethrow_database_error E e) w = (r, w')"
  shows "same_db w w' \<and> (\<exists>e. r = Inl e)"
  using assms rethrow_same_db[of E e w r w'] rethrow_cases[of E e w r w']
  by (cases "e = IdempotencyE IdempotencyKeyExpiredError \<or> e = IdempotencyE IdempotencyKeyReusedError \<or>
      e = IdempotencyE IdempotencyRequestInProgressError") (auto simp: throw_def)

lemma acquire_result:
  fixes w :: "'a payments_world_scheme"
  assumes "idempotency_acquire E D opt c w = (r, w')" and "payments_wf w" and "ac_method c = ''POST''"
  shows "business_same w w' \<and> key_answer (command_key E (ac_merchant c) (ac_route c) (ac_key c)) r w \<and>
    (case r of
       Inl e \<Rightarrow> True
     | Inr (Replay response) \<Rightarrow> same_db w w' \<and>
         (\<exists>e. response_stored (command_key E (ac_merchant c) (ac_route c) (ac_key c)) (env_sha256 E (ac_canonical c)) response e w \<and>
              ac_now c < e)
     | Inr (Acquired own) \<Rightarrow>
         holds_key own (command_key E (ac_merchant c) (ac_route c) (ac_key c)) (env_sha256 E (ac_canonical c)) w')"
proof -
  define hc where "hc = \<lparr>hc_key_hash = env_sha256 E (ac_key c), hc_merchant = ac_merchant c, hc_now = ac_now c,
        hc_route = ac_route c, hc_method = ac_method c, hc_owner = env_uuid E (tick w),
        hc_record = env_uuid E (tick (bump w)), hc_request_hash = env_sha256 E (ac_canonical c)\<rparr>"
  let ?w = "bump (bump w)"
  have a: "repo_acquire E D opt hc ?w = (r, w')"
    using assms(1) by (simp add: idempotency_acquire_def bindc_def new_uuid_def hc_def)
  have s: "same_db w ?w" by (simp add: same_db_iff)
  obtain r1 w1 where t: "transaction E D (acquire_body E opt hc) ?w = (r1, w1)" by fastforce
  have after: "(r = r1 \<and> w' = w1 \<and> (\<exists>x. r1 = Inr x)) \<or> (same_db w1 w' \<and> (\<exists>e. r = Inl e))"
  proof (cases r1)
    case (Inl e)
    then have "(if e = IdempotencyE IdempotencyKeyExpiredError \<or> e = IdempotencyE IdempotencyKeyReusedError \<or>
          e = IdempotencyE IdempotencyRequestInProgressError then throw e else rethrow_database_error E e) w1 = (r, w')"
      using a t by (simp add: repo_acquire_def catch_def)
    from acquire_handler[OF this] show ?thesis by blast
  next
    case (Inr x)
    then show ?thesis using a t by (auto simp: repo_acquire_def catch_def)
  qed
  from transaction_atomic[OF t] consider (none) "same_db ?w w1" "\<exists>e. r1 = Inl e"
    | (made) res v where "acquire_body E opt hc (begin_txn E ?w) = (Inr res, v)" "w1 = bump v"
      "r1 = Inr res \<or> (\<exists>f. r1 = Inl (DbE f))" by blast
  then show ?thesis
  proof cases
    case none
    then have "same_db w w'" "\<exists>e. r = Inl e" using after s same_db_trans by blast+
    then show ?thesis using business_same_db by (auto simp: key_answer_def)
  next
    case (made res v)
    note K = acquire_body_keys[OF made(1)]
    have sb: "same_db w (begin_txn E ?w)" using same_db_begin by (simp add: same_db_iff)
    have "payments_reach (begin_txn E ?w) v" by (rule acquire_body_reach[OF made(1)])
    then have wfv: "payments_wf v" using payments_wf_same_db[OF sb assms(2)] payment_steps_wf
      by (auto simp: payments_reach_def)
    have "business_same (begin_txn E ?w) v"
      using K business_keys_set by (auto simp: keys_set_def)
    then have bw: "business_same w v" using business_same_db[OF sb] business_trans by blast
    have vw: "same_db v w'" using after made same_db_bump(1) same_db_trans by blast
    have b: "business_same w w'" using bw business_same_db[OF vw] business_trans by blast
    from acquire_body_Inr[OF made(1)] obtain row v0 where
      i: "insert_or_find_key (new_key_row hc (hc_now hc + io_lease_ms opt)) (bump (bump (begin_txn E ?w))) = (Inr row, v0)"
      and o: "acquire_outcome (hc_now hc + io_lease_ms opt) hc row v0 res v" by blast
    have key: "idempotency_key row = command_key E (ac_merchant c) (ac_route c) (ac_key c)"
      and row: "row \<in> set (idempotency_keys v0)"
      using insert_or_find_key_Inr[OF i] assms(3)
      by (auto simp: idempotency_key_def new_key_row_def hc_def command_key_def)
    have h: "ik_request_hash row = env_sha256 E (ac_canonical c)"
      using o by (simp add: acquire_outcome_def hc_def)
    show ?thesis
    proof (cases r)
      case (Inl e)
      then show ?thesis using b by (simp add: key_answer_def)
    next
      case (Inr x)
      then have x: "x = res" using after made by auto
      have answer: "key_answer (command_key E (ac_merchant c) (ac_route c) (ac_key c)) r w"
        unfolding key_answer_def
      proof (intro ballI impI disjI2)
        fix k assume k: "k \<in> set (idempotency_keys w)"
          "idempotency_key k = command_key E (ac_merchant c) (ac_route c) (ac_key c)" "ik_state k = Completed"
        have same: "idempotency_keys (bump (bump (begin_txn E ?w))) = idempotency_keys w"
          using same_db_keys[OF sb] by simp
        moreover have "idempotency_key row \<in> idempotency_key ` set (idempotency_keys w)"
          using k(1,2) key by (metis image_eqI)
        ultimately have r: "row \<in> set (idempotency_keys w)"
          using insert_or_find_key_Inr[OF i] by auto
        have "distinct (map idempotency_key (idempotency_keys w))"
          using assms(2) by (simp add: payments_wf_def keys_wf_def)
        from distinct_key_eq[OF this k(1) r] have "k = row" using key k(2) by simp
        then show "\<exists>response. r = Inr (Replay response) \<and> to_stored_response k = Some response"
          using o k(3) Inr x by (auto simp: acquire_outcome_def split: acquire_result.splits)
      qed
      show ?thesis
      proof (cases res)
        case (Replay response)
        with o have f: "ik_state row = Completed" "to_stored_response row = Some response" "v = v0"
          "\<exists>e. ik_expires row = Some e \<and> ac_now c < e" by (auto simp: acquire_outcome_def hc_def)
        then have old: "row \<in> set (idempotency_keys (bump (bump (begin_txn E ?w))))" "v0 = bump (bump (begin_txn E ?w))"
          using insert_or_find_key_Inr[OF i] by (auto simp: new_key_row_def)
        then have "same_db w v0" using sb same_db_trans by (simp add: same_db_iff)
        then have "same_db w w'" using vw f(3) same_db_trans by blast
        moreover have "row \<in> set (idempotency_keys w)" using row same_db_keys[OF \<open>same_db w v0\<close>] by simp
        ultimately show ?thesis using Inr x Replay b f key h answer unfolding response_stored_def by auto
      next
        case (Acquired own)
        have rec: "ow_record own = ik_id row" using o Acquired by (simp add: acquire_outcome_def)
        have "idempotency_key k = idempotency_key row \<and> ik_request_hash k = ik_request_hash row"
          if k: "k \<in> set (idempotency_keys v)" "ik_id k = ik_id row" for k
        proof -
          let ?set = "\<lambda>k. k\<lparr>ik_owner := Some (hc_owner hc), ik_lease := Some (hc_now hc + io_lease_ms opt)\<rparr>"
          have "row \<in> set (idempotency_keys v) \<or> ?set row \<in> set (idempotency_keys v)"
            using o Acquired row by (auto simp: acquire_outcome_def update_where_def)
          then have "\<exists>k' \<in> set (idempotency_keys v). ik_id k' = ik_id row \<and> idempotency_key k' = idempotency_key row \<and>
              ik_request_hash k' = ik_request_hash row"
            by (elim disjE; intro bexI) (auto simp: idempotency_key_def)
          then obtain k' where k': "k' \<in> set (idempotency_keys v)" "ik_id k' = ik_id row"
            "idempotency_key k' = idempotency_key row" "ik_request_hash k' = ik_request_hash row" by blast
          have "distinct (map ik_id (idempotency_keys v))" using wfv by (simp add: payments_wf_def keys_wf_def)
          from distinct_key_eq[OF this k(1) k'(1)] k(2) k'(2) have "k = k'" by simp
          then show ?thesis using k' by simp
        qed
        then have "holds_key own (command_key E (ac_merchant c) (ac_route c) (ac_key c)) (env_sha256 E (ac_canonical c)) v"
          using key h rec by (auto simp: holds_key_def owned_def)
        then show ?thesis using Inr x Acquired b answer holds_key_same_db[OF vw] by simp
      qed
    qed
  qed
qed

end
