(* ===== verification/Payments_Calls.thy ===== *)
theory Payments_Calls imports Payments_Results begin

text \<open>
  The three commands of \<open>PaymentIntentService\<close>, whatever fails: a call throws and no business table
  changes; or it replays the stored response of its key; or the command took its whole effect exactly
  once, with the response that is stored under the key.
\<close>

section \<open>One attempt\<close>

definition business_closed :: "(stored_response \<Rightarrow> 'a payments_world_scheme \<Rightarrow> 'a payments_world_scheme \<Rightarrow> bool) \<Rightarrow> bool" where
  "business_closed Q \<longleftrightarrow> (\<forall>response w w1 w2 w'. business_same w w1 \<longrightarrow> Q response w1 w2 \<longrightarrow> business_same w2 w' \<longrightarrow>
     Q response w w')"

lemma business_closedD:
  "business_closed Q \<Longrightarrow> business_same w w1 \<Longrightarrow> Q response w1 w2 \<Longrightarrow> business_same w2 w' \<Longrightarrow> Q response w w'"
  unfolding business_closed_def by blast

definition effect_once ::
  "env \<Rightarrow> (stored_response \<Rightarrow> 'a payments_world_scheme \<Rightarrow> 'a payments_world_scheme \<Rightarrow> bool) \<Rightarrow>
   string \<times> string \<times> string \<times> string \<Rightarrow> string \<Rightarrow> 'a payments_world_scheme \<Rightarrow> error + json \<Rightarrow>
   'a payments_world_scheme \<Rightarrow> bool" where
  "effect_once E Q key h w r w' \<longleftrightarrow>
     (\<exists>response e. Q response w w' \<and> response_stored key h response e w' \<and>
        (r = Inr (sr_body response) \<or> (\<exists>e. r = Inl e \<and> unacked E e)))"

definition no_effect :: "'a payments_world_scheme \<Rightarrow> error + json \<Rightarrow> 'a payments_world_scheme \<Rightarrow> bool" where
  "no_effect w r w' \<longleftrightarrow> business_same w w' \<and> (\<exists>e. r = Inl e)"

lemma effect_once_after:
  "business_closed Q \<Longrightarrow> business_same w w1 \<Longrightarrow> effect_once E Q key h w1 r w' \<Longrightarrow> effect_once E Q key h w r w'"
  unfolding effect_once_def using business_closedD[OF _ _ _ business_refl] by blast

lemma effect_once_then:
  assumes "business_closed Q" and "Q response w w1" and "response_stored key h response e w1" and "same_db w1 w'"
    and "r = Inr (sr_body response) \<or> (\<exists>e. r = Inl e \<and> unacked E e)"
  shows "effect_once E Q key h w r w'"
  using business_closedD[OF assms(1) business_refl assms(2) business_same_db[OF assms(4)]]
    response_stored_same_db[OF assms(4,3)] assms(5) unfolding effect_once_def by blast

lemma no_effect_after: "business_same w w1 \<Longrightarrow> no_effect w1 r w' \<Longrightarrow> no_effect w r w'"
  unfolding no_effect_def using business_trans by blast

text \<open>One completion of an operation that has the effect \<open>Q\<close>, or reports a problem and has none.\<close>

lemma attempt_cases:
  fixes w :: "'a payments_world_scheme"
  assumes "idempotency_complete E D opt own op w = (r, w')" and "payments_wf w" and "holds_key own key h w"
    and op: "\<And>w response v w'. payments_wf w \<Longrightarrow> op w = (Inr (response, v), w') \<Longrightarrow>
      idempotency_keys w' = idempotency_keys w \<and> (good v response \<and> Q response w w' \<or> bad v \<and> same_db w w')"
    and Q: "business_closed Q"
  shows "(same_db w w' \<and> (\<exists>e. r = Inl e)) \<or>
     (business_same w w' \<and> ((\<exists>v. r = Inr v \<and> bad v) \<or> (\<exists>e. r = Inl e \<and> unacked E e))) \<or>
     (\<exists>v response e. good v response \<and> Q response w w' \<and> response_stored key h response e w' \<and>
        (r = Inr v \<or> (\<exists>e. r = Inl e \<and> unacked E e)))"
proof -
  let ?P = "\<lambda>response v w w'. idempotency_keys w' = idempotency_keys w \<and>
    (good v response \<and> Q response w w' \<or> bad v \<and> same_db w w')"
  from complete_result[OF assms(1,2), of ?P] op
  consider "same_db w w' \<and> (\<exists>e. r = Inl e)" | "completed_once E own ?P w r w'" by blast
  then show ?thesis
  proof cases
    case 2
    then obtain w1 response v w2 t e where
      s: "same_db w w1" and p: "?P response v w1 w2" and
      k: "key_completed own response t e (idempotency_keys w2) (idempotency_keys w')" and
      b: "business_same w2 w'" and r: "r = Inr v \<or> (\<exists>e. r = Inl e \<and> unacked E e)"
      unfolding completed_once_def by blast
    note bw = business_same_db[OF s]
    show ?thesis
    proof (cases "good v response \<and> Q response w1 w2")
      case True
      have "holds_key own key h w1" by (rule holds_key_same_db[OF s assms(3)])
      moreover have "key_completed own response t e (idempotency_keys w1) (idempotency_keys w')" using k p by simp
      ultimately have "response_stored key h response e w'" by (intro completed_stored)
      then show ?thesis using business_closedD[OF Q bw _ b] True r by blast
    next
      case False
      then have "bad v" "business_same w1 w2" using p business_same_db by blast+
      then have "business_same w w'" using bw b business_trans by blast
      then show ?thesis using \<open>bad v\<close> r by blast
    qed
  qed blast
qed

lemma problem_business:
  fixes w :: "'a payments_world_scheme"
  assumes "complete_problem E opt own e rid w = (r, w')" and "payments_wf w"
  shows "business_same w w'"
proof -
  from complete_result[OF assms(1)[unfolded complete_problem_def] assms(2), of "\<lambda>_ _ w w'. w' = w"]
  have "same_db w w' \<or> (\<exists>w1. same_db w w1 \<and> business_same w1 w')"
    unfolding completed_once_def by (auto simp: comp_simps)
  then show ?thesis using business_same_db business_trans by blast
qed

text \<open>An error of the infrastructure is none that the services treat specially.\<close>

lemma unacked_not_special:
  assumes "unacked E e"
  shows "\<not> is_retryable_collision e" "e \<noteq> PaymentsE x" "e \<noteq> EventingE y"
  using assms by (auto simp: unacked_def infra_error_def is_retryable_collision_def)

lemma observe_and_throw_eq:
  "observe_and_throw ob e w = (r, w') \<longleftrightarrow> r = Inl e \<and> w' = w\<lparr>observed := observed w @ [ob]\<rparr>"
  by (auto simp: observe_and_throw_def observe_def bindc_def throw_def modify_def)

lemma observed_same [simp]: "same_db w (w\<lparr>observed := obs\<rparr>)"
  by (simp add: same_db_iff)

lemma bindc_step:
  "m w = (Inr x, w1) \<Longrightarrow> bindc m f w = f x w1"
  "m w = (Inl e, w1) \<Longrightarrow> bindc m f w = (Inl e, w1)"
  by (simp_all add: bindc_def)

lemma catch_step:
  "m w = (Inr x, w1) \<Longrightarrow> catch m h w = (Inr x, w1)"
  "m w = (Inl e, w1) \<Longrightarrow> catch m h w = h e w1"
  by (simp_all add: catch_def)

section \<open>Create\<close>

definition create_response ::
  "payment_command \<Rightarrow> stored_response \<Rightarrow> 'a payments_world_scheme \<Rightarrow> 'a payments_world_scheme \<Rightarrow> bool" where
  "create_response command response w w' \<longleftrightarrow>
     (\<exists>p ev rec. created_effect p ev w w' \<and> to_record p = Inr rec \<and>
        pi_merchant p = pc_merchant command \<and> pi_ref p = vf_ref command \<and>
        pi_amount p = vf_amount command \<and> pi_currency p = vf_currency command \<and> de_request ev = pc_request command \<and>
        response = created_response (JObj (to_representation rec)) (pi_public_id p) 201)"

lemma create_response_closed: "business_closed (create_response command)"
  unfolding business_closed_def create_response_def using effects_business(1) by blast

lemma create_attempts_result:
  fixes w :: "'a payments_world_scheme"
  assumes "create_attempts n E opt command own w = (r, w')" and "payments_wf w" and "holds_key own key h w"
  shows "no_effect w r w' \<or> effect_once E (create_response command) key h w r w'"
  using assms
proof (induction n arbitrary: w)
  case 0
  then show ?case by (auto simp: throw_def no_effect_def)
next
  case (Suc n)
  note closed = create_response_closed[of command]
  obtain t w0 where t: "read_clock E w = (Inr t :: error + int, w0)" "same_db w w0" by (simp add: read_clock_def)
  obtain u w1 where u: "new_ulid E t w0 = (Inr u :: error + string, w1)" "same_db w0 w1" by (simp add: new_ulid_def)
  let ?inp = "\<lparr>pci_amount = vf_amount command, pci_currency = vf_currency command,
        pci_merchant = pc_merchant command, pci_payment = ''pi_'' @ u, pci_request = pc_request command\<rparr>"
  obtain rev w2 where ev: "create_payment_created_event E ?inp t w1 = (rev, w2)" by fastforce
  have s2: "same_db w1 w2"
    using ev by (auto simp: create_payment_created_event_def event_id_def bindc_def from_sum_def ok_def new_ulid_def
        throw_def require_def split: sum.splits if_splits prod.splits)
  note start = Suc.prems(1)[unfolded create_attempts.simps 
      bindc_step(1)[of "read_clock E", OF t(1)] bindc_step(1)[of "new_ulid E t", OF u(1)] Let_def]
  have s: "same_db w w2" using t(2) u(2) s2 same_db_trans by blast
  note bw = business_same_db[OF s]
  have wf: "payments_wf w2" using s Suc.prems(2) by (rule payments_wf_same_db)
  have hk: "holds_key own key h w2" using s Suc.prems(3) by (rule holds_key_same_db)
  show ?case
  proof (cases rev)
    case (Inl e)
    then have "r = Inl e" "w' = w2"
      using start[unfolded bindc_step(2)[of "create_payment_created_event E ?inp t", OF ev[unfolded Inl]]] by simp_all
    then show ?thesis using bw by (simp add: no_effect_def)
  next
    case (Inr event)
    note cev = created_event_of[OF ev[unfolded Inr]]
    obtain rc w3 where c: "idempotency_complete E ledger_deferred opt own (create_operation E command (''pi_'' @ u) event) w2 = (rc, w3)"
      by fastforce
    have op: "idempotency_keys v' = idempotency_keys v \<and>
        (x = sr_body response \<and> create_response command response v v' \<or> False \<and> same_db v v')"
      if "create_operation E command (''pi_'' @ u) event v = (Inr (response, x), v')"
      for v v' :: "'a payments_world_scheme" and response x
    proof -
      from create_operation_Inr[OF that] cev obtain p rec where
        "created_effect p event v v'" "idempotency_keys v' = idempotency_keys v" "to_record p = Inr rec"
        "pi_public_id p = ''pi_'' @ u" "pi_merchant p = pc_merchant command" "pi_ref p = vf_ref command"
        "x = JObj (to_representation rec)" "response = created_response x (''pi_'' @ u) 201" by auto
      then show ?thesis
        using cev unfolding create_response_def created_effect_def
        by (auto simp: created_response_def intro!: exI[of _ p] exI[of _ event] exI[of _ rec])
    qed
    let ?handle = "\<lambda>e. if e = PaymentsE ExternalReferenceConflictError
            then bindc (complete_problem E opt own e (pc_request command)) (\<lambda>_. throw e)
            else if e = PaymentsE PaymentIdentifierCollisionError \<or> e = EventingE EventIdentifierCollisionError
            then (if 0 < n then create_attempts n E opt command own
                  else throw (PaymentsE IdentifierGenerationExhaustedError))
            else throw e"
    have run: "(case rc of Inl e \<Rightarrow> ?handle e w3 | Inr x \<Rightarrow> (Inr x, w3)) = (r, w')"
      using start[unfolded bindc_step(1)[of "create_payment_created_event E ?inp t", OF ev[unfolded Inr]] catch_def] c by (simp split: sum.splits)
    from attempt_cases[OF c wf hk, where good = "\<lambda>x response. x = sr_body response" and bad = "\<lambda>_. False",
        OF op closed]
    consider (lost) e where "rc = Inl e" "unacked E e" "business_same w2 w3"
      | (none) e where "rc = Inl e" "same_db w2 w3"
      | (made) response e where "create_response command response w2 w3" "response_stored key h response e w3"
          "rc = Inr (sr_body response) \<or> (\<exists>e. rc = Inl e \<and> unacked E e)" by blast
    then have "no_effect w2 r w' \<or> effect_once E (create_response command) key h w2 r w'"
    proof cases
      case (lost e)
      then have "r = Inl e" "w' = w3" using run unacked_not_special[OF lost(2)] by (simp_all add: throw_def)
      then show ?thesis using lost(3) by (simp add: no_effect_def)
    next
      case (none e)
      have wf3: "payments_wf w3" and hk3: "holds_key own key h w3"
        using payments_wf_same_db[OF none(2) wf] holds_key_same_db[OF none(2) hk] .
      note b3 = business_same_db[OF none(2)]
      from run none(1) consider
          "bindc (complete_problem E opt own e (pc_request command)) (\<lambda>_. throw e) w3 = (r, w')"
        | "create_attempts n E opt command own w3 = (r, w')"
        | "w' = w3" "\<exists>e. r = Inl e"
        by (auto simp: throw_def split: if_splits)
      then show ?thesis
      proof cases
        case 1
        then obtain rp w4 where p: "complete_problem E opt own e (pc_request command) w3 = (rp, w4)" "w' = w4" "\<exists>e. r = Inl e"
          by (auto simp: bindc_def throw_def split: prod.splits sum.splits)
        from problem_business[OF p(1) wf3] p b3 show ?thesis
          using business_trans unfolding no_effect_def by blast
      next
        case 2
        from Suc.IH[OF this wf3 hk3] show ?thesis
          using no_effect_after[OF b3] effect_once_after[OF closed b3] by blast
      next
        case 3
        then show ?thesis using b3 by (simp add: no_effect_def)
      qed
    next
      case (made response e)
      from made(3) have "w' = w3" "r = Inr (sr_body response) \<or> (\<exists>e. r = Inl e \<and> unacked E e)"
        using run unacked_not_special by (auto simp: throw_def)
      then show ?thesis using made(1,2) unfolding effect_once_def by blast
    qed
    then show ?thesis using no_effect_after[OF bw] effect_once_after[OF closed bw] by blast
  qed
qed

section \<open>Capture\<close>

definition capture_response ::
  "payment_id_command \<Rightarrow> stored_response \<Rightarrow> 'a payments_world_scheme \<Rightarrow> 'a payments_world_scheme \<Rightarrow> bool" where
  "capture_response command response w w' \<longleftrightarrow>
     (\<exists>p q inp ev updated. captured_effect p q inp ev w w' \<and> to_record q = Inr updated \<and>
        pi_merchant p = cc_merchant command \<and> pi_public_id p = cc_payment command \<and>
        pi_amount p = vf_amount command \<and> pi_currency p = vf_currency command \<and>
        response = created_response (captured_representation updated (cp_public_id inp)) (cc_payment command) 200)"

lemma capture_response_closed: "business_closed (capture_response command)"
  unfolding business_closed_def capture_response_def using effects_business(2) by blast

lemma payments_wf_ids: "payments_wf w \<Longrightarrow> distinct (map pi_id (payment_intents w))"
  by (simp add: payments_wf_def payments_table_wf_def)

lemma created_response_body [simp]: "sr_body (created_response body ref status) = body"
  by (simp add: created_response_def)

lemma capture_error_final: "capture_error found command = Some e \<Longrightarrow> \<not> is_retryable_collision e"
  by (cases found) (auto simp: is_retryable_collision_def split: if_splits)

lemma capture_attempts_result:
  fixes w :: "'a payments_world_scheme"
  assumes "capture_attempts n E opt command own w = (r, w')" and "payments_wf w" and "holds_key own key h w"
  shows "no_effect w r w' \<or> effect_once E (capture_response command) key h w r w'"
  using assms
proof (induction n arbitrary: w)
  case 0
  then show ?case by (auto simp: throw_def no_effect_def)
next
  case (Suc n)
  note closed = capture_response_closed[of command]
  obtain rc w1 where c: "idempotency_complete E ledger_deferred opt own (capture_operation E command) w = (rc, w1)"
    by fastforce
  let ?good = "\<lambda>v response. \<exists>tx. v = Done (sr_body response, tx)"
  let ?bad = "\<lambda>v. \<exists>e found. v = Failed e \<and> capture_error found command = Some e"
  have op: "idempotency_keys v' = idempotency_keys v \<and>
      (?good x response \<and> capture_response command response v v' \<or> ?bad x \<and> same_db v v')"
    if wf: "payments_wf v" and o: "capture_operation E command v = (Inr (response, x), v')"
    for v v' :: "'a payments_world_scheme" and response x
    using capture_operation_Inr[OF o payments_wf_ids[OF wf]] same_db_payments[of v v']
    unfolding capture_response_def by auto
  let ?ob = "\<lambda>tx. (''ledgerTransactionId'', tx) # success_observation ''capture'' ''committed'' (cc_merchant command)
        (cc_payment command) (cc_request command)"
  let ?handle = "\<lambda>e. if is_retryable_collision e
            then (if 0 < n then capture_attempts n E opt command own
                  else observe_and_throw
                         (capture_rejected command (PaymentsE IdentifierGenerationExhaustedError))
                         (PaymentsE IdentifierGenerationExhaustedError))
            else observe_and_throw (capture_rejected command e) e"
  have run: "(case rc of Inl e \<Rightarrow> ?handle e w1
      | Inr (Failed e) \<Rightarrow> ?handle e w1
      | Inr (Done (response, tx)) \<Rightarrow> (Inr response, w1\<lparr>observed := observed w1 @ [?ob tx]\<rparr>)) = (r, w')"
    using Suc.prems(1)[unfolded capture_attempts.simps bindc_def[of "idempotency_complete _ _ _ _ _"] catch_def] c
    by (auto simp: from_sum_def bindc_def throw_def ok_def observe_def modify_def split: sum.splits command_result.splits prod.splits)
  from attempt_cases[OF c Suc.prems(2,3), where good = ?good and bad = ?bad, OF op closed]
  consider (none) e where "rc = Inl e" "same_db w w1"
    | (failed) e found where "business_same w w1" "rc = Inr (Failed e)" "capture_error found command = Some e"
    | (lost) e where "rc = Inl e" "unacked E e" "business_same w w1"
    | (made) response tx e where "capture_response command response w w1" "response_stored key h response e w1"
        "rc = Inr (Done (sr_body response, tx)) \<or> (\<exists>e. rc = Inl e \<and> unacked E e)" by blast
  then show ?case
  proof cases
    case (none e)
    note b = business_same_db[OF none(2)]
    from run none(1) consider "capture_attempts n E opt command own w1 = (r, w')"
      | "same_db w1 w'" "\<exists>e. r = Inl e"
      by (auto simp: observe_and_throw_eq split: if_splits)
    then show ?thesis
    proof cases
      case 1
      from Suc.IH[OF this payments_wf_same_db[OF none(2) Suc.prems(2)] holds_key_same_db[OF none(2) Suc.prems(3)]]
      show ?thesis using no_effect_after[OF b] effect_once_after[OF closed b] by blast
    next
      case 2
      then show ?thesis using b business_trans business_same_db unfolding no_effect_def by blast
    qed
  next
    case (failed e found)
    then have "same_db w1 w'" "r = Inl e" using run capture_error_final[OF failed(3)]
      by (auto simp: observe_and_throw_eq)
    then show ?thesis using failed(1) business_trans business_same_db unfolding no_effect_def by blast
  next
    case (lost e)
    then have "same_db w1 w'" "r = Inl e" using run unacked_not_special[OF lost(2)]
      by (auto simp: observe_and_throw_eq)
    then show ?thesis using lost(3) business_trans business_same_db unfolding no_effect_def by blast
  next
    case (made response tx e)
    from made(3) have "same_db w1 w'" "r = Inr (sr_body response) \<or> (\<exists>e. r = Inl e \<and> unacked E e)"
      using run unacked_not_special by (auto simp: observe_and_throw_eq)
    then show ?thesis using effect_once_then[OF closed made(1,2)] by blast
  qed
qed

section \<open>Refund\<close>

definition refund_response ::
  "refund_payment_command \<Rightarrow> stored_response \<Rightarrow> 'a payments_world_scheme \<Rightarrow> 'a payments_world_scheme \<Rightarrow> bool" where
  "refund_response command response w w' \<longleftrightarrow>
     (\<exists>p q f inp ev refund updated. refunded_effect p q f inp ev w w' \<and> to_record q = Inr updated \<and>
        refund_record_of f = Inr refund \<and>
        pi_merchant p = rp_merchant command \<and> pi_public_id p = rp_payment command \<and>
        rf_amount f = vf_amount command \<and> rf_ref f = vf_ref command \<and> pi_currency p = vf_currency command \<and>
        vf_amount command \<le> pi_captured p - pi_refunded p \<and>
        response = created_response (refund_representation refund updated (cp_public_id inp)) (rf_public_id f) 201)"

lemma refund_response_closed: "business_closed (refund_response command)"
  unfolding business_closed_def refund_response_def using effects_business(3) by blast

lemma refund_error_final: "refund_error found command = Some e \<Longrightarrow> \<not> is_retryable_collision e \<and>
     e \<noteq> PaymentsE RefundExternalReferenceConflictError \<and> e \<noteq> PaymentsE RefundIdentifierCollisionError"
  by (cases found) (auto simp: is_retryable_collision_def split: if_splits)

lemma refund_attempts_result:
  fixes w :: "'a payments_world_scheme"
  assumes "refund_attempts n E opt command own w = (r, w')" and "payments_wf w" and "holds_key own key h w"
  shows "no_effect w r w' \<or> effect_once E (refund_response command) key h w r w'"
  using assms
proof (induction n arbitrary: w)
  case 0
  then show ?case by (auto simp: throw_def no_effect_def)
next
  case (Suc n)
  note closed = refund_response_closed[of command]
  obtain t w0 where t: "read_clock E w = (Inr t :: error + int, w0)" "same_db w w0" by (simp add: read_clock_def)
  obtain u w2 where u: "new_ulid E t w0 = (Inr u :: error + string, w2)" "same_db w0 w2" by (simp add: new_ulid_def)
  let ?op = "refund_operation E command (''rf_'' @ u)"
  obtain rc w1 where c: "idempotency_complete E ledger_deferred opt own ?op w2 = (rc, w1)"
    by fastforce
  have s: "same_db w w2" using t(2) u(2) same_db_trans by blast
  note bw = business_same_db[OF s]
  have wf: "payments_wf w2" using s Suc.prems(2) by (rule payments_wf_same_db)
  have hk: "holds_key own key h w2" using s Suc.prems(3) by (rule holds_key_same_db)
  let ?good = "\<lambda>v response. \<exists>i tx. v = Done (sr_body response, i, tx)"
  let ?bad = "\<lambda>v. \<exists>e found. v = Failed e \<and> refund_error found command = Some e"
  have op: "idempotency_keys v' = idempotency_keys v \<and>
      (?good x response \<and> refund_response command response v v' \<or> ?bad x \<and> same_db v v')"
    if wf: "payments_wf v" and o: "refund_operation E command (''rf_'' @ u) v = (Inr (response, x), v')"
    for v v' :: "'a payments_world_scheme" and response x
    using refund_operation_Inr[OF o payments_wf_ids[OF wf]] same_db_payments[of v v']
    unfolding refund_response_def by (metis created_response_body)
  let ?ob = "\<lambda>tx i. (''ledgerTransactionId'', tx) # (''refundId'', i) # success_observation ''refund'' ''committed'' (rp_merchant command)
        (rp_payment command) (rp_request command)"
  let ?handle = "\<lambda>e. if e = PaymentsE RefundExternalReferenceConflictError
            then bindc (complete_problem E opt own e (rp_request command)) (\<lambda>_.
                 observe_and_throw (refund_rejected command e) e)
            else if e = PaymentsE RefundIdentifierCollisionError \<or> is_retryable_collision e
            then (if 0 < n then refund_attempts n E opt command own
                  else observe_and_throw
                         (refund_rejected command (PaymentsE IdentifierGenerationExhaustedError))
                         (PaymentsE IdentifierGenerationExhaustedError))
            else observe_and_throw (refund_rejected command e) e"
  have run: "(case rc of Inl e \<Rightarrow> ?handle e w1
      | Inr (Failed e) \<Rightarrow> ?handle e w1
      | Inr (Done (response, i, tx)) \<Rightarrow> (Inr response, w1\<lparr>observed := observed w1 @ [?ob tx i]\<rparr>)) = (r, w')"
    using Suc.prems(1)[unfolded refund_attempts.simps bindc_step(1)[of "read_clock E", OF t(1)]
        bindc_step(1)[of "new_ulid E t", OF u(1)] Let_def bindc_def[of "idempotency_complete _ _ _ _ _"] catch_def] c
    by (auto simp: from_sum_def bindc_def throw_def ok_def observe_def modify_def split: sum.splits command_result.splits prod.splits)
  from attempt_cases[OF c wf hk, where good = ?good and bad = ?bad, OF op closed]
  consider (none) e where "rc = Inl e" "same_db w2 w1"
    | (failed) e found where "business_same w2 w1" "rc = Inr (Failed e)" "refund_error found command = Some e"
    | (lost) e where "rc = Inl e" "unacked E e" "business_same w2 w1"
    | (made) response i tx e where "refund_response command response w2 w1" "response_stored key h response e w1"
        "rc = Inr (Done (sr_body response, i, tx)) \<or> (\<exists>e. rc = Inl e \<and> unacked E e)" by blast
  then have "no_effect w2 r w' \<or> effect_once E (refund_response command) key h w2 r w'"
  proof cases
    case (none e)
    note b = business_same_db[OF none(2)]
    have wf1: "payments_wf w1" and hk1: "holds_key own key h w1"
      using payments_wf_same_db[OF none(2) wf] holds_key_same_db[OF none(2) hk] .
    from run none(1) consider
        "bindc (complete_problem E opt own e (rp_request command)) (\<lambda>_. observe_and_throw (refund_rejected command e) e) w1 = (r, w')"
      | "refund_attempts n E opt command own w1 = (r, w')"
      | "same_db w1 w'" "\<exists>e. r = Inl e"
      by (auto simp: observe_and_throw_eq split: if_splits)
    then show ?thesis
    proof cases
      case 1
      then obtain rp w4 where p: "complete_problem E opt own e (rp_request command) w1 = (rp, w4)" "same_db w4 w'" "\<exists>e. r = Inl e"
        by (auto simp: bindc_def observe_and_throw_eq split: prod.splits sum.splits)
      from problem_business[OF p(1) wf1] p(2,3) b show ?thesis
        using business_trans business_same_db unfolding no_effect_def by blast
    next
      case 2
      from Suc.IH[OF this wf1 hk1]
      show ?thesis using no_effect_after[OF b] effect_once_after[OF closed b] by blast
    next
      case 3
      then show ?thesis using b business_trans business_same_db unfolding no_effect_def by blast
    qed
  next
    case (failed e found)
    then have "same_db w1 w'" "r = Inl e" using run refund_error_final[OF failed(3)]
      by (auto simp: observe_and_throw_eq)
    then show ?thesis using failed(1) business_trans business_same_db unfolding no_effect_def by blast
  next
    case (lost e)
    then have "same_db w1 w'" "r = Inl e" using run unacked_not_special[OF lost(2)]
      by (auto simp: observe_and_throw_eq)
    then show ?thesis using lost(3) business_trans business_same_db unfolding no_effect_def by blast
  next
    case (made response i tx e)
    from made(3) have "same_db w1 w'" "r = Inr (sr_body response) \<or> (\<exists>e. r = Inl e \<and> unacked E e)"
      using run unacked_not_special by (auto simp: observe_and_throw_eq)
    then show ?thesis using effect_once_then[OF closed made(1,2)] by blast
  qed
  then show ?case using no_effect_after[OF bw] effect_once_after[OF closed bw] by blast
qed


section \<open>Whole calls\<close>

definition replayed ::
  "string \<times> string \<times> string \<times> string \<Rightarrow> string \<Rightarrow> 'a payments_world_scheme \<Rightarrow> error + json \<Rightarrow>
   'a payments_world_scheme \<Rightarrow> bool" where
  "replayed key h w r w' \<longleftrightarrow> business_same w w' \<and>
     (\<exists>response e. response_stored key h response e w \<and> r = Inr (sr_body response))"

definition call_outcome ::
  "env \<Rightarrow> (stored_response \<Rightarrow> 'a payments_world_scheme \<Rightarrow> 'a payments_world_scheme \<Rightarrow> bool) \<Rightarrow>
   string \<times> string \<times> string \<times> string \<Rightarrow> string \<Rightarrow> 'a payments_world_scheme \<Rightarrow> error + json \<Rightarrow>
   'a payments_world_scheme \<Rightarrow> bool" where
  "call_outcome E Q key h w r w' \<longleftrightarrow> no_effect w r w' \<or> replayed key h w r w' \<or> effect_once E Q key h w r w'"

text \<open>What a call does once its key is completed.\<close>

definition repeats ::
  "string \<times> string \<times> string \<times> string \<Rightarrow> 'a payments_world_scheme \<Rightarrow> error + json \<Rightarrow> 'a payments_world_scheme \<Rightarrow> bool" where
  "repeats key w r w' \<longleftrightarrow> (\<forall>k \<in> set (idempotency_keys w). idempotency_key k = key \<longrightarrow> ik_state k = Completed \<longrightarrow>
     business_same w w' \<and>
     ((\<exists>e. r = Inl e) \<or> (\<exists>response. to_stored_response k = Some response \<and> r = Inr (sr_body response))))"

definition continues ::
  "env \<Rightarrow> (stored_response \<Rightarrow> 'a payments_world_scheme \<Rightarrow> 'a payments_world_scheme \<Rightarrow> bool) \<Rightarrow>
   string \<times> string \<times> string \<times> string \<Rightarrow> string \<Rightarrow> error + acquire_result \<Rightarrow> 'a payments_world_scheme \<Rightarrow>
   error + json \<Rightarrow> 'a payments_world_scheme \<Rightarrow> bool" where
  "continues E Q key h ra w1 r w' \<longleftrightarrow>
     (case ra of Inl e \<Rightarrow> r = Inl e \<and> w' = w1
      | Inr (Replay response) \<Rightarrow> same_db w1 w' \<and> (r = Inr (sr_body response) \<or> (\<exists>e. r = Inl e))
      | Inr (Acquired own) \<Rightarrow> payments_wf w1 \<longrightarrow> holds_key own key h w1 \<longrightarrow>
          no_effect w1 r w' \<or> effect_once E Q key h w1 r w')"

lemma keyed_result:
  fixes w :: "'a payments_world_scheme"
  assumes a: "idempotency_acquire E ledger_deferred opt c w = (ra, w1)" and wf: "payments_wf w" and m: "ac_method c = ''POST''"
    and closed: "business_closed Q"
    and rest: "continues E Q (command_key E (ac_merchant c) (ac_route c) (ac_key c)) (env_sha256 E (ac_canonical c)) ra w1 r w'"
  shows "call_outcome E Q (command_key E (ac_merchant c) (ac_route c) (ac_key c)) (env_sha256 E (ac_canonical c)) w r w' \<and>
    repeats (command_key E (ac_merchant c) (ac_route c) (ac_key c)) w r w'"
proof -
  let ?key = "command_key E (ac_merchant c) (ac_route c) (ac_key c)" and ?h = "env_sha256 E (ac_canonical c)"
  note A = acquire_result[OF a wf m]
  have b: "business_same w w1" and ans: "key_answer ?key ra w" using A by auto
  have "payments_reach w w1" using within_acquire a by (rule withinD)
  then have wf1: "payments_wf w1" using wf payment_steps_wf by (auto simp: payments_reach_def)
  consider (fail) e where "ra = Inl e" | (replay) response where "ra = Inr (Replay response)"
    | (own) own where "ra = Inr (Acquired own)" by (metis acquire_result.exhaust sum.exhaust)
  then show ?thesis
  proof cases
    case (fail e)
    then show ?thesis using rest b by (simp add: continues_def call_outcome_def no_effect_def repeats_def)
  next
    case (replay response)
    have s: "same_db w1 w'" and r: "r = Inr (sr_body response) \<or> (\<exists>e. r = Inl e)"
      using rest replay by (simp_all add: continues_def)
    have b': "business_same w w'" using b business_same_db[OF s] business_trans by blast
    obtain e where "response_stored ?key ?h response e w" using A replay by auto
    then show ?thesis using r b' ans replay
      unfolding call_outcome_def no_effect_def replayed_def repeats_def key_answer_def by auto
  next
    case (own own)
    have "no_effect w1 r w' \<or> effect_once E Q ?key ?h w1 r w'"
      using rest own A wf1 by (simp add: continues_def)
    moreover have "repeats ?key w r w'" using ans own by (simp add: key_answer_def repeats_def)
    ultimately show ?thesis
      using no_effect_after[OF b] effect_once_after[OF closed b] unfolding call_outcome_def by blast
  qed
qed

lemma keyed_after:
  assumes s: "same_db w w1" and "call_outcome E Q key h w1 r w' \<and> repeats key w1 r w'" and "business_closed Q"
  shows "call_outcome E Q key h w r w' \<and> repeats key w r w'"
proof -
  note b = business_same_db[OF s]
  have "replayed key h w r w'" if "replayed key h w1 r w'"
    using that b business_trans same_db_keys[OF s] unfolding replayed_def response_stored_def by metis
  moreover have "repeats key w r w'"
    using assms(2) b business_trans same_db_keys[OF s] unfolding repeats_def by metis
  ultimately show ?thesis
    using assms(2) no_effect_after[OF b] effect_once_after[OF assms(3) b] unfolding call_outcome_def by blast
qed

definition create_key :: "env \<Rightarrow> payment_command \<Rightarrow> string \<times> string \<times> string \<times> string" where
  "create_key E command = command_key E (pc_merchant command) ''/v1/payment-intents'' (pc_key command)"

definition capture_key :: "env \<Rightarrow> payment_id_command \<Rightarrow> string \<times> string \<times> string \<times> string" where
  "capture_key E command = command_key E (cc_merchant command) ''/v1/payment-intents/{id}/capture'' (cc_key command)"

definition refund_key :: "env \<Rightarrow> refund_payment_command \<Rightarrow> string \<times> string \<times> string \<times> string" where
  "refund_key E command = command_key E (rp_merchant command) ''/v1/payment-intents/{id}/refunds'' (rp_key command)"

lemma create_payment_outcome:
  fixes w :: "'a payments_world_scheme"
  assumes c: "create_payment E opt command w = (r, w')" and wf: "payments_wf w"
  shows "call_outcome E (create_response command) (create_key E command) (env_sha256 E (canonical_create_command command)) w r w' \<and>
    repeats (create_key E command) w r w'"
proof -
  obtain t w0 where t: "read_clock E w = (Inr t :: error + int, w0)" "same_db w w0" by (simp add: read_clock_def)
  let ?c = "\<lparr>ac_canonical = canonical_create_command command, ac_key = pc_key command,
        ac_merchant = pc_merchant command, ac_now = t, ac_route = ''/v1/payment-intents'',
        ac_method = ''POST''\<rparr>"
  obtain ra w1 where a: "idempotency_acquire E ledger_deferred opt ?c w0 = (ra, w1)" by fastforce
  have wf0: "payments_wf w0" using t(2) wf by (rule payments_wf_same_db)
  have run: "(case ra of Inl e \<Rightarrow> (Inl e, w1)
      | Inr (Replay response) \<Rightarrow>
         (if sr_status response = 409 then (Inl (PaymentsE ExternalReferenceConflictError), w1)
          else if sr_status response \<noteq> 201 \<or> \<not> is_payment_intent_representation (sr_body response)
          then (Inl (PlainE ''Stored idempotency response is outside the Payment Intent contract''), w1)
          else (Inr (sr_body response), w1))
      | Inr (Acquired own) \<Rightarrow> create_attempts max_identifier_attempts E opt command own w1) = (r, w')"
    using c[unfolded create_payment_def bindc_step(1)[of "read_clock E", OF t(1)] bindc_def[of "idempotency_acquire _ _ _ _"]] a
    by (cases ra; cases "projr ra") (simp_all add: run_if throw_def ok_def cong: if_cong)
  have rest: "continues E (create_response command) (create_key E command) (env_sha256 E (canonical_create_command command)) ra w1 r w'"
    using run create_attempts_result[of max_identifier_attempts E opt command _ w1 r w']
    by (auto simp: continues_def create_key_def split: sum.splits acquire_result.splits if_splits)
  from keyed_after[OF t(2) keyed_result[OF a wf0 _ create_response_closed] create_response_closed] rest
  show ?thesis by (simp add: create_key_def)
qed

text \<open>The provider is asked between the acquisition and the command; its refusal completes the key.\<close>

lemma provider_business:
  fixes w :: "'a payments_world_scheme"
  assumes "execute_provider E opt operation own rid w = (r, w')" and "payments_wf w"
  shows "business_same w w' \<and> (\<forall>u. r = Inr u \<longrightarrow> same_db w w' \<and> operation (tick w) = Some Approved)"
proof (cases "operation (tick w) = Some Declined")
  case True
  then have "bindc (complete_problem E opt own (PaymentsE PaymentProviderDeclinedError) rid)
      (\<lambda>_. throw (PaymentsE PaymentProviderDeclinedError)) (bump w) = (r, w')"
    using assms(1) by (simp add: execute_provider_def)
  then obtain rp w1 where p: "complete_problem E opt own (PaymentsE PaymentProviderDeclinedError) rid (bump w) = (rp, w1)"
    "w' = w1" "\<forall>u. r \<noteq> Inr u"
    by (auto simp: bindc_def throw_def split: prod.splits sum.splits)
  have s: "same_db w (bump w)" by simp
  have "business_same (bump w) w'" using problem_business[OF p(1) payments_wf_same_db[OF s assms(2)]] p(2) by simp
  then show ?thesis using business_same_db[OF s] business_trans p(3) by blast
next
  case False
  then have "w' = bump w \<and> (\<forall>u. r = Inr u \<longrightarrow> operation (tick w) = Some Approved)"
    using assms(1) by (auto simp: execute_provider_def throw_def ok_def split: option.splits execution_result.splits)
  then show ?thesis using business_same_db[of w "bump w"] by simp
qed

definition approved ::
  "(nat \<Rightarrow> execution_result option) \<Rightarrow>
   (stored_response \<Rightarrow> 'a payments_world_scheme \<Rightarrow> 'a payments_world_scheme \<Rightarrow> bool) \<Rightarrow>
   stored_response \<Rightarrow> 'a payments_world_scheme \<Rightarrow> 'a payments_world_scheme \<Rightarrow> bool" where
  "approved operation Q response w w' \<longleftrightarrow> (\<exists>n. operation n = Some Approved) \<and> Q response w w'"

lemma approved_closed: "business_closed Q \<Longrightarrow> business_closed (approved operation Q)"
  unfolding business_closed_def approved_def by blast

lemma approved_once: "operation n = Some Approved \<Longrightarrow> effect_once E Q key h w r w' \<Longrightarrow> effect_once E (approved operation Q) key h w r w'"
  unfolding effect_once_def approved_def by blast

lemma provider_then:
  fixes w :: "'a payments_world_scheme"
  assumes run: "bindc (catch (execute_provider E opt operation own rid) (\<lambda>e. observe_and_throw (ob e) e)) (\<lambda>_. m) w = (r, w')"
    and wf: "payments_wf w" and hk: "holds_key own key h w" and closed: "business_closed Q"
    and m: "\<And>w1. payments_wf w1 \<Longrightarrow> holds_key own key h w1 \<Longrightarrow> m w1 = (r, w') \<Longrightarrow>
      no_effect w1 r w' \<or> effect_once E Q key h w1 r w'"
  shows "no_effect w r w' \<or> effect_once E (approved operation Q) key h w r w'"
proof -
  obtain rp w1 where p: "execute_provider E opt operation own rid w = (rp, w1)" by fastforce
  note P = provider_business[OF p wf]
  show ?thesis
  proof (cases rp)
    case (Inl e)
    then have "r = Inl e" "same_db w1 w'" using run p
      by (auto simp: bindc_def catch_def observe_and_throw_def observe_def modify_def throw_def)
    then show ?thesis using P business_trans business_same_db unfolding no_effect_def by blast
  next
    case (Inr u)
    then have "m w1 = (r, w')" and s: "same_db w w1" and ok: "operation (tick w) = Some Approved"
      using run p P by (simp_all add: bindc_def catch_def)
    from m[OF payments_wf_same_db[OF s wf] holds_key_same_db[OF s hk] this(1)] ok show ?thesis
      using no_effect_after[OF business_same_db[OF s]] effect_once_after[OF closed business_same_db[OF s]] 
        approved_once[of operation, OF ok] by blast
  qed
qed

lemma capture_payment_outcome:
  fixes w :: "'a payments_world_scheme"
  assumes c: "capture_payment E opt port command w = (r, w')" and wf: "payments_wf w"
  shows "call_outcome E
      (approved (xp_capture port \<lparr>xc_amount = vf_amount command, xc_currency = vf_currency command, xc_payment = cc_payment command\<rparr>)
        (capture_response command))
      (capture_key E command) (env_sha256 E (canonical_capture_command command)) w r w' \<and>
    repeats (capture_key E command) w r w'"
proof (cases "assert_valid_payment_intent_id (cc_payment command)")
  case (Inl e)
  then have "r = Inl e" "w' = w" using c by (simp_all add: capture_payment_def from_sum_def bindc_def)
  then show ?thesis by (simp add: call_outcome_def no_effect_def repeats_def)
next
  case (Inr u)
  let ?op = "xp_capture port \<lparr>xc_amount = vf_amount command, xc_currency = vf_currency command, xc_payment = cc_payment command\<rparr>"
  let ?Q = "approved ?op (capture_response command)"
  note closed = approved_closed[OF capture_response_closed, of ?op command]
  obtain t w0 where t: "read_clock E w = (Inr t :: error + int, w0)" "same_db w w0" by (simp add: read_clock_def)
  let ?c = "\<lparr>ac_canonical = canonical_capture_command command, ac_key = cc_key command,
        ac_merchant = cc_merchant command, ac_now = t,
        ac_route = ''/v1/payment-intents/{id}/capture'', ac_method = ''POST''\<rparr>"
  obtain ra w1 where a: "idempotency_acquire E ledger_deferred opt ?c w0 = (ra, w1)" by fastforce
  have v: "from_sum (assert_valid_payment_intent_id (cc_payment command)) w = (Inr u, w)" by (simp add: Inr from_sum_def)
  have run: "(case ra of Inl e \<Rightarrow> (Inl e, w1)
      | Inr (Replay response) \<Rightarrow>
         (if sr_status response = 200 \<and> is_captured_representation (sr_body response)
         then (Inr (sr_body response), w1\<lparr>observed := observed w1 @ [success_observation ''capture'' ''replayed'' (cc_merchant command)
                       (cc_payment command) (cc_request command)]\<rparr>)
         else (Inl (replay_error response), w1))
      | Inr (Acquired own) \<Rightarrow>
         bindc (catch (execute_provider E opt ?op own (cc_request command))
             (\<lambda>e. observe_and_throw (capture_rejected command e) e))
           (\<lambda>_. capture_attempts max_identifier_attempts E opt command own) w1) = (r, w')"
    using c[unfolded capture_payment_def
        bindc_step(1)[of "from_sum (assert_valid_payment_intent_id (cc_payment command))", OF v]
        bindc_step(1)[of "read_clock E", OF t(1)] bindc_def[of "idempotency_acquire _ _ _ _"]] a
    by (cases ra; cases "projr ra") (simp_all add: run_if throw_def ok_def observe_def modify_def bindc_def cong: if_cong)
  have own: "no_effect w1 r w' \<or> effect_once E ?Q (capture_key E command) (env_sha256 E (canonical_capture_command command)) w1 r w'"
    if "ra = Inr (Acquired own)" "payments_wf w1"
      "holds_key own (capture_key E command) (env_sha256 E (canonical_capture_command command)) w1" for own
    using provider_then[OF run[unfolded that(1) sum.case acquire_result.case] that(2,3) capture_response_closed[of command]
        capture_attempts_result[of max_identifier_attempts E opt command own _ r w']]
    by blast
  have rest: "continues E ?Q (capture_key E command) (env_sha256 E (canonical_capture_command command)) ra w1 r w'"
    using run own by (auto simp: continues_def split: sum.splits acquire_result.splits if_splits)
  have wf0: "payments_wf w0" using t(2) wf by (rule payments_wf_same_db)
  from keyed_after[OF t(2) keyed_result[OF a wf0 _ closed] closed] rest
  show ?thesis by (simp add: capture_key_def)
qed

lemma refund_payment_outcome:
  fixes w :: "'a payments_world_scheme"
  assumes c: "refund_payment E opt port command w = (r, w')" and wf: "payments_wf w"
  shows "call_outcome E
      (approved (xp_refund port \<lparr>xc_amount = vf_amount command, xc_currency = vf_currency command, xc_payment = rp_payment command\<rparr>)
        (refund_response command))
      (refund_key E command) (env_sha256 E (canonical_refund_command command)) w r w' \<and>
    repeats (refund_key E command) w r w'"
proof (cases "assert_valid_payment_intent_id (rp_payment command)")
  case (Inl e)
  then have "r = Inl e" "w' = w" using c by (simp_all add: refund_payment_def from_sum_def bindc_def)
  then show ?thesis by (simp add: call_outcome_def no_effect_def repeats_def)
next
  case (Inr u)
  let ?op = "xp_refund port \<lparr>xc_amount = vf_amount command, xc_currency = vf_currency command, xc_payment = rp_payment command\<rparr>"
  let ?Q = "approved ?op (refund_response command)"
  note closed = approved_closed[OF refund_response_closed, of ?op command]
  obtain t w0 where t: "read_clock E w = (Inr t :: error + int, w0)" "same_db w w0" by (simp add: read_clock_def)
  let ?c = "\<lparr>ac_canonical = canonical_refund_command command, ac_key = rp_key command,
        ac_merchant = rp_merchant command, ac_now = t,
        ac_route = ''/v1/payment-intents/{id}/refunds'', ac_method = ''POST''\<rparr>"
  obtain ra w1 where a: "idempotency_acquire E ledger_deferred opt ?c w0 = (ra, w1)" by fastforce
  have v: "from_sum (assert_valid_payment_intent_id (rp_payment command)) w = (Inr u, w)" by (simp add: Inr from_sum_def)
  have run: "(case ra of Inl e \<Rightarrow> (Inl e, w1)
      | Inr (Replay response) \<Rightarrow>
         (if sr_status response = 201 \<and> is_refund_representation (sr_body response)
         then (Inr (sr_body response), w1\<lparr>observed := observed w1 @ [(''refundId'', replayed_refund_id (sr_body response)) # success_observation ''refund'' ''replayed'' (rp_merchant command)
                       (rp_payment command) (rp_request command)]\<rparr>)
         else (Inl (replay_error response), w1))
      | Inr (Acquired own) \<Rightarrow>
         bindc (catch (execute_provider E opt ?op own (rp_request command))
             (\<lambda>e. observe_and_throw (refund_rejected command e) e))
           (\<lambda>_. refund_attempts max_identifier_attempts E opt command own) w1) = (r, w')"
    using c[unfolded refund_payment_def
        bindc_step(1)[of "from_sum (assert_valid_payment_intent_id (rp_payment command))", OF v]
        bindc_step(1)[of "read_clock E", OF t(1)] bindc_def[of "idempotency_acquire _ _ _ _"]] a
    by (cases ra; cases "projr ra") (simp_all add: run_if throw_def ok_def observe_def modify_def bindc_def cong: if_cong)
  have own: "no_effect w1 r w' \<or> effect_once E ?Q (refund_key E command) (env_sha256 E (canonical_refund_command command)) w1 r w'"
    if "ra = Inr (Acquired own)" "payments_wf w1"
      "holds_key own (refund_key E command) (env_sha256 E (canonical_refund_command command)) w1" for own
    using provider_then[OF run[unfolded that(1) sum.case acquire_result.case] that(2,3) refund_response_closed[of command]
        refund_attempts_result[of max_identifier_attempts E opt command own _ r w']]
    by blast
  have rest: "continues E ?Q (refund_key E command) (env_sha256 E (canonical_refund_command command)) ra w1 r w'"
    using run own by (auto simp: continues_def split: sum.splits acquire_result.splits if_splits)
  have wf0: "payments_wf w0" using t(2) wf by (rule payments_wf_same_db)
  from keyed_after[OF t(2) keyed_result[OF a wf0 _ closed] closed] rest
  show ?thesis by (simp add: refund_key_def)
qed


end
