(* ===== verification/Payments_History.thy ===== *)
theory Payments_History imports Payments_Calls begin

text \<open>
  The history of the payment tables: what later calls may change of what is stored. Refunds, outbox rows
  and ledger rows are append-only, a completed key keeps its response, and a payment only moves forward.
\<close>

section \<open>Forward moves\<close>

definition payment_forward :: "payment_row \<Rightarrow> payment_row \<Rightarrow> bool" where
  "payment_forward p p' \<longleftrightarrow> pi_id p' = pi_id p \<and> pi_public_id p' = pi_public_id p \<and> pi_merchant p' = pi_merchant p \<and>
     pi_ref p' = pi_ref p \<and> pi_amount p' = pi_amount p \<and> pi_currency p' = pi_currency p \<and>
     pi_captured p \<le> pi_captured p' \<and> pi_refunded p \<le> pi_refunded p' \<and> pi_updated p \<le> pi_updated p' \<and>
     pi_version p \<le> pi_version p' \<and> (pi_version p' = pi_version p \<longrightarrow> p' = p) \<and>
     (pi_status p = Db_refunded \<longrightarrow> p' = p)"

lemma payment_forward_refl [simp]: "payment_forward p p"
  by (simp add: payment_forward_def)

lemma kept_forward: "set ps \<subseteq> set ps' \<Longrightarrow> \<forall>p \<in> set ps. \<exists>p' \<in> set ps'. payment_forward p p'"
  by (meson payment_forward_refl subset_iff)

lemma payment_forward_trans: "payment_forward p q \<Longrightarrow> payment_forward q r \<Longrightarrow> payment_forward p r"
  unfolding payment_forward_def by (metis order.trans order_antisym)

definition keys_forward :: "idempotency_row list \<Rightarrow> idempotency_row list \<Rightarrow> bool" where
  "keys_forward ks ks' \<longleftrightarrow> (\<forall>k \<in> set ks. ik_state k = Completed \<longrightarrow> k \<in> set ks')"

definition payments_forward :: "'a payments_world_scheme \<Rightarrow> 'a payments_world_scheme \<Rightarrow> bool" where
  "payments_forward w w' \<longleftrightarrow>
     (\<forall>p \<in> set (payment_intents w). \<exists>p' \<in> set (payment_intents w'). payment_forward p p') \<and>
     prefix (refunds w) (refunds w') \<and> prefix (outbox_events w) (outbox_events w') \<and>
     keys_forward (idempotency_keys w) (idempotency_keys w') \<and> ledger_extends w w'"

lemma payments_forward_trans:
  fixes w w' w'' :: "'a payments_world_scheme"
  assumes "payments_forward w w'" and "payments_forward w' w''"
  shows "payments_forward w w''"
  using assms payment_forward_trans ledger_extends_trans prefix_order.trans
  unfolding payments_forward_def keys_forward_def by (smt (verit, best))

lemma forward_same_db: 
  fixes w w' :: "'a payments_world_scheme"
  shows "same_db w w' \<Longrightarrow> payments_forward w w'"
  using ledger_extends_same_db[of w w'] same_db_payments[of w w'] kept_forward[of "payment_intents w" "payment_intents w'"]
  unfolding payments_forward_def keys_forward_def by simp

lemma acquired_forward: "key_acquired ks ks' \<Longrightarrow> keys_forward ks ks'"
  by (auto simp: key_acquired_def keys_forward_def update_where_def lease_expired_def image_iff)

lemma completed_forward: "key_completed own response t e ks ks' \<Longrightarrow> keys_forward ks ks'"
  by (auto simp: key_completed_def keys_forward_def update_where_def owned_def image_iff)

lemma ledger_extends_view:
  "ledger_view v = ledger_view w \<Longrightarrow> ledger_view v' = ledger_view w' \<Longrightarrow> ledger_extends v v' \<Longrightarrow> ledger_extends w w'"
  by (simp add: ledger_extends_def ledger_view_def)

lemma posted_extends:
  fixes w w' :: "'a ledger_world_scheme"
  assumes "ledger_posted inp w w'"
  shows "ledger_extends w w'"
proof -
  from assms obtain w1 w2 :: "'a ledger_world_scheme" where
    v: "ledger_view w1 = ledger_view w" "posting_made inp w1 w2" "ledger_view w' = ledger_view w2"
    unfolding ledger_posted_def by blast
  have "ledger_extends w1 w2" using v(2) by (simp add: posting_made_def posting_step_def ledger_extends_def)
  then show ?thesis using ledger_extends_view[of w1 w w2 w'] v by simp
qed

lemma accepted_forward:
  assumes "update_accepted p q" and "payment_check p = None"
  shows "payment_forward p q"
proof -
  note U = update_accepted_fields[OF assms(1)]
  have "pi_captured p \<le> pi_amount p" "0 \<le> pi_refunded p" using assms(2) by (auto simp: payment_check_def split: if_splits)
  moreover have "pi_captured p = 0 \<and> pi_refunded p = 0" if "pi_status p = Db_created"
    using assms(2) that by (auto simp: payment_check_def status_projection_def split: if_splits)
  ultimately show ?thesis
    using U by (cases "pi_status p = Db_created") (auto simp: payment_forward_def)
qed

lemma replaced_forward:
  assumes "distinct (map pi_id ps)" and "p \<in> set ps" and "payment_forward p q" and "x \<in> set ps"
  shows "\<exists>y \<in> set (replace_payment p q ps). payment_forward x y"
proof (cases "x = p")
  case True
  then show ?thesis using in_replace[OF assms(1,2)] assms(3) by blast
next
  case False
  then show ?thesis using in_replace[OF assms(1,2)] assms(4) payment_forward_refl by blast
qed

lemma command_forward:
  fixes w w' :: "'a payments_world_scheme"
  assumes "command_effect w w'" and wf: "payments_wf w"
  shows "payments_forward w w'"
proof -
  have k: "keys_forward (idempotency_keys w) (idempotency_keys w')"
    using assms(1) by (simp add: command_effect_def keys_forward_def)
  have d: "distinct (map pi_id (payment_intents w))" and c: "\<And>p. p \<in> set (payment_intents w) \<Longrightarrow> payment_check p = None"
    using wf by (simp_all add: payments_wf_def payments_table_wf_def)
  have same: "ledger_extends w w'" if "ledger_view w' = ledger_view w"
    using that by (simp add: ledger_extends_def ledger_view_def)
  consider (1) p ev where "created_effect p ev w w'" | (2) p q inp ev where "captured_effect p q inp ev w w'"
    | (3) p q f inp ev where "refunded_effect p q f inp ev w w'"
    using assms(1) unfolding command_effect_def by blast
  then show ?thesis
  proof cases
    case 1
    then have "payment_intents w' = payment_intents w @ [p]" by (simp add: created_effect_def)
    then have "\<forall>x \<in> set (payment_intents w). \<exists>x' \<in> set (payment_intents w'). payment_forward x x'"
      by (intro kept_forward) auto
    then show ?thesis using 1 k same
      by (auto simp: created_effect_def payments_forward_def outbox_grows_def Let_def)
  next
    case 2
    then have p: "p \<in> set (payment_intents w)" "update_accepted p q" "payment_intents w' = replace_payment p q (payment_intents w)"
      by (simp_all add: captured_effect_def)
    from replaced_forward[OF d p(1) accepted_forward[OF p(2) c[OF p(1)]]] 2 k posted_extends[of inp w w']
    show ?thesis by (auto simp: p(3) captured_effect_def payments_forward_def outbox_grows_def Let_def)
  next
    case 3
    then have p: "p \<in> set (payment_intents w)" "update_accepted p q" "payment_intents w' = replace_payment p q (payment_intents w)"
      by (simp_all add: refunded_effect_def)
    from replaced_forward[OF d p(1) accepted_forward[OF p(2) c[OF p(1)]]] 3 k posted_extends[of inp w w']
    show ?thesis by (auto simp: p(3) refunded_effect_def payments_forward_def outbox_grows_def Let_def)
  qed
qed

lemma keys_set_forward:
  fixes w w1 w' :: "'a payments_world_scheme"
  assumes "payments_forward w w1" and "keys_set ks w1 w'" and "keys_forward (idempotency_keys w) ks"
  shows "payments_forward w w'"
  using assms keys_set_fields[of ks w1 w'] ledger_extends_view[of w w w1 w'] unfolding payments_forward_def by auto

lemma step_forward:
  fixes w w' :: "'a payments_world_scheme"
  shows "payment_step w w' \<Longrightarrow> payments_wf w \<Longrightarrow> payments_forward w w'"
proof (induction rule: payment_step.induct)
  case (step_quiet w w')
  then show ?case by (rule_tac forward_same_db)
next
  case (step_provision m w w')
  have "ledger_world.more w' = ledger_world.more w" using step_provision.hyps by (simp add: provision_step_def)
  moreover have "ledger_extends w w'" using step_provision.hyps by (intro ledger_change_extends) (rule ledger_change.intros)
  ultimately show ?case using ledger_more_payments[of w' w] kept_forward[of "payment_intents w" "payment_intents w'"]
    by (simp add: payments_forward_def keys_forward_def)
next
  case (step_acquire w ks w')
  have "payments_forward w w" by (rule forward_same_db) simp
  then show ?case using step_acquire acquired_forward keys_set_forward by blast
next
  case (step_complete w w1 own response t e ks w')
  have "payments_forward w w1" using step_complete command_forward forward_same_db by blast
  then show ?case using step_complete completed_forward keys_set_forward by blast
qed

lemma steps_forward:
  fixes w w' :: "'a payments_world_scheme"
  shows "payment_step\<^sup>*\<^sup>* w w' \<Longrightarrow> payments_wf w \<Longrightarrow> payments_forward w w'"
proof (induction rule: rtranclp_induct)
  case base
  then show ?case by (intro forward_same_db) simp
next
  case (step y z)
  then show ?case using step_forward payment_steps_wf payments_forward_trans by blast
qed

end
