(* ===== verification/Payments_Properties.thy ===== *)
theory Payments_Properties imports Payments_History Ledger_Properties begin

text \<open>
  The properties of payments, idempotency and eventing. The example world is the result of four calls
  from an empty database: a merchant's accounts, a payment of 25.00 ETB, its capture and a refund.
\<close>

section \<open>The example\<close>

fun demo_digits :: "nat \<Rightarrow> int \<Rightarrow> string" where
  "demo_digits 0 n = []"
| "demo_digits (Suc k) n = demo_digits k (n div 10) @ [''0123456789'' ! nat (n mod 10)]"

definition pay_env :: env where
  "pay_env = \<lparr>env_clock = (\<lambda>n. 1780000000000 + int n),
     env_uuid = (\<lambda>n. ''20000000-0000-4000-8000-00000000'' @ demo_digits 4 (int n)),
     env_ulid = (\<lambda>t n. demo_digits 26 (int n)), env_sha256 = (\<lambda>u. replicate 32 CHR ''d''),
     env_fault = (\<lambda>n. None), env_commit = (\<lambda>n. Committed), env_fault_message = (\<lambda>f. ''fault'')\<rparr>"

definition pay_empty :: payments_world where
  "pay_empty = \<lparr>tick = 0, txn_now = 0, observed = [], ledger_accounts = [], ledger_transactions = [],
     ledger_entries = [], outbox_events = [], idempotency_keys = [], payment_intents = [], refunds = []\<rparr>"

definition pay_options :: idempotency_options where
  "pay_options = \<lparr>io_lease_ms = 30000, io_replay_ms = 172800000\<rparr>"

definition pay_port :: execution_port where
  "pay_port = deterministic_mock_execution (\<lambda>c operation. Approved)"

definition pay_id :: string where
  "pay_id = ''pi_00000000000000000000000020''"

definition pay_create :: payment_command where
  "pay_create = \<lparr>vf_amount = 2500, vf_currency = ETB, vf_ref = units ''order-1'', pc_key = units ''key-1'',
     pc_merchant = demo_merchant, pc_request = ''req_1''\<rparr>"

definition pay_capture :: payment_id_command where
  "pay_capture = \<lparr>vf_amount = 2500, vf_currency = ETB, cc_key = units ''key-2'', cc_merchant = demo_merchant,
     cc_payment = pay_id, cc_request = ''req_2''\<rparr>"

definition pay_refund :: refund_payment_command where
  "pay_refund = \<lparr>vf_amount = 1000, vf_currency = ETB, vf_ref = units ''refund-1'', rp_key = units ''key-3'',
     rp_merchant = demo_merchant, rp_payment = pay_id, rp_request = ''req_3''\<rparr>"

definition pay_after :: "payments_world \<Rightarrow> payments_call \<Rightarrow> payments_world" where
  "pay_after w call = snd (payments_call_comp pay_env pay_options pay_port call w)"

definition pay_ready :: payments_world where
  "pay_ready = pay_after pay_empty (Provision_call demo_merchant)"

definition pay_created :: payments_world where
  "pay_created = pay_after pay_ready (Create_call pay_create)"

definition pay_captured :: payments_world where
  "pay_captured = pay_after pay_created (Capture_call pay_capture)"

definition pay_refunded :: payments_world where
  "pay_refunded = pay_after pay_captured (Refund_call pay_refund)"

lemma pay_after_run: "payments_run opt' port' w v \<Longrightarrow> opt' = pay_options \<Longrightarrow> port' = pay_port \<Longrightarrow>
    payments_run opt' port' w (pay_after v call)"
  unfolding pay_after_def by (simp add: pay_call[OF _ prod.collapse[symmetric]])

lemma pay_runs:
  "payments_run pay_options pay_port pay_empty pay_ready"
  "payments_run pay_options pay_port pay_empty pay_created"
  "payments_run pay_options pay_port pay_empty pay_captured"
  "payments_run pay_options pay_port pay_empty pay_refunded"
  unfolding pay_ready_def pay_created_def pay_captured_def pay_refunded_def
  by (simp_all add: pay_after_run pay_start)

lemma pay_empty_empty: "empty_payments pay_empty"
  by (simp add: empty_payments_def empty_ledger_def pay_empty_def)

lemma pay_wf: "payments_run pay_options pay_port pay_empty w \<Longrightarrow> payments_wf w"
  using payments_run_steps payment_steps_wf empty_payments_wf[OF pay_empty_empty] by blast

section \<open>Payments and money\<close>

text \<open>
  C8: Along any run of payment calls from an empty database, under any outages, every payment stays
  consistent: what is refunded is the sum of its refunds and never more than what is captured, which is
  zero or the whole amount; its status says which; its capture time is set exactly once captured; every
  refund belongs to a payment of its merchant and currency; identifiers and references are unique.
\<close>

theorem payments_consistent:
  assumes "empty_payments w" and "payments_run opt port w w'"
  shows "(\<forall>p \<in> set (payment_intents w').
      pi_refunded p = (\<Sum>f\<leftarrow>refunds w'. if rf_payment f = pi_id p then rf_amount f else 0) \<and>
      0 \<le> pi_refunded p \<and> pi_refunded p \<le> pi_captured p \<and> pi_captured p \<le> pi_amount p \<and>
      pi_captured p \<in> {0, pi_amount p} \<and> status_projection p \<and>
      (pi_captured_at p = None \<longleftrightarrow> pi_status p = Db_created)) \<and>
    (\<forall>f \<in> set (refunds w'). 1 \<le> rf_amount f \<and> (\<exists>p \<in> set (payment_intents w'). pi_id p = rf_payment f \<and>
      pi_merchant p = rf_merchant f \<and> pi_currency p = rf_currency f)) \<and>
    distinct (map pi_public_id (payment_intents w')) \<and> distinct (map rf_public_id (refunds w')) \<and>
    distinct (map (\<lambda>p. (pi_merchant p, pi_ref p)) (payment_intents w')) \<and> ledger_wf w'"
proof -
  have "payments_wf w'"
    using assms payments_run_steps payment_steps_wf empty_payments_wf by blast
  then have wf: "payments_table_wf (payment_intents w') (refunds w')" "ledger_wf w'" by (simp_all add: payments_wf_def)
  have "0 \<le> pi_refunded p \<and> pi_refunded p \<le> pi_captured p \<and> pi_captured p \<le> pi_amount p \<and>
      pi_captured p \<in> {0, pi_amount p} \<and> status_projection p \<and> (pi_captured_at p = None \<longleftrightarrow> pi_status p = Db_created)"
    if "payment_check p = None" for p
    using that by (auto simp: payment_check_def status_projection_def split: if_splits)
  moreover have "1 \<le> rf_amount f" if "refund_check f = None" for f
    using that by (auto simp: refund_check_def split: if_splits)
  ultimately show ?thesis using wf unfolding payments_table_wf_def by (intro conjI ballI; blast)
qed

theorem payments_consistent_witness:
  "distinct (map pi_public_id (payment_intents pay_refunded)) \<and> ledger_wf pay_refunded"
  using payments_consistent[OF pay_empty_empty pay_runs(4)] by blast

text \<open>
  C9: Money is conserved across payments and ledger: after any run from an empty database the provider
  clearing account of every merchant and currency holds exactly the captured and not refunded amounts
  of that merchant's payments, and the merchant's accounts sum to zero.
\<close>

theorem payments_conserve_money:
  assumes "empty_payments w" and "payments_run opt port w w'"
  shows "account_balance w' m Provider_clearing cur =
      (\<Sum>p\<leftarrow>payment_intents w'. if pi_merchant p = m \<and> pi_currency p = cur then pi_captured p - pi_refunded p else 0) \<and>
    (\<Sum>c\<leftarrow>all_codes. account_balance w' m c cur) = 0"
proof -
  have s: "payment_step\<^sup>*\<^sup>* w w'" using assms payments_run_steps empty_payments_wf by blast
  have "clearing_agrees w'" using payment_steps_clearing[OF s] empty_payments_wf[OF assms(1)] by blast
  moreover have "ledger_wf w'"
    using payment_steps_wf[OF s] empty_payments_wf[OF assms(1)] by (simp add: payments_wf_def)
  ultimately show ?thesis using ledger_trial_balance by (simp add: clearing_agrees_def outstanding_def)
qed

theorem payments_conserve_money_witness:
  "(\<Sum>c\<leftarrow>all_codes. account_balance pay_refunded demo_merchant c ETB) = 0"
  using payments_conserve_money[OF pay_empty_empty pay_runs(4)] by blast

text \<open>
  C10: History is kept: no run of payment calls removes or changes a refund, an outbox event, a ledger
  row or a completed idempotency key; a payment keeps its identity, amount and currency, its captured
  and refunded amounts never decrease, a change of it increments its version, and a fully refunded
  payment never changes again.
\<close>

theorem payments_history_kept:
  fixes w w' :: "'a payments_world_scheme"
  assumes "payments_wf w" and "payments_run opt port w w'"
  shows "prefix (refunds w) (refunds w') \<and> prefix (outbox_events w) (outbox_events w') \<and> ledger_extends w w' \<and>
    (\<forall>k \<in> set (idempotency_keys w). ik_state k = Completed \<longrightarrow> k \<in> set (idempotency_keys w')) \<and>
    (\<forall>p \<in> set (payment_intents w). \<exists>p' \<in> set (payment_intents w'). payment_forward p p')"
  using steps_forward[OF payments_run_steps[OF assms(2,1)] assms(1)]
  by (simp add: payments_forward_def keys_forward_def)

theorem payments_history_kept_witness:
  "prefix (refunds pay_captured) (refunds pay_refunded) \<and> prefix (outbox_events pay_captured) (outbox_events pay_refunded)"
  using payments_history_kept[OF pay_wf[OF pay_runs(3)] pay_after_run[OF pay_start refl refl]]
  unfolding pay_refunded_def by blast

section \<open>Commands\<close>

text \<open>
  C11: A call of create, whatever fails, (a) throws and leaves payments, refunds, outbox and ledger as they
  were, or (b) returns the stored unexpired response of its idempotency key and changes none of them, or
  (c) has added exactly one payment in status created with exactly one payment.created event, with its
  representation stored under the key as the response that expires later; it then returns that
  representation, or throws because the acknowledgement of the commit was lost.
\<close>

theorem create_exactly_once:
  fixes w w' :: "'a payments_world_scheme"
  assumes "payments_wf w" and "create_payment E opt command w = (r, w')"
  shows "(business_same w w' \<and> (\<exists>e. r = Inl e)) \<or>
    (business_same w w' \<and> (\<exists>response e. r = Inr (sr_body response) \<and>
       response_stored (create_key E command) (env_sha256 E (canonical_create_command command)) response e w)) \<or>
    (\<exists>p ev rec response e. created_effect p ev w w' \<and> to_record p = Inr rec \<and>
       pi_merchant p = pc_merchant command \<and> pi_ref p = vf_ref command \<and> pi_amount p = vf_amount command \<and>
       pi_currency p = vf_currency command \<and> de_request ev = pc_request command \<and>
       response = created_response (JObj (to_representation rec)) (pi_public_id p) 201 \<and>
       response_stored (create_key E command) (env_sha256 E (canonical_create_command command)) response e w' \<and>
       (r = Inr (sr_body response) \<or> (\<exists>e. r = Inl e \<and> unacked E e)))"
  using create_payment_outcome[OF assms(2,1)]
  unfolding call_outcome_def no_effect_def replayed_def effect_once_def create_response_def by blast

theorem create_exactly_once_witness:
  "\<exists>r w'. create_payment pay_env pay_options pay_create pay_ready = (r, w') \<and>
     (business_same pay_ready w' \<or> (\<exists>p ev. created_effect p ev pay_ready w'))"
proof -
  obtain r w' where c: "create_payment pay_env pay_options pay_create pay_ready = (r, w')" by fastforce
  from create_exactly_once[OF pay_wf[OF pay_runs(1)] c] c show ?thesis by blast
qed

text \<open>
  C12: A call of capture, whatever fails, throws and changes no payment, refund, event or ledger row; or
  replays the stored response of its key; or the provider approved and the whole amount of the
  merchant's payment, which was in status created and of the command's amount and currency, is captured
  by one ledger posting with one payment.captured event, and the response that is stored under the key
  is returned (or the acknowledgement of the commit was lost).
\<close>

theorem capture_exactly_once:
  fixes w w' :: "'a payments_world_scheme"
  assumes "payments_wf w" and "capture_payment E opt port command w = (r, w')"
  shows "(business_same w w' \<and> (\<exists>e. r = Inl e)) \<or>
    (business_same w w' \<and> (\<exists>response e. r = Inr (sr_body response) \<and>
       response_stored (capture_key E command) (env_sha256 E (canonical_capture_command command)) response e w)) \<or>
    (\<exists>n p q inp ev updated response e. xp_capture port \<lparr>xc_amount = vf_amount command,
         xc_currency = vf_currency command, xc_payment = cc_payment command\<rparr> n = Some Approved \<and>
       captured_effect p q inp ev w w' \<and> to_record q = Inr updated \<and> pi_merchant p = cc_merchant command \<and>
       pi_public_id p = cc_payment command \<and> pi_amount p = vf_amount command \<and> pi_currency p = vf_currency command \<and>
       response = created_response (captured_representation updated (cp_public_id inp)) (cc_payment command) 200 \<and>
       response_stored (capture_key E command) (env_sha256 E (canonical_capture_command command)) response e w' \<and>
       (r = Inr (sr_body response) \<or> (\<exists>e. r = Inl e \<and> unacked E e)))"
  using capture_payment_outcome[OF assms(2,1)]
  unfolding call_outcome_def no_effect_def replayed_def effect_once_def capture_response_def approved_def by blast

theorem capture_exactly_once_witness:
  "\<exists>r w'. capture_payment pay_env pay_options pay_port pay_capture pay_created = (r, w') \<and>
     (business_same pay_created w' \<or> (\<exists>p q inp ev. captured_effect p q inp ev pay_created w'))"
proof -
  obtain r w' where c: "capture_payment pay_env pay_options pay_port pay_capture pay_created = (r, w')" by fastforce
  from capture_exactly_once[OF pay_wf[OF pay_runs(2)] c] c show ?thesis by blast
qed

text \<open>
  C13: A call of refund, whatever fails, throws and changes nothing; or replays; or the provider approved
  and one refund of the command's amount and reference, at most what was captured and not yet refunded,
  is added to the merchant's captured payment by one ledger posting with one payment.refunded event, and
  the response that is stored under the key is returned (or the acknowledgement was lost).
\<close>

theorem refund_exactly_once:
  fixes w w' :: "'a payments_world_scheme"
  assumes "payments_wf w" and "refund_payment E opt port command w = (r, w')"
  shows "(business_same w w' \<and> (\<exists>e. r = Inl e)) \<or>
    (business_same w w' \<and> (\<exists>response e. r = Inr (sr_body response) \<and>
       response_stored (refund_key E command) (env_sha256 E (canonical_refund_command command)) response e w)) \<or>
    (\<exists>n p q f inp ev refund updated response e. xp_refund port \<lparr>xc_amount = vf_amount command,
         xc_currency = vf_currency command, xc_payment = rp_payment command\<rparr> n = Some Approved \<and>
       refunded_effect p q f inp ev w w' \<and> to_record q = Inr updated \<and> refund_record_of f = Inr refund \<and>
       pi_merchant p = rp_merchant command \<and> pi_public_id p = rp_payment command \<and>
       rf_amount f = vf_amount command \<and> rf_ref f = vf_ref command \<and> pi_currency p = vf_currency command \<and>
       vf_amount command \<le> pi_captured p - pi_refunded p \<and>
       response = created_response (refund_representation refund updated (cp_public_id inp)) (rf_public_id f) 201 \<and>
       response_stored (refund_key E command) (env_sha256 E (canonical_refund_command command)) response e w' \<and>
       (r = Inr (sr_body response) \<or> (\<exists>e. r = Inl e \<and> unacked E e)))"
  using refund_payment_outcome[OF assms(2,1)]
  unfolding call_outcome_def no_effect_def replayed_def effect_once_def refund_response_def approved_def by blast

theorem refund_exactly_once_witness:
  "\<exists>r w'. refund_payment pay_env pay_options pay_port pay_refund pay_captured = (r, w') \<and>
     (business_same pay_captured w' \<or> (\<exists>p q f inp ev. refunded_effect p q f inp ev pay_captured w'))"
proof -
  obtain r w' where c: "refund_payment pay_env pay_options pay_port pay_refund pay_captured = (r, w')" by fastforce
  from refund_exactly_once[OF pay_wf[OF pay_runs(3)] c] c show ?thesis by blast
qed

text \<open>
  C14: Once a response is stored under a command's key, every repetition of create, capture or refund with
  that key has no further effect on payments, refunds, outbox and ledger, and answers with an error or
  with exactly the stored body.
\<close>

definition answered :: "idempotency_row \<Rightarrow> 'a payments_world_scheme \<Rightarrow> (error + json) \<times> 'a payments_world_scheme \<Rightarrow> bool" where
  "answered k w result \<longleftrightarrow> business_same w (snd result) \<and>
     ((\<exists>e. fst result = Inl e) \<or> (\<exists>response. to_stored_response k = Some response \<and> fst result = Inr (sr_body response)))"

theorem completed_key_repeats:
  fixes w :: "'a payments_world_scheme"
  assumes "payments_wf w" and "k \<in> set (idempotency_keys w)" and "ik_state k = Completed"
  shows "(idempotency_key k = create_key E c1 \<longrightarrow> answered k w (create_payment E opt c1 w)) \<and>
    (idempotency_key k = capture_key E c2 \<longrightarrow> answered k w (capture_payment E opt port c2 w)) \<and>
    (idempotency_key k = refund_key E c3 \<longrightarrow> answered k w (refund_payment E opt port c3 w))"
proof -
  have "repeats (create_key E c1) w (fst (create_payment E opt c1 w)) (snd (create_payment E opt c1 w))"
    "repeats (capture_key E c2) w (fst (capture_payment E opt port c2 w)) (snd (capture_payment E opt port c2 w))"
    "repeats (refund_key E c3) w (fst (refund_payment E opt port c3 w)) (snd (refund_payment E opt port c3 w))"
    using create_payment_outcome[OF _ assms(1)] capture_payment_outcome[OF _ assms(1)] refund_payment_outcome[OF _ assms(1)]
    by (metis prod.collapse)+
  then show ?thesis using assms(2,3) unfolding repeats_def answered_def by blast
qed

definition demo_key :: idempotency_row where
  "demo_key = completed_row (created_response (JObj []) pay_id 201) 1780000000000 1780172800000
     (new_key_row \<lparr>hc_key_hash = replicate 32 CHR ''d'', hc_merchant = demo_merchant, hc_now = 1780000000000,
        hc_route = ''/v1/payment-intents'', hc_method = ''POST'', hc_owner = ''o'', hc_record = ''i'',
        hc_request_hash = replicate 32 CHR ''d''\<rparr> 1780000030000)"

definition pay_replayed :: payments_world where
  "pay_replayed = pay_empty\<lparr>idempotency_keys := [demo_key]\<rparr>"

lemma demo_key_check: "idempotency_check demo_key = None"
proof -
  have "has_ulid_prefix ''pi'' pay_id" by code_simp
  then show ?thesis
    by (simp add: idempotency_check_def demo_key_def completed_row_def new_key_row_def created_response_def
        idempotent_routes_def state_consistent_def result_reference_ok_def headers_json_def day_ms_def)
qed

lemma pay_replayed_wf: "payments_wf pay_replayed"
proof -
  have "ledger_wf pay_replayed" by (rule empty_ledger_wf) (simp add: empty_ledger_def pay_replayed_def pay_empty_def)
  then show ?thesis
    using demo_key_check
    by (simp add: payments_wf_def payments_table_wf_def outbox_wf_def keys_wf_def pay_replayed_def pay_empty_def)
qed

theorem completed_key_repeats_witness:
  "answered demo_key pay_replayed (create_payment pay_env pay_options pay_create pay_replayed)"
proof -
  have "idempotency_key demo_key = create_key pay_env pay_create"
    by (simp add: idempotency_key_def demo_key_def completed_row_def new_key_row_def create_key_def command_key_def
        pay_env_def pay_create_def)
  moreover have "demo_key \<in> set (idempotency_keys pay_replayed)" "ik_state demo_key = Completed"
    by (simp_all add: pay_replayed_def demo_key_def completed_row_def)
  ultimately show ?thesis
    using completed_key_repeats[OF pay_replayed_wf, of demo_key pay_env pay_create] by blast
qed

section \<open>Round trips\<close>

text \<open>
  C15: A problem stored for a failed command is replayed as the error that was thrown, for every error
  that is stored except the external reference conflict of create, which create recognises by its status.
\<close>

theorem stored_problem_replays:
  assumes "command_problem e requestId = Inr response"
  shows "(if e = PaymentsE ExternalReferenceConflictError then sr_status response = 409
     else replay_error response = e) \<and> sr_status response \<in> {404, 409, 422} \<and>
     sr_content_type response = ''application/problem+json'' \<and> is_json_object (sr_body response)"
  using assms
  by (cases "(e, requestId)" rule: command_problem.cases)
    (auto simp: problem_def external_reference_problem_def replay_error_def replay_errors_def)

theorem stored_problem_replays_witness:
  "replay_error (problem ''req_1'' 404 ''payment_intent_not_found'' ''Payment intent not found''
     ''The payment intent was not found.'') = PaymentsE PaymentIntentNotFoundError"
  using stored_problem_replays[of "PaymentsE PaymentIntentNotFoundError" "''req_1''"] by simp

text \<open>
  C16: The canonical text of a command determines the command's fields (strings are 16-bit code units): two
  commands of a route with equal canonical requests have the same amount, currency, reference and payment, so a key can only be
  reused with another command when SHA-256 collides.
\<close>

definition utf16 :: "ustring \<Rightarrow> bool" where
  "utf16 s \<longleftrightarrow> (\<forall>u \<in> set s. u < 65536)"

lemma quote_cons: "utf16 a \<Longrightarrow> utf16 b \<Longrightarrow> json_quote a @ x = json_quote b @ y \<longleftrightarrow> a = b \<and> x = y"
  using json_quote_inj unfolding utf16_def by blast

lemma utf16_units [simp]: "utf16 (units s)"
  by (auto simp: utf16_def units_def intro!: order_less_trans[OF nat_of_char_less_256])

lemma utf16_dec [simp]: "utf16 (dec_int i)"
  using dec_nat_digits by (force simp: utf16_def dec_int_def split: if_splits)

lemma quote_eq: "utf16 a \<Longrightarrow> utf16 b \<Longrightarrow> json_quote a = json_quote b \<longleftrightarrow> a = b"
  using quote_cons[of a b "[]" "[]"] by simp

lemma dec_int_eq: "dec_int a = dec_int b \<longleftrightarrow> a = b"
  using dec_int_inj by blast

lemma currency_code_eq: "currency_code a = currency_code b \<longleftrightarrow> a = b"
  by (cases a; cases b) simp_all

lemmas canonical_simps = json_object_text_def quote_cons quote_eq dec_int_eq currency_code_eq

theorem canonical_commands_injective:
  assumes "utf16 (vf_ref c)" and "utf16 (vf_ref c')" and "utf16 (vf_ref f)" and "utf16 (vf_ref f')"
  shows "(canonical_create_command c = canonical_create_command c' \<longrightarrow>
      vf_amount c = vf_amount c' \<and> vf_currency c = vf_currency c' \<and> vf_ref c = vf_ref c') \<and>
   (canonical_capture_command d = canonical_capture_command d' \<longrightarrow>
      vf_amount d = vf_amount d' \<and> vf_currency d = vf_currency d' \<and> cc_payment d = cc_payment d') \<and>
   (canonical_refund_command f = canonical_refund_command f' \<longrightarrow>
      vf_amount f = vf_amount f' \<and> vf_currency f = vf_currency f' \<and> vf_ref f = vf_ref f' \<and>
      rp_payment f = rp_payment f')"
  using assms
  by (auto simp: canonical_create_command_def canonical_capture_command_def canonical_refund_command_def canonical_simps)

theorem canonical_commands_injective_witness:
  "\<forall>a. canonical_create_command pay_create = canonical_create_command (pay_create\<lparr>vf_amount := a\<rparr>) \<longleftrightarrow> a = 2500"
proof
  fix a
  show "canonical_create_command pay_create = canonical_create_command (pay_create\<lparr>vf_amount := a\<rparr>) \<longleftrightarrow> a = 2500"
    using canonical_commands_injective[of pay_create "pay_create\<lparr>vf_amount := a\<rparr>" pay_refund pay_refund]
    by (auto simp: pay_create_def pay_refund_def)
qed

section \<open>What is stored is accepted\<close>







text \<open>
  C18: Every success response the service stores passes the guard it is replayed through: the
  representation of any stored payment is a payment intent representation, that of a captured payment a
  captured representation, and that of a refund a refund representation.
\<close>

theorem representations_replayable:
  assumes "payment_check r = None" and "to_record r = Inr p" and "refund_check f = None" and "refund_record_of f = Inr refund"
  shows "is_payment_intent_representation (JObj (to_representation p)) \<and>
    is_captured_representation (captured_representation p tx) \<and>
    is_refund_representation (refund_representation refund p tx)"
proof -
  note R = to_record_fields[OF assms(2)]
  have a: "- max_safe_integer \<le> pr_amount p \<and> pr_amount p \<le> max_safe_integer"
    using assms(1) R by (auto simp: payment_check_def max_safe_integer_def split: if_splits)
  have b: "- max_safe_integer \<le> rr_amount refund \<and> rr_amount refund \<le> max_safe_integer"
    using assms(3,4) by (auto simp: refund_check_def refund_record_of_def comp_simps to_safe_amount_def max_safe_integer_def split: if_splits)
  have c: "is_currency_member (Some (jstr (currency_code cur)))" for cur
    by (cases cur) (simp_all add: is_currency_member_def)
  have s: "status_name st = ''created'' \<or> status_name st = ''captured'' \<or> status_name st = ''partially_refunded'' \<or> status_name st = ''refunded''" for st
    by (cases st) simp_all
  show ?thesis
    using a b c s[of "pr_status p"]
    by (simp add: is_payment_intent_representation_def is_captured_representation_def is_refund_representation_def
        captured_representation_def refund_representation_def to_representation_def)
qed

definition demo_payment_row :: payment_row where
  "demo_payment_row = \<lparr>pi_id = ''i'', pi_public_id = pay_id, pi_merchant = demo_merchant, pi_ref = units ''order-1'',
     pi_amount = 2500, pi_currency = ETB, pi_status = Db_captured, pi_captured = 2500, pi_refunded = 0,
     pi_version = 1, pi_created = 951782400123, pi_updated = 951782400124, pi_captured_at = Some 951782400124,
     pi_available_at = Some 951782400124\<rparr>"

definition demo_refund_row :: refund_row where
  "demo_refund_row = \<lparr>rf_id = ''i'', rf_public_id = ''rf_00000000000000000000000075'', rf_merchant = demo_merchant,
     rf_payment = ''i'', rf_ref = units ''refund-1'', rf_amount = 1000, rf_currency = ETB, rf_created = 951782400125\<rparr>"

lemma demo_references: "reference_format_ok (units ''order-1'')" "reference_format_ok (units ''refund-1'')"
  by (simp_all add: reference_format_ok_def units_def posix_space_def posix_cntrl_def is_high_def)

lemma demo_ids: "has_ulid_prefix ''pi'' pay_id" "has_ulid_prefix ''rf'' ''rf_00000000000000000000000075''"
  by code_simp+

lemma demo_rows_ok: "payment_check demo_payment_row = None" "refund_check demo_refund_row = None"
  using demo_references demo_ids
  by (simp_all add: payment_check_def refund_check_def demo_payment_row_def demo_refund_row_def status_projection_def
      max_safe_integer_def)

theorem representations_replayable_witness:
  "\<exists>p refund. to_record demo_payment_row = Inr p \<and> refund_record_of demo_refund_row = Inr refund \<and>
     is_captured_representation (captured_representation p ''ltx'') \<and>
     is_refund_representation (refund_representation refund p ''ltx'')"
proof -
  obtain p refund where d: "to_record demo_payment_row = Inr p" "refund_record_of demo_refund_row = Inr refund"
    by (simp add: to_record_def refund_record_of_def demo_payment_row_def demo_refund_row_def to_safe_amount_def
        max_safe_integer_def bind_sum_def)
  from representations_replayable[OF demo_rows_ok(1) d(1) demo_rows_ok(2) d(2)] d show ?thesis by blast
qed

end
