(* ===== verification/Json_Text.thy ===== *)
theory Json_Text imports Json "HOL-Library.Log_Nat" begin

text \<open>
  \<open>JSON.stringify\<close>, \<open>JSON.parse\<close>, UTF-8 (\<open>Buffer.from(text, 'utf8')\<close>, \<open>TextDecoder\<close>) and the scanner
  \<open>assertNoDuplicateTopLevelKeys\<close> of the event contracts. Numbers are read the way JavaScript reads
  them: the double nearest to the decimal token.
\<close>

section \<open>Keys\<close>

text \<open>Object keys are ASCII strings here; any other code unit of a parsed key is escaped injectively.\<close>

definition key_name :: "ustring \<Rightarrow> string" where
  "key_name us = concat (map (\<lambda>u. if u < 128 then [char_of u]
     else [char_of (128 :: nat), char_of (u div 256), char_of (u mod 256)]) us)"

fun key_units :: "string \<Rightarrow> ustring" where
  "key_units [] = []"
| "key_units (c # cs) =
     (if (of_char c :: nat) < 128 then of_char c # key_units cs
      else (case cs of h # l # rest \<Rightarrow> (256 * of_char h + of_char l) # key_units rest | _ \<Rightarrow> []))"

definition ascii_name :: "string \<Rightarrow> bool" where
  "ascii_name s \<longleftrightarrow> (\<forall>c \<in> set s. (of_char c :: nat) < 128)"

lemma key_units_ascii: "ascii_name s \<Longrightarrow> key_units s = units s"
  by (induction s) (auto simp: ascii_name_def units_def)

lemma key_name_units: "ascii_name s \<Longrightarrow> key_name (units s) = s"
  by (induction s) (auto simp: ascii_name_def units_def key_name_def)

section \<open>\<open>JSON.stringify\<close>\<close>

text \<open>A number that is not an integer has no text here: no value the program stringifies holds one.\<close>

fun stringify :: "json \<Rightarrow> ustring"
  and elements_text :: "json list \<Rightarrow> ustring"
  and members_text :: "(string \<times> json) list \<Rightarrow> ustring" where
  "stringify JNull = units ''null''"
| "stringify (JBool b) = units (if b then ''true'' else ''false'')"
| "stringify (JInt i) = dec_int i"
| "stringify JFrac = []"
| "stringify (JStr s) = json_quote s"
| "stringify (JArr vs) = 91 # elements_text vs @ [93]"
| "stringify (JObj ms) = 123 # members_text ms @ [125]"
| "elements_text [] = []"
| "elements_text (v # vs) = stringify v @ (if vs = [] then [] else 44 # elements_text vs)"
| "members_text [] = []"
| "members_text ((k, v) # ms) =
     json_quote (key_units k) @ 58 # stringify v @ (if ms = [] then [] else 44 # members_text ms)"

section \<open>Numbers\<close>

definition round_half_even :: "nat \<Rightarrow> nat \<Rightarrow> nat" where
  "round_half_even n d =
     (let q = n div d; r = n mod d in
      if 2 * r < d then q else if d < 2 * r then q + 1 else if even q then q else q + 1)"

text \<open>The integer that the double nearest to \<open>n / d\<close> is, if it is one (a double has 53 significant bits).\<close>

definition nearest_integer :: "nat \<Rightarrow> nat \<Rightarrow> nat option" where
  "nearest_integer n d =
     (if n = 0 then Some 0
      else if n < d then
        (if (d - n) * 2 ^ 54 \<le> d then Some 1 else if n * 2 ^ 1075 \<le> d then Some 0 else None)
      else
        (let bits = floorlog 2 (n div d) in
         if 53 \<le> bits then
           (let q = round_half_even n (d * 2 ^ (bits - 53)) * 2 ^ (bits - 53) in
            if q < 2 ^ 1024 then Some q else None)
         else
           (let s = 53 - bits; q = round_half_even (n * 2 ^ s) d in
            if 2 ^ s dvd q then Some (q div 2 ^ s) else None)))"

definition is_digit_unit :: "nat \<Rightarrow> bool" where
  "is_digit_unit u \<longleftrightarrow> 48 \<le> u \<and> u \<le> 57"

text \<open>A number token: optional minus, integer part without leading zeros, fraction, exponent.\<close>

definition split_digits :: "ustring \<Rightarrow> ustring \<times> ustring" where
  "split_digits us = (takeWhile is_digit_unit us, dropWhile is_digit_unit us)"

definition read_fraction :: "ustring \<Rightarrow> (ustring \<times> ustring) option" where
  "read_fraction us =
     (case us of
        u # rest \<Rightarrow> if u = 46 then (if fst (split_digits rest) = [] then None else Some (split_digits rest))
                    else Some ([], us)
      | [] \<Rightarrow> Some ([], []))"

definition read_exponent :: "ustring \<Rightarrow> (int \<times> ustring) option" where
  "read_exponent us =
     (case us of
        u # rest \<Rightarrow>
          if u = 101 \<or> u = 69 then
            (let (sign, ds) = (case rest of s # r \<Rightarrow> if s = 45 then (- 1, r) else if s = 43 then (1, r) else (1, rest)
                               | [] \<Rightarrow> (1, [])) in
             if fst (split_digits ds) = [] then None
             else Some (sign * int (dec_value (fst (split_digits ds))), snd (split_digits ds)))
          else Some (0, us)
      | [] \<Rightarrow> Some (0, []))"

definition number_json :: "bool \<Rightarrow> nat \<Rightarrow> int \<Rightarrow> json" where
  "number_json negative m e =
     (case nearest_integer (m * 10 ^ nat e) (10 ^ nat (- e)) of
        Some k \<Rightarrow> JInt (if negative then - int k else int k)
      | None \<Rightarrow> JFrac)"

text \<open>The value of the number token at the head of a text, and what follows the token.\<close>

definition read_number :: "ustring \<Rightarrow> (json \<times> ustring) option" where
  "read_number us =
     (let negative = (us \<noteq> [] \<and> hd us = 45);
          (ip, r) = split_digits (if negative then tl us else us) in
      if ip = [] \<or> (hd ip = 48 \<and> 1 < length ip) then None
      else (case read_fraction r of
          None \<Rightarrow> None
        | Some (fp, r1) \<Rightarrow>
           (case read_exponent r1 of
              None \<Rightarrow> None
            | Some (e, r2) \<Rightarrow> Some (number_json negative (dec_value (ip @ fp)) (e - int (length fp)), r2))))"

section \<open>\<open>JSON.parse\<close>\<close>

text \<open>
  A parsed text keeps the source of every number, which the \<open>JSON.parse\<close> reviver reads as
  \<open>context.source\<close>.
\<close>

datatype source =
    SNull
  | SBool bool
  | SNum ustring
  | SStr ustring
  | SArr "source list"
  | SObj "(string \<times> source) list"

definition number_value :: "ustring \<Rightarrow> json" where
  "number_value token = (case read_number token of Some (v, r) \<Rightarrow> v | None \<Rightarrow> JNull)"

fun value_of :: "source \<Rightarrow> json" where
  "value_of SNull = JNull"
| "value_of (SBool b) = JBool b"
| "value_of (SNum token) = number_value token"
| "value_of (SStr s) = JStr s"
| "value_of (SArr vs) = JArr (map value_of vs)"
| "value_of (SObj ms) = JObj (map (map_prod id value_of) ms)"

definition is_json_space :: "nat \<Rightarrow> bool" where
  "is_json_space u \<longleftrightarrow> u = 32 \<or> u = 9 \<or> u = 10 \<or> u = 13"

abbreviation skip_space :: "ustring \<Rightarrow> ustring" where
  "skip_space \<equiv> dropWhile is_json_space"

definition read_word :: "string \<Rightarrow> source \<Rightarrow> ustring \<Rightarrow> (source \<times> ustring) option" where
  "read_word w v us = (if take (length w) us = units w then Some (v, drop (length w) us) else None)"

definition read_token :: "ustring \<Rightarrow> (source \<times> ustring) option" where
  "read_token us = (case read_number us of
     Some (v, r) \<Rightarrow> Some (SNum (take (length us - length r) us), r) | None \<Rightarrow> None)"

definition read_literal :: "ustring \<Rightarrow> (source \<times> ustring) option" where
  "read_literal us =
     (if us = [] then None
      else if hd us = 110 then read_word ''null'' SNull us
      else if hd us = 116 then read_word ''true'' (SBool True) us
      else if hd us = 102 then read_word ''false'' (SBool False) us
      else read_token us)"

text \<open>\<open>expect c\<close>: the next unit after white space is \<open>c\<close>.\<close>

definition expect :: "nat \<Rightarrow> ustring \<Rightarrow> ustring option" where
  "expect c us = (case skip_space us of u # rest \<Rightarrow> if u = c then Some rest else None | [] \<Rightarrow> None)"

text \<open>
  The own properties of an object in the order of \<open>Object.keys\<close>: array indices first, ascending, then the
  others as they were created. Of members with equal keys the last value stands at the first place.
\<close>

definition is_array_index :: "string \<Rightarrow> bool" where
  "is_array_index k \<longleftrightarrow> k \<noteq> [] \<and> units k = dec_nat (dec_value (units k)) \<and> dec_value (units k) < 4294967295"

fun put_member :: "string \<Rightarrow> source \<Rightarrow> (string \<times> source) list \<Rightarrow> (string \<times> source) list" where
  "put_member k v [] = [(k, v)]"
| "put_member k v (m # ms) = (if fst m = k then (k, v) # ms else m # put_member k v ms)"

definition object_of :: "(string \<times> source) list \<Rightarrow> source" where
  "object_of ms =
     (let fs = foldl (\<lambda>fs (k, v). put_member k v fs) [] ms in
      SObj (sort_key (\<lambda>m. dec_value (units (fst m))) (filter (\<lambda>m. is_array_index (fst m)) fs) @
            filter (\<lambda>m. \<not> is_array_index (fst m)) fs))"

text \<open>Fuel bounds the nesting; every nested call has consumed a unit, so the length of the text is enough.\<close>

fun parse_value :: "nat \<Rightarrow> ustring \<Rightarrow> (source \<times> ustring) option"
  and parse_elements :: "nat \<Rightarrow> ustring \<Rightarrow> (source list \<times> ustring) option"
  and parse_members :: "nat \<Rightarrow> ustring \<Rightarrow> ((string \<times> source) list \<times> ustring) option" where
  "parse_value 0 us = None"
| "parse_value (Suc n) us =
     (case expect 34 us of
        Some r \<Rightarrow> map_option (apfst SStr) (unquote r)
      | None \<Rightarrow>
     (case expect 123 us of
        Some r \<Rightarrow> (case expect 125 r of Some r' \<Rightarrow> Some (SObj [], r')
                   | None \<Rightarrow> map_option (apfst object_of) (parse_members n r))
      | None \<Rightarrow>
     (case expect 91 us of
        Some r \<Rightarrow> (case expect 93 r of Some r' \<Rightarrow> Some (SArr [], r')
                   | None \<Rightarrow> map_option (apfst SArr) (parse_elements n r))
      | None \<Rightarrow> read_literal (skip_space us))))"
| "parse_elements 0 us = None"
| "parse_elements (Suc n) us =
     (case parse_value n us of
        None \<Rightarrow> None
      | Some (v, r) \<Rightarrow>
         (case expect 44 r of
            Some r' \<Rightarrow> map_option (apfst (Cons v)) (parse_elements n r')
          | None \<Rightarrow> map_option (Pair [v]) (expect 93 r)))"
| "parse_members 0 us = None"
| "parse_members (Suc n) us =
     (case expect 34 us of
        None \<Rightarrow> None
      | Some r \<Rightarrow>
         (case unquote r of
            None \<Rightarrow> None
          | Some (k, r1) \<Rightarrow>
             (case expect 58 r1 of
                None \<Rightarrow> None
              | Some r2 \<Rightarrow>
                 (case parse_value n r2 of
                    None \<Rightarrow> None
                  | Some (v, r3) \<Rightarrow>
                     (case expect 44 r3 of
                        Some r4 \<Rightarrow> map_option (apfst (Cons (key_name k, v))) (parse_members n r4)
                      | None \<Rightarrow> map_option (Pair [(key_name k, v)]) (expect 125 r3))))))"

definition json_source :: "ustring \<Rightarrow> source option" where
  "json_source us =
     (case parse_value (Suc (length us)) us of
        Some (v, r) \<Rightarrow> if skip_space r = [] then Some v else None
      | None \<Rightarrow> None)"

definition json_parse :: "ustring \<Rightarrow> json option" where
  "json_parse us = map_option value_of (json_source us)"

end
