(* ===== verification/Json_Roundtrip.thy ===== *)
theory Json_Roundtrip imports Json_Text begin

text \<open>
  \<open>JSON.parse\<close> inverts \<open>JSON.stringify\<close> on the values the program stringifies: safe integers, strings of
  code units, objects whose keys are distinct names.
\<close>

section \<open>Plain values\<close>

fun plain :: "json \<Rightarrow> bool" where
  "plain JNull \<longleftrightarrow> True"
| "plain (JBool b) \<longleftrightarrow> True"
| "plain (JInt i) \<longleftrightarrow> \<bar>i\<bar> \<le> max_safe_integer"
| "plain JFrac \<longleftrightarrow> False"
| "plain (JStr s) \<longleftrightarrow> (\<forall>u \<in> set s. u < 65536)"
| "plain (JArr vs) \<longleftrightarrow> list_all plain vs"
| "plain (JObj ms) \<longleftrightarrow> list_all (\<lambda>m. ascii_name (fst m) \<and> \<not> is_array_index (fst m) \<and> plain (snd m)) ms \<and>
     distinct (map fst ms)"

fun source_of :: "json \<Rightarrow> source" where
  "source_of JNull = SNull"
| "source_of (JBool b) = SBool b"
| "source_of (JInt i) = SNum (dec_int i)"
| "source_of JFrac = SNull"
| "source_of (JStr s) = SStr s"
| "source_of (JArr vs) = SArr (map source_of vs)"
| "source_of (JObj ms) = SObj (map (map_prod id source_of) ms)"

section \<open>Numbers\<close>

lemma round_half_even_1 [simp]: "round_half_even n 1 = n" "round_half_even n (Suc 0) = n"
  by (simp_all add: round_half_even_def)

lemma nearest_integer_exact:
  assumes "n < 2 ^ 53"
  shows "nearest_integer n 1 = Some n"
proof (cases "n = 0")
  case True
  then show ?thesis by (simp add: nearest_integer_def)
next
  case False
  have le: "floorlog 2 n \<le> 53" using assms floorlog_le_iff[of 2 n 53] by simp
  show ?thesis
  proof (cases "floorlog 2 n = 53")
    case True
    have "(2::nat) ^ 53 < 2 ^ 1024" by (rule power_strict_increasing) simp_all
    with assms have "n < 2 ^ 1024" by linarith
    then show ?thesis using False True by (simp add: nearest_integer_def)
  next
    case 2: False
    then show ?thesis using False le by (simp add: nearest_integer_def)
  qed
qed

lemma dec_nat_ne [simp]: "dec_nat n \<noteq> []"
  by (simp add: dec_nat.simps[of n])

lemma dec_nat_no_leading_zero: "10 \<le> n \<Longrightarrow> hd (dec_nat n) \<noteq> 48"
proof (induction n rule: dec_nat.induct)
  case (1 n)
  show ?case
  proof (cases "n < 100")
    case True
    then have "n div 10 < 10" "0 < n div 10" using 1(2) by linarith+
    then show ?thesis using 1(2) by (simp add: dec_nat_eval)
  next
    case False
    then have "10 \<le> n div 10" by linarith
    then show ?thesis using 1 by (simp add: dec_nat_eval(2))
  qed
qed

text \<open>No unit that would continue a number token follows.\<close>

definition number_stop :: "ustring \<Rightarrow> bool" where
  "number_stop us \<longleftrightarrow> us = [] \<or> (\<not> is_digit_unit (hd us) \<and> hd us \<notin> {46, 101, 69})"

lemma split_digits_dec:
  assumes "number_stop rest"
  shows "split_digits (dec_nat n @ rest) = (dec_nat n, rest)"
proof -
  have d: "\<forall>u \<in> set (dec_nat n). is_digit_unit u" using dec_nat_digits by (auto simp: is_digit_unit_def)
  have "takeWhile is_digit_unit rest = []" "dropWhile is_digit_unit rest = rest"
    using assms by (cases rest; simp add: number_stop_def)+
  then show ?thesis using d by (simp add: split_digits_def takeWhile_append dropWhile_append)
qed

lemma dec_nat_token: "\<not> (hd (dec_nat n) = 48 \<and> 1 < length (dec_nat n))"
proof (cases "n < 10")
  case True
  then show ?thesis by (simp add: dec_nat_eval(1))
next
  case False
  then show ?thesis using dec_nat_no_leading_zero[of n] by simp
qed

lemma dec_nat_hd: "hd (dec_nat n) \<noteq> 45"
  using dec_nat_digits[of "hd (dec_nat n)" n] by auto

lemma read_number_dec:
  assumes "\<bar>i\<bar> \<le> max_safe_integer" and "number_stop rest"
  shows "read_number (dec_int i @ rest) = Some (JInt i, rest)"
proof -
  have frac: "read_fraction rest = Some ([], rest)"
    using assms(2) by (cases rest) (auto simp: read_fraction_def number_stop_def)
  have expo: "read_exponent rest = Some (0, rest)"
    using assms(2) by (cases rest) (auto simp: read_exponent_def number_stop_def)
  have "nat \<bar>i\<bar> < 2 ^ 53" using assms(1) by (simp add: max_safe_integer_def)
  then have near: "nearest_integer (nat \<bar>i\<bar>) (Suc 0) = Some (nat \<bar>i\<bar>)"
    using nearest_integer_exact by simp
  show ?thesis
  proof (cases "i < 0")
    case True
    then show ?thesis using near
      by (simp add: read_number_def dec_int_def split_digits_dec[OF assms(2)] dec_nat_token[simplified]
          frac expo number_json_def dec_value_dec_nat del: dec_value.simps)
  next
    case False
    then show ?thesis using near
      by (simp add: read_number_def dec_int_def split_digits_dec[OF assms(2)] dec_nat_token[simplified]
          dec_nat_hd Let_def frac expo number_json_def dec_value_dec_nat del: dec_value.simps)
  qed
qed

lemma number_value_dec: "\<bar>i\<bar> \<le> max_safe_integer \<Longrightarrow> number_value (dec_int i) = JInt i"
  using read_number_dec[of i "[]"] by (simp add: number_value_def number_stop_def)

lemma value_of_source: "plain v \<Longrightarrow> value_of (source_of v) = v"
proof (induction v rule: source_of.induct)
  case (7 ms)
  have "map_prod id value_of (map_prod id source_of m) = m" if "m \<in> set ms" for m
    using 7 that by (cases m) (fastforce simp: list_all_iff)
  then show ?case by (simp add: map_idI)
qed (auto simp: number_value_dec list_all_iff map_idI)

section \<open>Objects\<close>

lemma put_member_new: "k \<notin> fst ` set ms \<Longrightarrow> put_member k v ms = ms @ [(k, v)]"
  by (induction ms) auto

lemma put_members_new:
  "distinct (map fst (fs @ ms)) \<Longrightarrow> foldl (\<lambda>fs (k, v). put_member k v fs) fs ms = fs @ ms"
proof (induction ms arbitrary: fs)
  case (Cons m ms)
  then have "put_member (fst m) (snd m) fs = fs @ [m]" by (simp add: put_member_new)
  then show ?case using Cons.IH[of "fs @ [m]"] Cons.prems by (simp add: case_prod_unfold)
qed simp

lemma object_of_distinct:
  assumes "distinct (map fst ms)" and "\<forall>m \<in> set ms. \<not> is_array_index (fst m)"
  shows "object_of ms = SObj ms"
proof -
  have "filter (\<lambda>m. is_array_index (fst m)) ms = []" "filter (\<lambda>m. \<not> is_array_index (fst m)) ms = ms"
    using assms(2) by (simp_all add: filter_empty_conv)
  then show ?thesis using put_members_new[of "[]" ms] assms(1) by (simp add: object_of_def)
qed

section \<open>The round trip\<close>

lemma expect_Cons: "\<not> is_json_space u \<Longrightarrow> expect c (u # us) = (if u = c then Some us else None)"
  by (simp add: expect_def)

lemma space_units [simp]: "\<not> is_json_space 34" "\<not> is_json_space 44" "\<not> is_json_space 58"
  "\<not> is_json_space 91" "\<not> is_json_space 93" "\<not> is_json_space 123" "\<not> is_json_space 125"
  "\<not> is_json_space 45" "\<not> is_json_space 110" "\<not> is_json_space 116" "\<not> is_json_space 102"
  by (simp_all add: is_json_space_def)

lemma number_stop_units [simp]: "number_stop []" "number_stop (44 # us)" "number_stop (93 # us)"
  "number_stop (125 # us)"
  by (simp_all add: number_stop_def is_digit_unit_def)

lemma dec_int_Cons:
  obtains u us where "dec_int i = u # us" "u = 45 \<or> is_digit_unit u"
proof (cases "dec_int i")
  case Nil
  then show ?thesis by (simp add: dec_int_def split: if_splits)
next
  case (Cons u us)
  then have "u = 45 \<or> u \<in> set (dec_nat (nat i))" by (auto simp: dec_int_def split: if_splits)
  then show ?thesis using Cons that dec_nat_digits[of u "nat i"] by (auto simp: is_digit_unit_def)
qed

lemma digit_not_space: "is_digit_unit u \<Longrightarrow> \<not> is_json_space u"
  by (auto simp: is_digit_unit_def is_json_space_def)

lemma stringify_Cons:
  assumes "plain v"
  obtains u us where "stringify v = u # us" "\<not> is_json_space u" "u \<notin> {44, 93, 125}"
proof (cases v)
  case (JInt i)
  obtain u us where "dec_int i = u # us" "u = 45 \<or> is_digit_unit u" by (rule dec_int_Cons)
  then show ?thesis using JInt that by (auto simp: digit_not_space is_digit_unit_def)
next
  case (JBool b)
  then show ?thesis using that by (cases b) (auto simp: units_def)
qed (use assms that in \<open>auto simp: units_def json_quote_def\<close>)

lemma parse_atom:
  assumes "us = u # r" "\<not> is_json_space u" "u \<notin> {34, 123, 91}"
  shows "parse_value (Suc n) us = read_literal us"
  using assms by (simp add: expect_Cons)

lemma parse_integer:
  assumes "\<bar>i\<bar> \<le> max_safe_integer" and "number_stop rest"
  shows "parse_value (Suc n) (dec_int i @ rest) = Some (SNum (dec_int i), rest)"
proof -
  obtain u us where u: "dec_int i = u # us" "u = 45 \<or> is_digit_unit u" by (rule dec_int_Cons)
  then have "\<not> is_json_space u" "u \<notin> {34, 123, 91, 110, 116, 102}"
    by (auto simp: digit_not_space is_digit_unit_def)
  then have "parse_value (Suc n) (dec_int i @ rest) = read_token (dec_int i @ rest)"
    using parse_atom[of "dec_int i @ rest" u "us @ rest" n] u(1) by (simp add: read_literal_def)
  then show ?thesis using read_number_dec[OF assms] by (simp add: read_token_def)
qed

lemma parse_word:
  "parse_value (Suc n) (units ''null'' @ rest) = Some (SNull, rest)"
  "parse_value (Suc n) (units ''true'' @ rest) = Some (SBool True, rest)"
  "parse_value (Suc n) (units ''false'' @ rest) = Some (SBool False, rest)"
  by (simp_all add: expect_Cons units_def read_literal_def read_word_def)

lemma ascii_units: "ascii_name k \<Longrightarrow> \<forall>u \<in> set (units k). u < 128"
  by (auto simp: ascii_name_def units_def)

lemma parse_stringify:
  "plain v \<Longrightarrow> length (stringify v) \<le> n \<Longrightarrow> number_stop rest \<Longrightarrow>
    parse_value n (stringify v @ rest) = Some (source_of v, rest)"
  "list_all plain vs \<Longrightarrow> vs \<noteq> [] \<Longrightarrow> length (elements_text vs) < n \<Longrightarrow>
    parse_elements n (elements_text vs @ 93 # rest) = Some (map source_of vs, rest)"
  "list_all (\<lambda>m. ascii_name (fst m) \<and> plain (snd m)) ms \<Longrightarrow> ms \<noteq> [] \<Longrightarrow> length (members_text ms) < n \<Longrightarrow>
    parse_members n (members_text ms @ 125 # rest) = Some (map (map_prod id source_of) ms, rest)"
proof (induction v and vs and ms arbitrary: n rest and n rest and n rest
    rule: stringify_elements_text_members_text.induct)
  case 1
  then show ?case by (cases n) (auto simp: parse_word simp del: parse_value.simps)
next
  case (2 b)
  then show ?case by (cases n; cases b) (auto simp: parse_word simp del: parse_value.simps)
next
  case (3 i)
  then obtain m where "n = Suc m" by (cases n) (auto simp: dec_int_def split: if_splits)
  then show ?case using 3 by (simp add: parse_integer del: parse_value.simps)
next
  case 4
  then show ?case by simp
next
  case (5 s)
  then obtain m where "n = Suc m" by (cases n) (auto simp: json_quote_def)
  then show ?case using 5 by (simp add: json_quote_def expect_Cons unquote_quote)
next
  case (6 vs)
  then obtain m where n: "n = Suc m" "length (elements_text vs) < m" by (cases n) auto
  show ?case
  proof (cases vs)
    case Nil
    then show ?thesis using n by (simp add: expect_Cons)
  next
    case (Cons w ws)
    then obtain u us where u: "stringify w = u # us" "\<not> is_json_space u" "u \<notin> {44, 93, 125}"
      using 6(2) stringify_Cons[of w] by auto
    then have "expect 93 (elements_text vs @ 93 # rest) = None" using Cons by (simp add: expect_Cons)
    then show ?thesis using 6(1)[of m rest] 6(2) n Cons by (simp add: expect_Cons)
  qed
next
  case (7 ms)
  then obtain m where n: "n = Suc m" "length (members_text ms) < m" by (cases n) auto
  show ?case
  proof (cases ms)
    case Nil
    then show ?thesis using n by (simp add: expect_Cons)
  next
    case (Cons w ws)
    have P: "parse_members m (members_text ms @ 125 # rest) = Some (map (map_prod id source_of) ms, rest)"
      by (rule 7(1)) (use 7(2) n Cons in \<open>auto simp: list_all_iff\<close>)
    have "object_of (map (map_prod id source_of) ms) = SObj (map (map_prod id source_of) ms)"
      using 7(2) by (intro object_of_distinct) (auto simp: list_all_iff comp_def)
    moreover have "expect 125 (members_text ms @ 125 # rest) = None"
      using Cons by (cases w) (simp add: expect_Cons json_quote_def)
    ultimately show ?thesis using P n by (simp add: expect_Cons)
  qed
next
  case 8
  then show ?case by simp
next
  case (9 v vs)
  then obtain m where n: "n = Suc m" by (cases n) auto
  show ?case
  proof (cases "vs = []")
    case True
    then show ?thesis using 9(1)[of m "93 # rest"] 9(3-5) n by (simp add: expect_Cons)
  next
    case False
    then show ?thesis using 9(1)[of m "44 # elements_text vs @ 93 # rest"] 9(2)[of m rest] 9(3-5) n
      by (simp add: expect_Cons)
  qed
next
  case 10
  then show ?case by simp
next
  case (11 k v ms)
  then obtain m where n: "n = Suc m" by (cases n) auto
  have k: "key_units k = units k" "key_name (units k) = k" "\<forall>u \<in> set (units k). u < 65536"
    using 11(3) ascii_units[of k] by (auto simp: key_units_ascii key_name_units intro: less_trans)
  show ?case
  proof (cases "ms = []")
    case True
    then show ?thesis using 11(1)[of m "125 # rest"] 11(3-5) n k
      by (simp add: expect_Cons json_quote_def unquote_quote)
  next
    case False
    then show ?thesis using 11(1)[of m "44 # members_text ms @ 125 # rest"] 11(2)[of m rest] 11(3-5) n k
      by (simp add: expect_Cons json_quote_def unquote_quote)
  qed
qed

lemma json_source_stringify:
  assumes "plain v"
  shows "json_source (stringify v) = Some (source_of v)"
  using parse_stringify(1)[OF assms, of "Suc (length (stringify v))" "[]"]
  by (simp add: json_source_def del: parse_value.simps)

lemma json_parse_stringify: "plain v \<Longrightarrow> json_parse (stringify v) = Some v"
  by (simp add: json_parse_def json_source_stringify value_of_source)

end
