(* ===== verification/Utf8.thy ===== *)
theory Utf8 imports Prelude begin

text \<open>
  UTF-8 between strings of UTF-16 code units and bytes: \<open>Buffer.from(text, 'utf8')\<close>,
  \<open>buffer.toString('utf8')\<close> and \<open>new TextDecoder('utf-8', { fatal: true }).decode\<close>. A byte is a \<open>nat\<close>
  below 256. A decoded item is a code point, or \<open>None\<close> for a malformed sequence (the longest prefix of
  a well-formed one counts as one, as in the WHATWG decoder).
\<close>

section \<open>Encoding\<close>

definition encode_point :: "nat \<Rightarrow> nat list" where
  "encode_point p =
     (if p < 128 then [p]
      else if p < 2048 then [192 + p div 64, 128 + p mod 64]
      else if p < 65536 then [224 + p div 4096, 128 + p div 64 mod 64, 128 + p mod 64]
      else [240 + p div 262144, 128 + p div 4096 mod 64, 128 + p div 64 mod 64, 128 + p mod 64])"

definition pair_point :: "nat \<Rightarrow> nat \<Rightarrow> nat" where
  "pair_point h l = 65536 + (h - 55296) * 1024 + (l - 56320)"

text \<open>The code points of a string; a surrogate without its partner becomes U+FFFD.\<close>

fun points :: "ustring \<Rightarrow> nat list" where
  "points (h # l # us) =
     (if is_high h \<and> is_low l then pair_point h l # points us
      else (if is_high h \<or> is_low h then 65533 else h) # points (l # us))"
| "points [u] = [if is_high u \<or> is_low u then 65533 else u]"
| "points [] = []"

definition utf8_encode :: "ustring \<Rightarrow> nat list" where
  "utf8_encode us = concat (map encode_point (points us))"

section \<open>Decoding\<close>

text \<open>\<open>n\<close> continuation bytes, the first of them between \<open>lo\<close> and \<open>hi\<close>.\<close>

fun continue :: "nat \<Rightarrow> nat \<Rightarrow> nat \<Rightarrow> nat \<Rightarrow> nat list \<Rightarrow> nat option \<times> nat list" where
  "continue 0 p lo hi bs = (Some p, bs)"
| "continue (Suc n) p lo hi [] = (None, [])"
| "continue (Suc n) p lo hi (b # bs) =
     (if lo \<le> b \<and> b \<le> hi then continue n (p * 64 + (b - 128)) 128 191 bs else (None, b # bs))"

definition decode_step :: "nat \<Rightarrow> nat list \<Rightarrow> nat option \<times> nat list" where
  "decode_step b bs =
     (if b < 128 then (Some b, bs)
      else if 194 \<le> b \<and> b \<le> 223 then continue 1 (b - 192) 128 191 bs
      else if 224 \<le> b \<and> b \<le> 239
      then continue 2 (b - 224) (if b = 224 then 160 else 128) (if b = 237 then 159 else 191) bs
      else if 240 \<le> b \<and> b \<le> 244
      then continue 3 (b - 240) (if b = 240 then 144 else 128) (if b = 244 then 143 else 191) bs
      else (None, bs))"

lemma continue_length: "length (snd (continue n p lo hi bs)) \<le> length bs"
  by (induction n p lo hi bs rule: continue.induct) auto

lemma decode_step_length: "length (snd (decode_step b bs)) \<le> length bs"
  by (auto simp: decode_step_def continue_length)

function decode_items :: "nat list \<Rightarrow> nat option list" where
  "decode_items [] = []"
| "decode_items (b # bs) = fst (decode_step b bs) # decode_items (snd (decode_step b bs))"
  by pat_completeness auto
termination
  by (relation "measure length") (simp_all add: le_imp_less_Suc decode_step_length)

definition units_of_point :: "nat \<Rightarrow> ustring" where
  "units_of_point p = (if p < 65536 then [p] else [55296 + (p - 65536) div 1024, 56320 + (p - 65536) mod 1024])"

text \<open>The fatal decoder refuses a malformed sequence; \<open>toString\<close> puts U+FFFD in its place.\<close>

definition decode_fatal :: "nat list \<Rightarrow> ustring option" where
  "decode_fatal bs =
     (if None \<in> set (decode_items bs) then None
      else Some (concat (map (\<lambda>i. units_of_point (the i)) (decode_items bs))))"

definition decode_lossy :: "nat list \<Rightarrow> ustring" where
  "decode_lossy bs =
     concat (map (\<lambda>i. case i of Some p \<Rightarrow> units_of_point p | None \<Rightarrow> [65533]) (decode_items bs))"

section \<open>Round trip\<close>

definition is_scalar :: "nat \<Rightarrow> bool" where
  "is_scalar p \<longleftrightarrow> p < 55296 \<or> (57343 < p \<and> p < 1114112)"

lemma split64:
  fixes p :: nat
  shows "p div 64 * 64 + p mod 64 = p" and "p div 4096 * 64 + p div 64 mod 64 = p div 64"
    and "p div 262144 * 64 + p div 4096 mod 64 = p div 4096"
proof -
  have e: "p div 4096 = p div 64 div 64" "p div 262144 = p div 4096 div 64"
    using div_mult2_eq[of p 64 64] div_mult2_eq[of p 4096 64] by simp_all
  show "p div 64 * 64 + p mod 64 = p" by simp
  show "p div 4096 * 64 + p div 64 mod 64 = p div 64" unfolding e(1) by simp
  show "p div 262144 * 64 + p div 4096 mod 64 = p div 4096" unfolding e(2) by simp
qed

lemma continue_step:
  "0 < n \<Longrightarrow> lo \<le> 128 + b \<Longrightarrow> 128 + b \<le> hi \<Longrightarrow>
   continue n p lo hi ((128 + b) # bs) = continue (n - 1) (p * 64 + b) 128 191 bs"
  by (cases n) auto

lemma decode_point:
  assumes "is_scalar p"
  shows "decode_items (encode_point p @ bs) = Some p # decode_items bs"
proof -
  have cont: "128 \<le> 128 + q mod 64" "128 + q mod 64 \<le> 191" for q :: nat
    using mod_less_divisor[of 64 q] by simp_all
  consider (1) "p < 128" | (2) "128 \<le> p" "p < 2048" | (3) "2048 \<le> p" "p < 65536"
    | (4) "65536 \<le> p" "p < 1114112"
    using assms unfolding is_scalar_def by linarith
  then show ?thesis
  proof cases
    case 1
    then show ?thesis by (simp add: encode_point_def decode_step_def)
  next
    case 2
    then have "2 \<le> p div 64" "p div 64 < 32" by linarith+
    then have "decode_step (192 + p div 64) ((128 + p mod 64) # bs) =
        continue 1 (p div 64) 128 191 ((128 + p mod 64) # bs)"
      by (simp add: decode_step_def)
    also have "\<dots> = (Some p, bs)" by (simp add: continue_step cont split64(1))
    finally have "decode_step (192 + p div 64) ((128 + p mod 64) # bs) = (Some p, bs)" .
    then show ?thesis using 2 by (simp add: encode_point_def)
  next
    case 3
    define a where "a = p div 4096"
    define b where "b = p div 64 mod 64"
    have b: "a * 64 + b = p div 64" using split64(2)[of p] by (simp add: a_def b_def)
    have "a < 16" using 3 unfolding a_def by linarith
    moreover have "32 \<le> b" if "a = 0" using that b 3 by linarith
    moreover have "b \<le> 31" if "a = 13"
    proof -
      have "p div 64 < 864" using that 3 assms unfolding is_scalar_def a_def by linarith
      then show ?thesis using b that by linarith
    qed
    moreover have "b < 64" by (simp add: b_def)
    ultimately have "decode_step (224 + a) ((128 + b) # (128 + p mod 64) # bs) =
        continue 2 a (if a = 0 then 160 else 128) (if a = 13 then 159 else 191)
          ((128 + b) # (128 + p mod 64) # bs)"
      and "(if a = 0 then 160 else 128) \<le> 128 + b" "128 + b \<le> (if a = 13 then 159 else 191)"
      by (simp_all add: decode_step_def)
    then have "decode_step (224 + a) ((128 + b) # (128 + p mod 64) # bs) = (Some p, bs)"
      by (simp add: continue_step cont split64(1) b)
    then show ?thesis using 3 by (simp add: encode_point_def a_def b_def)
  next
    case 4
    define a where "a = p div 262144"
    define b where "b = p div 4096 mod 64"
    define c where "c = p div 64 mod 64"
    have b: "a * 64 + b = p div 4096" using split64(3)[of p] by (simp add: a_def b_def)
    have c: "p div 4096 * 64 + c = p div 64" using split64(2)[of p] by (simp add: c_def)
    have "a \<le> 4" using 4 unfolding a_def by linarith
    moreover have "16 \<le> b" if "a = 0" using that b 4 by linarith
    moreover have "b \<le> 15" if "a = 4"
    proof -
      have "p div 4096 < 272" using 4 by linarith
      then show ?thesis using b that by linarith
    qed
    moreover have "b < 64" "c < 64" by (simp_all add: b_def c_def)
    ultimately have "decode_step (240 + a) ((128 + b) # (128 + c) # (128 + p mod 64) # bs) =
        continue 3 a (if a = 0 then 144 else 128) (if a = 4 then 143 else 191)
          ((128 + b) # (128 + c) # (128 + p mod 64) # bs)"
      and "(if a = 0 then 144 else 128) \<le> 128 + b" "128 + b \<le> (if a = 4 then 143 else 191)"
      and "128 + c \<le> 191"
      by (simp_all add: decode_step_def)
    then have "decode_step (240 + a) ((128 + b) # (128 + c) # (128 + p mod 64) # bs) = (Some p, bs)"
      by (simp add: continue_step cont split64(1) b c)
    then show ?thesis using 4 by (simp add: encode_point_def a_def b_def c_def)
  qed
qed

text \<open>No surrogate stands without its partner.\<close>

fun well_formed :: "ustring \<Rightarrow> bool" where
  "well_formed (h # l # us) =
     (if is_high h \<and> is_low l then well_formed us
      else \<not> is_high h \<and> \<not> is_low h \<and> h < 65536 \<and> well_formed (l # us))"
| "well_formed [u] \<longleftrightarrow> \<not> is_high u \<and> \<not> is_low u \<and> u < 65536"
| "well_formed [] \<longleftrightarrow> True"

lemma decode_points:
  "list_all is_scalar ps \<Longrightarrow> decode_items (concat (map encode_point ps)) = map Some ps"
  by (induction ps) (simp_all add: decode_point)

lemma points_scalar: "well_formed us \<Longrightarrow> list_all is_scalar (points us)"
  by (induction us rule: points.induct)
    (auto simp: is_scalar_def is_high_def is_low_def pair_point_def)

lemma points_units: "well_formed us \<Longrightarrow> concat (map units_of_point (points us)) = us"
proof (induction us rule: points.induct)
  case (1 h l us)
  show ?case
  proof (cases "is_high h \<and> is_low l")
    case True
    then obtain a b where "h = 55296 + a" "l = 56320 + b" "b < 1024"
      by (auto simp: is_high_def is_low_def dest!: le_Suc_ex)
    then have "units_of_point (pair_point h l) = [h, l]"
      by (simp add: units_of_point_def pair_point_def)
    then show ?thesis using 1 True by simp
  next
    case False
    then show ?thesis using 1 by (auto simp: units_of_point_def)
  qed
qed (auto simp: units_of_point_def)

lemma decode_encode_fatal:
  assumes "well_formed us"
  shows "decode_fatal (utf8_encode us) = Some us"
  using decode_points[OF points_scalar[OF assms]] points_units[OF assms]
  by (simp add: decode_fatal_def utf8_encode_def comp_def)

lemma decode_encode_lossy:
  assumes "well_formed us"
  shows "decode_lossy (utf8_encode us) = us"
  using decode_points[OF points_scalar[OF assms]] points_units[OF assms]
  by (simp add: decode_lossy_def utf8_encode_def comp_def)

lemma utf8_encode_inj:
  "well_formed us \<Longrightarrow> well_formed vs \<Longrightarrow> utf8_encode us = utf8_encode vs \<Longrightarrow> us = vs"
  by (metis decode_encode_lossy)

text \<open>ASCII text is its own encoding.\<close>

lemma well_formed_ascii: "\<forall>u \<in> set us. u < 128 \<Longrightarrow> well_formed us"
  by (induction us rule: points.induct) (auto simp: is_high_def is_low_def)

lemma points_ascii: "\<forall>u \<in> set us. u < 128 \<Longrightarrow> points us = us"
  by (induction us rule: points.induct) (auto simp: is_high_def is_low_def)

lemma utf8_encode_ascii: "\<forall>u \<in> set us. u < 128 \<Longrightarrow> utf8_encode us = us"
proof -
  have "\<forall>u \<in> set us. u < 128 \<Longrightarrow> concat (map encode_point us) = us"
    by (induction us) (auto simp: encode_point_def)
  then show "\<forall>u \<in> set us. u < 128 \<Longrightarrow> utf8_encode us = us" by (simp add: utf8_encode_def points_ascii)
qed

end
