(* ===== verification/Message_Body.thy ===== *)
theory Message_Body imports Json_Roundtrip Utf8 Instant begin

text \<open>
  What the event contracts share (\<open>packages/modules/eventing/src/payment-created-event.contract.ts\<close>,
  \<open>payment-lifecycle-event.contract.ts\<close>): the scanner that refuses duplicate keys, the decoding of a
  message body, the source text of the amount, and tests of members by pattern.
\<close>

section \<open>Text tests\<close>

text \<open>A pattern of ASCII characters matches a string of code units only if all of them are ASCII.\<close>

definition text_matches :: "(string \<Rightarrow> bool) \<Rightarrow> ustring \<Rightarrow> bool" where
  "text_matches p us \<longleftrightarrow> list_all (\<lambda>u. u < 128) us \<and> p (map char_of us)"

definition member_matches :: "(string \<Rightarrow> bool) \<Rightarrow> json option \<Rightarrow> bool" where
  "member_matches p v = (case v of Some (JStr us) \<Rightarrow> text_matches p us | _ \<Rightarrow> False)"

lemma text_matches_units: "ascii_name s \<Longrightarrow> text_matches p (units s) \<longleftrightarrow> p s"
  by (simp add: text_matches_def ascii_name_def units_def list_all_iff comp_def)

lemma member_matches_jstr: "ascii_name s \<Longrightarrow> member_matches p (Some (jstr s)) \<longleftrightarrow> p s"
  by (simp add: member_matches_def jstr_def text_matches_units)

lemma text_matches_ascii: "text_matches p us \<Longrightarrow> \<exists>s. us = units s \<and> ascii_name s \<and> p s"
  by (rule exI[of _ "map char_of us"])
    (auto simp: text_matches_def units_def ascii_name_def list_all_iff comp_def intro!: map_idI[symmetric])

section \<open>\<open>assertNoDuplicateTopLevelKeys\<close>\<close>

text \<open>\<open>sc_key\<close> is the text from \<open>keyStart\<close> on, when it is set.\<close>

record scan =
  sc_keys :: "ustring list"
  sc_depth :: int
  sc_escaped :: bool
  sc_expecting :: bool
  sc_in_string :: bool
  sc_key :: "ustring option"

definition scan_start :: scan where
  "scan_start = \<lparr>sc_keys = [], sc_depth = 0, sc_escaped = False, sc_expecting = False, sc_in_string = False,
     sc_key = None\<rparr>"

definition end_of_string :: "scan \<Rightarrow> scan option" where
  "end_of_string s =
     (case sc_key s of
        None \<Rightarrow> Some (s\<lparr>sc_in_string := False\<rparr>)
      | Some t \<Rightarrow>
         (case json_parse (t @ [34]) of
            Some (JStr k) \<Rightarrow>
              if k \<in> set (sc_keys s) then None
              else Some (s\<lparr>sc_in_string := False, sc_keys := sc_keys s @ [k], sc_key := None, sc_expecting := False\<rparr>)
          | _ \<Rightarrow> None))"

definition scan_step :: "scan \<Rightarrow> nat \<Rightarrow> scan option" where
  "scan_step s u =
     (let s' = s\<lparr>sc_key := map_option (\<lambda>t. t @ [u]) (sc_key s)\<rparr> in
      if sc_in_string s then
        if sc_escaped s then Some (s'\<lparr>sc_escaped := False\<rparr>)
        else if u = 92 then Some (s'\<lparr>sc_escaped := True\<rparr>)
        else if u = 34 then end_of_string s
        else Some s'
      else if u = 34 then
        Some (s\<lparr>sc_in_string := True,
                sc_key := (if sc_depth s = 1 \<and> sc_expecting s then Some [34] else sc_key s)\<rparr>)
      else if u = 123 \<or> u = 91 then
        Some (s\<lparr>sc_depth := sc_depth s + 1,
                sc_expecting := sc_expecting s \<or> (sc_depth s + 1 = 1 \<and> u = 123)\<rparr>)
      else if u = 125 \<or> u = 93 then Some (s\<lparr>sc_depth := sc_depth s - 1\<rparr>)
      else if u = 44 \<and> sc_depth s = 1 then Some (s\<lparr>sc_expecting := True\<rparr>)
      else Some s)"

fun scan_text :: "scan \<Rightarrow> ustring \<Rightarrow> scan option" where
  "scan_text s [] = Some s"
| "scan_text s (u # us) = (case scan_step s u of Some s' \<Rightarrow> scan_text s' us | None \<Rightarrow> None)"

definition no_duplicate_keys :: "ustring \<Rightarrow> bool" where
  "no_duplicate_keys text \<longleftrightarrow> scan_text scan_start text \<noteq> None"

section \<open>The reviver\<close>

text \<open>
  \<open>JSON.parse(text, reviver)\<close> visits every member after the members of its value. The reviver of
  \<open>parseEventBody\<close> keeps the source of the last number whose key is \<open>amountMinor\<close>, at any depth.
\<close>

fun amount_source :: "string \<Rightarrow> source \<Rightarrow> ustring option \<Rightarrow> ustring option"
  and amount_elements :: "source list \<Rightarrow> ustring option \<Rightarrow> ustring option"
  and amount_members :: "(string \<times> source) list \<Rightarrow> ustring option \<Rightarrow> ustring option" where
  "amount_source k (SNum t) acc = (if k = ''amountMinor'' then Some t else acc)"
| "amount_source k (SArr vs) acc = amount_elements vs acc"
| "amount_source k (SObj ms) acc = amount_members ms acc"
| "amount_source k v acc = acc"
| "amount_elements [] acc = acc"
| "amount_elements (v # vs) acc = amount_elements vs (amount_source [] v acc)"
| "amount_members [] acc = acc"
| "amount_members ((k, v) # ms) acc = amount_members ms (amount_source k v acc)"

text \<open>\<open>parseExactSafeInteger\<close>; \<open>>\<close> between strings compares code units.\<close>

definition max_safe_integer_text :: ustring where
  "max_safe_integer_text = units ''9007199254740991''"

fun text_less :: "ustring \<Rightarrow> ustring \<Rightarrow> bool" where
  "text_less [] [] \<longleftrightarrow> False"
| "text_less [] (b # bs) \<longleftrightarrow> True"
| "text_less (a # as) [] \<longleftrightarrow> False"
| "text_less (a # as) (b # bs) \<longleftrightarrow> a < b \<or> (a = b \<and> text_less as bs)"

definition is_positive_integer_token :: "ustring \<Rightarrow> bool" where
  "is_positive_integer_token t \<longleftrightarrow>
     t \<noteq> [] \<and> 49 \<le> hd t \<and> hd t \<le> 57 \<and> list_all is_digit_unit (tl t)"

definition parse_exact_safe_integer :: "ustring option \<Rightarrow> int option" where
  "parse_exact_safe_integer token =
     (case token of
        None \<Rightarrow> None
      | Some t \<Rightarrow>
         if \<not> is_positive_integer_token t \<or> length max_safe_integer_text < length t \<or>
            (length t = length max_safe_integer_text \<and> text_less max_safe_integer_text t)
         then None
         else (case number_value t of
                 JInt i \<Rightarrow> if - max_safe_integer \<le> i \<and> i \<le> max_safe_integer then Some i else None
               | _ \<Rightarrow> None))"

section \<open>The body of a message\<close>

datatype contract_failure =
    amqp_metadata_invalid
  | message_body_invalid
  | message_body_too_large
  | message_encoding_invalid
  | message_schema_unsupported

definition has_byte_order_mark :: "nat list \<Rightarrow> bool" where
  "has_byte_order_mark bs \<longleftrightarrow> take 3 bs = [0xEF, 0xBB, 0xBF]"

text \<open>The text of a body: no byte order mark, well-formed UTF-8.\<close>

definition body_text :: "nat list \<Rightarrow> contract_failure + ustring" where
  "body_text bs =
     (if has_byte_order_mark bs then Inl message_encoding_invalid
      else case decode_fatal bs of None \<Rightarrow> Inl message_encoding_invalid | Some t \<Rightarrow> Inr t)"

text \<open>The object in a body, with its sources.\<close>

definition body_object :: "nat list \<Rightarrow> contract_failure + source" where
  "body_object bs = bind_sum (body_text bs) (\<lambda>t.
     bind_sum (require_sum (no_duplicate_keys t) message_body_invalid) (\<lambda>_.
     case json_source t of
       None \<Rightarrow> Inl message_body_invalid
     | Some v \<Rightarrow> (case v of SObj ms \<Rightarrow> Inr v | _ \<Rightarrow> Inl message_body_invalid)))"

text \<open>\<open>keys.length === KEYS.length && KEYS.every((key) => Object.hasOwn(value, key))\<close>.\<close>

definition exact_keys :: "string list \<Rightarrow> json \<Rightarrow> bool" where
  "exact_keys ks v =
     (case v of
        JObj ms \<Rightarrow> length ms = length ks \<and> list_all (\<lambda>k. map_of ms k \<noteq> None) ks
      | _ \<Rightarrow> False)"

section \<open>The bytes of a plain object\<close>

lemma scan_plain_unit:
  "sc_in_string s \<Longrightarrow> \<not> sc_escaped s \<Longrightarrow> u \<noteq> 92 \<Longrightarrow> u \<noteq> 34 \<Longrightarrow>
   scan_step s u = Some (s\<lparr>sc_key := map_option (\<lambda>t. t @ [u]) (sc_key s)\<rparr>)"
  by (simp add: scan_step_def)

lemma scan_text_append: "scan_text s (us @ vs) = (case scan_text s us of Some s' \<Rightarrow> scan_text s' vs | None \<Rightarrow> None)"
  by (induction us arbitrary: s) (auto split: option.splits)

text \<open>The units of a quoted string leave the scanner inside the string.\<close>

definition grow :: "ustring \<Rightarrow> scan \<Rightarrow> scan" where
  "grow us s = s\<lparr>sc_key := map_option (\<lambda>t. t @ us) (sc_key s)\<rparr>"

lemma grow_simps [simp]: "sc_in_string (grow us s) = sc_in_string s" "sc_escaped (grow us s) = sc_escaped s"
  "sc_keys (grow us s) = sc_keys s" "sc_depth (grow us s) = sc_depth s"
  "sc_expecting (grow us s) = sc_expecting s" "sc_key (grow us s) = map_option (\<lambda>t. t @ us) (sc_key s)"
  by (simp_all add: grow_def)

lemma grow_grow [simp]: "grow vs (grow us s) = grow (us @ vs) s"
  by (simp add: grow_def option.map_comp comp_def)

lemma grow_nil [simp]: "grow [] s = s"
  by (simp add: grow_def option.map_ident)

lemma scan_plain: "sc_in_string s \<Longrightarrow> \<not> sc_escaped s \<Longrightarrow> u \<noteq> 92 \<Longrightarrow> u \<noteq> 34 \<Longrightarrow> scan_step s u = Some (grow [u] s)"
  by (simp add: scan_plain_unit grow_def)

lemma scan_plains:
  "sc_in_string s \<Longrightarrow> \<not> sc_escaped s \<Longrightarrow> 92 \<notin> set us \<Longrightarrow> 34 \<notin> set us \<Longrightarrow> scan_text s us = Some (grow us s)"
  by (induction us arbitrary: s) (auto simp: scan_plain)

lemma scan_escape:
  assumes "sc_in_string s" "\<not> sc_escaped s" "92 \<notin> set us" "34 \<notin> set us"
  shows "scan_text s (92 # c # us) = Some (grow (92 # c # us) s)"
proof -
  have "scan_step s 92 = Some (grow [92] s\<lparr>sc_escaped := True\<rparr>)"
    using assms by (simp add: scan_step_def grow_def)
  moreover have "scan_step (grow [92] s\<lparr>sc_escaped := True\<rparr>) c = Some (grow [92, c] s)"
    using assms by (simp add: scan_step_def grow_def option.map_comp comp_def)
  ultimately show ?thesis using scan_plains[of "grow [92, c] s" us] assms by simp
qed

lemma scan_quote_unit:
  assumes "sc_in_string s" "\<not> sc_escaped s"
  shows "scan_text s (quote_unit u) = Some (grow (quote_unit u) s)"
proof -
  have h: "92 \<noteq> hex_digit (n mod 16)" "34 \<noteq> hex_digit (n mod 16)" for n
    using mod_less_divisor[of 16 n] by (auto simp: hex_digit_def)
  have "scan_text s (unicode_escape u) = Some (grow (unicode_escape u) s)"
    unfolding unicode_escape_def by (rule scan_escape) (use assms h in auto)
  then show ?thesis
    using scan_escape[OF assms, of "[]"] scan_plains[OF assms, of "[u]"] by (auto simp: quote_unit_def)
qed

lemma scan_quote_units:
  "sc_in_string s \<Longrightarrow> \<not> sc_escaped s \<Longrightarrow> scan_text s (quote_units us) = Some (grow (quote_units us) s)"
proof (induction us arbitrary: s rule: quote_units.induct)
  case (1 h l us)
  show ?case
  proof (cases "is_high h \<and> is_low l")
    case True
    then have "h \<notin> {34, 92}" "l \<notin> {34, 92}" by (auto simp: is_high_def is_low_def)
    then show ?thesis using 1(1)[of "grow [h, l] s"] 1(3,4) True by (simp add: scan_plain)
  next
    case False
    then show ?thesis using 1(2)[OF False, of "grow (quote_unit h) s"] 1(3,4)
      by (simp only: quote_units.simps if_False scan_text_append scan_quote_unit option.case grow_simps grow_grow
          simp_thms)
  qed
qed (simp_all add: scan_quote_unit)

definition outside :: "scan \<Rightarrow> bool" where
  "outside s \<longleftrightarrow> \<not> sc_in_string s \<and> \<not> sc_escaped s \<and> sc_key s = None"

lemma scan_quoted:
  assumes "outside s" and "\<not> (sc_depth s = 1 \<and> sc_expecting s)"
  shows "scan_text s (json_quote us) = Some s"
proof -
  let ?s = "s\<lparr>sc_in_string := True\<rparr>"
  have "scan_step s 34 = Some ?s" using assms by (cases s) (auto simp: scan_step_def outside_def)
  moreover have "scan_text ?s (quote_units us) = Some (grow (quote_units us) ?s)"
    by (rule scan_quote_units) (use assms in \<open>auto simp: outside_def\<close>)
  moreover have "grow (quote_units us) ?s = ?s" using assms by (cases s) (simp add: grow_def outside_def)
  moreover have "scan_step ?s 34 = Some s"
    using assms by (cases s) (simp add: scan_step_def outside_def end_of_string_def)
  ultimately show ?thesis by (simp add: json_quote_def scan_text_append)
qed

lemma scan_quoted_key:
  assumes "outside s" and "sc_depth s = 1" and "sc_expecting s"
    and "\<forall>u \<in> set us. u < 65536" and "us \<notin> set (sc_keys s)"
  shows "scan_text s (json_quote us) = Some (s\<lparr>sc_keys := sc_keys s @ [us], sc_expecting := False\<rparr>)"
proof -
  let ?s = "s\<lparr>sc_in_string := True, sc_key := Some [34]\<rparr>"
  let ?t = "s\<lparr>sc_in_string := True, sc_key := Some (34 # quote_units us)\<rparr>"
  have "scan_step s 34 = Some ?s" using assms by (simp add: scan_step_def outside_def)
  moreover have "scan_text ?s (quote_units us) = Some (grow (quote_units us) ?s)"
    by (rule scan_quote_units) (use assms in \<open>auto simp: outside_def\<close>)
  moreover have "grow (quote_units us) ?s = ?t" by (simp add: grow_def)
  moreover have "json_parse ((34 # quote_units us) @ [34]) = Some (JStr us)"
    using json_parse_stringify[of "JStr us"] assms(4) by (simp add: json_quote_def)
  then have "scan_step ?t 34 = Some (s\<lparr>sc_keys := sc_keys s @ [us], sc_expecting := False\<rparr>)"
    using assms by (cases s) (simp add: scan_step_def outside_def end_of_string_def)
  ultimately show ?thesis by (simp add: json_quote_def scan_text_append)
qed

lemma scan_neutral:
  assumes "outside s" and "\<forall>u \<in> set us. u \<notin> {34, 44, 91, 93, 123, 125}"
  shows "scan_text s us = Some s"
  using assms by (induction us) (auto simp: scan_step_def outside_def Let_def)

lemma scan_comma: "outside s \<Longrightarrow> sc_depth s \<noteq> 1 \<Longrightarrow> scan_step s 44 = Some s"
  by (simp add: scan_step_def outside_def Let_def)

lemma scan_open:
  "outside s \<Longrightarrow> 1 \<le> sc_depth s \<Longrightarrow> u = 91 \<or> u = 123 \<Longrightarrow> scan_step s u = Some (s\<lparr>sc_depth := sc_depth s + 1\<rparr>)"
  by (auto simp: scan_step_def outside_def Let_def)

lemma scan_close:
  "outside s \<Longrightarrow> u = 93 \<or> u = 125 \<Longrightarrow> scan_step (s\<lparr>sc_depth := sc_depth s + 1\<rparr>) u = Some s"
  by (cases s) (auto simp: scan_step_def outside_def Let_def)

lemma dec_int_neutral: "u \<in> set (dec_int i) \<Longrightarrow> u \<notin> {34, 44, 91, 93, 123, 125}"
  using dec_nat_digits[of u "nat i"] dec_nat_digits[of u "nat (- i)"]
  by (auto simp: dec_int_def split: if_splits)

lemma scan_nested:
  "outside s \<Longrightarrow> 1 \<le> sc_depth s \<Longrightarrow> \<not> (sc_depth s = 1 \<and> sc_expecting s) \<Longrightarrow> scan_text s (stringify v) = Some s"
  "outside s \<Longrightarrow> 2 \<le> sc_depth s \<Longrightarrow> scan_text s (elements_text vs) = Some s"
  "outside s \<Longrightarrow> 2 \<le> sc_depth s \<Longrightarrow> scan_text s (members_text ms) = Some s"
proof (induction v and vs and ms arbitrary: s and s and s rule: stringify_elements_text_members_text.induct)
  case 1
  then show ?case by (simp add: scan_neutral units_def del: scan_text.simps)
next
  case (2 b)
  then show ?case by (cases b) (simp_all add: scan_neutral units_def del: scan_text.simps)
next
  case (3 i)
  then show ?case using dec_int_neutral by (simp add: scan_neutral)
next
  case (5 us)
  then show ?case by (simp add: scan_quoted)
next
  case (6 vs)
  then show ?case using 6(1)[of "s\<lparr>sc_depth := sc_depth s + 1\<rparr>"]
    by (simp add: scan_text_append scan_open scan_close outside_def)
next
  case (7 ms)
  then show ?case using 7(1)[of "s\<lparr>sc_depth := sc_depth s + 1\<rparr>"]
    by (simp add: scan_text_append scan_open scan_close outside_def)
next
  case (9 v vs)
  then show ?case by (simp add: scan_text_append scan_comma)
next
  case (11 k v ms)
  have "scan_step s 58 = Some s" using scan_neutral[OF 11(3), of "[58]"] by (simp split: option.splits)
  then show ?case using 11 by (simp add: scan_text_append scan_comma scan_quoted)
qed simp_all

lemma scan_members:
  assumes "outside s" and "sc_depth s = 1" and "sc_expecting s" and "ms \<noteq> []"
    and "\<forall>m \<in> set ms. ascii_name (fst m)" and "distinct (sc_keys s @ map (units \<circ> fst) ms)"
  shows "scan_text s (members_text ms) =
    Some (s\<lparr>sc_keys := sc_keys s @ map (units \<circ> fst) ms, sc_expecting := False\<rparr>)"
  using assms
proof (induction ms arbitrary: s)
  case Nil
  then show ?case by simp
next
  case (Cons m ms)
  let ?k = "units (fst m)"
  let ?s = "s\<lparr>sc_keys := sc_keys s @ [?k], sc_expecting := False\<rparr>"
  have k: "key_units (fst m) = ?k" "\<forall>u \<in> set ?k. u < 65536"
    using Cons.prems(5) ascii_units[of "fst m"] by (auto simp: key_units_ascii intro: less_trans)
  have "scan_text s (json_quote ?k) = Some ?s"
    by (rule scan_quoted_key) (use Cons.prems k in auto)
  moreover have o: "outside ?s" using Cons.prems(1) by (simp add: outside_def)
  moreover have "scan_step ?s 58 = Some ?s" using scan_neutral[OF o, of "[58]"] by (simp split: option.splits)
  moreover have "scan_text ?s (stringify (snd m)) = Some ?s"
    by (rule scan_nested) (use Cons.prems o in auto)
  ultimately have head: "scan_text s (json_quote (key_units (fst m)) @ 58 # stringify (snd m)) = Some ?s"
    by (simp add: k scan_text_append)
  show ?case
  proof (cases "ms = []")
    case True
    then show ?thesis using head by (cases m) simp
  next
    case False
    let ?t = "?s\<lparr>sc_expecting := True\<rparr>"
    have "scan_text ?t (members_text ms) =
      Some (?t\<lparr>sc_keys := sc_keys ?t @ map (units \<circ> fst) ms, sc_expecting := False\<rparr>)"
      by (rule Cons.IH) (use Cons.prems False in \<open>auto simp: outside_def\<close>)
    moreover have "scan_step ?s 44 = Some ?t" using Cons.prems o by (simp add: scan_step_def outside_def)
    moreover have e: "members_text (m # ms) =
        (json_quote (key_units (fst m)) @ 58 # stringify (snd m)) @ 44 # members_text ms"
      using False by (cases m) simp
    have "scan_text s (members_text (m # ms)) = scan_text ?s (44 # members_text ms)"
      unfolding e scan_text_append[of s "json_quote (key_units (fst m)) @ 58 # stringify (snd m)"] head by simp
    ultimately show ?thesis by simp
  qed
qed

lemma plain_no_duplicate_keys:
  assumes "plain (JObj ms)"
  shows "no_duplicate_keys (stringify (JObj ms))"
proof (cases "ms = []")
  case True
  then show ?thesis by (simp add: no_duplicate_keys_def scan_start_def scan_step_def)
next
  case False
  let ?s = "scan_start\<lparr>sc_depth := 1, sc_expecting := True\<rparr>"
  have "scan_step scan_start 123 = Some ?s" by (simp add: scan_step_def scan_start_def)
  moreover have "distinct (map (units \<circ> fst) ms)"
    using assms by (auto simp: distinct_map comp_def inj_on_def)
  then have "scan_text ?s (members_text ms) =
      Some (?s\<lparr>sc_keys := sc_keys ?s @ map (units \<circ> fst) ms, sc_expecting := False\<rparr>)"
    by (intro scan_members) (use assms False in \<open>auto simp: outside_def scan_start_def list_all_iff\<close>)
  ultimately show ?thesis
    by (simp add: no_duplicate_keys_def scan_text_append) (simp add: scan_step_def Let_def scan_start_def)
qed

text \<open>Values all of whose text is ASCII travel through UTF-8 unchanged.\<close>

fun ascii_json :: "json \<Rightarrow> bool" where
  "ascii_json (JStr us) \<longleftrightarrow> (\<forall>u \<in> set us. u < 128)"
| "ascii_json (JArr vs) \<longleftrightarrow> list_all ascii_json vs"
| "ascii_json (JObj ms) \<longleftrightarrow> list_all (\<lambda>m. ascii_json (snd m)) ms"
| "ascii_json v \<longleftrightarrow> True"

lemma quote_unit_ascii: "u < 128 \<Longrightarrow> \<forall>x \<in> set (quote_unit u). x < 128"
proof -
  assume "u < 128"
  moreover have "hex_digit n < 128" if "n < 16" for n using that by (auto simp: hex_digit_def)
  moreover have "u div 16 < 16" using \<open>u < 128\<close> by linarith
  ultimately show ?thesis by (simp add: quote_unit_def unicode_escape_def)
qed

lemma json_quote_ascii: "\<forall>u \<in> set us. u < 128 \<Longrightarrow> \<forall>x \<in> set (json_quote us). x < 128"
proof -
  have "\<forall>u \<in> set us. u < 128 \<Longrightarrow> \<forall>x \<in> set (quote_units us). x < 128"
    by (induction us rule: quote_units.induct) (use quote_unit_ascii in auto)
  then show "\<forall>u \<in> set us. u < 128 \<Longrightarrow> \<forall>x \<in> set (json_quote us). x < 128" by (simp add: json_quote_def)
qed

lemma dec_int_ascii: "\<forall>u \<in> set (dec_int i). u < 128"
  using dec_nat_digits by (fastforce simp: dec_int_def split: if_splits)

lemma stringify_ascii:
  "plain v \<Longrightarrow> ascii_json v \<Longrightarrow> \<forall>u \<in> set (stringify v). u < 128"
  "list_all plain vs \<Longrightarrow> list_all ascii_json vs \<Longrightarrow> \<forall>u \<in> set (elements_text vs). u < 128"
  "list_all (\<lambda>m. ascii_name (fst m) \<and> plain (snd m)) ms \<Longrightarrow> list_all (\<lambda>m. ascii_json (snd m)) ms \<Longrightarrow>
    \<forall>u \<in> set (members_text ms). u < 128"
proof (induction v and vs and ms rule: stringify_elements_text_members_text.induct)
  case (5 us)
  then show ?case using json_quote_ascii[of us] by simp
next
  case (7 ms)
  then show ?case by (auto simp: list_all_iff)
next
  case (11 k v ms)
  then show ?case using json_quote_ascii[of "units k"] ascii_units[of k] by (auto simp: key_units_ascii)
qed (auto simp: units_def dec_int_ascii)

lemma body_object_stringify:
  assumes "plain (JObj ms)" and "ascii_json (JObj ms)"
  shows "body_object (utf8_encode (stringify (JObj ms))) = Inr (source_of (JObj ms))"
proof -
  have a: "\<forall>u \<in> set (stringify (JObj ms)). u < 128" using assms by (rule stringify_ascii(1))
  then have "decode_fatal (utf8_encode (stringify (JObj ms))) = Some (stringify (JObj ms))"
    by (intro decode_encode_fatal well_formed_ascii)
  moreover have "\<not> has_byte_order_mark (utf8_encode (stringify (JObj ms)))"
    using utf8_encode_ascii[OF a] by (simp add: has_byte_order_mark_def numeral_eq_Suc)
  ultimately have "body_text (utf8_encode (stringify (JObj ms))) = Inr (stringify (JObj ms))"
    by (simp add: body_text_def)
  then show ?thesis
    using plain_no_duplicate_keys[OF assms(1)] json_source_stringify[OF assms(1)]
    by (simp add: body_object_def comp_simps del: stringify.simps)
qed

section \<open>The exact amount\<close>

lemma foldl_digits:
  "foldl (\<lambda>a u. 10 * a + (u - 48)) (n :: nat) us = n * 10 ^ length us + foldl (\<lambda>a u. 10 * a + (u - 48)) 0 us"
proof (induction us arbitrary: n)
  case (Cons u us)
  have "foldl (\<lambda>a u. 10 * a + (u - 48)) (10 * n + (u - 48)) us =
      (10 * n + (u - 48)) * 10 ^ length us + foldl (\<lambda>a u. 10 * a + (u - 48)) 0 us"
    by (rule Cons)
  moreover have "foldl (\<lambda>a u. 10 * a + (u - 48)) (u - 48) us =
      (u - 48) * 10 ^ length us + foldl (\<lambda>a u. 10 * a + (u - 48)) 0 us"
    by (rule Cons)
  ultimately show ?case by (simp add: add_mult_distrib)
qed simp

lemma dec_value_Cons: "dec_value (u # us) = (u - 48) * 10 ^ length us + dec_value us"
  using foldl_digits[of "u - 48" us] by simp

lemma dec_value_bound: "list_all is_digit_unit us \<Longrightarrow> dec_value us < 10 ^ length us"
proof (induction us)
  case (Cons u us)
  then have "u - 48 \<le> 9" "dec_value us < 10 ^ length us" by (auto simp: is_digit_unit_def)
  then have "(u - 48) * 10 ^ length us + dec_value us < 9 * 10 ^ length us + 10 ^ length us"
    by (meson add_le_less_mono mult_le_mono1)
  then show ?case by (simp add: dec_value_Cons del: dec_value.simps)
qed simp

lemma text_less_digits:
  "length as = length bs \<Longrightarrow> list_all is_digit_unit as \<Longrightarrow> list_all is_digit_unit bs \<Longrightarrow>
   text_less as bs \<longleftrightarrow> dec_value as < dec_value bs"
proof (induction as bs rule: text_less.induct)
  case (4 a as b bs)
  let ?p = "10 ^ length as :: nat"
  have b: "dec_value as < ?p" "dec_value bs < ?p"
    using dec_value_bound[of as] dec_value_bound[of bs] 4 by (simp_all del: dec_value.simps)
  have "48 \<le> a" "48 \<le> b" using 4 by (auto simp: is_digit_unit_def)
  then obtain x y where ab: "a = 48 + x" "b = 48 + y" by (auto dest!: le_Suc_ex)
  have less: "x * ?p + dec_value as < y * ?p + dec_value bs" if "x < y" "dec_value as < ?p" for x y as bs
  proof -
    have "Suc x * ?p \<le> y * ?p" using that(1) by (intro mult_le_mono1) simp
    then show ?thesis using that(2) by simp
  qed
  have "a < b \<or> (a = b \<and> dec_value as < dec_value bs) \<longleftrightarrow> x * ?p + dec_value as < y * ?p + dec_value bs"
    using less[of x y as bs] less[of y x bs as] b ab by (cases x y rule: linorder_cases) auto
  then show ?case using 4 ab by (auto simp: dec_value_Cons simp del: dec_value.simps)
qed simp_all

lemma dec_nat_all_digits: "list_all is_digit_unit (dec_nat n)"
  using dec_nat_digits by (auto simp: list_all_iff is_digit_unit_def)

lemma dec_value_snoc: "dec_value (us @ [u]) = 10 * dec_value us + (u - 48)"
  by simp

lemma token_is_decimal:
  assumes "is_positive_integer_token t"
  shows "t = dec_nat (dec_value t) \<and> 1 \<le> dec_value t"
  using assms
proof (induction t rule: rev_induct)
  case (snoc u us)
  show ?case
  proof (cases "us = []")
    case True
    then show ?thesis using snoc.prems by (auto simp: is_positive_integer_token_def dec_nat_eval)
  next
    case False
    then have "is_positive_integer_token us" "is_digit_unit u"
      using snoc.prems by (auto simp: is_positive_integer_token_def)
    moreover obtain d where "u = 48 + d" "d < 10"
      using \<open>is_digit_unit u\<close> by (auto simp: is_digit_unit_def dest!: le_Suc_ex)
    ultimately show ?thesis
      using snoc.IH by (simp add: dec_value_snoc dec_nat_eval(2) del: dec_value.simps)
  qed
qed (simp add: is_positive_integer_token_def)

lemma decimal_is_token: "1 \<le> n \<Longrightarrow> is_positive_integer_token (dec_nat n)"
proof -
  assume n: "1 \<le> n"
  obtain u us where u: "dec_nat n = u # us" using dec_nat_ne by (cases "dec_nat n") auto
  have d: "is_digit_unit u" "list_all is_digit_unit us" using dec_nat_all_digits[of n] u by simp_all
  have "u \<noteq> 48"
  proof
    assume "u = 48"
    then have "length (dec_nat n) = 1" using dec_nat_token[of n] u by simp
    then show False using n u \<open>u = 48\<close> dec_value_dec_nat[of n] by simp
  qed
  then show ?thesis using d u by (auto simp: is_positive_integer_token_def is_digit_unit_def)
qed

lemma max_text_value: "dec_value max_safe_integer_text = 9007199254740991"
  "length max_safe_integer_text = 16" "list_all is_digit_unit max_safe_integer_text"
  by (simp_all add: max_safe_integer_text_def units_def is_digit_unit_def)

lemma token_too_large:
  "(length max_safe_integer_text < length (dec_nat n) \<or>
    (length (dec_nat n) = length max_safe_integer_text \<and> text_less max_safe_integer_text (dec_nat n))) \<longleftrightarrow>
   9007199254740991 < n"
proof -
  have v: "dec_value (dec_nat n) = n" by (rule dec_value_dec_nat)
  consider "16 < length (dec_nat n)" | "length (dec_nat n) = 16" | "length (dec_nat n) \<le> 15" by linarith
  then show ?thesis
  proof cases
    case 1
    then have "\<not> n < 10 ^ 16" using length_dec_nat[of n 16] by auto
    then show ?thesis using 1 by (simp add: max_text_value)
  next
    case 2
    then show ?thesis
      using text_less_digits[of max_safe_integer_text "dec_nat n"] dec_nat_all_digits
      by (simp add: max_text_value v del: dec_value.simps)
  next
    case 3
    have "n < 10 ^ length (dec_nat n)" using dec_value_bound[OF dec_nat_all_digits[of n]] v by simp
    also have "\<dots> \<le> 10 ^ 15" by (rule power_increasing) (use 3 in auto)
    finally show ?thesis using 3 by (simp add: max_text_value)
  qed
qed

lemma parse_exact_safe_integer_iff:
  "parse_exact_safe_integer (Some t) = Some i \<longleftrightarrow> t = dec_int i \<and> 1 \<le> i \<and> i \<le> max_safe_integer"
proof
  assume p: "parse_exact_safe_integer (Some t) = Some i"
  then have "is_positive_integer_token t" by (simp add: parse_exact_safe_integer_def split: if_splits)
  from token_is_decimal[OF this] obtain n where n: "t = dec_nat n" "1 \<le> n" by blast
  then have le: "n \<le> 9007199254740991"
    using p token_too_large[of n] by (auto simp: parse_exact_safe_integer_def split: if_splits)
  moreover have "t = dec_int (int n)" using n by (simp add: dec_int_def)
  moreover have "number_value (dec_int (int n)) = JInt (int n)"
    using le by (intro number_value_dec) (simp add: max_safe_integer_def)
  ultimately have "i = int n" using p by (simp add: parse_exact_safe_integer_def split: if_splits)
  then show "t = dec_int i \<and> 1 \<le> i \<and> i \<le> max_safe_integer"
    using \<open>t = dec_int (int n)\<close> le n by (simp add: max_safe_integer_def)
next
  assume a: "t = dec_int i \<and> 1 \<le> i \<and> i \<le> max_safe_integer"
  then have t: "t = dec_nat (nat i)" "1 \<le> nat i" by (auto simp: dec_int_def)
  moreover have "nat i \<le> 9007199254740991" using a unfolding max_safe_integer_def by linarith
  then have "\<not> 9007199254740991 < nat i" by simp
  moreover have "number_value t = JInt i" using a number_value_dec[of i] by simp
  ultimately show "parse_exact_safe_integer (Some t) = Some i"
    using token_too_large[of "nat i"] decimal_is_token[OF t(2)] a by (simp add: parse_exact_safe_integer_def) 
qed

end
