(* ===== verification/Contracts.thy ===== *)
theory Contracts imports Message_Body Eventing "HOL-Library.Multiset" begin

text \<open>
  The wire contracts of the five domain events (\<open>packages/modules/eventing/src\<close>): how a claimed outbox row
  becomes the bytes of a message (\<open>serialize*\<close>) and how a received message is accepted (\<open>validate*\<close>), in
  \<open>payment-created-event.contract.ts\<close>, \<open>payment-lifecycle-event.contract.ts\<close>,
  \<open>settlement-reconciliation-event.contract.ts\<close>, with the routes of \<open>rabbitmq-topology.ts\<close> and the message
  properties of \<open>rabbitmq-outbox.publisher.ts\<close>.
\<close>

section \<open>Routes\<close>

definition domain_exchange :: string where
  "domain_exchange = ''settleflow.domain-events''"

definition dead_letter_exchange :: string where
  "dead_letter_exchange = ''settleflow.dead-letter''"

record event_route =
  rt_dead_letter_exchange :: string
  rt_dead_letter_queue :: string
  rt_dead_letter_key :: string
  rt_event_type :: string
  rt_exchange :: string
  rt_queue :: string
  rt_routing_key :: string

text \<open>\<open>eventType.replaceAll('.', '-').replace('-v1', '.v1')\<close>: \<open>replace\<close> changes the first occurrence.\<close>

fun replace_version :: "string \<Rightarrow> string" where
  "replace_version [] = []"
| "replace_version (c # cs) =
     (if take 3 (c # cs) = ''-v1'' then ''.v1'' @ drop 3 (c # cs) else c # replace_version cs)"

definition route :: "string \<Rightarrow> event_route" where
  "route eventType =
     (let suffix = replace_version (map (\<lambda>c. if c = CHR ''.'' then CHR ''-'' else c) eventType);
          queue = ''settleflow.webhook-projection.'' @ suffix in
      \<lparr>rt_dead_letter_exchange = dead_letter_exchange, rt_dead_letter_queue = queue @ ''.dlq'',
       rt_dead_letter_key = queue, rt_event_type = eventType, rt_exchange = domain_exchange,
       rt_queue = queue, rt_routing_key = eventType\<rparr>)"

definition payment_event_routes :: "event_route list" where
  "payment_event_routes = map route [''payment.captured.v1'', ''payment.created.v1'', ''payment.refunded.v1'',
     ''settlement.finalized.v1'', ''reconciliation.completed.v1'']"

definition settlement_lifecycle_queue :: string where
  "settlement_lifecycle_queue = ''settleflow.settlement-projection.payment-lifecycle.v1''"

text \<open>
  What \<open>assertOutboxRabbitMqTopology\<close> declares: exchanges, queues with their dead-letter target, bindings.
\<close>

datatype amqp_declaration =
    Exchange string
  | Queue string "(string \<times> string) option"
  | Binding string string string

definition topology :: "amqp_declaration list" where
  "topology =
     [Exchange domain_exchange, Exchange dead_letter_exchange] @
     concat (map (\<lambda>r. [Queue (rt_dead_letter_queue r) None,
                       Binding (rt_dead_letter_queue r) dead_letter_exchange (rt_dead_letter_key r),
                       Queue (rt_queue r) (Some (dead_letter_exchange, rt_dead_letter_key r)),
                       Binding (rt_queue r) domain_exchange (rt_routing_key r)]) payment_event_routes) @
     [Queue (settlement_lifecycle_queue @ ''.dlq'') None,
      Binding (settlement_lifecycle_queue @ ''.dlq'') dead_letter_exchange settlement_lifecycle_queue,
      Queue settlement_lifecycle_queue (Some (dead_letter_exchange, settlement_lifecycle_queue))] @
     map (Binding settlement_lifecycle_queue domain_exchange) [''payment.captured.v1'', ''payment.refunded.v1'']"

section \<open>Claimed events and messages\<close>

text \<open>A date is \<open>None\<close> when it is invalid.\<close>

record claimed_event =
  ce_aggregate_id :: ustring
  ce_aggregate_type :: ustring
  ce_attempts :: int
  ce_event_id :: ustring
  ce_event_type :: ustring
  ce_id :: ustring
  ce_merchant :: ustring
  ce_occurred :: "int option"
  ce_payload :: json
  ce_request :: ustring

text \<open>
  A serialized event; the aggregate is \<open>paymentId\<close> for the payment events. The routing key is the event
  type.
\<close>

record serialized_event =
  se_aggregate_id :: ustring
  se_aggregate_type :: ustring
  se_content :: "nat list"
  se_event_id :: ustring
  se_event_type :: ustring
  se_merchant :: ustring
  se_occurred :: int
  se_request :: ustring

text \<open>A received message. A property that the sender left out is \<open>None\<close>.\<close>

record amqp_message =
  am_content :: "nat list"
  am_exchange :: ustring
  am_routing_key :: ustring
  am_redelivered :: bool
  am_message_id :: "json option"
  am_type :: "json option"
  am_correlation :: "json option"
  am_content_type :: "json option"
  am_content_encoding :: "json option"
  am_delivery_mode :: "json option"
  am_app_id :: "json option"
  am_timestamp :: "json option"
  am_headers :: "json option"

datatype contract_error =
    PaymentCreatedEventContractError
  | PaymentLifecycleEventContractError
  | OperationalEventContractError
  | PaymentCreatedMessageContractError contract_failure
  | PaymentLifecycleMessageContractError contract_failure
  | RangeError          \<comment> \<open>\<open>toISOString\<close> of an invalid date\<close>

definition message_header :: "amqp_message \<Rightarrow> string \<Rightarrow> json option" where
  "message_header m k = (case am_headers m of Some h \<Rightarrow> obj_get h k | None \<Rightarrow> None)"

definition is_text :: "json option \<Rightarrow> ustring \<Rightarrow> bool" where
  "is_text v s \<longleftrightarrow> v = Some (JStr s)"

definition is_literal :: "json option \<Rightarrow> string \<Rightarrow> bool" where
  "is_literal v s \<longleftrightarrow> v = Some (jstr s)"

text \<open>\<open>typeof v === 'number' && Number.isInteger(v) && v >= 1\<close>.\<close>

definition positive_attempt :: "json option \<Rightarrow> int option" where
  "positive_attempt v = (case v of Some (JInt i) \<Rightarrow> if 1 \<le> i then Some i else None | _ \<Rightarrow> None)"

section \<open>Members of an event object\<close>

text \<open>\<open>const d = new Date(s)\<close>, finite, with \<open>d.toISOString() === s\<close>.\<close>

definition member_instant :: "json option \<Rightarrow> int option" where
  "member_instant v = (case v of Some (JStr s) \<Rightarrow> exact_instant s | _ \<Rightarrow> None)"

definition member_currency :: "json option \<Rightarrow> currency option" where
  "member_currency v = (if is_literal v ''ETB'' then Some ETB else if is_literal v ''USD'' then Some USD else None)"

text \<open>\<open>safeAmount\<close>.\<close>

definition safe_amount :: "json option \<Rightarrow> int option" where
  "safe_amount v = (case v of Some (JInt i) \<Rightarrow> if 1 \<le> i \<and> i \<le> max_safe_integer then Some i else None | _ \<Rightarrow> None)"

definition member_text :: "json option \<Rightarrow> string" where
  "member_text v = (case v of Some (JStr us) \<Rightarrow> map char_of us | _ \<Rightarrow> [])"

definition payload_keys :: "string list" where
  "payload_keys = [''eventId'', ''eventType'', ''occurredAt'', ''requestId'', ''merchantId'', ''paymentId'',
     ''amountMinor'', ''currency'', ''status'']"

definition captured_keys :: "string list" where
  "captured_keys = [''eventId'', ''eventType'', ''occurredAt'', ''requestId'', ''merchantId'', ''paymentId'',
     ''capturedAmountMinor'', ''currency'', ''availableOn'', ''ledgerTransactionId'']"

definition refunded_keys :: "string list" where
  "refunded_keys = [''eventId'', ''eventType'', ''occurredAt'', ''requestId'', ''merchantId'', ''paymentId'',
     ''refundId'', ''amountMinor'', ''currency'', ''cumulativeRefundedAmountMinor'', ''ledgerTransactionId'']"

text \<open>\<open>validCommon\<close>; \<open>parseEventBody\<close> makes the same tests on the same members.\<close>

definition valid_common :: "json \<Rightarrow> bool" where
  "valid_common v \<longleftrightarrow>
     member_matches (has_ulid_prefix ''evt'') (obj_get v ''eventId'') \<and>
     member_instant (obj_get v ''occurredAt'') \<noteq> None \<and>
     member_matches is_request_id (obj_get v ''requestId'') \<and>
     member_matches (is_uuid 8) (obj_get v ''merchantId'') \<and>
     member_matches (has_ulid_prefix ''pi'') (obj_get v ''paymentId'') \<and>
     member_currency (obj_get v ''currency'') \<noteq> None"

section \<open>\<open>payment.created.v1\<close>\<close>

text \<open>The amount comes from the source text that the reviver kept, not from the member itself.\<close>

definition parse_event_body :: "nat list \<Rightarrow> contract_failure + payment_created_event" where
  "parse_event_body bs = bind_sum (body_object bs) (\<lambda>src.
     let v = value_of src; amount = parse_exact_safe_integer (amount_source [] src None) in
     if exact_keys payload_keys v \<and> valid_common v \<and> is_literal (obj_get v ''eventType'') ''payment.created.v1'' \<and>
        amount \<noteq> None \<and> is_literal (obj_get v ''status'') ''CREATED''
     then Inr \<lparr>de_event_id = member_text (obj_get v ''eventId''), de_merchant = member_text (obj_get v ''merchantId''),
               de_occurred = the (member_instant (obj_get v ''occurredAt'')),
               de_request = member_text (obj_get v ''requestId''),
               pe_currency = the (member_currency (obj_get v ''currency'')),
               pe_payment = member_text (obj_get v ''paymentId''), pce_amount = the amount\<rparr>
     else Inl message_body_invalid)"

text \<open>
  The properties of a message around a payment event; the publisher's attempt is returned. Both payment
  contracts make these tests.
\<close>

definition payment_metadata ::
  "amqp_message \<Rightarrow> string \<Rightarrow> 'a payment_event_base_scheme \<Rightarrow> contract_failure + int"
where
  "payment_metadata m t e =
     (if message_header m ''x-settleflow-schema-version'' \<noteq> Some (JInt 1) then Inl message_schema_unsupported
      else case positive_attempt (message_header m ''x-settleflow-publish-attempt'') of
        None \<Rightarrow> Inl amqp_metadata_invalid
      | Some attempt \<Rightarrow>
          if am_exchange m = units domain_exchange \<and> am_routing_key m = units (rt_routing_key (route t)) \<and>
             is_literal (am_message_id m) (de_event_id e) \<and> is_literal (am_type m) t \<and>
             is_literal (am_correlation m) (de_request e) \<and>
             is_literal (am_content_type m) ''application/json'' \<and>
             is_literal (am_content_encoding m) ''utf-8'' \<and> am_delivery_mode m = Some (JInt 2) \<and>
             is_literal (am_app_id m) ''settleflow-worker'' \<and>
             am_timestamp m = Some (JInt (de_occurred e div 1000)) \<and>
             is_literal (message_header m ''x-settleflow-aggregate-type'') ''payment_intent'' \<and>
             is_literal (message_header m ''x-settleflow-aggregate-id'') (pe_payment e) \<and>
             is_literal (message_header m ''x-settleflow-merchant-id'') (de_merchant e)
          then Inr attempt else Inl amqp_metadata_invalid)"

record validated_message =
  vm_event :: domain_event
  vm_bytes :: "nat list"
  vm_sha :: string
  vm_attempt :: int
  vm_redelivered :: bool

definition message_limit :: nat where
  "message_limit = 16384"

definition validate_created :: "(nat list \<Rightarrow> string) \<Rightarrow> amqp_message \<Rightarrow> nat \<Rightarrow> contract_failure + validated_message"
where
  "validate_created sha m limit =
     (if limit < length (am_content m) then Inl message_body_too_large
      else bind_sum (parse_event_body (am_content m)) (\<lambda>e.
           bind_sum (payment_metadata m ''payment.created.v1'' e) (\<lambda>attempt.
           Inr \<lparr>vm_event = PaymentCreated e, vm_bytes = am_content m, vm_sha = sha (am_content m),
                vm_attempt = attempt, vm_redelivered = am_redelivered m\<rparr>)))"

definition serialize_created :: "claimed_event \<Rightarrow> contract_error + serialized_event" where
  "serialize_created c =
     (let p = ce_payload c; text = (\<lambda>k. obj_get p k) in
      if \<not> (ce_event_type c = units ''payment.created.v1'' \<and> ce_aggregate_type c = units ''payment_intent'' \<and>
             text_matches (has_ulid_prefix ''evt'') (ce_event_id c) \<and>
             text_matches (has_ulid_prefix ''pi'') (ce_aggregate_id c) \<and>
             text_matches (is_uuid 8) (ce_merchant c) \<and> text_matches is_request_id (ce_request c) \<and>
             1 \<le> ce_attempts c \<and> is_json_object p)
      then Inl PaymentCreatedEventContractError
      else if \<not> exact_keys payload_keys p then Inl PaymentCreatedEventContractError
      else if \<not> (is_text (text ''eventId'') (ce_event_id c) \<and> is_text (text ''eventType'') (ce_event_type c))
      then Inl PaymentCreatedEventContractError
      else case ce_occurred c of
        None \<Rightarrow> Inl RangeError
      | Some t \<Rightarrow>
         if is_text (text ''occurredAt'') (to_iso t) \<and> is_text (text ''requestId'') (ce_request c) \<and>
            is_text (text ''merchantId'') (ce_merchant c) \<and> is_text (text ''paymentId'') (ce_aggregate_id c) \<and>
            safe_amount (text ''amountMinor'') \<noteq> None \<and> member_currency (text ''currency'') \<noteq> None \<and>
            is_literal (text ''status'') ''CREATED''
         then Inr \<lparr>se_aggregate_id = ce_aggregate_id c, se_aggregate_type = units ''payment_intent'',
                   se_content = utf8_encode (stringify (JObj (map (\<lambda>k. (k, the (text k))) payload_keys))),
                   se_event_id = ce_event_id c, se_event_type = ce_event_type c, se_merchant = ce_merchant c,
                   se_occurred = t, se_request = ce_request c\<rparr>
         else Inl PaymentCreatedEventContractError)"

section \<open>\<open>payment.captured.v1\<close> and \<open>payment.refunded.v1\<close>\<close>

definition to_captured :: "json \<Rightarrow> contract_failure + domain_event" where
  "to_captured v =
     (let text = (\<lambda>k. obj_get v k) in
      if exact_keys captured_keys v \<and> valid_common v \<and> is_literal (text ''eventType'') ''payment.captured.v1'' \<and>
         safe_amount (text ''capturedAmountMinor'') \<noteq> None \<and> text ''availableOn'' = text ''occurredAt'' \<and>
         member_matches (has_ulid_prefix ''ltx'') (text ''ledgerTransactionId'')
      then Inr (PaymentCaptured
        \<lparr>de_event_id = member_text (text ''eventId''), de_merchant = member_text (text ''merchantId''),
         de_occurred = the (member_instant (text ''occurredAt'')), de_request = member_text (text ''requestId''),
         pe_currency = the (member_currency (text ''currency'')), pe_payment = member_text (text ''paymentId''),
         pcap_available_on = the (member_instant (text ''availableOn'')),
         pcap_amount = the (safe_amount (text ''capturedAmountMinor'')),
         pcap_ledger_tx = member_text (text ''ledgerTransactionId'')\<rparr>)
      else Inl message_body_invalid)"

definition to_refunded :: "json \<Rightarrow> contract_failure + domain_event" where
  "to_refunded v =
     (let text = (\<lambda>k. obj_get v k) in
      if exact_keys refunded_keys v \<and> valid_common v \<and> is_literal (text ''eventType'') ''payment.refunded.v1'' \<and>
         member_matches (has_ulid_prefix ''rf'') (text ''refundId'') \<and>
         safe_amount (text ''amountMinor'') \<noteq> None \<and> safe_amount (text ''cumulativeRefundedAmountMinor'') \<noteq> None \<and>
         \<not> the (safe_amount (text ''cumulativeRefundedAmountMinor'')) < the (safe_amount (text ''amountMinor'')) \<and>
         member_matches (has_ulid_prefix ''ltx'') (text ''ledgerTransactionId'')
      then Inr (PaymentRefunded
        \<lparr>de_event_id = member_text (text ''eventId''), de_merchant = member_text (text ''merchantId''),
         de_occurred = the (member_instant (text ''occurredAt'')), de_request = member_text (text ''requestId''),
         pe_currency = the (member_currency (text ''currency'')), pe_payment = member_text (text ''paymentId''),
         prf_amount = the (safe_amount (text ''amountMinor'')),
         prf_cumulative = the (safe_amount (text ''cumulativeRefundedAmountMinor'')),
         prf_ledger_tx = member_text (text ''ledgerTransactionId''), prf_refund = member_text (text ''refundId'')\<rparr>)
      else Inl message_body_invalid)"

definition parse_lifecycle_body :: "nat list \<Rightarrow> contract_failure + domain_event" where
  "parse_lifecycle_body bs = bind_sum (body_object bs) (\<lambda>src.
     if is_literal (obj_get (value_of src) ''eventType'') ''payment.captured.v1''
     then to_captured (value_of src) else to_refunded (value_of src))"

fun payment_base :: "domain_event \<Rightarrow> payment_event_base option" where
  "payment_base (PaymentCreated e) = Some (payment_event_base.truncate e)"
| "payment_base (PaymentCaptured e) = Some (payment_event_base.truncate e)"
| "payment_base (PaymentRefunded e) = Some (payment_event_base.truncate e)"
| "payment_base e = None"

definition validate_lifecycle :: "(nat list \<Rightarrow> string) \<Rightarrow> amqp_message \<Rightarrow> nat \<Rightarrow> contract_failure + validated_message"
where
  "validate_lifecycle sha m limit =
     (if limit < length (am_content m) then Inl message_body_too_large
      else bind_sum (parse_lifecycle_body (am_content m)) (\<lambda>event.
           bind_sum (payment_metadata m (event_type_name event) (the (payment_base event))) (\<lambda>attempt.
           Inr \<lparr>vm_event = event, vm_bytes = am_content m, vm_sha = sha (am_content m),
                vm_attempt = attempt, vm_redelivered = am_redelivered m\<rparr>)))"

definition serialize_lifecycle :: "claimed_event \<Rightarrow> contract_error + serialized_event" where
  "serialize_lifecycle c =
     (if \<not> ((ce_event_type c = units ''payment.captured.v1'' \<or> ce_event_type c = units ''payment.refunded.v1'') \<and>
             ce_aggregate_type c = units ''payment_intent'' \<and> is_json_object (ce_payload c))
      then Inl PaymentLifecycleEventContractError
      else case (if ce_event_type c = units ''payment.captured.v1'' then to_captured (ce_payload c)
                 else to_refunded (ce_payload c)) of
        Inl f \<Rightarrow> Inl PaymentLifecycleEventContractError
      | Inr event \<Rightarrow>
         (let b = the (payment_base event) in
          if units (de_event_id b) = ce_event_id c \<and> units (pe_payment b) = ce_aggregate_id c \<and>
             units (de_merchant b) = ce_merchant c \<and> units (de_request b) = ce_request c \<and>
             Some (de_occurred b) = ce_occurred c
          then Inr \<lparr>se_aggregate_id = units (pe_payment b), se_aggregate_type = units ''payment_intent'',
                    se_content = utf8_encode (stringify (to_payload event)), se_event_id = units (de_event_id b),
                    se_event_type = units (event_type_name event), se_merchant = units (de_merchant b),
                    se_occurred = de_occurred b, se_request = units (de_request b)\<rparr>
          else Inl PaymentLifecycleEventContractError))"

text \<open>\<open>validatePaymentEventMessage\<close>.\<close>

definition validate_payment_event ::
  "(nat list \<Rightarrow> string) \<Rightarrow> amqp_message \<Rightarrow> nat \<Rightarrow> contract_error + validated_message"
where
  "validate_payment_event sha m limit =
     (if is_literal (am_type m) ''payment.created.v1''
      then map_sum PaymentCreatedMessageContractError id (validate_created sha m limit)
      else if is_literal (am_type m) ''payment.captured.v1'' \<or> is_literal (am_type m) ''payment.refunded.v1''
      then map_sum PaymentLifecycleMessageContractError id (validate_lifecycle sha m limit)
      else Inl (PaymentLifecycleMessageContractError message_schema_unsupported))"

section \<open>\<open>settlement.finalized.v1\<close> and \<open>reconciliation.completed.v1\<close>\<close>

text \<open>Two sorted lists of keys are equal.\<close>

definition same_keys :: "string list \<Rightarrow> json \<Rightarrow> bool" where
  "same_keys ks v = (case v of JObj ms \<Rightarrow> mset (map fst ms) = mset ks | _ \<Rightarrow> False)"

definition safe_integer :: "json option \<Rightarrow> bool \<Rightarrow> bool" where
  "safe_integer v allowNegative =
     (case v of Some (JInt i) \<Rightarrow> \<bar>i\<bar> \<le> max_safe_integer \<and> (allowNegative \<or> 0 \<le> i) | _ \<Rightarrow> False)"

fun number_of :: "json option \<Rightarrow> int" where
  "number_of (Some (JInt i)) = i"
| "number_of v = 0"

definition exact_utc_timestamp :: "json option \<Rightarrow> bool" where
  "exact_utc_timestamp v = (case v of Some (JStr s) \<Rightarrow> is_utc_millis s \<and> exact_instant s \<noteq> None | _ \<Rightarrow> False)"

text \<open>The pattern of this contract has no \<open>i\<close> flag: no digit is in upper case.\<close>

definition is_lower_uuid :: "string \<Rightarrow> bool" where
  "is_lower_uuid s \<longleftrightarrow> is_uuid 8 s \<and> \<not> list_ex (char_in 65 70) s"

definition settlement_keys :: "string list" where
  "settlement_keys = [''eventId'', ''eventType'', ''occurredAt'', ''requestId'', ''merchantId'', ''batchId'',
     ''cutoffAt'', ''grossAmountMinor'', ''feeAmountMinor'', ''netAmountMinor'', ''currency'', ''itemCount'']"

definition reconciliation_keys :: "string list" where
  "reconciliation_keys = [''eventId'', ''eventType'', ''occurredAt'', ''requestId'', ''merchantId'', ''importId'',
     ''matchedExactCount'', ''mismatchCount'', ''unexplainedDifferenceMinorByCurrency'']"

definition settlement_payload_ok :: "claimed_event \<Rightarrow> bool" where
  "settlement_payload_ok c \<longleftrightarrow>
     (let p = ce_payload c; text = (\<lambda>k. obj_get p k); num = (\<lambda>k. number_of (obj_get p k)) in
      same_keys settlement_keys p \<and> ce_aggregate_type c = units ''settlement_batch'' \<and>
      is_text (text ''batchId'') (ce_aggregate_id c) \<and> text_matches (has_ulid_prefix ''stb'') (ce_aggregate_id c) \<and>
      member_currency (text ''currency'') \<noteq> None \<and>
      safe_integer (text ''grossAmountMinor'') False \<and> safe_integer (text ''feeAmountMinor'') False \<and>
      safe_integer (text ''netAmountMinor'') False \<and> safe_integer (text ''itemCount'') False \<and>
      1 \<le> num ''grossAmountMinor'' \<and> 1 \<le> num ''netAmountMinor'' \<and>
      1 \<le> num ''itemCount'' \<and> num ''itemCount'' \<le> 500 \<and>
      num ''grossAmountMinor'' = num ''feeAmountMinor'' + num ''netAmountMinor'' \<and>
      exact_utc_timestamp (text ''cutoffAt''))"

definition reconciliation_payload_ok :: "claimed_event \<Rightarrow> bool" where
  "reconciliation_payload_ok c \<longleftrightarrow>
     (let p = ce_payload c; text = (\<lambda>k. obj_get p k);
          differences = obj_get p ''unexplainedDifferenceMinorByCurrency'' in
      same_keys reconciliation_keys p \<and> ce_aggregate_type c = units ''reconciliation_import'' \<and>
      is_text (text ''importId'') (ce_aggregate_id c) \<and> text_matches (has_ulid_prefix ''rec'') (ce_aggregate_id c) \<and>
      safe_integer (text ''matchedExactCount'') False \<and> safe_integer (text ''mismatchCount'') False \<and>
      (case differences of
         Some d \<Rightarrow> is_json_object d \<and> same_keys [''ETB'', ''USD''] d \<and>
                   safe_integer (obj_get d ''ETB'') True \<and> safe_integer (obj_get d ''USD'') True
       | None \<Rightarrow> False))"

definition serialize_operational :: "claimed_event \<Rightarrow> contract_error + serialized_event" where
  "serialize_operational c =
     (let p = ce_payload c; text = (\<lambda>k. obj_get p k) in
      if \<not> is_json_object p then Inl OperationalEventContractError
      else if \<not> (is_text (text ''eventId'') (ce_event_id c) \<and> is_text (text ''eventType'') (ce_event_type c) \<and>
                  is_text (text ''merchantId'') (ce_merchant c) \<and> is_text (text ''requestId'') (ce_request c))
      then Inl OperationalEventContractError
      else case ce_occurred c of
        None \<Rightarrow> Inl RangeError
      | Some t \<Rightarrow>
         if is_text (text ''occurredAt'') (to_iso t) \<and> text_matches (has_ulid_prefix ''evt'') (ce_event_id c) \<and>
            text_matches is_lower_uuid (ce_merchant c) \<and> text_matches is_request_id (ce_request c) \<and>
            exact_utc_timestamp (text ''occurredAt'') \<and>
            ((ce_event_type c = units ''settlement.finalized.v1'' \<and> settlement_payload_ok c) \<or>
             (ce_event_type c = units ''reconciliation.completed.v1'' \<and> reconciliation_payload_ok c))
         then Inr \<lparr>se_aggregate_id = ce_aggregate_id c, se_aggregate_type = ce_aggregate_type c,
                   se_content = utf8_encode (stringify p), se_event_id = ce_event_id c,
                   se_event_type = ce_event_type c, se_merchant = ce_merchant c, se_occurred = t,
                   se_request = ce_request c\<rparr>
         else Inl OperationalEventContractError)"

text \<open>
  \<open>String(v)\<close>. The text of a number is only compared with patterns and names that no number's text
  matches, so one text stands for all of them.
\<close>

fun js_string :: "json option \<Rightarrow> ustring"
  and js_join :: "json list \<Rightarrow> ustring" where
  "js_string None = units ''undefined''"
| "js_string (Some JNull) = units ''null''"
| "js_string (Some (JBool b)) = units (if b then ''true'' else ''false'')"
| "js_string (Some (JInt i)) = dec_int i"
| "js_string (Some JFrac) = units ''0.5''"
| "js_string (Some (JStr s)) = s"
| "js_string (Some (JArr vs)) = js_join vs"
| "js_string (Some (JObj ms)) = units ''[object Object]''"
| "js_join [] = []"
| "js_join (v # vs) =
     (if v = JNull then [] else js_string (Some v)) @ (if vs = [] then [] else 44 # js_join vs)"

record validated_operational =
  vo_event_id :: ustring
  vo_event_type :: ustring
  vo_merchant :: ustring
  vo_occurred :: int
  vo_request :: ustring
  vo_payload :: json
  vo_bytes :: "nat list"
  vo_sha :: string
  vo_redelivered :: bool

definition operational_metadata_ok :: "amqp_message \<Rightarrow> ustring \<Rightarrow> bool" where
  "operational_metadata_ok m t \<longleftrightarrow>
     am_exchange m = units domain_exchange \<and> am_routing_key m = t \<and>
     is_literal (am_content_type m) ''application/json'' \<and> is_literal (am_content_encoding m) ''utf-8'' \<and>
     am_delivery_mode m = Some (JInt 2) \<and> is_literal (am_app_id m) ''settleflow-worker'' \<and>
     message_header m ''x-settleflow-schema-version'' = Some (JInt 1) \<and>
     positive_attempt (message_header m ''x-settleflow-publish-attempt'') \<noteq> None \<and>
     am_message_id m \<noteq> None \<and> am_correlation m \<noteq> None"

text \<open>
  \<open>date_parse\<close> is \<open>new Date(text)\<close> on any text: \<open>None\<close> is an invalid date. ECMAScript fixes it on the texts
  that \<open>toISOString\<close> makes and leaves the others to the implementation.
\<close>

definition validate_operational ::
  "(nat list \<Rightarrow> string) \<Rightarrow> (ustring \<Rightarrow> int option) \<Rightarrow> amqp_message \<Rightarrow> nat \<Rightarrow> contract_error + validated_operational"
where
  "validate_operational sha date_parse m limit =
     (if limit < length (am_content m) then Inl OperationalEventContractError
      else if \<not> (is_literal (am_type m) ''settlement.finalized.v1'' \<or>
                  is_literal (am_type m) ''reconciliation.completed.v1'')
      then Inl OperationalEventContractError
      else (let t = js_string (am_type m) in
      if \<not> operational_metadata_ok m t then Inl OperationalEventContractError
      else case json_parse (decode_lossy (am_content m)) of
        None \<Rightarrow> Inl OperationalEventContractError
      | Some p \<Rightarrow>
         if \<not> is_json_object p then Inl OperationalEventContractError
         else (let occurredAt = date_parse (js_string (obj_get p ''occurredAt''));
                   claimed = \<lparr>ce_aggregate_id = js_string (message_header m ''x-settleflow-aggregate-id''),
                     ce_aggregate_type = js_string (message_header m ''x-settleflow-aggregate-type''), ce_attempts = 1,
                     ce_event_id = js_string (am_message_id m), ce_event_type = t, ce_id = units ''validation-only'',
                     ce_merchant = js_string (message_header m ''x-settleflow-merchant-id''), ce_occurred = occurredAt,
                     ce_payload = p, ce_request = js_string (am_correlation m)\<rparr> in
               bind_sum (serialize_operational claimed) (\<lambda>s.
               if am_timestamp m = Some (JInt (se_occurred s div 1000))
               then Inr \<lparr>vo_event_id = ce_event_id claimed, vo_event_type = t, vo_merchant = ce_merchant claimed,
                         vo_occurred = se_occurred s, vo_request = ce_request claimed, vo_payload = p,
                         vo_bytes = am_content m, vo_sha = sha (am_content m), vo_redelivered = am_redelivered m\<rparr>
               else Inl OperationalEventContractError))))"

section \<open>The message of an event\<close>

text \<open>
  The claimed event of an outbox row, and the part of \<open>publishBatch\<close> that turns it into a message: the
  contract by event type and the properties. \<open>persistent: true\<close> is delivery mode 2 on the wire.
\<close>

definition claim_of_row :: "outbox_row \<Rightarrow> claimed_event" where
  "claim_of_row r =
     \<lparr>ce_aggregate_id = units (ob_aggregate_id r), ce_aggregate_type = units (ob_aggregate_type r),
      ce_attempts = int (ob_attempts r), ce_event_id = units (ob_event_id r),
      ce_event_type = units (ob_event_type r), ce_id = units (ob_id r), ce_merchant = units (ob_merchant r),
      ce_occurred = Some (ob_occurred r), ce_payload = ob_payload r, ce_request = units (ob_request r)\<rparr>"

definition serialize_event :: "claimed_event \<Rightarrow> contract_error + serialized_event" where
  "serialize_event c =
     (if ce_event_type c = units ''payment.created.v1'' then serialize_created c
      else if ce_event_type c = units ''payment.captured.v1'' \<or> ce_event_type c = units ''payment.refunded.v1''
      then serialize_lifecycle c
      else serialize_operational c)"

definition message_of :: "claimed_event \<Rightarrow> serialized_event \<Rightarrow> amqp_message" where
  "message_of c s =
     \<lparr>am_content = se_content s, am_exchange = units ''settleflow.domain-events'', am_routing_key = se_event_type s,
      am_redelivered = False, am_message_id = Some (JStr (se_event_id s)), am_type = Some (JStr (se_event_type s)),
      am_correlation = Some (JStr (se_request s)), am_content_type = Some (jstr ''application/json''),
      am_content_encoding = Some (jstr ''utf-8''), am_delivery_mode = Some (JInt 2),
      am_app_id = Some (jstr ''settleflow-worker''), am_timestamp = Some (JInt (se_occurred s div 1000)),
      am_headers = Some (JObj
        [(''x-settleflow-aggregate-id'', JStr (se_aggregate_id s)),
         (''x-settleflow-aggregate-type'', JStr (se_aggregate_type s)),
         (''x-settleflow-merchant-id'', JStr (se_merchant s)),
         (''x-settleflow-publish-attempt'', JInt (ce_attempts c)), (''x-settleflow-schema-version'', JInt 1)])\<rparr>"

end
