(* ===== verification/Contracts_Roundtrip.thy ===== *)
theory Contracts_Roundtrip imports Contracts begin

text \<open>
  A message built from an event is accepted by its consumer's contract and read as that event.
\<close>

section \<open>The events the services build\<close>

definition wire_base_ok :: "'a event_base_scheme \<Rightarrow> bool" where
  "wire_base_ok e \<longleftrightarrow> has_ulid_prefix ''evt'' (de_event_id e) \<and> is_request_id (de_request e) \<and>
     is_uuid 8 (de_merchant e) \<and> \<bar>de_occurred e\<bar> \<le> max_time"

definition amount_ok :: "int \<Rightarrow> bool" where
  "amount_ok i \<longleftrightarrow> 1 \<le> i \<and> i \<le> max_safe_integer"

definition count_ok :: "int \<Rightarrow> bool" where
  "count_ok i \<longleftrightarrow> 0 \<le> i \<and> i \<le> max_safe_integer"

fun wire_event_ok :: "domain_event \<Rightarrow> bool" where
  "wire_event_ok (PaymentCreated e) \<longleftrightarrow>
     wire_base_ok e \<and> has_ulid_prefix ''pi'' (pe_payment e) \<and> amount_ok (pce_amount e)"
| "wire_event_ok (PaymentCaptured e) \<longleftrightarrow>
     wire_base_ok e \<and> has_ulid_prefix ''pi'' (pe_payment e) \<and> amount_ok (pcap_amount e) \<and>
     pcap_available_on e = de_occurred e \<and> has_ulid_prefix ''ltx'' (pcap_ledger_tx e)"
| "wire_event_ok (PaymentRefunded e) \<longleftrightarrow>
     wire_base_ok e \<and> has_ulid_prefix ''pi'' (pe_payment e) \<and> has_ulid_prefix ''rf'' (prf_refund e) \<and>
     amount_ok (prf_amount e) \<and> amount_ok (prf_cumulative e) \<and> prf_amount e \<le> prf_cumulative e \<and>
     has_ulid_prefix ''ltx'' (prf_ledger_tx e)"
| "wire_event_ok (SettlementFinalized e) \<longleftrightarrow>
     wire_base_ok e \<and> is_lower_uuid (de_merchant e) \<and> four_digit_year (de_occurred e) \<and>
     has_ulid_prefix ''stb'' (sfe_batch e) \<and> \<bar>sfe_cutoff e\<bar> \<le> max_time \<and> four_digit_year (sfe_cutoff e) \<and>
     amount_ok (sfe_gross e) \<and> count_ok (sfe_fee e) \<and> amount_ok (sfe_net e) \<and>
     sfe_gross e = sfe_fee e + sfe_net e \<and> 1 \<le> sfe_items e \<and> sfe_items e \<le> 500"
| "wire_event_ok (ReconciliationCompleted e) \<longleftrightarrow>
     wire_base_ok e \<and> is_lower_uuid (de_merchant e) \<and> four_digit_year (de_occurred e) \<and>
     has_ulid_prefix ''rec'' (rce_import e) \<and> count_ok (rce_matched e) \<and> count_ok (rce_mismatch e) \<and>
     \<bar>rce_difference_etb e\<bar> \<le> max_safe_integer \<and> \<bar>rce_difference_usd e\<bar> \<le> max_safe_integer"

section \<open>ASCII identifiers of bounded length\<close>

lemma class_ascii:
  "is_ulid_char c \<Longrightarrow> (of_char c :: nat) < 128" "is_request_char c \<Longrightarrow> (of_char c :: nat) < 128"
  "is_hex c \<Longrightarrow> (of_char c :: nat) < 128" "char_in 48 55 c \<Longrightarrow> (of_char c :: nat) < 128"
  by (auto simp: is_ulid_char_def is_request_char_def is_hex_def char_in_def)

lemma ulid_ascii:
  assumes "has_ulid_prefix p s" and "ascii_name p"
  shows "ascii_name s" and "length s = length p + 27"
proof -
  have s: "s = p @ ''_'' @ drop (length p + 1) s"
    using assms(1) append_take_drop_id[of "length p + 1" s] by (simp add: has_ulid_prefix_def)
  have "is_ulid d \<Longrightarrow> \<exists>c cs. d = c # cs \<and> length cs = 25 \<and> char_in 48 55 c \<and> list_all is_ulid_char cs" for d
    by (cases d) (auto simp: is_ulid_def)
  then obtain c cs where u: "drop (length p + 1) s = c # cs" "length cs = 25" "char_in 48 55 c" "list_all is_ulid_char cs"
    using assms(1) unfolding has_ulid_prefix_def by blast
  have "(of_char x :: nat) < 128" if "x \<in> set cs" for x
    using u(4) that by (auto simp: list_all_iff class_ascii)
  moreover have "(of_char c :: nat) < 128" using u(3) by (rule class_ascii)
  ultimately show "ascii_name s" using assms(2) u(1) by (subst s) (auto simp: ascii_name_def)
  show "length s = length p + 27" using u(1,2) by (subst s) simp
qed

lemma ulid_names [simp]: "ascii_name ''evt''" "ascii_name ''pi''" "ascii_name ''rf''" "ascii_name ''ltx''"
  "ascii_name ''stb''" "ascii_name ''rec''"
  by (simp_all add: ascii_name_def)

lemma request_ascii:
  assumes "is_request_id s"
  shows "ascii_name s" and "length s \<le> 128"
  using assms by (auto simp: is_request_id_def ascii_name_def list_all_iff class_ascii)

lemma uuid_ascii:
  assumes "is_uuid v s"
  shows "ascii_name s" and "length s = 36"
proof -
  show l: "length s = 36" using assms by (simp add: is_uuid_def)
  have "(of_char (s ! i) :: nat) < 128" if "i < 36" for i
  proof (cases "i \<in> {8, 13, 18, 23}")
    case True
    then have "s ! i = CHR ''-''" using assms that unfolding is_uuid_def by meson
    then show ?thesis by simp
  next
    case False
    then have "is_hex (s ! i)" using assms that unfolding is_uuid_def by meson
    then show ?thesis by (rule class_ascii)
  qed
  then show "ascii_name s" using l by (auto simp: ascii_name_def in_set_conv_nth)
qed

lemma wire_base_names:
  assumes "wire_base_ok e"
  shows "ascii_name (de_event_id e)" "ascii_name (de_request e)" "ascii_name (de_merchant e)"
    "has_ulid_prefix ''evt'' (de_event_id e)" "is_request_id (de_request e)" "is_uuid 8 (de_merchant e)"
    "exact_instant (to_iso (de_occurred e)) = Some (de_occurred e)"
  using assms by (auto simp: wire_base_ok_def exact_instant_iff ulid_ascii request_ascii uuid_ascii)

section \<open>Plain payloads\<close>

lemma not_index: "\<not> is_digit_unit (of_char c) \<Longrightarrow> \<not> is_array_index (c # cs)"
proof
  assume "\<not> is_digit_unit (of_char c)" "is_array_index (c # cs)"
  then have "of_char c \<in> set (dec_nat (dec_value (units (c # cs))))"
    unfolding is_array_index_def by (metis list.set_intros(1) list.simps(9) units_def)
  then show False
    using \<open>\<not> is_digit_unit (of_char c)\<close> dec_nat_digits by (auto simp: is_digit_unit_def)
qed

lemma digit_letter: "of_char c = (n :: nat) \<Longrightarrow> 57 < n \<Longrightarrow> \<not> is_digit_unit (of_char c)"
  by (simp add: is_digit_unit_def)

lemma to_iso_ascii: "u \<in> set (to_iso t) \<Longrightarrow> u < 128"
proof -
  have p: "u \<in> set (pad k i) \<Longrightarrow> u < 128" for k i
    using dec_nat_digits by (fastforce simp: pad_def Let_def)
  obtain y m d where c: "civil_of_days (t div ms_per_day) = (y, m, d)" by (metis prod_cases3)
  have "u \<in> set (iso_year y) \<Longrightarrow> u < 128" by (auto simp: iso_year_def split: if_splits dest: p)
  then show "u \<in> set (to_iso t) \<Longrightarrow> u < 128" by (auto simp: to_iso_eq[OF c refl] dest: p)
qed

lemma units_ascii: "ascii_name s \<Longrightarrow> u \<in> set (units s) \<Longrightarrow> u < 128"
  using ascii_units by blast

lemma jstr_plain: "ascii_name s \<Longrightarrow> plain (jstr s) \<and> ascii_json (jstr s)"
  by (auto simp: jstr_def dest: units_ascii)

lemma iso_plain: "plain (JStr (to_iso t)) \<and> ascii_json (JStr (to_iso t))"
  by (auto dest: to_iso_ascii)

lemma currency_ascii [simp]: "ascii_name (currency_code c)"
  by (cases c) (simp_all add: ascii_name_def)

lemma member_currency_code [simp]: "member_currency (Some (jstr (currency_code c))) = Some c"
  by (cases c) (simp_all add: member_currency_def is_literal_def)

lemma event_names [simp]: "ascii_name ''payment.created.v1''" "ascii_name ''payment.captured.v1''"
  "ascii_name ''payment.refunded.v1''" "ascii_name ''settlement.finalized.v1''"
  "ascii_name ''reconciliation.completed.v1''" "ascii_name ''CREATED''"
  by (simp_all add: ascii_name_def)

lemma payload_plain:
  assumes "wire_event_ok event"
  shows "plain (to_payload event)" and "ascii_json (to_payload event)"
proof -
  have k: "\<not> is_array_index (CHR ''e'' # cs)" "\<not> is_array_index (CHR ''o'' # cs)"
    "\<not> is_array_index (CHR ''r'' # cs)" "\<not> is_array_index (CHR ''m'' # cs)" "\<not> is_array_index (CHR ''p'' # cs)"
    "\<not> is_array_index (CHR ''a'' # cs)" "\<not> is_array_index (CHR ''c'' # cs)" "\<not> is_array_index (CHR ''s'' # cs)"
    "\<not> is_array_index (CHR ''l'' # cs)" "\<not> is_array_index (CHR ''b'' # cs)" "\<not> is_array_index (CHR ''g'' # cs)"
    "\<not> is_array_index (CHR ''f'' # cs)" "\<not> is_array_index (CHR ''n'' # cs)" "\<not> is_array_index (CHR ''i'' # cs)"
    "\<not> is_array_index (CHR ''u'' # cs)" "\<not> is_array_index (CHR ''E'' # cs)" "\<not> is_array_index (CHR ''U'' # cs)"
    for cs
    by (rule not_index; simp add: is_digit_unit_def)+
  note S = jstr_plain iso_plain[THEN conjunct1] iso_plain[THEN conjunct2] k
  show "plain (to_payload event)"
    using assms
    by (cases event)
      (auto simp: common_payload_def S wire_base_names ulid_ascii amount_ok_def count_ok_def ascii_name_def[of "_ # _"]
        ascii_name_def[of "[]"] abs_le_iff max_safe_integer_def simp del: plain.simps(5))
  show "ascii_json (to_payload event)"
    using assms
    by (cases event) (auto simp: common_payload_def S wire_base_names ulid_ascii simp del: ascii_json.simps(1))
qed

section \<open>Reading a body back\<close>

lemma payload_object: "\<exists>ms. to_payload event = JObj ms"
  by (cases event) simp_all

lemma body_object_payload:
  assumes "wire_event_ok event"
  shows "body_object (utf8_encode (stringify (to_payload event))) = Inr (source_of (to_payload event))"
proof -
  obtain ms where ms: "to_payload event = JObj ms" using payload_object by blast
  show ?thesis using payload_plain[OF assms] unfolding ms by (rule body_object_stringify)
qed

lemma member_text_jstr [simp]: "member_text (Some (jstr s)) = s"
  by (simp add: member_text_def jstr_def units_def comp_def)

lemma is_literal_jstr [simp]: "is_literal (Some (jstr s)) t \<longleftrightarrow> s = t"
  by (simp add: is_literal_def)

lemma member_instant_iso: "\<bar>t\<bar> \<le> max_time \<Longrightarrow> member_instant (Some (JStr (to_iso t))) = Some t"
  by (simp add: member_instant_def exact_instant_iff)

lemma safe_amount_int: "amount_ok i \<Longrightarrow> safe_amount (Some (JInt i)) = Some i"
  by (simp add: safe_amount_def amount_ok_def)

lemma wire_base_members:
  assumes "wire_base_ok e"
  shows "member_matches (has_ulid_prefix ''evt'') (Some (jstr (de_event_id e)))"
    and "member_instant (Some (JStr (to_iso (de_occurred e)))) = Some (de_occurred e)"
    and "member_matches is_request_id (Some (jstr (de_request e)))"
    and "member_matches (is_uuid 8) (Some (jstr (de_merchant e)))"
  using assms wire_base_names[OF assms]
  by (simp_all add: member_matches_jstr member_instant_iso wire_base_ok_def)

lemma ulid_member: "has_ulid_prefix p s \<Longrightarrow> ascii_name p \<Longrightarrow> member_matches (has_ulid_prefix p) (Some (jstr s))"
  by (simp add: member_matches_jstr ulid_ascii(1))

lemma parse_event_body_payload:
  assumes "wire_event_ok (PaymentCreated e)"
  shows "parse_event_body (utf8_encode (stringify (to_payload (PaymentCreated e)))) = Inr e"
proof -
  let ?p = "to_payload (PaymentCreated e)"
  have b: "wire_base_ok e" and a: "amount_ok (pce_amount e)" and pi: "has_ulid_prefix ''pi'' (pe_payment e)"
    using assms by simp_all
  have v: "value_of (source_of ?p) = ?p" using payload_plain(1)[OF assms] by (rule value_of_source)
  have amt: "amount_source [] (source_of ?p) None = Some (dec_int (pce_amount e))"
    by (simp add: common_payload_def jstr_def)
  have n: "parse_exact_safe_integer (Some (dec_int (pce_amount e))) = Some (pce_amount e)"
    using a by (simp add: parse_exact_safe_integer_iff amount_ok_def)
  have "exact_keys payload_keys ?p" by (simp add: exact_keys_def payload_keys_def common_payload_def)
  moreover have "valid_common ?p"
    using wire_base_members[OF b] pi by (simp add: valid_common_def common_payload_def ulid_member)
  ultimately show ?thesis
    using wire_base_members[OF b]
    unfolding parse_event_body_def body_object_payload[OF assms]
    by (simp add: bind_sum_def Let_def v amt n del: to_payload.simps) (simp add: common_payload_def)
qed

lemma to_captured_payload:
  assumes "wire_event_ok (PaymentCaptured e)"
  shows "to_captured (to_payload (PaymentCaptured e)) = Inr (PaymentCaptured e)"
proof -
  let ?p = "to_payload (PaymentCaptured e)"
  have b: "wire_base_ok e" and "has_ulid_prefix ''pi'' (pe_payment e)" using assms by simp_all
  then have "exact_keys captured_keys ?p" "valid_common ?p"
    using wire_base_members[OF b]
    by (simp_all add: exact_keys_def captured_keys_def common_payload_def valid_common_def ulid_member)
  then show ?thesis
    using assms wire_base_members[OF b]
    by (simp add: to_captured_def Let_def common_payload_def safe_amount_int ulid_member)
qed

lemma to_refunded_payload:
  assumes "wire_event_ok (PaymentRefunded e)"
  shows "to_refunded (to_payload (PaymentRefunded e)) = Inr (PaymentRefunded e)"
proof -
  let ?p = "to_payload (PaymentRefunded e)"
  have b: "wire_base_ok e" and "has_ulid_prefix ''pi'' (pe_payment e)" using assms by simp_all
  then have "exact_keys refunded_keys ?p" "valid_common ?p"
    using wire_base_members[OF b]
    by (simp_all add: exact_keys_def refunded_keys_def common_payload_def valid_common_def ulid_member)
  then show ?thesis
    using assms wire_base_members[OF b]
    by (simp add: to_refunded_def Let_def common_payload_def safe_amount_int ulid_member)
qed

lemma parse_lifecycle_body_payload:
  assumes "wire_event_ok event" and "(\<exists>e. event = PaymentCaptured e) \<or> (\<exists>e. event = PaymentRefunded e)"
  shows "parse_lifecycle_body (utf8_encode (stringify (to_payload event))) = Inr event"
proof -
  have v: "value_of (source_of (to_payload event)) = to_payload event"
    using payload_plain(1)[OF assms(1)] by (rule value_of_source)
  have "obj_get (to_payload event) ''eventType'' = Some (jstr (event_type_name event))"
    by (cases event) (simp_all add: common_payload_def)
  then show ?thesis
    using assms to_captured_payload to_refunded_payload
    by (auto simp: parse_lifecycle_body_def body_object_payload bind_sum_def v simp del: to_payload.simps)
qed

section \<open>The size of a body\<close>

lemma length_quote_units: "length (quote_units us) \<le> 6 * length us"
proof (induction us rule: quote_units.induct)
  case (1 h l us)
  have "length (quote_unit h) \<le> 6" by (simp add: quote_unit_def unicode_escape_def)
  then show ?case using 1 by auto
qed (simp_all add: quote_unit_def unicode_escape_def)

lemma length_json_quote: "length us \<le> n \<Longrightarrow> length (json_quote us) \<le> 6 * n + 2"
  using length_quote_units[of us] by (simp add: json_quote_def)

lemma length_dec_int: "\<bar>i\<bar> \<le> max_safe_integer \<Longrightarrow> length (dec_int i) \<le> 17"
proof -
  assume "\<bar>i\<bar> \<le> max_safe_integer"
  then have "nat i < 10 ^ 16" "nat (- i) < 10 ^ 16" by (simp_all add: max_safe_integer_def)
  then have "length (dec_nat (nat i)) \<le> 16" "length (dec_nat (nat (- i))) \<le> 16"
    using length_dec_nat[of _ 16] by auto
  then show ?thesis by (simp add: dec_int_def)
qed

lemma length_to_iso:
  assumes "\<bar>t\<bar> \<le> max_time"
  shows "length (to_iso t) \<le> 27"
proof -
  obtain y m d where c: "civil_of_days (t div ms_per_day) = (y, m, d)" by (metis prod_cases3)
  note F = civil_fields[OF c]
  have days: "- 100000000 \<le> t div ms_per_day" "t div ms_per_day \<le> 100000000"
    using assms unfolding max_time_def ms_per_day_def by linarith+
  have y: "\<bar>y\<bar> < 1000000" using F(6,7) days by linarith
  then have "length (iso_year y) \<le> 7" using iso_year_fields(3,4)[OF y] by (cases "0 \<le> y \<and> y \<le> 9999") auto
  moreover have "t mod ms_per_day < 86400000" by (simp add: ms_per_day_def)
  then have h: "t mod ms_per_day div 3600000 < 100" by linarith
  have "length (pad 2 m) = 2" "length (pad 2 d) = 2" "length (pad 2 (t mod ms_per_day div 3600000)) = 2"
    "length (pad 2 (t mod ms_per_day div 60000 mod 60)) = 2" "length (pad 2 (t mod ms_per_day div 1000 mod 60)) = 2"
    "length (pad 3 (t mod ms_per_day mod 1000)) = 3"
    by (rule pad_length; use F h in simp)+
  ultimately show ?thesis by (simp add: to_iso_eq[OF c refl])
qed

definition small_member :: "string \<times> json \<Rightarrow> bool" where
  "small_member m \<longleftrightarrow> ascii_name (fst m) \<and> length (fst m) \<le> 40 \<and> length (stringify (snd m)) \<le> 800"

lemma length_members_text: "list_all small_member ms \<Longrightarrow> length (members_text ms) \<le> 1050 * length ms"
proof (induction ms)
  case (Cons m ms)
  then have "length (json_quote (key_units (fst m))) \<le> 6 * 40 + 2"
    by (intro length_json_quote) (simp add: small_member_def key_units_ascii)
  then show ?case using Cons by (cases m) (auto simp: small_member_def)
qed simp

lemma small_string: "length s \<le> 128 \<Longrightarrow> length (stringify (jstr s)) \<le> 800"
  using length_json_quote[of "units s" 128] by (simp add: jstr_def)

lemma small_iso: "\<bar>t\<bar> \<le> max_time \<Longrightarrow> length (stringify (JStr (to_iso t))) \<le> 800"
  using length_json_quote[of "to_iso t" 27] length_to_iso[of t] by simp

lemma small_int: "\<bar>i\<bar> \<le> max_safe_integer \<Longrightarrow> length (stringify (JInt i)) \<le> 800"
  using length_dec_int[of i] by simp

lemma small_currency: "length (stringify (jstr (currency_code c))) \<le> 800"
  by (cases c) (simp_all add: small_string)

lemma wire_base_lengths:
  assumes "wire_base_ok e"
  shows "length (stringify (jstr (de_event_id e))) \<le> 800" "length (stringify (jstr (de_request e))) \<le> 800"
    "length (stringify (jstr (de_merchant e))) \<le> 800" "length (stringify (JStr (to_iso (de_occurred e)))) \<le> 800"
  using assms
  by (auto simp: wire_base_ok_def ulid_ascii request_ascii uuid_ascii small_string small_iso simp del: stringify.simps)

lemma small_ulid: "has_ulid_prefix p s \<Longrightarrow> ascii_name p \<Longrightarrow> length p \<le> 3 \<Longrightarrow> length (stringify (jstr s)) \<le> 800"
  by (rule small_string) (simp add: ulid_ascii(2))

lemma amount_abs: "amount_ok i \<Longrightarrow> \<bar>i\<bar> \<le> max_safe_integer" "count_ok i \<Longrightarrow> \<bar>i\<bar> \<le> max_safe_integer"
  by (auto simp: amount_ok_def count_ok_def max_safe_integer_def)

lemma payload_fits:
  assumes "wire_event_ok event"
  shows "length (utf8_encode (stringify (to_payload event))) \<le> message_limit"
proof -
  obtain ms where ms: "to_payload event = JObj ms" using payload_object by blast
  have d: "length (stringify (JObj [(''ETB'', JInt x), (''USD'', JInt y)])) \<le> 800"
    if "\<bar>x\<bar> \<le> max_safe_integer" "\<bar>y\<bar> \<le> max_safe_integer" for x y
  proof -
    have "length (json_quote (key_units ''ETB'')) \<le> 6 * 3 + 2" "length (json_quote (key_units ''USD'')) \<le> 6 * 3 + 2"
      by (rule length_json_quote; simp)+
    then show ?thesis
      using length_dec_int[OF that(1)] length_dec_int[OF that(2)] by (simp del: key_units.simps)
  qed
  have items: "\<bar>i\<bar> \<le> max_safe_integer" if "1 \<le> i" "i \<le> 500" for i :: int
    using that by (simp add: max_safe_integer_def)
  have "list_all small_member ms \<and> length ms \<le> 12"
    using assms ms
    by (cases event)
      (auto simp: common_payload_def small_member_def ascii_name_def[of "_ # _"] ascii_name_def[of "[]"]
        wire_base_lengths small_ulid small_string small_iso small_int[OF amount_abs(1)] small_int[OF amount_abs(2)]
        small_int[OF items] small_currency d simp del: stringify.simps)
  then have "length (members_text ms) \<le> 12600" using length_members_text[of ms] by linarith
  moreover have "\<forall>u \<in> set (stringify (to_payload event)). u < 128"
    using payload_plain[OF assms] by (rule stringify_ascii(1))
  ultimately show ?thesis by (simp add: utf8_encode_ascii message_limit_def ms)
qed

section \<open>From the outbox to the consumer\<close>

definition claimed_from :: "string \<Rightarrow> int \<Rightarrow> nat \<Rightarrow> domain_event \<Rightarrow> claimed_event" where
  "claimed_from i now n event = claim_of_row (outbox_row_of i now event\<lparr>ob_attempts := n\<rparr>)"

lemma claimed_from_simps [simp]:
  "ce_aggregate_id (claimed_from i now n event) = units (fst (aggregate_of event))"
  "ce_aggregate_type (claimed_from i now n event) = units (snd (aggregate_of event))"
  "ce_attempts (claimed_from i now n event) = int n"
  "ce_event_id (claimed_from i now n event) = units (de_event_id (event_base_of event))"
  "ce_event_type (claimed_from i now n event) = units (event_type_name event)"
  "ce_merchant (claimed_from i now n event) = units (de_merchant (event_base_of event))"
  "ce_occurred (claimed_from i now n event) = Some (de_occurred (event_base_of event))"
  "ce_payload (claimed_from i now n event) = to_payload event"
  "ce_request (claimed_from i now n event) = units (de_request (event_base_of event))"
  by (simp_all add: claimed_from_def claim_of_row_def outbox_row_of_def)

definition serialized_from :: "domain_event \<Rightarrow> serialized_event" where
  "serialized_from event =
     \<lparr>se_aggregate_id = units (fst (aggregate_of event)), se_aggregate_type = units (snd (aggregate_of event)),
      se_content = utf8_encode (stringify (to_payload event)), se_event_id = units (de_event_id (event_base_of event)),
      se_event_type = units (event_type_name event), se_merchant = units (de_merchant (event_base_of event)),
      se_occurred = de_occurred (event_base_of event), se_request = units (de_request (event_base_of event))\<rparr>"

lemma truncate_simps [simp]: "de_event_id (event_base.truncate e) = de_event_id e"
  "de_merchant (event_base.truncate e) = de_merchant e" "de_occurred (event_base.truncate e) = de_occurred e"
  "de_request (event_base.truncate e) = de_request e"
  "de_event_id (payment_event_base.truncate e') = de_event_id e'"
  "de_merchant (payment_event_base.truncate e') = de_merchant e'"
  "de_occurred (payment_event_base.truncate e') = de_occurred e'"
  "de_request (payment_event_base.truncate e') = de_request e'"
  "pe_payment (payment_event_base.truncate e') = pe_payment e'"
  by (simp_all add: event_base.defs payment_event_base.defs)

lemma is_text_units: "is_text (Some (jstr s)) (units s)" "is_text (Some (JStr us)) us"
  by (simp_all add: is_text_def jstr_def)

lemma ulid_text: "has_ulid_prefix p s \<Longrightarrow> ascii_name p \<Longrightarrow> text_matches (has_ulid_prefix p) (units s)"
  by (simp add: text_matches_units ulid_ascii(1))

lemma wire_base_texts:
  assumes "wire_base_ok e"
  shows "text_matches (has_ulid_prefix ''evt'') (units (de_event_id e))"
    "text_matches (is_uuid 8) (units (de_merchant e))" "text_matches is_request_id (units (de_request e))"
  using wire_base_names[OF assms] by (simp_all add: text_matches_units)

lemma serialize_created_from:
  assumes "wire_event_ok (PaymentCreated e)" and "1 \<le> n"
  shows "serialize_event (claimed_from i now n (PaymentCreated e)) = Inr (serialized_from (PaymentCreated e))"
  using assms wire_base_texts[of e]
  by (simp add: serialize_event_def serialize_created_def Let_def is_text_units ulid_text exact_keys_def payload_keys_def
      common_payload_def safe_amount_int serialized_from_def del: stringify.simps)

lemma serialize_captured_from:
  assumes "wire_event_ok (PaymentCaptured e)"
  shows "serialize_event (claimed_from i now n (PaymentCaptured e)) = Inr (serialized_from (PaymentCaptured e))"
proof -
  obtain ms where "to_payload (PaymentCaptured e) = JObj ms" using payload_object by blast
  then show ?thesis using to_captured_payload[OF assms]
    by (simp add: serialize_event_def serialize_lifecycle_def serialized_from_def Let_def del: to_payload.simps)
qed

lemma serialize_refunded_from:
  assumes "wire_event_ok (PaymentRefunded e)"
  shows "serialize_event (claimed_from i now n (PaymentRefunded e)) = Inr (serialized_from (PaymentRefunded e))"
proof -
  obtain ms where "to_payload (PaymentRefunded e) = JObj ms" using payload_object by blast
  then show ?thesis using to_refunded_payload[OF assms]
    by (simp add: serialize_event_def serialize_lifecycle_def serialized_from_def Let_def del: to_payload.simps)
qed

lemma lower_uuid_text: "is_lower_uuid s \<Longrightarrow> text_matches is_lower_uuid (units s)"
  using uuid_ascii(1)[of 8 s] by (simp add: text_matches_units is_lower_uuid_def)

lemma exact_utc_iso: "\<bar>t\<bar> \<le> max_time \<Longrightarrow> four_digit_year t \<Longrightarrow> exact_utc_timestamp (Some (JStr (to_iso t)))"
  using exact_instant_iff[of "to_iso t" t] by (simp add: exact_utc_timestamp_def to_iso_is_utc_millis)

lemma serialize_settlement_from:
  assumes "wire_event_ok (SettlementFinalized e)"
  shows "serialize_event (claimed_from i now n (SettlementFinalized e)) = Inr (serialized_from (SettlementFinalized e))"
proof -
  have m: "1 \<le> k \<Longrightarrow> k \<le> 500 \<Longrightarrow> k \<le> max_safe_integer" for k :: int by (simp add: max_safe_integer_def)
  have "settlement_payload_ok (claimed_from i now n (SettlementFinalized e))"
    using assms
    by (simp add: settlement_payload_ok_def Let_def same_keys_def settlement_keys_def common_payload_def is_text_units
        ulid_text safe_integer_def amount_ok_def count_ok_def exact_utc_iso m abs_le_iff)
  then show ?thesis
    using assms wire_base_texts[of e]
    by (simp add: serialize_event_def serialize_operational_def Let_def is_text_units lower_uuid_text exact_utc_iso
        common_payload_def serialized_from_def wire_base_ok_def del: stringify.simps)
qed

lemma serialize_reconciliation_from:
  assumes "wire_event_ok (ReconciliationCompleted e)"
  shows "serialize_event (claimed_from i now n (ReconciliationCompleted e)) =
    Inr (serialized_from (ReconciliationCompleted e))"
proof -
  have "reconciliation_payload_ok (claimed_from i now n (ReconciliationCompleted e))"
    using assms
    by (simp add: reconciliation_payload_ok_def Let_def same_keys_def reconciliation_keys_def common_payload_def
        is_text_units ulid_text safe_integer_def count_ok_def abs_le_iff)
  then show ?thesis
    using assms wire_base_texts[of e]
    by (simp add: serialize_event_def serialize_operational_def Let_def is_text_units lower_uuid_text exact_utc_iso
        common_payload_def serialized_from_def wire_base_ok_def del: stringify.simps)
qed

lemma serialize_from:
  assumes "wire_event_ok event" and "1 \<le> n"
  shows "serialize_event (claimed_from i now n event) = Inr (serialized_from event)"
  using assms serialize_created_from serialize_captured_from serialize_refunded_from serialize_settlement_from
    serialize_reconciliation_from
  by (cases event) simp_all

text \<open>The message that the publisher sends for an event, at its \<open>n\<close>-th attempt.\<close>

definition message_from :: "nat \<Rightarrow> domain_event \<Rightarrow> amqp_message" where
  "message_from n event = message_of (claimed_from [] 0 n event) (serialized_from event)"

lemma message_of_from: "message_of (claimed_from i now n event) (serialized_from event) = message_from n event"
  by (simp add: message_from_def message_of_def)

lemma message_headers:
  "message_header (message_from n event) ''x-settleflow-schema-version'' = Some (JInt 1)"
  "message_header (message_from n event) ''x-settleflow-publish-attempt'' = Some (JInt (int n))"
  "message_header (message_from n event) ''x-settleflow-aggregate-type'' = Some (jstr (snd (aggregate_of event)))"
  "message_header (message_from n event) ''x-settleflow-aggregate-id'' = Some (jstr (fst (aggregate_of event)))"
  "message_header (message_from n event) ''x-settleflow-merchant-id'' = Some (jstr (de_merchant (event_base_of event)))"
  by (simp_all add: message_header_def message_from_def message_of_def serialized_from_def jstr_def)

lemma message_fields [simp]:
  "am_content (message_from n event) = utf8_encode (stringify (to_payload event))"
  "am_exchange (message_from n event) = units domain_exchange"
  "am_routing_key (message_from n event) = units (event_type_name event)"
  "am_redelivered (message_from n event) = False"
  "am_message_id (message_from n event) = Some (jstr (de_event_id (event_base_of event)))"
  "am_type (message_from n event) = Some (jstr (event_type_name event))"
  "am_correlation (message_from n event) = Some (jstr (de_request (event_base_of event)))"
  "am_content_type (message_from n event) = Some (jstr ''application/json'')"
  "am_content_encoding (message_from n event) = Some (jstr ''utf-8'')"
  "am_delivery_mode (message_from n event) = Some (JInt 2)"
  "am_app_id (message_from n event) = Some (jstr ''settleflow-worker'')"
  "am_timestamp (message_from n event) = Some (JInt (de_occurred (event_base_of event) div 1000))"
  by (simp_all add: message_from_def message_of_def serialized_from_def domain_exchange_def jstr_def)

lemma route_key [simp]: "rt_routing_key (route t) = t"
  by (simp add: route_def Let_def)

lemma payment_metadata_from:
  assumes "event_base_of event = event_base.truncate b" and "aggregate_of event = (pe_payment b, ''payment_intent'')"
    and "1 \<le> n"
  shows "payment_metadata (message_from n event) (event_type_name event) b = Inr (int n)"
  using assms by (simp add: payment_metadata_def message_headers positive_attempt_def)

lemma payment_base_of:
  "payment_base event = Some b \<Longrightarrow>
   event_base_of event = event_base.truncate b \<and> aggregate_of event = (pe_payment b, ''payment_intent'')"
  by (cases event) (auto simp: event_base.defs payment_event_base.defs)

definition received :: "(nat list \<Rightarrow> string) \<Rightarrow> nat \<Rightarrow> domain_event \<Rightarrow> validated_message" where
  "received sha n event =
     \<lparr>vm_event = event, vm_bytes = utf8_encode (stringify (to_payload event)),
      vm_sha = sha (utf8_encode (stringify (to_payload event))), vm_attempt = int n, vm_redelivered = False\<rparr>"

lemma validate_payment_from:
  assumes "wire_event_ok event" and "payment_base event = Some b" and "1 \<le> n"
  shows "validate_payment_event sha (message_from n event) message_limit = Inr (received sha n event)"
proof -
  have fits: "\<not> message_limit < length (utf8_encode (stringify (to_payload event)))"
    using payload_fits[OF assms(1)] by simp
  show ?thesis
  proof (cases event)
    case (PaymentCreated e)
    have m: "payment_metadata (message_from n event) ''payment.created.v1'' e = Inr (int n)"
      using payment_metadata_from[of event e n] assms(3) PaymentCreated by simp
    show ?thesis
      using parse_event_body_payload[of e] assms(1) m fits unfolding PaymentCreated
      by (simp add: validate_payment_event_def validate_created_def bind_sum_def received_def del: to_payload.simps)
  next
    case (PaymentCaptured e)
    then show ?thesis
      using parse_lifecycle_body_payload[OF assms(1)] payment_metadata_from[of event b n] fits
        payment_base_of[OF assms(2)] assms(2,3)
      by (simp add: validate_payment_event_def validate_lifecycle_def bind_sum_def received_def del: to_payload.simps)
  next
    case (PaymentRefunded e)
    then show ?thesis
      using parse_lifecycle_body_payload[OF assms(1)] payment_metadata_from[of event b n] fits
        payment_base_of[OF assms(2)] assms(2,3)
      by (simp add: validate_payment_event_def validate_lifecycle_def bind_sum_def received_def del: to_payload.simps)
  qed (use assms(2) in simp_all)
qed

text \<open>The operational consumer keeps the payload and takes the rest from the message properties.\<close>

definition operational_received :: "(nat list \<Rightarrow> string) \<Rightarrow> domain_event \<Rightarrow> validated_operational" where
  "operational_received sha event =
     \<lparr>vo_event_id = units (de_event_id (event_base_of event)), vo_event_type = units (event_type_name event),
      vo_merchant = units (de_merchant (event_base_of event)), vo_occurred = de_occurred (event_base_of event),
      vo_request = units (de_request (event_base_of event)), vo_payload = to_payload event,
      vo_bytes = utf8_encode (stringify (to_payload event)),
      vo_sha = sha (utf8_encode (stringify (to_payload event))), vo_redelivered = False\<rparr>"

lemma js_string_jstr [simp]: "js_string (Some (jstr s)) = units s"
  by (simp add: jstr_def)

lemma serialize_operational_attempt:
  "serialize_operational (c\<lparr>ce_attempts := k, ce_id := i\<rparr>) = serialize_operational c"
  by (simp add: serialize_operational_def settlement_payload_ok_def reconciliation_payload_ok_def cong: if_cong option.case_cong)

lemma validate_operational_from:
  assumes "wire_event_ok event" and "payment_base event = None" and "1 \<le> n"
    and "date_parse (to_iso (de_occurred (event_base_of event))) = Some (de_occurred (event_base_of event))"
  shows "validate_operational sha date_parse (message_from n event) message_limit = Inr (operational_received sha event)"
proof -
  let ?c = "claimed_from [] 0 n event"
  obtain ms where ms: "to_payload event = JObj ms" using payload_object by blast
  have type: "event_type_name event = ''settlement.finalized.v1'' \<or> event_type_name event = ''reconciliation.completed.v1''"
    using assms(2) by (cases event) simp_all
  have occurred: "obj_get (to_payload event) ''occurredAt'' = Some (JStr (to_iso (de_occurred (event_base_of event))))"
    by (cases event) (simp_all add: common_payload_def)
  have "\<forall>u \<in> set (stringify (to_payload event)). u < 128" using payload_plain[OF assms(1)] by (rule stringify_ascii(1))
  then have parse: "json_parse (decode_lossy (utf8_encode (stringify (to_payload event)))) = Some (to_payload event)"
    using payload_plain(1)[OF assms(1)] by (simp add: decode_encode_lossy well_formed_ascii json_parse_stringify)
  have meta: "operational_metadata_ok (message_from n event) (units (event_type_name event))"
    using assms(3) by (simp add: operational_metadata_ok_def message_headers positive_attempt_def)
  have "serialize_event ?c = serialize_operational ?c" using type by (auto simp: serialize_event_def)
  then have ser: "serialize_operational ?c = Inr (serialized_from event)" using serialize_from[OF assms(1,3)] by simp
  let ?d = "\<lparr>ce_aggregate_id = units (fst (aggregate_of event)),
      ce_aggregate_type = units (snd (aggregate_of event)), ce_attempts = 1,
      ce_event_id = units (de_event_id (event_base_of event)), ce_event_type = units (event_type_name event),
      ce_id = units ''validation-only'', ce_merchant = units (de_merchant (event_base_of event)),
      ce_occurred = Some (de_occurred (event_base_of event)), ce_payload = to_payload event,
      ce_request = units (de_request (event_base_of event))\<rparr>"
  have d: "?d = ?c\<lparr>ce_attempts := 1, ce_id := units ''validation-only''\<rparr>"
    by (simp add: claimed_from_def claim_of_row_def outbox_row_of_def)
  have ser': "serialize_operational ?d = Inr (serialized_from event)"
    unfolding d serialize_operational_attempt by (rule ser)
  have fits: "\<not> message_limit < length (utf8_encode (stringify (to_payload event)))"
    using payload_fits[OF assms(1)] by simp
  have lit: "is_literal (am_type (message_from n event)) ''settlement.finalized.v1'' \<or>
      is_literal (am_type (message_from n event)) ''reconciliation.completed.v1''"
    using type by auto
  show ?thesis
    using lit fits meta parse
    by (simp add: validate_operational_def message_headers assms(4) occurred ser' bind_sum_def
        Let_def operational_received_def del: to_payload.simps)
      (simp add: ms serialized_from_def)
qed

end
