(* ===== verification/Contracts_Properties.thy ===== *)
theory Contracts_Properties imports Contracts_Roundtrip begin

text \<open>
  What the event contracts guarantee: an event the services build reaches its consumer as it was, a message
  that is accepted carries a well-formed event and properties that agree with it, and two inputs that the
  contracts treat differently from what they state.
\<close>

section \<open>Accepted messages\<close>

lemma member_matches_text:
  "member_matches p v \<Longrightarrow> p (member_text v)"
  by (auto simp: member_matches_def member_text_def text_matches_def split: option.splits json.splits)

lemma member_instant_bound: "member_instant v = Some t \<Longrightarrow> \<bar>t\<bar> \<le> max_time"
  by (auto simp: member_instant_def exact_instant_iff split: option.splits json.splits)

lemma safe_amount_ok: "safe_amount v = Some i \<Longrightarrow> amount_ok i"
  by (auto simp: safe_amount_def amount_ok_def split: option.splits json.splits if_splits)

lemma parse_exact_ok: "parse_exact_safe_integer t = Some i \<Longrightarrow> amount_ok i"
  by (cases t) (simp_all add: amount_ok_def parse_exact_safe_integer_iff, simp add: parse_exact_safe_integer_def)

lemma parse_event_body_ok:
  assumes "parse_event_body bs = Inr e"
  shows "wire_event_ok (PaymentCreated e)"
proof -
  obtain src where "valid_common (value_of src)"
    and "parse_exact_safe_integer (amount_source [] src None) \<noteq> None"
    and e: "e = \<lparr>de_event_id = member_text (obj_get (value_of src) ''eventId''),
       de_merchant = member_text (obj_get (value_of src) ''merchantId''),
       de_occurred = the (member_instant (obj_get (value_of src) ''occurredAt'')),
       de_request = member_text (obj_get (value_of src) ''requestId''),
       pe_currency = the (member_currency (obj_get (value_of src) ''currency'')),
       pe_payment = member_text (obj_get (value_of src) ''paymentId''),
       pce_amount = the (parse_exact_safe_integer (amount_source [] src None))\<rparr>"
    using assms by (auto simp: parse_event_body_def comp_simps Let_def split: if_splits)
  then show ?thesis
    by (auto simp: valid_common_def wire_base_ok_def member_matches_text dest: member_instant_bound parse_exact_ok)
qed

lemma to_captured_ok: "to_captured v = Inr event \<Longrightarrow> wire_event_ok event \<and> (\<exists>e. event = PaymentCaptured e)"
  by (auto simp: to_captured_def Let_def valid_common_def wire_base_ok_def member_matches_text
      dest: member_instant_bound safe_amount_ok split: if_splits)

lemma to_refunded_ok: "to_refunded v = Inr event \<Longrightarrow> wire_event_ok event \<and> (\<exists>e. event = PaymentRefunded e)"
  by (auto simp: to_refunded_def Let_def valid_common_def wire_base_ok_def member_matches_text
      dest: member_instant_bound safe_amount_ok split: if_splits)

text \<open>The properties of a message agree with the event of its body.\<close>

definition metadata_agrees :: "amqp_message \<Rightarrow> domain_event \<Rightarrow> int \<Rightarrow> bool" where
  "metadata_agrees m event attempt \<longleftrightarrow>
     am_message_id m = Some (jstr (de_event_id (event_base_of event))) \<and>
     am_type m = Some (jstr (event_type_name event)) \<and> am_routing_key m = units (event_type_name event) \<and>
     am_exchange m = units domain_exchange \<and>
     am_correlation m = Some (jstr (de_request (event_base_of event))) \<and>
     am_timestamp m = Some (JInt (de_occurred (event_base_of event) div 1000)) \<and>
     message_header m ''x-settleflow-aggregate-id'' = Some (jstr (fst (aggregate_of event))) \<and>
     message_header m ''x-settleflow-merchant-id'' = Some (jstr (de_merchant (event_base_of event))) \<and>
     message_header m ''x-settleflow-publish-attempt'' = Some (JInt attempt) \<and> 1 \<le> attempt"

lemma payment_metadata_agrees:
  assumes "payment_metadata m (event_type_name event) b = Inr attempt"
    and "event_base_of event = event_base.truncate b" and "aggregate_of event = (pe_payment b, ''payment_intent'')"
  shows "metadata_agrees m event attempt"
  using assms
  by (auto simp: payment_metadata_def metadata_agrees_def is_literal_def positive_attempt_def
      split: if_splits option.splits json.splits)

lemma accepted_payment_event:
  assumes "validate_payment_event sha m limit = Inr v"
  shows "wire_event_ok (vm_event v) \<and> metadata_agrees m (vm_event v) (vm_attempt v) \<and>
    length (vm_bytes v) \<le> limit \<and> vm_bytes v = am_content m"
proof -
  consider (created) "validate_created sha m limit = Inr v" | (lifecycle) "validate_lifecycle sha m limit = Inr v"
    using assms by (auto simp: validate_payment_event_def map_sum_def split: if_splits sum.splits)
  then show ?thesis
  proof cases
    case created
    then obtain e attempt where p: "parse_event_body (am_content m) = Inr e"
      "payment_metadata m ''payment.created.v1'' e = Inr attempt"
      "v = \<lparr>vm_event = PaymentCreated e, vm_bytes = am_content m, vm_sha = sha (am_content m),
            vm_attempt = attempt, vm_redelivered = am_redelivered m\<rparr>" "length (am_content m) \<le> limit"
      by (auto simp: validate_created_def comp_simps split: if_splits)
    then show ?thesis
      using parse_event_body_ok[OF p(1)] payment_metadata_agrees[of m "PaymentCreated e" e attempt] by simp
  next
    case lifecycle
    then obtain event attempt where p: "parse_lifecycle_body (am_content m) = Inr event"
      "payment_metadata m (event_type_name event) (the (payment_base event)) = Inr attempt"
      "v = \<lparr>vm_event = event, vm_bytes = am_content m, vm_sha = sha (am_content m),
            vm_attempt = attempt, vm_redelivered = am_redelivered m\<rparr>" "length (am_content m) \<le> limit"
      by (auto simp: validate_lifecycle_def comp_simps split: if_splits)
    then have "wire_event_ok event" and "(\<exists>e. event = PaymentCaptured e) \<or> (\<exists>e. event = PaymentRefunded e)"
      by (auto simp: parse_lifecycle_body_def comp_simps split: if_splits dest: to_captured_ok to_refunded_ok)
    moreover from this(2) obtain b where b: "payment_base event = Some b" by auto
    ultimately show ?thesis
      using p payment_metadata_agrees[of m event b attempt] payment_base_of[OF b] by simp
  qed
qed

text \<open>
  C19: a payment event that the services build, claimed from the outbox at any attempt, is serialized, and
  the consumer's contract accepts the published message and reads the same event from it, with the
  attempt's number.
\<close>

theorem payment_message_roundtrip:
  assumes "wire_event_ok event" and "payment_base event = Some b" and "1 \<le> n"
  shows "\<exists>s. serialize_event (claim_of_row (outbox_row_of i now event\<lparr>ob_attempts := n\<rparr>)) = Inr s \<and>
    validate_payment_event sha
      (message_of (claim_of_row (outbox_row_of i now event\<lparr>ob_attempts := n\<rparr>)) s) message_limit =
    Inr \<lparr>vm_event = event, vm_bytes = se_content s, vm_sha = sha (se_content s), vm_attempt = int n,
         vm_redelivered = False\<rparr>"
proof -
  have "se_content (serialized_from event) = utf8_encode (stringify (to_payload event))"
    by (simp add: serialized_from_def)
  then show ?thesis
    using serialize_from[OF assms(1,3), of i now] validate_payment_from[OF assms, of sha]
      message_of_from[of i now n event]
    by (simp add: claimed_from_def received_def)
qed

definition demo_created :: payment_created_event where
  "demo_created = \<lparr>de_event_id = ''evt_01ARZ3NDEKTSV4RRFFQ69G5FAV'',
     de_merchant = ''6f1c7a52-4b0e-4d7b-9c3a-2f5e8d9b1a40'', de_occurred = 951782400123, de_request = ''req-1'',
     pe_currency = ETB, pe_payment = ''pi_01ARZ3NDEKTSV4RRFFQ69G5FAV'', pce_amount = 2500\<rparr>"

lemma demo_created_ok: "wire_event_ok (PaymentCreated demo_created)"
proof -
  have "has_ulid_prefix ''evt'' ''evt_01ARZ3NDEKTSV4RRFFQ69G5FAV''" "has_ulid_prefix ''pi'' ''pi_01ARZ3NDEKTSV4RRFFQ69G5FAV''"
    "is_request_id ''req-1''"
    by code_simp+
  moreover have "is_uuid 8 ''6f1c7a52-4b0e-4d7b-9c3a-2f5e8d9b1a40''"
    by (simp add: is_uuid_def is_hex_def char_in_def numeral_eq_Suc All_less_Suc)
  ultimately show ?thesis
    by (simp add: demo_created_def wire_base_ok_def amount_ok_def max_safe_integer_def max_time_def)
qed

theorem payment_message_roundtrip_witness:
  "\<exists>s. serialize_event (claim_of_row (outbox_row_of [] 0 (PaymentCreated demo_created)\<lparr>ob_attempts := 2\<rparr>)) = Inr s \<and>
    validate_payment_event (\<lambda>_. [])
      (message_of (claim_of_row (outbox_row_of [] 0 (PaymentCreated demo_created)\<lparr>ob_attempts := 2\<rparr>)) s) message_limit =
    Inr \<lparr>vm_event = PaymentCreated demo_created, vm_bytes = se_content s, vm_sha = [], vm_attempt = 2,
         vm_redelivered = False\<rparr>"
  using payment_message_roundtrip[OF demo_created_ok, of "payment_event_base.truncate demo_created" 2 "[]" 0 "\<lambda>_. []"]
  by simp

text \<open>
  C20: the same for the two operational events, whose consumer keeps the payload as it is. The reading of
  dates is a parameter that inverts \<open>toISOString\<close> on the event's date.
\<close>

theorem operational_message_roundtrip:
  assumes "wire_event_ok event" and "payment_base event = None" and "1 \<le> n"
    and "date_parse (to_iso (de_occurred (event_base_of event))) = Some (de_occurred (event_base_of event))"
  shows "\<exists>s v. serialize_event (claim_of_row (outbox_row_of i now event\<lparr>ob_attempts := n\<rparr>)) = Inr s \<and>
    validate_operational sha date_parse
      (message_of (claim_of_row (outbox_row_of i now event\<lparr>ob_attempts := n\<rparr>)) s) message_limit = Inr v \<and>
    vo_payload v = to_payload event \<and> vo_event_id v = units (de_event_id (event_base_of event)) \<and>
    vo_event_type v = units (event_type_name event) \<and> vo_merchant v = units (de_merchant (event_base_of event)) \<and>
    vo_occurred v = de_occurred (event_base_of event) \<and> vo_request v = units (de_request (event_base_of event)) \<and>
    vo_bytes v = se_content s"
  using serialize_from[OF assms(1,3), of i now] message_of_from[of i now n event]
    validate_operational_from[where event = event and n = n and sha = sha and date_parse = date_parse, OF assms]
  by (simp add: claimed_from_def operational_received_def serialized_from_def)

definition demo_settlement :: settlement_finalized_event where
  "demo_settlement = \<lparr>de_event_id = ''evt_01ARZ3NDEKTSV4RRFFQ69G5FAV'',
     de_merchant = ''6f1c7a52-4b0e-4d7b-9c3a-2f5e8d9b1a40'', de_occurred = 951782400123, de_request = ''req-1'',
     sfe_batch = ''stb_01ARZ3NDEKTSV4RRFFQ69G5FAV'', sfe_currency = ETB, sfe_cutoff = 951782400000,
     sfe_fee = 50, sfe_gross = 2500, sfe_items = 3, sfe_net = 2450\<rparr>"

lemma demo_uuid: "is_lower_uuid ''6f1c7a52-4b0e-4d7b-9c3a-2f5e8d9b1a40''"
  by (simp add: is_lower_uuid_def is_uuid_def is_hex_def char_in_def numeral_eq_Suc All_less_Suc)

lemma demo_settlement_ok: "wire_event_ok (SettlementFinalized demo_settlement)"
proof -
  have "has_ulid_prefix ''evt'' ''evt_01ARZ3NDEKTSV4RRFFQ69G5FAV''" "has_ulid_prefix ''stb'' ''stb_01ARZ3NDEKTSV4RRFFQ69G5FAV''"
    "is_request_id ''req-1''"
    by code_simp+
  moreover have "four_digit_year 951782400123" "four_digit_year 951782400000" by code_simp+
  moreover note demo_uuid
  ultimately show ?thesis
    by (simp add: demo_settlement_def wire_base_ok_def amount_ok_def count_ok_def max_safe_integer_def max_time_def
        is_lower_uuid_def)
qed

theorem operational_message_roundtrip_witness:
  "\<exists>s v. serialize_event (claim_of_row (outbox_row_of [] 0 (SettlementFinalized demo_settlement)\<lparr>ob_attempts := 1\<rparr>)) = Inr s \<and>
    validate_operational (\<lambda>_. []) exact_instant
      (message_of (claim_of_row (outbox_row_of [] 0 (SettlementFinalized demo_settlement)\<lparr>ob_attempts := 1\<rparr>)) s)
      message_limit = Inr v \<and>
    vo_payload v = to_payload (SettlementFinalized demo_settlement)"
proof -
  have "exact_instant (to_iso (de_occurred (event_base_of (SettlementFinalized demo_settlement)))) =
      Some (de_occurred (event_base_of (SettlementFinalized demo_settlement)))"
    by (simp add: exact_instant_iff demo_settlement_def max_time_def)
  from operational_message_roundtrip[where event = "SettlementFinalized demo_settlement" and n = 1 and i = "[]"
      and now = 0 and sha = "\<lambda>_. []" and date_parse = exact_instant, OF demo_settlement_ok _ _ this]
  show ?thesis by fastforce
qed

text \<open>
  C21: a payment message that the consumer accepts carries a well-formed event, fits the limit, and its
  identifier, type, routing key, correlation, timestamp and headers are those of the event in its body.
\<close>

theorem accepted_payment_message_agrees:
  assumes "validate_payment_event sha m limit = Inr v"
  shows "wire_event_ok (vm_event v) \<and> metadata_agrees m (vm_event v) (vm_attempt v) \<and>
    length (vm_bytes v) \<le> limit \<and> vm_bytes v = am_content m"
  by (rule accepted_payment_event[OF assms])

theorem accepted_payment_message_agrees_witness:
  "wire_event_ok (PaymentCreated demo_created) \<and>
   metadata_agrees (message_from 1 (PaymentCreated demo_created)) (PaymentCreated demo_created) 1"
proof -
  have "validate_payment_event (\<lambda>_. []) (message_from 1 (PaymentCreated demo_created)) message_limit =
      Inr (received (\<lambda>_. []) 1 (PaymentCreated demo_created))"
    by (rule validate_payment_from[OF demo_created_ok]) simp_all
  from accepted_payment_message_agrees[OF this] show ?thesis by (simp add: received_def)
qed

text \<open>
  C22: \<open>parseExactSafeInteger\<close> accepts exactly the canonical decimal texts of 1 to 2^53 - 1, and gives the
  number the text denotes: no rounding of a double is ever accepted.
\<close>

theorem exact_amount_texts:
  "parse_exact_safe_integer (Some t) = Some i \<longleftrightarrow> t = dec_int i \<and> 1 \<le> i \<and> i \<le> max_safe_integer"
  by (rule parse_exact_safe_integer_iff)

section \<open>Two inputs the contracts miss\<close>

text \<open>
  The reviver of \<open>parseEventBody\<close> keeps the source of a number named \<open>amountMinor\<close> at any depth, and the
  member itself is never tested: an object around the number is accepted as the number.
\<close>

definition nested_amount :: "payment_created_event \<Rightarrow> json" where
  "nested_amount e = JObj (common_payload ''payment.created.v1'' e @
     [(''paymentId'', jstr (pe_payment e)), (''amountMinor'', JObj [(''amountMinor'', JInt (pce_amount e))]),
      (''currency'', jstr (currency_code (pe_currency e))), (''status'', jstr ''CREATED'')])"

lemma nested_amount_plain:
  assumes "wire_event_ok (PaymentCreated e)"
  shows "plain (nested_amount e)" and "ascii_json (nested_amount e)"
  using payload_plain[OF assms] by (simp_all add: nested_amount_def)

text \<open>
  C23: a \<open>payment.created.v1\<close> body whose \<open>amountMinor\<close> is an object holding the amount, not a number, passes
  the contract.
\<close>

theorem nested_amount_accepted:
  assumes "wire_event_ok (PaymentCreated e)"
  shows "\<not> is_json_number (obj_get (nested_amount e) ''amountMinor'') \<and>
    parse_event_body (utf8_encode (stringify (nested_amount e))) = Inr e"
proof -
  let ?p = "nested_amount e"
  have b: "wire_base_ok e" and a: "amount_ok (pce_amount e)" and pi: "has_ulid_prefix ''pi'' (pe_payment e)"
    using assms by simp_all
  obtain ms where ms: "?p = JObj ms" by (simp add: nested_amount_def)
  have body: "body_object (utf8_encode (stringify ?p)) = Inr (source_of ?p)"
    using nested_amount_plain[OF assms] unfolding ms by (rule body_object_stringify)
  have v: "value_of (source_of ?p) = ?p" using nested_amount_plain(1)[OF assms] by (rule value_of_source)
  have amt: "amount_source [] (source_of ?p) None = Some (dec_int (pce_amount e))"
    by (simp add: nested_amount_def common_payload_def jstr_def)
  have n: "parse_exact_safe_integer (Some (dec_int (pce_amount e))) = Some (pce_amount e)"
    using a by (simp add: parse_exact_safe_integer_iff amount_ok_def)
  have "exact_keys payload_keys ?p"
    by (simp add: exact_keys_def payload_keys_def nested_amount_def common_payload_def)
  moreover have "valid_common ?p"
    using wire_base_members[OF b] pi by (simp add: valid_common_def nested_amount_def common_payload_def ulid_member)
  ultimately have "parse_event_body (utf8_encode (stringify ?p)) = Inr e"
    using wire_base_members[OF b]
    unfolding parse_event_body_def body
    by (simp add: bind_sum_def Let_def v amt n) (simp add: nested_amount_def common_payload_def)
  then show ?thesis by (simp add: nested_amount_def common_payload_def)
qed

theorem nested_amount_accepted_witness:
  "\<exists>e. \<not> is_json_number (obj_get (nested_amount e) ''amountMinor'') \<and>
    parse_event_body (utf8_encode (stringify (nested_amount e))) = Inr e"
  using nested_amount_accepted[OF demo_created_ok] by blast

text \<open>
  C24: an operational message whose payload names a date that JavaScript cannot read, and that is otherwise
  addressed as it should be, raises \<open>RangeError\<close> from \<open>toISOString\<close>, not the contract's own error.
\<close>

theorem unreadable_date_escapes_contract:
  assumes "json_parse (decode_lossy (am_content m)) = Some p" and "is_json_object p"
    and "length (am_content m) \<le> limit" and "am_type m = Some (jstr t)"
    and "t = ''settlement.finalized.v1'' \<or> t = ''reconciliation.completed.v1''"
    and "operational_metadata_ok m (units t)" and "date_parse (js_string (obj_get p ''occurredAt'')) = None"
    and "is_text (obj_get p ''eventId'') (js_string (am_message_id m))" and "is_text (obj_get p ''eventType'') (units t)"
    and "is_text (obj_get p ''merchantId'') (js_string (message_header m ''x-settleflow-merchant-id''))"
    and "is_text (obj_get p ''requestId'') (js_string (am_correlation m))"
  shows "validate_operational sha date_parse m limit = Inl RangeError"
proof -
  have "is_literal (am_type m) ''settlement.finalized.v1'' \<or> is_literal (am_type m) ''reconciliation.completed.v1''"
    using assms(4,5) by auto
  then show ?thesis
    using assms by (simp add: validate_operational_def Let_def serialize_operational_def bind_sum_def)
qed

definition broken_date_payload :: json where
  "broken_date_payload = JObj [(''eventId'', jstr ''evt_1''), (''eventType'', jstr ''settlement.finalized.v1''),
     (''occurredAt'', jstr ''never''), (''requestId'', jstr ''req-1''), (''merchantId'', jstr ''m'')]"

definition broken_date_message :: amqp_message where
  "broken_date_message =
     \<lparr>am_content = utf8_encode (stringify broken_date_payload), am_exchange = units domain_exchange,
      am_routing_key = units ''settlement.finalized.v1'', am_redelivered = False,
      am_message_id = Some (jstr ''evt_1''), am_type = Some (jstr ''settlement.finalized.v1''),
      am_correlation = Some (jstr ''req-1''), am_content_type = Some (jstr ''application/json''),
      am_content_encoding = Some (jstr ''utf-8''), am_delivery_mode = Some (JInt 2),
      am_app_id = Some (jstr ''settleflow-worker''), am_timestamp = Some (JInt 0),
      am_headers = Some (JObj
        [(''x-settleflow-aggregate-id'', jstr ''b''), (''x-settleflow-aggregate-type'', jstr ''settlement_batch''),
         (''x-settleflow-merchant-id'', jstr ''m''), (''x-settleflow-publish-attempt'', JInt 1),
         (''x-settleflow-schema-version'', JInt 1)])\<rparr>"

lemma broken_date_body:
  "json_parse (decode_lossy (am_content broken_date_message)) = Some broken_date_payload"
  "length (am_content broken_date_message) \<le> message_limit"
proof -
  have k: "\<not> is_array_index (CHR ''e'' # cs)" "\<not> is_array_index (CHR ''o'' # cs)"
    "\<not> is_array_index (CHR ''r'' # cs)" "\<not> is_array_index (CHR ''m'' # cs)" for cs
    by (rule not_index; simp add: is_digit_unit_def)+
  have plain: "plain broken_date_payload" "ascii_json broken_date_payload"
    by (simp_all add: broken_date_payload_def k ascii_name_def jstr_def units_def)
  have ascii: "\<forall>u \<in> set (stringify broken_date_payload). u < 128" using plain by (rule stringify_ascii(1))
  then show "json_parse (decode_lossy (am_content broken_date_message)) = Some broken_date_payload"
    using plain(1) by (simp add: broken_date_message_def decode_encode_lossy well_formed_ascii json_parse_stringify)
  have "list_all small_member [(''eventId'', jstr ''evt_1''), (''eventType'', jstr ''settlement.finalized.v1''),
     (''occurredAt'', jstr ''never''), (''requestId'', jstr ''req-1''), (''merchantId'', jstr ''m'')]"
    by (simp add: small_member_def ascii_name_def small_string del: stringify.simps)
  from length_members_text[OF this] show "length (am_content broken_date_message) \<le> message_limit"
    using ascii by (simp add: broken_date_message_def utf8_encode_ascii message_limit_def)
      (simp add: broken_date_payload_def)
qed

theorem unreadable_date_escapes_contract_witness:
  "validate_operational (\<lambda>_. []) exact_instant broken_date_message message_limit = Inl RangeError"
proof (rule unreadable_date_escapes_contract[OF broken_date_body(1) _ broken_date_body(2), of "''settlement.finalized.v1''"])
  have "\<not> is_utc_millis (units ''never'')" by code_simp
  have "length (to_iso t) \<noteq> 5" if "\<bar>t\<bar> \<le> max_time" for t
  proof -
    obtain y m d where c: "civil_of_days (t div ms_per_day) = (y, m, d)" by (metis prod_cases3)
    show ?thesis by (simp add: to_iso_eq[OF c refl])
  qed
  moreover have "length (units ''never'') = 5" by simp
  ultimately have "units ''never'' \<noteq> to_iso t" if "\<bar>t\<bar> \<le> max_time" for t
    using that by metis
  then have "exact_instant (units ''never'') = None"
    using exact_instant_iff[of "units ''never''"] by (cases "exact_instant (units ''never'')") metis+
  then show "exact_instant (js_string (obj_get broken_date_payload ''occurredAt'')) = None"
    by (simp add: broken_date_payload_def)
qed (simp_all add: broken_date_payload_def broken_date_message_def operational_metadata_ok_def message_header_def
    positive_attempt_def is_text_units)

end
