(* ===== verification/Backoff.thy ===== *)
theory Backoff imports Prelude Complex_Main begin

text \<open>
  \<open>calculateFullJitterBackoff\<close> (\<open>packages/modules/eventing/src/outbox-retry.ts\<close>), the delay before every
  retry of the relay, the consumers and the publisher.
\<close>

text \<open>
  The randomness a call draws and the rounding of a product of two doubles. The factors here are exact
  doubles, a power of two times an integer among them.
\<close>

record jitter =
  jt_random :: "nat \<Rightarrow> rat"
  jt_float :: "rat \<Rightarrow> rat"

definition max_sample :: rat where
  "max_sample = 999999999 / 1000000000"

definition backoff_ceiling :: "int \<Rightarrow> int \<Rightarrow> int \<Rightarrow> int" where
  "backoff_ceiling attemptCount baseMs maxMs =
     (let exponent = max 0 (min 30 (attemptCount - 1)) in min maxMs (baseMs * 2 ^ nat exponent))"

definition full_jitter_backoff :: "(rat \<Rightarrow> rat) \<Rightarrow> int \<Rightarrow> int \<Rightarrow> int \<Rightarrow> rat \<Rightarrow> int" where
  "full_jitter_backoff fl attemptCount baseMs maxMs random =
     (let sample = max 0 (min max_sample random) in
      \<lfloor>fl (sample * of_int (backoff_ceiling attemptCount baseMs maxMs + 1))\<rfloor>)"

text \<open>
  IEEE 754 rounding: the result is not negative for an argument that is not, and exceeds it by at most one
  part in 2^53, or by half the smallest double.
\<close>

definition float_ok :: "(rat \<Rightarrow> rat) \<Rightarrow> bool" where
  "float_ok fl \<longleftrightarrow> (\<forall>x. 0 \<le> x \<longrightarrow> 0 \<le> fl x \<and> fl x \<le> x + x / 2 ^ 53 + 1 / 2 ^ 1074)"

lemma backoff_bounds:
  assumes "float_ok fl" and "0 \<le> baseMs" and "0 \<le> maxMs"
  shows "0 \<le> full_jitter_backoff fl n baseMs maxMs r"
    and "full_jitter_backoff fl n baseMs maxMs r \<le> backoff_ceiling n baseMs maxMs"
proof -
  define c where "c = backoff_ceiling n baseMs maxMs"
  define s where "s = max 0 (min max_sample r)"
  have c: "0 \<le> c" using assms(2,3) by (simp add: c_def backoff_ceiling_def)
  have s: "0 \<le> s" "s \<le> max_sample" by (simp_all add: s_def max_sample_def)
  define p where "p = s * of_int (c + 1)"
  have p0: "0 \<le> p" using s c by (simp add: p_def)
  have p1: "p \<le> max_sample * of_int (c + 1)"
    unfolding p_def using s c by (intro mult_right_mono) simp_all
  have fl: "0 \<le> fl p" "fl p \<le> p + p / 2 ^ 53 + 1 / 2 ^ 1074"
    using assms(1) p0 by (auto simp: float_ok_def)
  define e where "e = (1 :: rat) / 2 ^ 1074"
  have eps: "e \<le> 1 / 2 ^ 53"
    unfolding e_def by (intro divide_left_mono power_increasing) simp_all
  have mul: "p + p / 2 ^ 53 \<le> max_sample * of_int (c + 1) * (1 + 1 / 2 ^ 53)"
    using mult_right_mono[OF p1, of "1 + 1 / 2 ^ 53"] by (simp add: field_simps)
  have "1 \<le> (of_int (c + 1) :: rat)" using c by simp
  then have "max_sample * of_int (c + 1) * (1 + 1 / 2 ^ 53) + 1 / 2 ^ 53 < of_int (c + 1)"
    by (simp add: max_sample_def field_simps)
  then have "fl p < of_int c + 1"
    using fl(2)[folded e_def] eps mul by (simp only: of_int_add of_int_1)
  then have "\<lfloor>fl p\<rfloor> \<le> c" by (simp add: floor_le_iff)
  moreover have "0 \<le> \<lfloor>fl p\<rfloor>" using fl(1) by simp
  moreover have "full_jitter_backoff fl n baseMs maxMs r = \<lfloor>fl p\<rfloor>"
    by (simp add: full_jitter_backoff_def Let_def p_def s_def c_def)
  ultimately show "0 \<le> full_jitter_backoff fl n baseMs maxMs r"
    and "full_jitter_backoff fl n baseMs maxMs r \<le> backoff_ceiling n baseMs maxMs"
    by (simp_all add: c_def)
qed

lemma float_ok_id [simp]: "float_ok (\<lambda>x. x)"
  by (simp add: float_ok_def)

end
