(* ===== verification/Relay.thy ===== *)
theory Relay imports Contracts Backoff Idempotency "HOL-Library.List_Lexorder" "HOL-Library.Char_ord" begin

text \<open>
  The outbox relay: \<open>PrismaOutboxRelayRepository\<close> (\<open>prisma-outbox-relay.repository.ts\<close>) claims due rows
  under a lease and finalizes them, \<open>RabbitMqOutboxPublisher.publishBatch\<close> (\<open>rabbitmq-outbox.publisher.ts\<close>)
  hands their messages to the broker, \<open>OutboxRelayService.runOnce\<close> (\<open>outbox-relay.service.ts\<close>) puts the two
  together.
\<close>

section \<open>Claiming\<close>

record relay_options =
  ro_batch_size :: nat
  ro_lease_ms :: int
  ro_retry_base_ms :: int
  ro_retry_max_ms :: int

text \<open>\<open>locked\<close> are the rows that other transactions hold locked: \<open>SKIP LOCKED\<close> passes over them.\<close>

definition claimable :: "int \<Rightarrow> string list \<Rightarrow> outbox_row \<Rightarrow> bool" where
  "claimable now locked r \<longleftrightarrow> ob_published r = None \<and> ob_available r \<le> now \<and>
     (case ob_lease_expires r of None \<Rightarrow> True | Some l \<Rightarrow> l \<le> now) \<and> ob_id r \<notin> set locked"

definition claim_candidates :: "nat \<Rightarrow> int \<Rightarrow> string list \<Rightarrow> outbox_row list \<Rightarrow> outbox_row list" where
  "claim_candidates n now locked rows =
     take n (sort_key ob_available (sort_key ob_id (filter (claimable now locked) rows)))"

definition leased_row :: "string \<Rightarrow> int \<Rightarrow> int \<Rightarrow> outbox_row \<Rightarrow> outbox_row" where
  "leased_row worker now leaseMs r =
     r\<lparr>ob_locked_by := Some worker, ob_locked_at := Some now, ob_lease_expires := Some (now + leaseMs),
       ob_attempts := ob_attempts r + 1\<rparr>"

text \<open>\<open>UPDATE "outbox_events" ... WHERE p\<close>: the checks are tested on the new rows; the count of rows.\<close>

definition update_outbox ::
  "(outbox_row \<Rightarrow> bool) \<Rightarrow> (outbox_row \<Rightarrow> outbox_row) \<Rightarrow> ('a eventing_world_scheme, error, nat) comp"
where
  "update_outbox p f = (\<lambda>w.
     case first_violation outbox_check (map f (filter p (outbox_events w))) of
       Some c \<Rightarrow> raise_constraint c w
     | None \<Rightarrow> (Inr (count_where p (outbox_events w)), w\<lparr>outbox_events := update_where p f (outbox_events w)\<rparr>))"

definition claim_rows ::
  "env \<Rightarrow> relay_options \<Rightarrow> string list \<Rightarrow> string \<Rightarrow> ('a eventing_world_scheme, error, outbox_row list) comp"
where
  "claim_rows E opts locked worker =
     bindc (read_clock E) (\<lambda>now.
     bindc (gets (\<lambda>w. claim_candidates (ro_batch_size opts) now locked (outbox_events w))) (\<lambda>candidates.
     bindc (update_outbox (\<lambda>r. ob_id r \<in> ob_id ` set candidates) (leased_row worker now (ro_lease_ms opts))) (\<lambda>_.
     ok (map (leased_row worker now (ro_lease_ms opts)) candidates))))"

definition claim_observation :: "nat \<Rightarrow> observation" where
  "claim_observation n = [(''event'', ''outbox.claim.completed''), (''count'', map char_of (dec_nat n))]"

definition claim_pending ::
  "env \<Rightarrow> relay_options \<Rightarrow> string list \<Rightarrow> string \<Rightarrow> ('a eventing_world_scheme, error, claimed_event list) comp"
where
  "claim_pending E opts locked worker =
     catch
       (bindc (transaction E (\<lambda>_ _. None)
          (bindc (set_transaction_timeouts E) (\<lambda>_. bindc (set_transaction_timeouts E) (\<lambda>_.
           stmt E (claim_rows E opts locked worker)))))
        (\<lambda>rows. bindc (observe (claim_observation (length rows))) (\<lambda>_. ok (map claim_of_row rows))))
       (rethrow_database_error E)"

section \<open>Finalizing\<close>

datatype finalization =
    FinalizePublished "ustring" "ustring"
  | FinalizeRetry "ustring" "ustring" int

fun finalized_ids :: "finalization \<Rightarrow> ustring \<times> ustring" where
  "finalized_ids (FinalizePublished i e) = (i, e)"
| "finalized_ids (FinalizeRetry i e d) = (i, e)"

definition owned_row :: "string \<Rightarrow> finalization \<Rightarrow> outbox_row \<Rightarrow> bool" where
  "owned_row worker f r \<longleftrightarrow> units (ob_id r) = fst (finalized_ids f) \<and> units (ob_event_id r) = snd (finalized_ids f) \<and>
     ob_published r = None \<and> ob_locked_by r = Some worker"

definition released_row :: "outbox_row \<Rightarrow> outbox_row" where
  "released_row r = r\<lparr>ob_locked_by := None, ob_locked_at := None, ob_lease_expires := None\<rparr>"

fun marked_row :: "int \<Rightarrow> finalization \<Rightarrow> outbox_row \<Rightarrow> outbox_row" where
  "marked_row now (FinalizePublished i e) r = (released_row r)\<lparr>ob_published := Some now\<rparr>"
| "marked_row now (FinalizeRetry i e delay) r = (released_row r)\<lparr>ob_available := now + delay\<rparr>"

definition finalize_one :: "env \<Rightarrow> string \<Rightarrow> finalization \<Rightarrow> ('a eventing_world_scheme, error, nat) comp" where
  "finalize_one E worker f = stmt E (bindc (read_clock E) (\<lambda>now. update_outbox (owned_row worker f) (marked_row now f)))"

fun finalize_all :: "env \<Rightarrow> string \<Rightarrow> finalization list \<Rightarrow> ('a eventing_world_scheme, error, nat) comp" where
  "finalize_all E worker [] = ok 0"
| "finalize_all E worker (f # fs) =
     bindc (finalize_one E worker f) (\<lambda>n. bindc (finalize_all E worker fs) (\<lambda>m. ok (n + m)))"

record finalize_result =
  fr_ownership_lost :: int
  fr_updated :: nat

definition finalize_observations :: "finalize_result \<Rightarrow> observation list" where
  "finalize_observations r =
     [(''event'', ''outbox.finalize.completed''), (''count'', map char_of (dec_nat (fr_updated r)))] #
     (if 0 < fr_ownership_lost r
      then [[(''event'', ''outbox.finalize.ownership_lost''),
             (''count'', map char_of (dec_int (fr_ownership_lost r)))]]
      else [])"

definition finalize ::
  "env \<Rightarrow> string \<Rightarrow> finalization list \<Rightarrow> ('a eventing_world_scheme, error, finalize_result) comp"
where
  "finalize E worker events =
     (if events = [] then ok \<lparr>fr_ownership_lost = 0, fr_updated = 0\<rparr>
      else catch
        (bindc (transaction E (\<lambda>_ _. None)
           (bindc (set_transaction_timeouts E) (\<lambda>_. bindc (set_transaction_timeouts E) (\<lambda>_.
            finalize_all E worker events))))
         (\<lambda>updated. let result = \<lparr>fr_ownership_lost = int (length events) - int updated, fr_updated = updated\<rparr> in
           bindc (for_each observe (finalize_observations result)) (\<lambda>_. ok result)))
        (rethrow_database_error E))"

section \<open>Publishing\<close>

datatype publish_failure =
    channel_backpressure_timeout
  | confirm_nack
  | confirm_timeout
  | event_contract_invalid
  | mandatory_return
  | publisher_unavailable

datatype publish_outcome = Confirmed ustring | Retry publish_failure ustring

fun outcome_event :: "publish_outcome \<Rightarrow> ustring" where
  "outcome_event (Confirmed e) = e"
| "outcome_event (Retry c e) = e"

text \<open>
  How the broker treats one publication, by \<open>tick\<close>: the write fails, it is confirmed, refused, returned as
  unroutable before its confirmation, or nothing arrives in time. \<open>br_ready\<close> is \<open>ensureReady\<close> at the
  start of a batch and \<open>isReady\<close> with a channel before an event: it may turn false at any time, for a lost
  connection, a blocked one or a channel dropped after a timeout. \<open>sent_messages\<close> is what the broker was handed, oldest first, with
  its answer; it is no table, and no rollback reaches it.
\<close>

datatype broker_answer = WriteFails | Acks | Nacks | Returns | Silent

record broker =
  br_ready :: "nat \<Rightarrow> bool"
  br_answer :: "nat \<Rightarrow> broker_answer"

record relay_world = eventing_world +
  sent_messages :: "(amqp_message \<times> broker_answer) list"

fun outcome_of :: "broker_answer \<Rightarrow> ustring \<Rightarrow> publish_outcome" where
  "outcome_of WriteFails e = Retry publisher_unavailable e"
| "outcome_of Acks e = Confirmed e"
| "outcome_of Nacks e = Retry confirm_nack e"
| "outcome_of Returns e = Retry mandatory_return e"
| "outcome_of Silent e = Retry confirm_timeout e"

definition broker_ready :: "broker \<Rightarrow> ('a relay_world_scheme, error, bool) comp" where
  "broker_ready B = (\<lambda>w. (Inr (br_ready B (tick w)), bump w))"

definition publish_one ::
  "broker \<Rightarrow> amqp_message \<Rightarrow> ustring \<Rightarrow> ('a relay_world_scheme, error, publish_outcome) comp"
where
  "publish_one B m eventId = (\<lambda>w.
     let a = br_answer B (tick w) in
     (Inr (outcome_of a eventId), (bump w)\<lparr>sent_messages := sent_messages w @ [(m, a)]\<rparr>))"

definition publish_event ::
  "broker \<Rightarrow> claimed_event \<Rightarrow> ('a relay_world_scheme, error, publish_outcome) comp"
where
  "publish_event B c =
     bindc (broker_ready B) (\<lambda>ready.
     if \<not> ready then ok (Retry publisher_unavailable (ce_event_id c))
     else (case serialize_event c of
        Inl RangeError \<Rightarrow> throw (PlainE ''Invalid time value'')
      | Inl e \<Rightarrow> ok (Retry event_contract_invalid (ce_event_id c))
      | Inr s \<Rightarrow> publish_one B (message_of c s) (ce_event_id c)))"

definition publish_batch ::
  "broker \<Rightarrow> claimed_event list \<Rightarrow> ('a relay_world_scheme, error, publish_outcome list) comp"
where
  "publish_batch B events =
     bindc (broker_ready B) (\<lambda>ready.
     if \<not> ready then ok (map (\<lambda>c. Retry publisher_unavailable (ce_event_id c)) events)
     else map_comp (publish_event B) events)"

section \<open>\<open>OutboxRelayService.runOnce\<close>\<close>

record relay_result =
  rr_claimed :: nat
  rr_ownership_lost :: int
  rr_published :: nat
  rr_publisher_ready :: bool
  rr_retry_scheduled :: nat

text \<open>\<open>new Map(outcomes.map(...))\<close>: the last outcome of an event stands.\<close>

definition outcome_for :: "publish_outcome list \<Rightarrow> ustring \<Rightarrow> publish_outcome option" where
  "outcome_for outcomes e = List.find (\<lambda>p. outcome_event p = e) (rev outcomes)"

definition is_confirmed :: "publish_outcome list \<Rightarrow> ustring \<Rightarrow> bool" where
  "is_confirmed outcomes e \<longleftrightarrow> outcome_for outcomes e = Some (Confirmed e)"

text \<open>The finalization of one claimed event; \<open>this.random\<close> is drawn for a retry only.\<close>

definition finalization_of ::
  "jitter \<Rightarrow> relay_options \<Rightarrow> publish_outcome list \<Rightarrow> claimed_event \<Rightarrow> ('a world_scheme, error, finalization) comp"
where
  "finalization_of J opts outcomes c =
     (if is_confirmed outcomes (ce_event_id c) then ok (FinalizePublished (ce_id c) (ce_event_id c))
      else (\<lambda>w. (Inr (FinalizeRetry (ce_id c) (ce_event_id c)
                 (full_jitter_backoff (jt_float J) (ce_attempts c) (ro_retry_base_ms opts) (ro_retry_max_ms opts)
                    (jt_random J (tick w)))), bump w)))"

fun is_published :: "finalization \<Rightarrow> bool" where
  "is_published (FinalizePublished i e) = True"
| "is_published (FinalizeRetry i e d) = False"

definition count_observation :: "string \<Rightarrow> nat \<Rightarrow> observation list" where
  "count_observation name n = (if 0 < n then [[(''event'', name), (''count'', map char_of (dec_nat n))]] else [])"

fun is_return :: "publish_outcome \<Rightarrow> bool" where
  "is_return (Retry mandatory_return e) = True"
| "is_return p = False"

fun is_confirmation :: "publish_outcome \<Rightarrow> bool" where
  "is_confirmation (Confirmed e) = True"
| "is_confirmation p = False"

definition publish_observations :: "publish_outcome list \<Rightarrow> observation list" where
  "publish_observations outcomes =
     count_observation ''outbox.publish.confirmed'' (length (filter is_confirmation outcomes)) @
     count_observation ''outbox.publish.returned'' (length (filter is_return outcomes))"

text \<open>\<open>failureCounts\<close>; a claimed event without an outcome counts as \<open>publisher_unavailable\<close>.\<close>

definition publish_failures :: "(publish_failure \<times> string) list" where
  "publish_failures =
     [(channel_backpressure_timeout, ''channel_backpressure_timeout''), (confirm_nack, ''confirm_nack''),
      (confirm_timeout, ''confirm_timeout''), (event_contract_invalid, ''event_contract_invalid''),
      (mandatory_return, ''mandatory_return''), (publisher_unavailable, ''publisher_unavailable'')]"

fun has_code :: "publish_failure \<Rightarrow> publish_outcome \<Rightarrow> bool" where
  "has_code c (Retry c' e) \<longleftrightarrow> c = c'"
| "has_code c (Confirmed e) \<longleftrightarrow> False"

definition failure_counts :: "claimed_event list \<Rightarrow> publish_outcome list \<Rightarrow> (string \<times> nat) list" where
  "failure_counts claimed outcomes =
     filter (\<lambda>f. 0 < snd f)
       (map (\<lambda>(c, name). (name, length (filter (has_code c) outcomes) +
          (if c = publisher_unavailable
           then length (filter (\<lambda>e. ce_event_id e \<notin> outcome_event ` set outcomes) claimed) else 0))) publish_failures)"

definition retry_observation :: "claimed_event list \<Rightarrow> publish_outcome list \<Rightarrow> nat \<Rightarrow> observation list" where
  "retry_observation claimed outcomes n =
     map (\<lambda>ob. ob @ map (\<lambda>(name, k). (name, map char_of (dec_nat k))) (failure_counts claimed outcomes))
       (count_observation ''outbox.publish.retry_scheduled'' n)"

definition finish_run ::
  "env \<Rightarrow> jitter \<Rightarrow> broker \<Rightarrow> relay_options \<Rightarrow> string \<Rightarrow> claimed_event list \<Rightarrow> publish_outcome list \<Rightarrow>
   ('a relay_world_scheme, error, relay_result) comp"
where
  "finish_run E J B opts worker claimed outcomes =
     bindc (for_each observe (publish_observations outcomes)) (\<lambda>_.
     bindc (map_comp (finalization_of J opts outcomes) claimed) (\<lambda>finalizations.
     bindc (finalize E worker finalizations) (\<lambda>finalized.
     let published = length (filter is_published finalizations);
         retryScheduled = length finalizations - published in
     bindc (for_each observe (retry_observation claimed outcomes retryScheduled)) (\<lambda>_.
     bindc (broker_ready B) (\<lambda>ready.
     ok \<lparr>rr_claimed = length claimed, rr_ownership_lost = fr_ownership_lost finalized, rr_published = published,
         rr_publisher_ready = ready, rr_retry_scheduled = retryScheduled\<rparr>)))))"

definition idle_result :: "bool \<Rightarrow> relay_result" where
  "idle_result ready = \<lparr>rr_claimed = 0, rr_ownership_lost = 0, rr_published = 0, rr_publisher_ready = ready,
     rr_retry_scheduled = 0\<rparr>"

definition run_once ::
  "env \<Rightarrow> jitter \<Rightarrow> broker \<Rightarrow> relay_options \<Rightarrow> string list \<Rightarrow> string \<Rightarrow> ('a relay_world_scheme, error, relay_result) comp"
where
  "run_once E J B opts locked worker =
     bindc (broker_ready B) (\<lambda>ready.
     if \<not> ready then ok (idle_result False)
     else
       bindc (claim_pending E opts locked worker) (\<lambda>claimed.
       if claimed = [] then ok (idle_result True)
       else
         bindc (publish_batch B claimed) (\<lambda>outcomes.
         finish_run E J B opts worker claimed outcomes)))"

end
