(* ===== verification/Relay_Steps.thy ===== *)
theory Relay_Steps imports Relay Contracts_Roundtrip begin

text \<open>
  Several relay workers and the writers of events, interleaved: a step relation over the world and what every
  worker holds, its invariant, and the effect of each operation on the table.
\<close>

section \<open>The effect of each operation\<close>

abbreviation set_outbox :: "outbox_row list \<Rightarrow> 'a eventing_world_scheme \<Rightarrow> 'a eventing_world_scheme" where
  "set_outbox rows w \<equiv> w\<lparr>outbox_events := rows\<rparr>"

lemma update_outbox_Inr:
  "update_outbox p f w = (Inr n, w') \<longleftrightarrow>
     (\<forall>r \<in> set (outbox_events w). p r \<longrightarrow> outbox_check (f r) = None) \<and> n = count_where p (outbox_events w) \<and>
     w' = set_outbox (update_where p f (outbox_events w)) w"
  using first_violation_None[of outbox_check "map f (filter p (outbox_events w))"]
  by (cases "first_violation outbox_check (map f (filter p (outbox_events w)))")
    (auto simp: update_outbox_def raise_constraint_def throw_def)

lemma update_outbox_Inl: "update_outbox p f w = (Inl e, w') \<Longrightarrow> w' = w \<and> (\<exists>c. e = DbE (ConstraintViolation c))"
  by (auto simp: update_outbox_def raise_constraint_def throw_def split: option.splits)

lemma same_db_tables:
  fixes w w' :: "'a eventing_world_scheme"
  assumes "same_db w w'"
  shows "outbox_events w' = outbox_events w"
  using assms by (cases w; cases w') (simp add: same_db_iff)

lemma same_db_sent:
  fixes w w' :: "'a relay_world_scheme"
  assumes "same_db w w'"
  shows "sent_messages w' = sent_messages w"
  using assms by (cases w; cases w') (simp add: same_db_iff)

lemma same_db_set_outbox:
  fixes w w' :: "'a eventing_world_scheme"
  shows "same_db w w' \<Longrightarrow> same_db (set_outbox rows w) (set_outbox rows w')"
  by (cases w; cases w') (simp add: same_db_iff)

text \<open>A transaction that changes the outbox only.\<close>

lemma bindc_observe: "bindc (observe ob) k w = k () (w\<lparr>observed := observed w @ [ob]\<rparr>)"
  by (simp add: bindc_def observe_def modify_def)

lemma bindc_all_observes: "\<exists>w2. bindc (for_each observe obs) (\<lambda>_. k) w1 = k w2 \<and> same_db w1 w2"
proof (induction obs arbitrary: w1)
  case Nil
  show ?case by (rule exI[of _ w1]) (simp add: ok_def bindc_def)
next
  case (Cons ob obs)
  show ?case using Cons[of "w1\<lparr>observed := observed w1 @ [ob]\<rparr>"]
    unfolding for_each.simps bindc_assoc bindc_observe[of ob _ w1] using same_db_trans[OF same_db_bump(4)] by blast
qed

lemma claim_rows_Inr:
  fixes w :: "'a eventing_world_scheme"
  assumes "claim_rows E opts locked worker w = (Inr rows, w')"
  obtains now candidates where "candidates = claim_candidates (ro_batch_size opts) now locked (outbox_events w)"
    and "rows = map (leased_row worker now (ro_lease_ms opts)) candidates"
    and "same_db (set_outbox (update_where (\<lambda>r. ob_id r \<in> ob_id ` set candidates)
           (leased_row worker now (ro_lease_ms opts)) (outbox_events w)) w) w'"
    and "\<forall>r \<in> set (outbox_events w). ob_id r \<in> ob_id ` set candidates \<longrightarrow>
           outbox_check (leased_row worker now (ro_lease_ms opts) r) = None"
proof -
  let ?now = "env_clock E (tick w)"
  let ?c = "claim_candidates (ro_batch_size opts) ?now locked (outbox_events w)"
  have "outbox_events (bump w) = outbox_events w" by (simp add: bump_def)
  then show ?thesis
    using that[of ?c ?now] assms same_db_set_outbox[OF same_db_bump(1)[of w]]
    by (auto simp: claim_rows_def comp_simps update_outbox_Inr)
qed

lemma set_timeouts_same_db: "set_transaction_timeouts E w = (r, w') \<Longrightarrow> same_db w w'"
  by (auto simp: set_transaction_timeouts_def stmt_def ok_def split: option.splits)

text \<open>A transaction whose errors are classified, followed by observations.\<close>

lemma guarded_transaction:
  fixes w :: "'a world_scheme"
  assumes run: "catch (bindc (transaction E d m) k) (rethrow_database_error E) w = (r, w')"
    and k: "\<And>x w1. \<exists>w2. k x w1 = (Inr (g x), w2) \<and> same_db w1 w2"
  shows "(same_db w w' \<and> (\<exists>e. r = Inl e)) \<or>
    (\<exists>x w1. m (begin_txn E w) = (Inr x, w1) \<and> same_db w1 w' \<and> (r = Inr (g x) \<or> (\<exists>e. r = Inl e)))"
proof -
  obtain rt w1 where t: "transaction E d m w = (rt, w1)" by fastforce
  show ?thesis
  proof (cases rt)
    case (Inl e)
    then have re: "rethrow_database_error E e w1 = (r, w')" using run t by (simp add: catch_def bindc_def)
    have s: "same_db w1 w'" using re by (rule rethrow_same_db)
    moreover have "\<exists>e. r = Inl e" using rethrow_cases[OF re] by auto
    moreover have "same_db w w1 \<or> (\<exists>x w2. m (begin_txn E w) = (Inr x, w2) \<and> w1 = bump w2)"
      using transaction_atomic[OF t] by blast
    ultimately show ?thesis using same_db_trans same_db_bump_trans by blast
  next
    case (Inr x)
    obtain w2 where w2: "m (begin_txn E w) = (Inr x, w2)" "w1 = bump w2"
      using t Inr by (auto simp: transaction_Inr)
    obtain w3 where w3: "k x w1 = (Inr (g x), w3)" "same_db w1 w3" using k by blast
    have "r = Inr (g x)" "w' = w3" using run t Inr w3(1) by (simp_all add: catch_def bindc_def)
    then show ?thesis using w2 w3(2) same_db_bump_trans by blast
  qed
qed

lemma timeouts_then:
  assumes "bindc (set_transaction_timeouts E) (\<lambda>_. bindc (set_transaction_timeouts E) (\<lambda>_. m)) w = (Inr x, w')"
  obtains w0 where "same_db w w0" and "m w0 = (Inr x, w')"
proof -
  from assms obtain w1 w2 where s: "set_transaction_timeouts E w = (Inr (), w1)"
    "set_transaction_timeouts E w1 = (Inr (), w2)" and m: "m w2 = (Inr x, w')"
    unfolding bindc_Inr by (metis (full_types) old.unit.exhaust)
  have "same_db w w2" using s[THEN set_timeouts_same_db] by (rule same_db_trans)
  then show ?thesis using m by (rule that)
qed

definition claimed_rows :: "string \<Rightarrow> int \<Rightarrow> int \<Rightarrow> outbox_row list \<Rightarrow> outbox_row list \<Rightarrow> outbox_row list" where
  "claimed_rows worker now leaseMs candidates rows =
     update_where (\<lambda>r. ob_id r \<in> ob_id ` set candidates) (leased_row worker now leaseMs) rows"

lemma claim_pending_effect:
  fixes w :: "'a eventing_world_scheme"
  assumes "claim_pending E opts locked worker w = (r, w')"
  shows "(same_db w w' \<and> (\<exists>e. r = Inl e)) \<or>
    (\<exists>now candidates. candidates = claim_candidates (ro_batch_size opts) now locked (outbox_events w) \<and>
      same_db (set_outbox (claimed_rows worker now (ro_lease_ms opts) candidates (outbox_events w)) w) w' \<and>
      (\<forall>r \<in> set (outbox_events w). ob_id r \<in> ob_id ` set candidates \<longrightarrow>
        outbox_check (leased_row worker now (ro_lease_ms opts) r) = None) \<and>
      (r = Inr (map claim_of_row (map (leased_row worker now (ro_lease_ms opts)) candidates)) \<or> (\<exists>e. r = Inl e)))"
    (is "?failed \<or> (\<exists>now candidates. ?claimed now candidates)")
proof -
  let ?body = "bindc (set_transaction_timeouts E) (\<lambda>_. bindc (set_transaction_timeouts E) (\<lambda>_.
           stmt E (claim_rows E opts locked worker)))"
  have "?failed \<or> (\<exists>rows w1. ?body (begin_txn E w) = (Inr rows, w1) \<and> same_db w1 w' \<and>
      (r = Inr (map claim_of_row rows) \<or> (\<exists>e. r = Inl e)))"
    by (rule guarded_transaction[OF assms[unfolded claim_pending_def]])
      (auto simp: bindc_def observe_def modify_def ok_def)
  then show ?thesis
  proof
    assume "\<exists>rows w1. ?body (begin_txn E w) = (Inr rows, w1) \<and> same_db w1 w' \<and>
      (r = Inr (map claim_of_row rows) \<or> (\<exists>e. r = Inl e))"
    then obtain rows w1 where b: "?body (begin_txn E w) = (Inr rows, w1)" and w1: "same_db w1 w'"
      and r: "r = Inr (map claim_of_row rows) \<or> (\<exists>e. r = Inl e)" by blast
    obtain w0 where w0: "same_db (begin_txn E w) w0" "stmt E (claim_rows E opts locked worker) w0 = (Inr rows, w1)"
      using timeouts_then[OF b] .
    then have c: "claim_rows E opts locked worker (bump w0) = (Inr rows, w1)" by (simp add: comp_simps)
    have w: "same_db w (bump w0)" using w0(1) by (meson same_db_begin same_db_bump(1) same_db_trans)
    obtain now candidates where
      q: "candidates = claim_candidates (ro_batch_size opts) now locked (outbox_events w)"
        "rows = map (leased_row worker now (ro_lease_ms opts)) candidates"
        "same_db (set_outbox (claimed_rows worker now (ro_lease_ms opts) candidates (outbox_events w)) (bump w0)) w1"
        "\<forall>r \<in> set (outbox_events w). ob_id r \<in> ob_id ` set candidates \<longrightarrow>
           outbox_check (leased_row worker now (ro_lease_ms opts) r) = None"
      using claim_rows_Inr[OF c] unfolding same_db_tables[OF w] claimed_rows_def by blast
    have "same_db (set_outbox (claimed_rows worker now (ro_lease_ms opts) candidates (outbox_events w)) w) w'"
      using same_db_set_outbox[OF w] q(3) w1 same_db_trans by blast
    then have "?claimed now candidates" using q r by blast
    then show ?thesis by blast
  qed blast
qed

section \<open>What happens to a row\<close>

text \<open>A row that a claim takes is due, unpublished and under no live lease; it is leased, nothing else changes.\<close>

definition row_claimed :: "string \<Rightarrow> int \<Rightarrow> int \<Rightarrow> string list \<Rightarrow> outbox_row \<Rightarrow> outbox_row \<Rightarrow> bool" where
  "row_claimed worker now leaseMs locked r r' \<longleftrightarrow>
     r' = r \<or> (claimable now locked r \<and> r' = leased_row worker now leaseMs r)"

lemma candidates_in: "set (claim_candidates n now locked rows) \<subseteq> {r \<in> set rows. claimable now locked r}"
  by (auto simp: claim_candidates_def dest: in_set_takeD)

lemma candidates_length: "length (claim_candidates n now locked rows) \<le> n"
  by (simp add: claim_candidates_def)

lemma claimed_rows_pointwise:
  assumes "distinct (map ob_id rows)"
  shows "list_all2 (row_claimed worker now leaseMs locked) rows
    (claimed_rows worker now leaseMs (claim_candidates n now locked rows) rows)"
proof -
  have "claimable now locked r"
    if r: "r \<in> set rows" "ob_id r \<in> ob_id ` set (claim_candidates n now locked rows)" for r
  proof -
    obtain r0 where r0: "r0 \<in> set (claim_candidates n now locked rows)" "ob_id r = ob_id r0" using r(2) by blast
    then have "r0 \<in> set rows" "claimable now locked r0" using candidates_in by blast+
    then show ?thesis using distinct_key_eq[OF assms r(1)] r0(2) by blast
  qed
  then show ?thesis
    by (auto simp: claimed_rows_def update_where_def list_all2_map2 row_claimed_def intro!: list.rel_refl_strong)
qed

text \<open>A row that a finalization changes was still leased to the worker and unpublished.\<close>

definition row_finalized :: "string \<Rightarrow> finalization list \<Rightarrow> outbox_row \<Rightarrow> outbox_row \<Rightarrow> bool" where
  "row_finalized worker fs r r' \<longleftrightarrow>
     r' = r \<or> (\<exists>f \<in> set fs. \<exists>now. owned_row worker f r \<and> r' = marked_row now f r)"

lemma marked_row_static:
  "ob_id (marked_row now f r) = ob_id r" "ob_event_id (marked_row now f r) = ob_event_id r"
  "ob_locked_by (marked_row now f r) = None"
  by (cases f; simp add: released_row_def)+

lemma finalized_not_owned: "\<not> owned_row worker g (marked_row now f r)"
  by (simp add: owned_row_def marked_row_static)

lemma finalize_one_Inr:
  fixes w :: "'a eventing_world_scheme"
  assumes "finalize_one E worker f w = (Inr n, w')"
  obtains now where "same_db (set_outbox (update_where (owned_row worker f) (marked_row now f) (outbox_events w)) w) w'"
    and "n = count_where (owned_row worker f) (outbox_events w)"
    and "\<forall>r \<in> set (outbox_events w). owned_row worker f r \<longrightarrow> outbox_check (marked_row now f r) = None"
proof -
  have b: "outbox_events (bump w) = outbox_events w" for w :: "'a eventing_world_scheme" by (simp add: bump_def)
  have s: "same_db w (bump (bump w))" by (simp add: same_db_iff)
  show ?thesis
    using assms that[of "env_clock E (tick (bump w))"] same_db_set_outbox[OF s]
    by (auto simp: finalize_one_def comp_simps update_outbox_Inr b)
qed

lemma finalize_all_effect:
  fixes w :: "'a eventing_world_scheme"
  assumes "finalize_all E worker fs w = (Inr n, w')"
  shows "\<exists>rows. same_db (set_outbox rows w) w' \<and> list_all2 (row_finalized worker fs) (outbox_events w) rows \<and>
    (\<forall>r \<in> set rows. r \<in> set (outbox_events w) \<or> outbox_check r = None)"
  using assms
proof (induction fs arbitrary: w n)
  case Nil
  have "list_all2 (row_finalized worker []) (outbox_events w) (outbox_events w)"
    by (simp add: list_all2_same row_finalized_def)
  then show ?case using Nil by (intro exI[of _ "outbox_events w"]) (simp add: ok_eq)
next
  case (Cons f fs)
  obtain k w1 m where one: "finalize_one E worker f w = (Inr k, w1)" and all: "finalize_all E worker fs w1 = (Inr m, w')"
    using Cons.prems by (auto simp: comp_simps)
  obtain now where one_eff: "same_db (set_outbox (update_where (owned_row worker f) (marked_row now f) (outbox_events w)) w) w1"
    and chk: "\<forall>r \<in> set (outbox_events w). owned_row worker f r \<longrightarrow> outbox_check (marked_row now f r) = None"
    using finalize_one_Inr[OF one] by metis
  let ?mid = "update_where (owned_row worker f) (marked_row now f) (outbox_events w)"
  have mid: "outbox_events w1 = ?mid" using same_db_tables[OF one_eff] by simp
  obtain rows where rows: "same_db (set_outbox rows w1) w'" "list_all2 (row_finalized worker fs) ?mid rows"
    "\<forall>r \<in> set rows. r \<in> set ?mid \<or> outbox_check r = None"
    using Cons.IH[OF all] unfolding mid by blast
  have "same_db (set_outbox rows w) (set_outbox rows w1)"
    using same_db_set_outbox[OF one_eff, of rows] by simp
  then have "same_db (set_outbox rows w) w'" using rows(1) same_db_trans by blast
  moreover have "list_all2 (row_finalized worker (f # fs)) (outbox_events w) rows"
  proof (rule list_all2_trans[OF _ _ rows(2)])
    show "list_all2 (\<lambda>r r'. r' = (if owned_row worker f r then marked_row now f r else r)) (outbox_events w) ?mid"
      by (simp add: update_where_def list_all2_map2 list_all2_same)
    show "row_finalized worker (f # fs) r r''"
      if "r' = (if owned_row worker f r then marked_row now f r else r)" "row_finalized worker fs r' r''" for r r' r''
      using that finalized_not_owned by (auto simp: row_finalized_def split: if_splits)
  qed
  moreover have "\<forall>r \<in> set rows. r \<in> set (outbox_events w) \<or> outbox_check r = None"
    using rows(3) chk by (fastforce simp: update_where_def split: if_splits)
  ultimately show ?case by blast
qed

lemma finalize_effect:
  fixes w :: "'a eventing_world_scheme"
  assumes "finalize E worker fs w = (r, w')"
  shows "\<exists>rows. same_db (set_outbox rows w) w' \<and> list_all2 (row_finalized worker fs) (outbox_events w) rows \<and>
    (\<forall>r \<in> set rows. r \<in> set (outbox_events w) \<or> outbox_check r = None)"
    (is "\<exists>rows. ?eff rows")
proof -
  have same: ?thesis if "same_db w w'"
  proof -
    have "list_all2 (row_finalized worker fs) (outbox_events w) (outbox_events w)"
      by (simp add: list_all2_same row_finalized_def)
    then show ?thesis using that by (intro exI[of _ "outbox_events w"]) simp
  qed
  show ?thesis
  proof (cases "fs = []")
    case True
    then show ?thesis using assms same by (simp add: finalize_def ok_eq)
  next
    case False
    let ?body = "bindc (set_transaction_timeouts E) (\<lambda>_. bindc (set_transaction_timeouts E) (\<lambda>_.
            finalize_all E worker fs))"
    let ?g = "\<lambda>updated. \<lparr>fr_ownership_lost = int (length fs) - int updated, fr_updated = updated\<rparr>"
    have run: "catch (bindc (transaction E (\<lambda>_ _. None) ?body) (\<lambda>updated. let result = ?g updated in
           bindc (for_each observe (finalize_observations result)) (\<lambda>_. ok result))) (rethrow_database_error E) w = (r, w')"
      using assms False by (simp add: finalize_def)
    have k: "\<exists>w2. (let result = ?g x in bindc (for_each observe (finalize_observations result)) (\<lambda>_. ok result)) w1 =
        (Inr (?g x), w2) \<and> same_db w1 w2" for x and w1 :: "'a eventing_world_scheme"
      unfolding Let_def using bindc_all_observes[of "finalize_observations (?g x)" "ok (?g x)" w1] by (simp add: ok_def)
    from guarded_transaction[OF run k] show ?thesis
    proof
      assume "\<exists>x w1. ?body (begin_txn E w) = (Inr x, w1) \<and> same_db w1 w' \<and> (r = Inr (?g x) \<or> (\<exists>e. r = Inl e))"
      then obtain x w1 where b: "?body (begin_txn E w) = (Inr x, w1)" and w1: "same_db w1 w'" by blast
      obtain w0 where w0: "same_db (begin_txn E w) w0" "finalize_all E worker fs w0 = (Inr x, w1)"
        using timeouts_then[OF b] .
      have w: "same_db w w0" using w0(1) same_db_begin same_db_trans by blast
      obtain rows where rows: "same_db (set_outbox rows w0) w1" "list_all2 (row_finalized worker fs) (outbox_events w) rows"
        "\<forall>r \<in> set rows. r \<in> set (outbox_events w) \<or> outbox_check r = None"
        using finalize_all_effect[OF w0(2)] unfolding same_db_tables[OF w] by blast
      have "same_db (set_outbox rows w) w'"
        using same_db_set_outbox[OF w] rows(1) w1 same_db_trans by blast
      then show ?thesis using rows(2,3) by blast
    qed (use same in blast)
  qed
qed

end
