(* ===== verification/Relay_Reach.thy ===== *)
theory Relay_Reach imports Relay_Steps begin

text \<open>
  The relay as a transition system: writers of events and any number of workers, each between the phases of
  \<open>runOnce\<close>, in every interleaving and under every outage, with crashes at any point. The invariant: a
  published row's message was confirmed by the broker.
\<close>

section \<open>The system\<close>

text \<open>
  What a worker holds between two awaits of \<open>runOnce\<close>: nothing, the events it claimed, or their outcomes.
\<close>

datatype phase =
    Idle
  | Holding "claimed_event list"
  | Reporting "claimed_event list" "publish_outcome list"

type_synonym system = "relay_world \<times> (string \<Rightarrow> phase)"

text \<open>
  A lost claim leaves the worker idle; a finished or failed finalization too. \<open>crash\<close> forgets what a worker
  held; \<open>other\<close> is any step of the program that leaves the outbox and the broker alone.
\<close>

inductive relay_step :: "env \<Rightarrow> jitter \<Rightarrow> broker \<Rightarrow> relay_options \<Rightarrow> system \<Rightarrow> system \<Rightarrow> bool"
  for E J B opts where
  write_event: "wire_event_ok event \<Longrightarrow> transaction E (\<lambda>_ _. None) (persist_domain_event E event) w = (r, w') \<Longrightarrow>
    relay_step E J B opts (w, ph) (w', ph)"
| claim: "ph k = Idle \<Longrightarrow> claim_pending E opts locked k w = (Inr cs, w') \<Longrightarrow>
    relay_step E J B opts (w, ph) (w', ph(k := Holding cs))"
| claim_fails: "claim_pending E opts locked k w = (Inl e, w') \<Longrightarrow> relay_step E J B opts (w, ph) (w', ph)"
| publish: "ph k = Holding cs \<Longrightarrow> publish_batch B cs w = (Inr os, w') \<Longrightarrow>
    relay_step E J B opts (w, ph) (w', ph(k := Reporting cs os))"
| publish_fails: "ph k = Holding cs \<Longrightarrow> publish_batch B cs w = (Inl e, w') \<Longrightarrow>
    relay_step E J B opts (w, ph) (w', ph(k := Idle))"
| finish: "ph k = Reporting cs os \<Longrightarrow> finish_run E J B opts k cs os w = (r, w') \<Longrightarrow>
    relay_step E J B opts (w, ph) (w', ph(k := Idle))"
| crash: "relay_step E J B opts (w, ph) (w, ph(k := Idle))"
| other: "same_db w w' \<Longrightarrow> relay_step E J B opts (w, ph) (w', ph)"

inductive_cases relay_step_cases: "relay_step E J B opts (w, ph) (w', ph')"

section \<open>Rows and their events\<close>

text \<open>What no operation of the relay changes in a row.\<close>

definition static :: "outbox_row \<Rightarrow> outbox_row" where
  "static r = r\<lparr>ob_available := 0, ob_attempts := 0, ob_locked_by := None, ob_locked_at := None,
     ob_lease_expires := None, ob_published := None\<rparr>"

definition from_event :: "outbox_row \<Rightarrow> domain_event \<Rightarrow> bool" where
  "from_event r event \<longleftrightarrow> (\<exists>i. static r = outbox_row_of i 0 event)"

lemma static_leased [simp]: "static (leased_row worker now l r) = static r"
  by (simp add: static_def leased_row_def)

lemma leased_published: "ob_published (leased_row worker now l r) = ob_published r"
  by (simp add: leased_row_def)

lemma static_marked [simp]: "static (marked_row now f r) = static r"
  by (cases f) (simp_all add: static_def released_row_def)

lemma static_ids: "ob_id (static r) = ob_id r" "ob_event_id (static r) = ob_event_id r"
  by (simp_all add: static_def)

lemma static_new: "static (outbox_row_of i now event) = outbox_row_of i 0 event"
  by (simp add: static_def outbox_row_of_def)

lemma claim_from_event:
  assumes "static r = outbox_row_of i 0 event"
  shows "claim_of_row r = claimed_from i 0 (ob_attempts r) event"
  using assms by (cases r) (simp add: static_def outbox_row_of_def claimed_from_def claim_of_row_def)

lemma event_id_from_event: "from_event r event \<Longrightarrow> ob_event_id r = de_event_id (event_base_of event)"
  using static_ids(2)[of r] by (auto simp: from_event_def outbox_row_of_def)

section \<open>The invariant\<close>

text \<open>A claimed event in memory is one of a stored row, at an attempt.\<close>

definition claim_ok :: "outbox_row list \<Rightarrow> claimed_event \<Rightarrow> bool" where
  "claim_ok rows c \<longleftrightarrow> (\<exists>r \<in> set rows. \<exists>event i n. wire_event_ok event \<and> 1 \<le> n \<and>
     static r = outbox_row_of i 0 event \<and> c = claimed_from i 0 n event)"

definition confirmed_message :: "relay_world \<Rightarrow> domain_event \<Rightarrow> bool" where
  "confirmed_message w event \<longleftrightarrow> (\<exists>n\<ge>1. (message_from n event, Acks) \<in> set (sent_messages w))"

definition confirmed_event :: "relay_world \<Rightarrow> ustring \<Rightarrow> bool" where
  "confirmed_event w e \<longleftrightarrow> (\<exists>r \<in> set (outbox_events w). \<exists>event. wire_event_ok event \<and> from_event r event \<and>
     units (ob_event_id r) = e \<and> confirmed_message w event)"

fun phase_ok :: "relay_world \<Rightarrow> phase \<Rightarrow> bool" where
  "phase_ok w Idle \<longleftrightarrow> True"
| "phase_ok w (Holding cs) \<longleftrightarrow> (\<forall>c \<in> set cs. claim_ok (outbox_events w) c)"
| "phase_ok w (Reporting cs os) \<longleftrightarrow> (\<forall>c \<in> set cs. claim_ok (outbox_events w) c) \<and>
     (\<forall>e. Confirmed e \<in> set os \<longrightarrow> confirmed_event w e)"

definition table_ok :: "outbox_row list \<Rightarrow> bool" where
  "table_ok rows \<longleftrightarrow> distinct (map ob_id rows) \<and> distinct (map ob_event_id rows) \<and>
     (\<forall>r \<in> set rows. outbox_check r = None \<and> (\<exists>event. wire_event_ok event \<and> from_event r event))"

definition delivered_ok :: "relay_world \<Rightarrow> bool" where
  "delivered_ok w \<longleftrightarrow> (\<forall>r \<in> set (outbox_events w). ob_published r \<noteq> None \<longrightarrow>
     (\<exists>event. wire_event_ok event \<and> from_event r event \<and> confirmed_message w event))"

definition relay_inv :: "system \<Rightarrow> bool" where
  "relay_inv s \<longleftrightarrow> table_ok (outbox_events (fst s)) \<and> delivered_ok (fst s) \<and> (\<forall>k. phase_ok (fst s) (snd s k))"

section \<open>Preservation\<close>

lemma from_event_static: "static r = static r' \<Longrightarrow> from_event r event \<longleftrightarrow> from_event r' event"
  by (simp add: from_event_def)

text \<open>The table may grow and its rows may change in what is not static; the broker's log may grow.\<close>

definition grows :: "relay_world \<Rightarrow> relay_world \<Rightarrow> bool" where
  "grows w w' \<longleftrightarrow> (\<exists>rows. list_all2 (\<lambda>r r'. static r' = static r) (outbox_events w) (take rows (outbox_events w'))) \<and>
     set (sent_messages w) \<subseteq> set (sent_messages w')"

lemma grows_row:
  assumes "grows w w'" and "r \<in> set (outbox_events w)"
  shows "\<exists>r' \<in> set (outbox_events w'). static r' = static r"
  using assms by (auto simp: grows_def list_all2_conv_all_nth in_set_conv_nth) (metis nth_take nth_mem length_take min_less_iff_conj)

lemma grows_claim: "grows w w' \<Longrightarrow> claim_ok (outbox_events w) c \<Longrightarrow> claim_ok (outbox_events w') c"
  unfolding claim_ok_def by (metis grows_row)

lemma grows_confirmed: "grows w w' \<Longrightarrow> confirmed_message w event \<Longrightarrow> confirmed_message w' event"
  by (auto simp: grows_def confirmed_message_def)

lemma grows_confirmed_event:
  assumes "grows w w'" and "confirmed_event w e"
  shows "confirmed_event w' e"
proof -
  obtain r event where ok: "wire_event_ok event" and r: "r \<in> set (outbox_events w)" "from_event r event"
    "units (ob_event_id r) = e" "confirmed_message w event"
    using assms(2) by (auto simp: confirmed_event_def)
  obtain r' where r': "r' \<in> set (outbox_events w')" "static r' = static r" using grows_row[OF assms(1) r(1)] by blast
  then have "from_event r' event" "ob_event_id r' = ob_event_id r"
    using r(2) from_event_static static_ids(2) by metis+
  then show ?thesis
    using ok r'(1) r(3) grows_confirmed[OF assms(1) r(4)] unfolding confirmed_event_def by metis
qed

lemma grows_phase: "grows w w' \<Longrightarrow> phase_ok w p \<Longrightarrow> phase_ok w' p"
  using grows_claim grows_confirmed_event by (cases p) auto

lemma grows_same_db: "same_db w w' \<Longrightarrow> grows w w'"
  using same_db_tables[of w w'] same_db_sent[of w w']
  by (auto simp: grows_def list_all2_same intro!: exI[of _ "length (outbox_events w)"])

lemma grows_trans: "grows w w' \<Longrightarrow> same_db w' w'' \<Longrightarrow> grows w w''"
  using same_db_tables[of w' w''] same_db_sent[of w' w''] by (simp add: grows_def)

lemma relay_same_db:
  assumes "same_db w w'" and "relay_inv (w, ph)"
  shows "relay_inv (w', ph)"
  using assms(2) same_db_tables[OF assms(1)] same_db_sent[OF assms(1)] grows_phase[OF grows_same_db[OF assms(1)]]
  by (auto simp: relay_inv_def delivered_ok_def confirmed_message_def)

lemma list_all2_in: "list_all2 P xs ys \<Longrightarrow> y \<in> set ys \<Longrightarrow> \<exists>x \<in> set xs. P x y"
  by (induction rule: list_all2_induct) auto

text \<open>
  A pointwise change of the table: nothing static changes, and a row becomes published only when its message
  was confirmed.
\<close>

definition row_step :: "relay_world \<Rightarrow> outbox_row \<Rightarrow> outbox_row \<Rightarrow> bool" where
  "row_step w r r' \<longleftrightarrow> static r' = static r \<and> (ob_published r' = ob_published r \<or>
     (ob_published r = None \<and> (\<exists>event. wire_event_ok event \<and> from_event r event \<and> confirmed_message w event)))"

definition table_step :: "relay_world \<Rightarrow> relay_world \<Rightarrow> bool" where
  "table_step w w' \<longleftrightarrow> list_all2 (row_step w) (outbox_events w) (outbox_events w')"

lemma table_step_same: "outbox_events w' = outbox_events w \<Longrightarrow> table_step w w'"
  by (simp add: table_step_def list_all2_same row_step_def)

lemma inv_rows:
  fixes w w' :: relay_world
  assumes inv: "relay_inv (w, ph)" and rows: "same_db (set_outbox rows w) w'"
    and pointwise: "list_all2 (row_step w) (outbox_events w) rows"
    and checks: "\<forall>r \<in> set rows. outbox_check r = None"
  shows "relay_inv (w', ph) \<and> grows w w' \<and> table_step w w'"
proof -
  have t: "outbox_events w' = rows" "sent_messages w' = sent_messages w"
    using same_db_tables[OF rows] same_db_sent[OF rows] by simp_all
  have stat: "list_all2 (\<lambda>r r'. static r' = static r) (outbox_events w) rows"
    using pointwise by (rule list_all2_mono) (simp add: row_step_def)
  then have maps: "map static rows = map static (outbox_events w)"
    by (auto simp: list_all2_conv_all_nth list_eq_iff_nth_eq)
  have g: "grows w w'" using stat t by (auto simp: grows_def intro!: exI[of _ "length rows"])
  have "map ob_id rows = map ob_id (outbox_events w)" "map ob_event_id rows = map ob_event_id (outbox_events w)"
    using arg_cong[OF maps, of "map ob_id"] arg_cong[OF maps, of "map ob_event_id"] by (simp_all add: comp_def static_ids)
  moreover have origin: "\<exists>r \<in> set (outbox_events w). static r' = static r \<and> (ob_published r' = ob_published r \<or>
        (\<exists>event. wire_event_ok event \<and> from_event r event \<and> confirmed_message w event))" if "r' \<in> set rows" for r'
    using list_all2_in[OF pointwise that] by (auto simp: row_step_def)
  moreover have "\<exists>event. wire_event_ok event \<and> from_event r' event" if "r' \<in> set rows" for r'
    using origin[OF that] inv from_event_static unfolding relay_inv_def table_ok_def by (metis fst_conv)
  ultimately have table: "table_ok rows" using inv checks by (simp add: relay_inv_def table_ok_def)
  have "\<exists>event. wire_event_ok event \<and> from_event r' event \<and> confirmed_message w event"
    if p: "r' \<in> set rows" "ob_published r' \<noteq> None" for r'
  proof -
    obtain r where r: "r \<in> set (outbox_events w)" "static r' = static r" "ob_published r' = ob_published r \<or>
        (\<exists>event. wire_event_ok event \<and> from_event r event \<and> confirmed_message w event)"
      using origin[OF p(1)] by blast
    then have "\<exists>event. wire_event_ok event \<and> from_event r event \<and> confirmed_message w event"
      using inv p(2) by (auto simp: relay_inv_def delivered_ok_def)
    then show ?thesis using from_event_static[OF r(2)] by blast
  qed
  then have "delivered_ok w'" using t by (auto simp: delivered_ok_def confirmed_message_def)
  then show ?thesis using table g inv grows_phase[OF g] t pointwise by (simp add: relay_inv_def table_step_def)
qed

section \<open>Each step\<close>

lemma persist_effect:
  fixes w :: "'a eventing_world_scheme"
  assumes "transaction E (\<lambda>_ _. None) (persist_domain_event E event) w = (r, w')"
  shows "same_db w w' \<or> (\<exists>i now. outbox_check (outbox_row_of i now event) = None \<and> i \<notin> ob_id ` set (outbox_events w) \<and>
    de_event_id (event_base_of event) \<notin> ob_event_id ` set (outbox_events w) \<and>
    same_db (set_outbox (outbox_events w @ [outbox_row_of i now event]) w) w')"
proof -
  have "\<exists>i now. outbox_check (outbox_row_of i now event) = None \<and> i \<notin> ob_id ` set (outbox_events w) \<and>
    de_event_id (event_base_of event) \<notin> ob_event_id ` set (outbox_events w) \<and>
    same_db (set_outbox (outbox_events w @ [outbox_row_of i now event]) w) w1"
    if p: "persist_domain_event E event (begin_txn E w) = (Inr u, w1)" for u w1
  proof -
    let ?w = "bump (bump (bump (begin_txn E w)))"
    let ?i = "env_uuid E (tick (begin_txn E w))"
    let ?now = "env_clock E (tick (bump (begin_txn E w)))"
    have s: "same_db w ?w" by (simp add: same_db_iff)
    have "insert_outbox_row (outbox_row_of ?i ?now event) ?w = (Inr u, w1)"
      using p
      by (simp add: persist_domain_event_def insert_domain_event_def catch_def bindc_def new_uuid_def read_clock_def
          stmt_def throw_def split: option.splits prod.splits sum.splits if_splits)
    then have "outbox_check (outbox_row_of ?i ?now event) = None \<and> ?i \<notin> ob_id ` set (outbox_events ?w) \<and>
        de_event_id (event_base_of event) \<notin> ob_event_id ` set (outbox_events ?w) \<and>
        w1 = set_outbox (outbox_events ?w @ [outbox_row_of ?i ?now event]) ?w"
      by (auto simp: insert_outbox_row_def raise_constraint_def throw_def outbox_row_of_def
          split: option.splits if_splits)
    then show ?thesis
      using same_db_set_outbox[OF s] unfolding same_db_tables[OF s] by blast
  qed
  then show ?thesis using transaction_atomic[OF assms] same_db_trans same_db_bump(1) by blast
qed

lemma inv_write:
  assumes inv: "relay_inv (w, ph)" and ok: "wire_event_ok event"
    and step: "transaction E (\<lambda>_ _. None) (persist_domain_event E event) w = (r, w')"
  shows "relay_inv (w', ph)"
  using persist_effect[OF step]
proof
  assume "same_db w w'"
  then show ?thesis using inv by (rule relay_same_db)
next
  assume "\<exists>i now. outbox_check (outbox_row_of i now event) = None \<and> i \<notin> ob_id ` set (outbox_events w) \<and>
    de_event_id (event_base_of event) \<notin> ob_event_id ` set (outbox_events w) \<and>
    same_db (set_outbox (outbox_events w @ [outbox_row_of i now event]) w) w'"
  then obtain i now where chk: "outbox_check (outbox_row_of i now event) = None" and i: "i \<notin> ob_id ` set (outbox_events w)"
    and e: "de_event_id (event_base_of event) \<notin> ob_event_id ` set (outbox_events w)"
    and w': "same_db (set_outbox (outbox_events w @ [outbox_row_of i now event]) w) w'" by blast
  let ?row = "outbox_row_of i now event"
  have t: "outbox_events w' = outbox_events w @ [?row]" "sent_messages w' = sent_messages w"
    using same_db_tables[OF w'] same_db_sent[OF w'] by simp_all
  have row: "ob_id ?row = i" "ob_event_id ?row = de_event_id (event_base_of event)" "ob_published ?row = None"
    by (simp_all add: outbox_row_of_def)
  have "from_event ?row event" using static_new by (auto simp: from_event_def)
  then have "table_ok (outbox_events w')"
    using inv ok chk i e row by (auto simp: relay_inv_def table_ok_def t)
  moreover have "delivered_ok w'"
    using inv row by (auto simp: relay_inv_def delivered_ok_def t confirmed_message_def)
  moreover have "grows w w'"
    using t by (auto simp: grows_def list_all2_same intro!: exI[of _ "length (outbox_events w)"])
  ultimately show ?thesis using inv grows_phase by (simp add: relay_inv_def)
qed

lemma inv_phase: "relay_inv (w, ph) \<Longrightarrow> phase_ok w p \<Longrightarrow> relay_inv (w, ph(k := p))"
  by (simp add: relay_inv_def)

lemma leased_claim_ok:
  assumes table: "table_ok rows" and q: "q \<in> set rows"
  shows "claim_ok rows (claim_of_row (leased_row k now l q))"
proof -
  obtain event i where e: "wire_event_ok event" "static q = outbox_row_of i 0 event"
    using table q by (auto simp: table_ok_def from_event_def)
  have "static (leased_row k now l q) = outbox_row_of i 0 event" by (simp only: static_leased e(2))
  then have "claim_of_row (leased_row k now l q) = claimed_from i 0 (ob_attempts (leased_row k now l q)) event"
    by (rule claim_from_event)
  also have "ob_attempts (leased_row k now l q) = ob_attempts q + 1" by (simp add: leased_row_def)
  finally have "claim_of_row (leased_row k now l q) = claimed_from i 0 (ob_attempts q + 1) event" .
  then show ?thesis using q e unfolding claim_ok_def by (metis le_add2)
qed

lemma inv_claim:
  assumes inv: "relay_inv (w, ph)" and step: "claim_pending E opts locked k w = (r, w')"
  shows "relay_inv (w', ph) \<and> (\<forall>cs. r = Inr cs \<longrightarrow> phase_ok w' (Holding cs)) \<and> table_step w w'"
  using claim_pending_effect[OF step]
proof
  assume "same_db w w' \<and> (\<exists>e. r = Inl e)"
  then show ?thesis using inv relay_same_db table_step_same[OF same_db_tables[of w w']] by auto
next
  assume "\<exists>now candidates. candidates = claim_candidates (ro_batch_size opts) now locked (outbox_events w) \<and>
      same_db (set_outbox (claimed_rows k now (ro_lease_ms opts) candidates (outbox_events w)) w) w' \<and>
      (\<forall>r \<in> set (outbox_events w). ob_id r \<in> ob_id ` set candidates \<longrightarrow>
        outbox_check (leased_row k now (ro_lease_ms opts) r) = None) \<and>
      (r = Inr (map claim_of_row (map (leased_row k now (ro_lease_ms opts)) candidates)) \<or> (\<exists>e. r = Inl e))"
  then obtain now candidates where c: "candidates = claim_candidates (ro_batch_size opts) now locked (outbox_events w)"
    and rows: "same_db (set_outbox (claimed_rows k now (ro_lease_ms opts) candidates (outbox_events w)) w) w'"
    and chk: "\<forall>r \<in> set (outbox_events w). ob_id r \<in> ob_id ` set candidates \<longrightarrow>
        outbox_check (leased_row k now (ro_lease_ms opts) r) = None"
    and r: "r = Inr (map claim_of_row (map (leased_row k now (ro_lease_ms opts)) candidates)) \<or> (\<exists>e. r = Inl e)"
    by blast
  let ?rows = "claimed_rows k now (ro_lease_ms opts) candidates (outbox_events w)"
  have table: "table_ok (outbox_events w)" using inv by (simp add: relay_inv_def)
  then have "distinct (map ob_id (outbox_events w))" by (simp add: table_ok_def)
  then have "list_all2 (row_claimed k now (ro_lease_ms opts) locked) (outbox_events w) ?rows"
    unfolding c by (rule claimed_rows_pointwise)
  then have pw: "list_all2 (row_step w) (outbox_events w) ?rows"
    by (rule list_all2_mono) (auto simp: row_claimed_def row_step_def leased_published)
  have "\<forall>r \<in> set ?rows. outbox_check r = None"
    using table chk by (auto simp: claimed_rows_def update_where_def table_ok_def)
  from inv_rows[OF inv rows pw this] have "relay_inv (w', ph)" "grows w w'" "table_step w w'" by simp_all
  moreover have "claim_ok (outbox_events w) (claim_of_row (leased_row k now (ro_lease_ms opts) q))" if "q \<in> set candidates" for q
    using leased_claim_ok[OF table] candidates_in that unfolding c by blast
  ultimately show ?thesis using r grows_claim by auto
qed

definition log_grows :: "relay_world \<Rightarrow> relay_world \<Rightarrow> bool" where
  "log_grows w w' \<longleftrightarrow> outbox_events w' = outbox_events w \<and> set (sent_messages w) \<subseteq> set (sent_messages w')"

lemma log_grows_refl [simp]: "log_grows w w" "log_grows w (bump w)"
  by (simp_all add: log_grows_def bump_def)

lemma log_grows_trans: "log_grows w w' \<Longrightarrow> log_grows w' w'' \<Longrightarrow> log_grows w w''"
  by (auto simp: log_grows_def)

definition acked :: "relay_world \<Rightarrow> claimed_event \<Rightarrow> bool" where
  "acked w c \<longleftrightarrow> (\<exists>s. serialize_event c = Inr s \<and> (message_of c s, Acks) \<in> set (sent_messages w))"

lemma acked_grows: "log_grows w w' \<Longrightarrow> acked w c \<Longrightarrow> acked w' c"
  by (auto simp: log_grows_def acked_def)

lemma publish_event_effect:
  fixes w :: relay_world
  assumes "publish_event B c w = (r, w')"
  shows "log_grows w w' \<and> (\<forall>e. r = Inr (Confirmed e) \<longrightarrow> e = ce_event_id c \<and> acked w' c)"
proof (cases "br_ready B (tick w)")
  case False
  then show ?thesis using assms by (auto simp: publish_event_def broker_ready_def bindc_def ok_def)
next
  case True
  show ?thesis
  proof (cases "serialize_event c")
    case (Inl e)
    then show ?thesis using assms True
      by (cases e) (auto simp: publish_event_def broker_ready_def bindc_def ok_def throw_def)
  next
    case (Inr s)
    let ?a = "br_answer B (tick (bump w))"
    have "r = Inr (outcome_of ?a (ce_event_id c))"
      "w' = (bump (bump w))\<lparr>sent_messages := sent_messages (bump w) @ [(message_of c s, ?a)]\<rparr>"
      using assms True Inr by (auto simp: publish_event_def broker_ready_def bindc_def publish_one_def Let_def)
    then show ?thesis using Inr by (cases ?a) (auto simp: log_grows_def acked_def bump_def)
  qed
qed

lemma publish_all_effect:
  fixes w :: relay_world
  assumes "map_comp (publish_event B) cs w = (r, w')"
  shows "log_grows w w' \<and> (\<forall>os e. r = Inr os \<longrightarrow> Confirmed e \<in> set os \<longrightarrow> (\<exists>c \<in> set cs. e = ce_event_id c \<and> acked w' c))"
  using assms
proof (induction cs arbitrary: w r w')
  case Nil
  then show ?case by (auto simp: ok_def)
next
  case (Cons c cs)
  obtain r1 w1 where one: "publish_event B c w = (r1, w1)" by fastforce
  note P = publish_event_effect[OF one]
  show ?case
  proof (cases r1)
    case (Inl e)
    then show ?thesis using Cons.prems one P by (auto simp: bindc_def)
  next
    case (Inr p)
    obtain r2 w2 where rest: "map_comp (publish_event B) cs w1 = (r2, w2)" by fastforce
    note Q = Cons.IH[OF rest]
    have log: "log_grows w w2" using P Q log_grows_trans by blast
    show ?thesis
    proof (cases r2)
      case (Inl e)
      then have "r = Inl e" "w' = w2" using Cons.prems one rest Inr by (simp_all add: bindc_def)
      then show ?thesis using log by simp
    next
      case ps: (Inr ps)
      then have r: "r = Inr (p # ps)" "w' = w2" using Cons.prems one rest Inr by (simp_all add: bindc_def ok_def)
      have "\<exists>c' \<in> set (c # cs). e = ce_event_id c' \<and> acked w2 c'" if "Confirmed e \<in> set (p # ps)" for e
      proof (cases "p = Confirmed e")
        case True
        then show ?thesis using P Inr Q acked_grows by auto
      next
        case False
        then show ?thesis using that Q ps by auto
      qed
      then show ?thesis using log r by blast
    qed
  qed
qed

lemma publish_batch_effect:
  fixes w :: relay_world
  assumes "publish_batch B cs w = (r, w')"
  shows "log_grows w w' \<and> (\<forall>os e. r = Inr os \<longrightarrow> Confirmed e \<in> set os \<longrightarrow> (\<exists>c \<in> set cs. e = ce_event_id c \<and> acked w' c))"
proof (cases "br_ready B (tick w)")
  case False
  then show ?thesis using assms by (auto simp: publish_batch_def broker_ready_def bindc_def ok_def)
next
  case True
  then have "map_comp (publish_event B) cs (bump w) = (r, w')"
    using assms by (simp add: publish_batch_def broker_ready_def bindc_def)
  from publish_all_effect[OF this] show ?thesis using log_grows_trans log_grows_refl(2) by blast
qed

lemma grows_log: "log_grows w w' \<Longrightarrow> grows w w'"
  by (auto simp: log_grows_def grows_def list_all2_same intro!: exI[of _ "length (outbox_events w)"])

lemma inv_log:
  assumes "log_grows w w'" and "relay_inv (w, ph)"
  shows "relay_inv (w', ph)"
  using assms grows_phase[OF grows_log[OF assms(1)]] grows_confirmed[OF grows_log[OF assms(1)]]
  unfolding relay_inv_def delivered_ok_def log_grows_def by (metis fst_conv snd_conv)

lemma acked_confirmed:
  assumes "acked w c" and "claim_ok (outbox_events w) c"
  shows "confirmed_event w (ce_event_id c)"
proof -
  obtain r event i n where r: "r \<in> set (outbox_events w)" and ok: "wire_event_ok event" "1 \<le> n"
    and st: "static r = outbox_row_of i 0 event" and c: "c = claimed_from i 0 n event"
    using assms(2) by (auto simp: claim_ok_def)
  have ev: "from_event r event" using st by (auto simp: from_event_def)
  have "serialize_event c = Inr (serialized_from event)" using serialize_from[OF ok] c by simp
  then have "(message_from n event, Acks) \<in> set (sent_messages w)"
    using assms(1) message_of_from[of i 0 n event] c by (auto simp: acked_def)
  then have "confirmed_message w event" using ok(2) by (auto simp: confirmed_message_def)
  moreover have "units (ob_event_id r) = ce_event_id c" using event_id_from_event[OF ev] c by simp
  ultimately show ?thesis using r ev ok(1) by (auto simp: confirmed_event_def)
qed

lemma inv_publish:
  assumes inv: "relay_inv (w, ph)" and k: "ph k = Holding cs" and step: "publish_batch B cs w = (r, w')"
  shows "relay_inv (w', ph) \<and> (\<forall>os. r = Inr os \<longrightarrow> phase_ok w' (Reporting cs os))"
proof -
  note P = publish_batch_effect[OF step]
  have inv': "relay_inv (w', ph)" using inv_log P inv by blast
  then have cs: "\<forall>c \<in> set cs. claim_ok (outbox_events w') c"
    using k unfolding relay_inv_def by (metis fst_conv phase_ok.simps(2) snd_conv)
  have "\<forall>e. Confirmed e \<in> set os \<longrightarrow> confirmed_event w' e" if "r = Inr os" for os
    using P that cs acked_confirmed by blast
  then show ?thesis using inv' cs by simp
qed

lemma finalization_of_effect:
  "\<exists>f w'. finalization_of J opts os c w = (Inr f, w') \<and> same_db w w' \<and> (\<forall>i e. f = FinalizePublished i e \<longrightarrow> Confirmed e \<in> set os)"
proof (cases "is_confirmed os (ce_event_id c)")
  case True
  then have "Confirmed (ce_event_id c) \<in> set os"
    unfolding is_confirmed_def outcome_for_def by (metis find_Some_in set_rev)
  then show ?thesis using True by (simp add: finalization_of_def ok_def)
qed (simp add: finalization_of_def)

lemma finalizations_effect:
  "\<exists>fs w'. map_comp (finalization_of J opts os) cs w = (Inr fs, w') \<and> same_db w w' \<and>
    (\<forall>i e. FinalizePublished i e \<in> set fs \<longrightarrow> Confirmed e \<in> set os) \<and>
    map finalized_ids fs = map (\<lambda>c. (ce_id c, ce_event_id c)) cs"
proof (induction cs arbitrary: w)
  case Nil
  then show ?case by (simp add: ok_def)
next
  case (Cons c cs)
  obtain f w1 where f: "finalization_of J opts os c w = (Inr f, w1)" "same_db w w1"
    "\<forall>i e. f = FinalizePublished i e \<longrightarrow> Confirmed e \<in> set os"
    using finalization_of_effect by blast
  obtain fs w2 where fs: "map_comp (finalization_of J opts os) cs w1 = (Inr fs, w2)" "same_db w1 w2"
    "\<forall>i e. FinalizePublished i e \<in> set fs \<longrightarrow> Confirmed e \<in> set os"
    "map finalized_ids fs = map (\<lambda>c. (ce_id c, ce_event_id c)) cs"
    using Cons by blast
  have "finalized_ids f = (ce_id c, ce_event_id c)"
    using f(1) by (auto simp: finalization_of_def ok_def split: if_splits)
  then show ?case using f fs same_db_trans[OF f(2) fs(2)] by (auto simp: bindc_def ok_def)
qed

lemma finish_run_effect:
  fixes w :: relay_world
  assumes "finish_run E J B opts k cs os w = (r, w')"
  obtains fs w1 w2 r2 where "same_db w w1" and "finalize E k fs w1 = (r2, w2)" and "same_db w2 w'"
    and "\<forall>i e. FinalizePublished i e \<in> set fs \<longrightarrow> Confirmed e \<in> set os"
    and "map finalized_ids fs = map (\<lambda>c. (ce_id c, ce_event_id c)) cs"
proof -
  define rest where "rest = (\<lambda>w. bindc (map_comp (finalization_of J opts os) cs) (\<lambda>finalizations.
     bindc (finalize E k finalizations) (\<lambda>finalized.
     let published = length (filter is_published finalizations);
         retryScheduled = length finalizations - published in
     bindc (for_each observe (retry_observation cs os retryScheduled)) (\<lambda>_.
     bindc (broker_ready B) (\<lambda>ready.
     ok \<lparr>rr_claimed = length cs, rr_ownership_lost = fr_ownership_lost finalized, rr_published = published,
         rr_publisher_ready = ready, rr_retry_scheduled = retryScheduled\<rparr>)))) (w :: relay_world))"
  obtain w0 where w0: "same_db w w0" "rest w0 = (r, w')"
    using assms bindc_all_observes[of "publish_observations os" rest w] by (auto simp: finish_run_def rest_def)
  obtain fs w1 where fs: "map_comp (finalization_of J opts os) cs w0 = (Inr fs, w1)" "same_db w0 w1"
    "\<forall>i e. FinalizePublished i e \<in> set fs \<longrightarrow> Confirmed e \<in> set os"
    "map finalized_ids fs = map (\<lambda>c. (ce_id c, ce_event_id c)) cs"
    using finalizations_effect by blast
  obtain r2 w2 where fin: "finalize E k fs w1 = (r2, w2)" by fastforce
  have "same_db w2 w'"
  proof (cases r2)
    case (Inl e)
    then show ?thesis using w0(2) fs(1) fin by (simp add: rest_def bindc_def)
  next
    case (Inr z)
    define n where "n = length fs - length (filter is_published fs)"
    define report :: "(relay_world, error, relay_result) comp" where "report = bindc (broker_ready B) (\<lambda>ready.
       ok \<lparr>rr_claimed = length cs, rr_ownership_lost = fr_ownership_lost z, rr_published = length (filter is_published fs),
         rr_publisher_ready = ready, rr_retry_scheduled = n\<rparr>)"
    have "bindc (for_each observe (retry_observation cs os n)) (\<lambda>_. report) w2 = (r, w')"
      using w0(2) fs(1) fin Inr by (simp add: rest_def report_def bindc_def Let_def n_def)
    moreover obtain w3 where "bindc (for_each observe (retry_observation cs os n)) (\<lambda>_. report) w2 = report w3"
      "same_db w2 w3"
      using bindc_all_observes[of "retry_observation cs os n" report w2] by blast
    moreover have "snd (report w3) = bump w3" by (simp add: report_def bindc_def broker_ready_def ok_def)
    ultimately show ?thesis using same_db_trans[OF _ same_db_bump(1)] by (metis snd_conv)
  qed
  then show ?thesis using that w0(1) fs fin same_db_trans by blast
qed

lemma inv_finish:
  assumes inv: "relay_inv (w, ph)" and k: "ph k = Reporting cs os" and step: "finish_run E J B opts k cs os w = (r, w')"
  shows "relay_inv (w', ph) \<and> table_step w w'"
proof -
  obtain fs w1 w2 r2 where w1: "same_db w w1" and fin: "finalize E k fs w1 = (r2, w2)" and w2: "same_db w2 w'"
    and fs: "\<forall>i e. FinalizePublished i e \<in> set fs \<longrightarrow> Confirmed e \<in> set os"
    using finish_run_effect[OF step] by metis
  obtain rows where rows: "same_db (set_outbox rows w1) w2" "list_all2 (row_finalized k fs) (outbox_events w) rows"
    "\<forall>r \<in> set rows. r \<in> set (outbox_events w) \<or> outbox_check r = None"
    using finalize_effect[OF fin] unfolding same_db_tables[OF w1] by blast
  have w': "same_db (set_outbox rows w) w'"
    using same_db_set_outbox[OF w1] rows(1) w2 same_db_trans by blast
  have table: "table_ok (outbox_events w)" and conf: "Confirmed e \<in> set os \<Longrightarrow> confirmed_event w e" for e
    using inv k unfolding relay_inv_def by (simp, metis fst_conv phase_ok.simps(3) snd_conv)
  have pw: "row_step w r r'"
    if r: "r \<in> set (outbox_events w)" and f: "row_finalized k fs r r'" for r r'
  proof (cases "\<exists>now f. f \<in> set fs \<and> owned_row k f r \<and> r' = marked_row now f r")
    case True
    then obtain now f where g: "f \<in> set fs" "owned_row k f r" "r' = marked_row now f r" by blast
    show ?thesis
    proof (cases f)
      case (FinalizePublished i e)
      then have "confirmed_event w e" using fs g(1) conf by blast
      then obtain q event where q: "q \<in> set (outbox_events w)" "from_event q event" "units (ob_event_id q) = e"
        "confirmed_message w event" "wire_event_ok event" by (auto simp: confirmed_event_def)
      have "ob_event_id q = ob_event_id r" using g(2) q(3) FinalizePublished by (auto simp: owned_row_def)
      then have "q = r" using table q(1) r distinct_key_eq unfolding table_ok_def by metis
      moreover have "static r' = static r" by (simp only: g(3) static_marked)
      ultimately show ?thesis using q(2,4,5) g(2) unfolding row_step_def owned_row_def by blast
    next
      case (FinalizeRetry i e d)
      then have "ob_published r' = ob_published r" using g(3) by (simp add: released_row_def)
      moreover have "static r' = static r" by (simp only: g(3) static_marked)
      ultimately show ?thesis unfolding row_step_def by blast
    qed
  qed (use f in \<open>auto simp: row_finalized_def row_step_def\<close>)
  have "list_all2 (row_step w) (outbox_events w) rows"
    using rows(2) pw by (auto simp: list_all2_conv_all_nth)
  moreover have "\<forall>r \<in> set rows. outbox_check r = None" using rows(3) table by (auto simp: table_ok_def)
  ultimately show ?thesis using inv_rows[OF inv w'] by blast
qed

section \<open>Every step\<close>

text \<open>A step changes the table row by row, or adds the row of a new event.\<close>

definition table_change :: "relay_world \<Rightarrow> relay_world \<Rightarrow> bool" where
  "table_change w w' \<longleftrightarrow> table_step w w' \<or> (\<exists>i now event. outbox_events w' = outbox_events w @ [outbox_row_of i now event] \<and>
     de_event_id (event_base_of event) \<notin> ob_event_id ` set (outbox_events w))"

lemma write_change:
  fixes w w' :: relay_world
  assumes "transaction E (\<lambda>_ _. None) (persist_domain_event E event) w = (r, w')"
  shows "table_change w w'"
  using persist_effect[OF assms]
proof
  assume "same_db w w'"
  then show ?thesis using table_step_same[OF same_db_tables[of w w']] by (auto simp: table_change_def)
next
  assume "\<exists>i now. outbox_check (outbox_row_of i now event) = None \<and> i \<notin> ob_id ` set (outbox_events w) \<and>
    de_event_id (event_base_of event) \<notin> ob_event_id ` set (outbox_events w) \<and>
    same_db (set_outbox (outbox_events w @ [outbox_row_of i now event]) w) w'"
  then obtain i now where "de_event_id (event_base_of event) \<notin> ob_event_id ` set (outbox_events w)"
    and w': "same_db (set_outbox (outbox_events w @ [outbox_row_of i now event]) w) w'" by blast
  then show ?thesis using same_db_tables[OF w'] by (auto simp: table_change_def)
qed

lemma inv_same_table:
  assumes "relay_inv (w', ph)" and "outbox_events w' = outbox_events w" and "phase_ok w' p"
  shows "relay_inv (w', ph(k := p)) \<and> table_change w w'"
  using assms inv_phase table_step_same by (auto simp: table_change_def)

lemma step_inv:
  assumes "relay_step E J B opts (w, ph) (w', ph')" and inv: "relay_inv (w, ph)"
  shows "relay_inv (w', ph') \<and> table_change w w'"
  using assms(1)
proof (rule relay_step_cases, goal_cases)
  case (1 event r)
  then show ?case using inv_write[OF inv] write_change by blast
next
  case (2 k locked cs)
  then have "relay_inv (w', ph)" "phase_ok w' (Holding cs)" "table_step w w'" using inv_claim[OF inv 2(3)] by auto
  then show ?case using inv_phase 2(1) unfolding table_change_def by blast
next
  case (3 locked k e)
  then show ?case using inv_claim[OF inv 3(2)] unfolding table_change_def by blast
next
  case (4 k cs os)
  have "relay_inv (w', ph)" "phase_ok w' (Reporting cs os)" using inv_publish[OF inv 4(2,3)] by auto
  moreover have "outbox_events w' = outbox_events w" using publish_batch_effect[OF 4(3)] by (simp add: log_grows_def)
  ultimately show ?case using inv_same_table unfolding 4(1) by blast
next
  case (5 k cs e)
  have "relay_inv (w', ph)" using inv_publish[OF inv 5(2,3)] by auto
  moreover have "outbox_events w' = outbox_events w" using publish_batch_effect[OF 5(3)] by (simp add: log_grows_def)
  ultimately show ?case using inv_same_table[where p = Idle] unfolding 5(1) by simp
next
  case (6 k cs os r)
  then have "relay_inv (w', ph)" "table_step w w'" using inv_finish[OF inv 6(2,3)] by auto
  then show ?case using inv_phase[where p = Idle] 6(1) unfolding table_change_def by simp
next
  case (7 k)
  then show ?case using inv inv_same_table[where p = Idle] by simp
next
  case 8
  then show ?case using inv relay_same_db table_step_same[OF same_db_tables[of w w']] unfolding table_change_def by blast
qed

definition relay_reach :: "env \<Rightarrow> jitter \<Rightarrow> broker \<Rightarrow> relay_options \<Rightarrow> system \<Rightarrow> bool" where
  "relay_reach E J B opts s \<longleftrightarrow> (\<exists>w. outbox_events w = [] \<and> sent_messages w = [] \<and>
     (relay_step E J B opts)\<^sup>*\<^sup>* (w, \<lambda>_. Idle) s)"

lemma reach_inv:
  assumes "relay_reach E J B opts s"
  shows "relay_inv s"
proof -
  obtain w where w: "outbox_events w = []" "sent_messages w = []" and run: "(relay_step E J B opts)\<^sup>*\<^sup>* (w, \<lambda>_. Idle) s"
    using assms by (auto simp: relay_reach_def)
  from run show ?thesis
  proof (induction rule: rtranclp_induct)
    case base
    then show ?case using w by (simp add: relay_inv_def table_ok_def delivered_ok_def)
  next
    case (step s t)
    then show ?case using step_inv by (cases s; cases t) blast
  qed
qed

end
