(* ===== verification/Relay_Live.thy ===== *)
theory Relay_Live imports Ledger_Live Relay_Reach begin

text \<open>
  A relay worker whose database has no outage and whose broker confirms every message: one \<open>runOnce\<close>
  publishes every row that it claims.
\<close>

section \<open>No outage\<close>

definition willing :: "broker \<Rightarrow> bool" where
  "willing B \<longleftrightarrow> (\<forall>n. br_ready B n) \<and> (\<forall>n. br_answer B n = Acks)"

lemma list_all2_out: "list_all2 P xs ys \<Longrightarrow> x \<in> set xs \<Longrightarrow> \<exists>y \<in> set ys. P x y"
  by (induction rule: list_all2_induct) auto

lemma calm_stmt: "calm E \<Longrightarrow> stmt E m w = m (bump w)"
  by (simp add: calm_def stmt_def)

lemma calm_timeouts: "calm E \<Longrightarrow> bindc (set_transaction_timeouts E) (\<lambda>_. m) w = m (bump w)"
  by (simp add: set_transaction_timeouts_def calm_stmt bindc_def ok_def)

lemma calm_transaction:
  "calm E \<Longrightarrow> m (begin_txn E w) = (Inr x, w') \<Longrightarrow> transaction E (\<lambda>_ _. None) m w = (Inr x, bump w')"
  by (simp add: calm_def transaction_def)

lemma check_leased:
  assumes "outbox_check r = None" and "ob_published r = None" and "0 < l"
  shows "outbox_check (leased_row k now l r) = None"
proof -
  have "payload_contract (leased_row k now l r) = payload_contract r"
    by (simp add: payload_contract_def payment_contract_def settlement_contract_def reconciliation_contract_def leased_row_def
        cong: option.case_cong)
  then show ?thesis using assms by (simp add: outbox_check_def leased_row_def split: if_splits)
qed

lemma check_published:
  assumes "outbox_check r = None" and "ob_occurred r \<le> now"
  shows "outbox_check (marked_row now (FinalizePublished i e) r) = None"
proof -
  have "payload_contract (marked_row now (FinalizePublished i e) r) = payload_contract r"
    by (simp add: payload_contract_def payment_contract_def settlement_contract_def reconciliation_contract_def
        released_row_def cong: option.case_cong)
  then show ?thesis using assms by (simp add: outbox_check_def released_row_def split: if_splits)
qed

text \<open>The clock is past the events' dates, which the rows' last check needs.\<close>

definition rows_past :: "env \<Rightarrow> outbox_row list \<Rightarrow> bool" where
  "rows_past E rows \<longleftrightarrow> (\<forall>r \<in> set rows. \<forall>n. ob_occurred r \<le> env_clock E n)"

section \<open>Time\<close>

text \<open>\<open>tick\<close> counts the calls to the environment: no operation takes one back.\<close>

definition ticks :: "('a world_scheme, 'e, 'r) comp \<Rightarrow> bool" where
  "ticks m \<longleftrightarrow> (\<forall>w. tick w \<le> tick (snd (m w)))"

lemma ticksD: "ticks m \<Longrightarrow> m w = (r, w') \<Longrightarrow> tick w \<le> tick w'"
  by (metis ticks_def snd_conv)

lemma ticks_basic:
  "ticks (ok x)" "ticks (throw e)" "ticks (observe ob)" "ticks (read_clock E)" "ticks (rethrow_database_error E err)"
  "ticks (broker_ready B)" "ticks (publish_one B m i)"
  by (auto simp: ticks_def ok_def throw_def observe_def modify_def read_clock_def rethrow_database_error_eq bump_def
      broker_ready_def publish_one_def Let_def split: option.splits)

lemma ticks_bindc: "ticks m \<Longrightarrow> (\<And>x. ticks (f x)) \<Longrightarrow> ticks (bindc m f)"
  unfolding ticks_def bindc_def by (fastforce split: prod.splits sum.splits intro: order_trans)

lemma ticks_catch: "ticks m \<Longrightarrow> (\<And>e. ticks (h e)) \<Longrightarrow> ticks (catch m h)"
  unfolding ticks_def catch_def by (fastforce split: prod.splits sum.splits intro: order_trans)

lemma ticks_stmt: "ticks m \<Longrightarrow> ticks (stmt E m)"
proof -
  assume m: "ticks m"
  have "tick w \<le> tick (snd (m (bump w)))" for w using m unfolding ticks_def by (metis Suc_leD bump_sel(1))
  then show ?thesis unfolding ticks_def stmt_def by (auto split: option.splits)
qed

lemma ticks_transaction: "ticks m \<Longrightarrow> ticks (transaction E d m)"
proof -
  assume m: "ticks m"
  have t: "tick (rollback w w') = tick w'" "tick (begin_txn E w) = Suc (tick w)" "tick (bump w) = Suc (tick w)" for w w' :: "'a world_scheme"
    by (simp_all add: rollback_def begin_txn_def bump_def)
  have le: "tick w \<le> tick w'" if "m (begin_txn E w) = (r, w')" for w w' r
    using ticksD[OF m that] by (simp add: t)
  have "tick w \<le> tick w'" if "transaction E d m w = (r, w')" for w w' r
    using that unfolding transaction_def
    by (auto simp: t dest!: le intro: le_SucI split: option.splits prod.splits sum.splits commit_outcome.splits)
  then show ?thesis unfolding ticks_def by (metis prod.collapse)
qed

lemma ticks_map_comp: "(\<And>x. ticks (f x)) \<Longrightarrow> ticks (map_comp f xs)"
  by (induction xs) (auto intro: ticks_bindc ticks_basic)

lemma ticks_for_each: "(\<And>x. ticks (f x)) \<Longrightarrow> ticks (for_each f xs)"
  by (induction xs) (auto intro: ticks_bindc ticks_basic)

lemmas ticks_rules = ticks_basic ticks_bindc ticks_catch ticks_stmt ticks_transaction ticks_map_comp ticks_for_each

lemma ticks_publish: "ticks (publish_batch B cs)"
  unfolding publish_batch_def publish_event_def
  by (auto intro!: ticks_rules split: sum.splits contract_error.splits)

lemma ticks_finish: "ticks (finish_run E J B opts worker cs os)"
proof -
  have "ticks (finalization_of J opts os c)" for c
    by (auto simp: finalization_of_def ticks_def ok_def bump_def)
  moreover have "ticks (update_outbox p f)" for p f
    by (auto simp: ticks_def update_outbox_def raise_constraint_def throw_def split: option.splits)
  then have "ticks (finalize_all E worker fs)" for fs
    by (induction fs) (auto simp: finalize_one_def intro!: ticks_rules)
  then have "ticks (finalize E worker fs)" for fs
    by (auto simp: finalize_def set_transaction_timeouts_def Let_def intro!: ticks_rules)
  ultimately show ?thesis
    unfolding finish_run_def Let_def by (auto intro!: ticks_rules)
qed

section \<open>Each operation\<close>

lemma claim_rows_run:
  fixes w :: "'a eventing_world_scheme"
  assumes "candidates = claim_candidates (ro_batch_size opts) (env_clock E (tick w)) locked (outbox_events w)"
    and "update_outbox (\<lambda>r. ob_id r \<in> ob_id ` set candidates) (leased_row k (env_clock E (tick w)) (ro_lease_ms opts)) (bump w) =
      (Inr n, w')"
  shows "claim_rows E opts locked k w = (Inr (map (leased_row k (env_clock E (tick w)) (ro_lease_ms opts)) candidates), w')"
proof -
  have "outbox_events (bump w) = outbox_events w" by (simp add: bump_def)
  then show ?thesis using assms(2) unfolding assms(1) by (simp add: claim_rows_def bindc_def read_clock_def gets_def ok_def)
qed

lemma claim_runs:
  fixes w :: relay_world and locked :: "string list"
  assumes calm: "calm E" and table: "table_ok (outbox_events w)" and lease: "0 < ro_lease_ms opts"
  defines "now \<equiv> env_clock E (Suc (Suc (Suc (Suc (tick w)))))"
  defines "candidates \<equiv> claim_candidates (ro_batch_size opts) now locked (outbox_events w)"
  shows "\<exists>w'. claim_pending E opts locked k w =
      (Inr (map (\<lambda>r. claim_of_row (leased_row k now (ro_lease_ms opts) r)) candidates), w') \<and>
    outbox_events w' = claimed_rows k now (ro_lease_ms opts) candidates (outbox_events w) \<and>
    sent_messages w' = sent_messages w \<and> Suc (Suc (Suc (Suc (tick w)))) < tick w'"
proof -
  let ?w = "bump (bump (bump (begin_txn E w)))"
  have t: "outbox_events (bump ?w) = outbox_events w" "tick ?w = Suc (Suc (Suc (Suc (tick w))))" "outbox_events ?w = outbox_events w" "sent_messages (bump ?w) = sent_messages w"
    by (simp_all add: begin_txn_def bump_def)
  have "\<forall>r \<in> set (outbox_events w). ob_id r \<in> ob_id ` set candidates \<longrightarrow>
      outbox_check (leased_row k now (ro_lease_ms opts) r) = None"
  proof (intro ballI impI)
    fix r assume r: "r \<in> set (outbox_events w)" "ob_id r \<in> ob_id ` set candidates"
    then obtain q where q: "q \<in> set candidates" "ob_id r = ob_id q" by blast
    then have c: "q \<in> set (outbox_events w)" "claimable now locked q"
      using candidates_in unfolding candidates_def by blast+
    then have "r = q" using table r(1) q(2) distinct_key_eq unfolding table_ok_def by metis
    then show "outbox_check (leased_row k now (ro_lease_ms opts) r) = None"
      using table c lease check_leased by (simp add: table_ok_def claimable_def)
  qed
  then obtain n where "update_outbox (\<lambda>r. ob_id r \<in> ob_id ` set candidates) (leased_row k now (ro_lease_ms opts)) (bump ?w) =
      (Inr n, set_outbox (claimed_rows k now (ro_lease_ms opts) candidates (outbox_events w)) (bump ?w))"
    unfolding update_outbox_Inr claimed_rows_def t by blast
  from claim_rows_run[where w = ?w and locked = locked, OF _ this[unfolded now_def t(2)[symmetric]]]
  have "claim_rows E opts locked k ?w = (Inr (map (leased_row k now (ro_lease_ms opts)) candidates),
      set_outbox (claimed_rows k now (ro_lease_ms opts) candidates (outbox_events w)) (bump ?w))"
    using t unfolding candidates_def now_def by simp
  then have "transaction E (\<lambda>_ _. None) (bindc (set_transaction_timeouts E) (\<lambda>_. bindc (set_transaction_timeouts E) (\<lambda>_.
           stmt E (claim_rows E opts locked k)))) w = (Inr (map (leased_row k now (ro_lease_ms opts)) candidates),
      bump (set_outbox (claimed_rows k now (ro_lease_ms opts) candidates (outbox_events w)) (bump ?w)))"
    by (intro calm_transaction calm) (simp add: calm_timeouts[OF calm] calm_stmt[OF calm])
  then show ?thesis
    using t by (simp add: claim_pending_def bindc_def catch_def observe_def modify_def ok_def comp_def bump_def)
qed

lemma publish_all_runs:
  fixes w :: relay_world
  assumes "willing B" and "\<forall>c \<in> set cs. \<exists>s. serialize_event c = Inr s"
  shows "\<exists>w'. map_comp (publish_event B) cs w = (Inr (map (\<lambda>c. Confirmed (ce_event_id c)) cs), w') \<and>
    outbox_events w' = outbox_events w"
  using assms(2)
proof (induction cs arbitrary: w)
  case Nil
  then show ?case by (simp add: ok_def)
next
  case (Cons c cs)
  then obtain s where s: "serialize_event c = Inr s" by auto
  let ?w = "(bump (bump w))\<lparr>sent_messages := sent_messages (bump w) @ [(message_of c s, Acks)]\<rparr>"
  have "publish_event B c w = (Inr (Confirmed (ce_event_id c)), ?w)"
    using assms(1) s by (simp add: willing_def publish_event_def broker_ready_def publish_one_def bindc_def Let_def)
  moreover have "outbox_events ?w = outbox_events w" by (simp add: bump_def)
  moreover obtain w' where "map_comp (publish_event B) cs ?w = (Inr (map (\<lambda>c. Confirmed (ce_event_id c)) cs), w')"
    "outbox_events w' = outbox_events ?w" using Cons.IH[of ?w] Cons.prems by auto
  ultimately show ?case by (simp add: bindc_def ok_def)
qed

lemma confirmed_all: "e \<in> ce_event_id ` set cs \<Longrightarrow> is_confirmed (map (\<lambda>c. Confirmed (ce_event_id c)) cs) e"
proof -
  assume e: "e \<in> ce_event_id ` set cs"
  have "List.find (\<lambda>p. outcome_event p = e) ps = Some (Confirmed e)"
    if "Confirmed e \<in> set ps" "\<forall>p \<in> set ps. \<exists>c. p = Confirmed c" for ps
    using that by (induction ps) auto
  then show ?thesis using e by (auto simp: is_confirmed_def outcome_for_def)
qed

lemma finalizations_run:
  assumes "ce_event_id ` set cs' \<subseteq> ce_event_id ` set cs"
  shows "map_comp (finalization_of J opts (map (\<lambda>c. Confirmed (ce_event_id c)) cs)) cs' w =
    (Inr (map (\<lambda>c. FinalizePublished (ce_id c) (ce_event_id c)) cs'), w)"
  using assms by (induction cs') (simp_all add: ok_def bindc_def finalization_of_def confirmed_all)

text \<open>The rows that a list of publications owns become published, the others stay.\<close>

definition row_delivered :: "string \<Rightarrow> finalization list \<Rightarrow> outbox_row \<Rightarrow> outbox_row \<Rightarrow> bool" where
  "row_delivered k fs r r' \<longleftrightarrow>
     (if \<exists>f \<in> set fs. owned_row k f r then ob_event_id r' = ob_event_id r \<and> ob_published r' \<noteq> None else r' = r)"

lemma finalize_all_runs:
  fixes w :: relay_world
  assumes calm: "calm E" and "list_all is_published fs"
    and "\<forall>r \<in> set (outbox_events w). outbox_check r = None" and "rows_past E (outbox_events w)"
  shows "\<exists>n w'. finalize_all E k fs w = (Inr n, w') \<and> list_all2 (row_delivered k fs) (outbox_events w) (outbox_events w')"
  using assms(2-)
proof (induction fs arbitrary: w)
  case Nil
  then show ?case by (simp add: ok_def row_delivered_def list_all2_same)
next
  case (Cons f fs)
  then obtain i e where f: "f = FinalizePublished i e" by (cases f) auto
  let ?now = "env_clock E (Suc (tick w))"
  let ?rows = "update_where (owned_row k f) (marked_row ?now f) (outbox_events w)"
  let ?w = "set_outbox ?rows (bump (bump w))"
  have t: "outbox_events (bump (bump w)) = outbox_events w" by (simp add: bump_def)
  have chk: "outbox_check (marked_row ?now f r) = None" if "r \<in> set (outbox_events w)" for r
    using Cons.prems that check_published by (simp add: rows_past_def f)
  then have "update_outbox (owned_row k f) (marked_row ?now f) (bump (bump w)) =
      (Inr (count_where (owned_row k f) (outbox_events w)), ?w)"
    unfolding update_outbox_Inr t by simp
  then have one: "finalize_one E k f w = (Inr (count_where (owned_row k f) (outbox_events w)), ?w)"
    by (simp add: finalize_one_def calm_stmt[OF calm] read_clock_def bindc_def)
  have rows: "outbox_events ?w = ?rows" by simp
  have chk': "\<forall>r \<in> set ?rows. outbox_check r = None" using Cons.prems(2) chk by (auto simp: update_where_def)
  have occ: "ob_occurred (marked_row n f r) = ob_occurred r" for n r by (simp add: f released_row_def)
  have past: "rows_past E ?rows" using Cons.prems(3) by (auto simp: rows_past_def update_where_def occ)
  obtain n w' where rest: "finalize_all E k fs ?w = (Inr n, w')"
    "list_all2 (row_delivered k fs) ?rows (outbox_events w')"
    using Cons.IH[of ?w] Cons.prems(1) chk' past rows by auto
  have del: "row_delivered k (f # fs) r r'"
    if "row_delivered k fs (if owned_row k f r then marked_row ?now f r else r) r'" for r r'
  proof (cases "owned_row k f r")
    case True
    then have r': "r' = marked_row ?now f r" using that finalized_not_owned by (simp add: row_delivered_def)
    then have "ob_event_id r' = ob_event_id r" "ob_published r' \<noteq> None" by (simp_all add: f released_row_def)
    then show ?thesis using True by (simp add: row_delivered_def)
  qed (use that in \<open>auto simp: row_delivered_def\<close>)
  have "list_all2 (\<lambda>r r'. row_delivered k fs (if owned_row k f r then marked_row ?now f r else r) r')
      (outbox_events w) (outbox_events w')"
    using rest(2) by (simp add: update_where_def list_all2_map1)
  then have "list_all2 (row_delivered k (f # fs)) (outbox_events w) (outbox_events w')"
    by (rule list_all2_mono) (rule del)
  then show ?case using one rest(1) by (simp add: bindc_def ok_def)
qed

section \<open>The phases of a run\<close>

lemma finish_runs:
  fixes w :: relay_world
  assumes calm: "calm E" and willing: "willing B" and "cs \<noteq> []"
    and "\<forall>r \<in> set (outbox_events w). outbox_check r = None" and "rows_past E (outbox_events w)"
  shows "\<exists>res w'. finish_run E J B opts k cs (map (\<lambda>c. Confirmed (ce_event_id c)) cs) w = (Inr res, w') \<and>
    rr_claimed res = length cs \<and> rr_published res = length cs \<and> rr_retry_scheduled res = 0 \<and> rr_publisher_ready res \<and>
    list_all2 (row_delivered k (map (\<lambda>c. FinalizePublished (ce_id c) (ce_event_id c)) cs))
      (outbox_events w) (outbox_events w')"
proof -
  let ?os = "map (\<lambda>c. Confirmed (ce_event_id c)) cs" and ?fs = "map (\<lambda>c. FinalizePublished (ce_id c) (ce_event_id c)) cs"
  define rest where "rest = (\<lambda>w. bindc (map_comp (finalization_of J opts ?os) cs) (\<lambda>finalizations.
     bindc (finalize E k finalizations) (\<lambda>finalized.
     let published = length (filter is_published finalizations);
         retryScheduled = length finalizations - published in
     bindc (for_each observe (retry_observation cs ?os retryScheduled)) (\<lambda>_.
     bindc (broker_ready B) (\<lambda>ready.
     ok \<lparr>rr_claimed = length cs, rr_ownership_lost = fr_ownership_lost finalized, rr_published = published,
         rr_publisher_ready = ready, rr_retry_scheduled = retryScheduled\<rparr>)))) (w :: relay_world))"
  obtain w0 where w0: "same_db w w0" "finish_run E J B opts k cs ?os w = rest w0"
    using bindc_all_observes[of "publish_observations ?os" rest w] by (auto simp: finish_run_def rest_def)
  have fs: "map_comp (finalization_of J opts ?os) cs w0 = (Inr ?fs, w0)" by (rule finalizations_run) simp
  have published: "filter is_published ?fs = ?fs" by (simp add: filter_id_conv)
  let ?w = "bump (bump (begin_txn E w0))"
  have t: "outbox_events ?w = outbox_events w"
    using same_db_tables[OF w0(1)] by (simp add: begin_txn_def bump_def)
  have "list_all is_published ?fs" by (simp add: list_all_iff)
  then obtain n w1 where all: "finalize_all E k ?fs ?w = (Inr n, w1)"
    and rows: "list_all2 (row_delivered k ?fs) (outbox_events w) (outbox_events w1)"
    using finalize_all_runs[OF calm, of ?fs ?w k] assms(4,5) unfolding t by blast
  let ?z = "\<lparr>fr_ownership_lost = int (length ?fs) - int n, fr_updated = n\<rparr>"
  have txn: "transaction E (\<lambda>_ _. None) (bindc (set_transaction_timeouts E) (\<lambda>_. bindc (set_transaction_timeouts E) (\<lambda>_.
            finalize_all E k ?fs))) w0 = (Inr n, bump w1)"
    using all by (intro calm_transaction calm) (simp add: calm_timeouts[OF calm])
  define answer :: "(relay_world, error, finalize_result) comp" where "answer = ok ?z"
  obtain w2 where w2: "bindc (for_each observe (finalize_observations ?z)) (\<lambda>_. answer) (bump w1) = answer w2" "same_db (bump w1) w2"
    using bindc_all_observes by blast
  have "finalize E k ?fs w0 = (Inr ?z, w2)"
    using txn w2(1) \<open>cs \<noteq> []\<close> unfolding answer_def by (simp add: finalize_def catch_def bindc_def[of "transaction E _ _"] Let_def ok_def)
  then have "\<exists>res w'. rest w0 = (Inr res, w') \<and> same_db w2 w' \<and> rr_claimed res = length cs \<and>
      rr_published res = length cs \<and> rr_retry_scheduled res = 0 \<and> rr_publisher_ready res"
    using fs published willing same_db_bump(1)
    by (auto simp: rest_def bindc_def Let_def retry_observation_def count_observation_def ok_def broker_ready_def willing_def)
  moreover have "outbox_events w' = outbox_events w1" if "same_db w2 w'" for w'
    using same_db_tables[OF that] same_db_tables[OF w2(2)] by (simp add: bump_def)
  ultimately show ?thesis using w0(2) rows by metis
qed

definition rows_delivered :: "outbox_row list \<Rightarrow> relay_world \<Rightarrow> bool" where
  "rows_delivered rows w \<longleftrightarrow>
     (\<forall>r \<in> set rows. \<exists>r' \<in> set (outbox_events w). ob_event_id r' = ob_event_id r \<and> ob_published r' \<noteq> None)"

lemma phases_run:
  fixes w :: relay_world and locked :: "string list"
  assumes calm: "calm E" and willing: "willing B" and table: "table_ok (outbox_events w)"
    and past: "rows_past E (outbox_events w)" and lease: "0 < ro_lease_ms opts"
    and candidates: "candidates = claim_candidates (ro_batch_size opts) (env_clock E (Suc (Suc (Suc (Suc (tick w)))))) locked
      (outbox_events w)" "candidates \<noteq> []"
  shows "\<exists>cs w1 os w2 res w3. claim_pending E opts locked k w = (Inr cs, w1) \<and> cs \<noteq> [] \<and>
    publish_batch B cs w1 = (Inr os, w2) \<and> finish_run E J B opts k cs os w2 = (Inr res, w3) \<and>
    rr_claimed res = length candidates \<and> rr_published res = length candidates \<and> rr_retry_scheduled res = 0 \<and>
    length (outbox_events w3) = length (outbox_events w) \<and> rows_delivered candidates w3 \<and>
    outbox_events w2 = claimed_rows k (env_clock E (Suc (Suc (Suc (Suc (tick w)))))) (ro_lease_ms opts) candidates (outbox_events w) \<and>
    Suc (Suc (Suc (Suc (tick w)))) < tick w3"
proof -
  let ?now = "env_clock E (Suc (Suc (Suc (Suc (tick w)))))"
  let ?l = "leased_row k ?now (ro_lease_ms opts)"
  let ?cs = "map (\<lambda>r. claim_of_row (?l r)) candidates"
  let ?rows = "claimed_rows k ?now (ro_lease_ms opts) candidates (outbox_events w)"
  obtain w1 where w1: "claim_pending E opts locked k w = (Inr ?cs, w1)" "outbox_events w1 = ?rows"
    "Suc (Suc (Suc (Suc (tick w)))) < tick w1"
    using claim_runs[OF calm table lease] unfolding candidates(1) by blast
  have in_rows: "set candidates \<subseteq> set (outbox_events w)" using candidates_in unfolding candidates(1) by blast
  have "\<exists>s. serialize_event c = Inr s" if "c \<in> set ?cs" for c
  proof -
    have "claim_ok (outbox_events w) c" using that leased_claim_ok[OF table] in_rows by auto
    then show ?thesis using serialize_from by (auto simp: claim_ok_def)
  qed
  then obtain w2 where w2: "map_comp (publish_event B) ?cs (bump w1) = (Inr (map (\<lambda>c. Confirmed (ce_event_id c)) ?cs), w2)"
    "outbox_events w2 = outbox_events (bump w1)"
    using publish_all_runs[OF willing, of ?cs "bump w1"] by blast
  have pub: "publish_batch B ?cs w1 = (Inr (map (\<lambda>c. Confirmed (ce_event_id c)) ?cs), w2)"
    using willing w2(1) unfolding publish_batch_def broker_ready_def bindc_def willing_def by simp
  have rows2: "outbox_events w2 = ?rows" using w1(2) w2(2) by (simp add: bump_def)
  have pw: "list_all2 (row_claimed k ?now (ro_lease_ms opts) locked) (outbox_events w) ?rows"
    using table unfolding candidates(1) table_ok_def by (blast intro: claimed_rows_pointwise)
  have "outbox_check r' = None \<and> (\<forall>n. ob_occurred r' \<le> env_clock E n)"
    if r: "r \<in> set (outbox_events w)" "row_claimed k ?now (ro_lease_ms opts) locked r r'" for r r'
  proof -
    have "outbox_check r = None" "\<forall>n. ob_occurred r \<le> env_clock E n" using r(1) table past by (auto simp: table_ok_def rows_past_def)
    moreover have "ob_occurred (?l r) = ob_occurred r" by (simp add: leased_row_def)
    ultimately show ?thesis using r(2) check_leased[OF _ _ lease] by (auto simp: row_claimed_def claimable_def)
  qed
  then have good: "\<forall>r \<in> set ?rows. outbox_check r = None" "rows_past E ?rows"
    using list_all2_in[OF pw] unfolding rows_past_def by blast+
  obtain res w3 where fin: "finish_run E J B opts k ?cs (map (\<lambda>c. Confirmed (ce_event_id c)) ?cs) w2 = (Inr res, w3)"
    and res: "rr_claimed res = length ?cs" "rr_published res = length ?cs" "rr_retry_scheduled res = 0"
    and del: "list_all2 (row_delivered k (map (\<lambda>c. FinalizePublished (ce_id c) (ce_event_id c)) ?cs)) ?rows (outbox_events w3)"
    using finish_runs[OF calm willing, of ?cs w2 J opts k] candidates(2) good unfolding rows2 by auto
  have "\<exists>r' \<in> set (outbox_events w3). ob_event_id r' = ob_event_id q \<and> ob_published r' \<noteq> None" if q: "q \<in> set candidates" for q
  proof -
    have "?l q \<in> set ?rows" using q in_rows by (force simp: claimed_rows_def update_where_def)
    then obtain r' where r': "r' \<in> set (outbox_events w3)"
      "row_delivered k (map (\<lambda>c. FinalizePublished (ce_id c) (ce_event_id c)) ?cs) (?l q) r'"
      using list_all2_out[OF del] by blast
    have "ob_published q = None" using q candidates_in unfolding candidates(1) claimable_def by blast
    then have "owned_row k (FinalizePublished (units (ob_id q)) (units (ob_event_id q))) (?l q)"
      by (simp add: owned_row_def leased_row_def)
    moreover have "FinalizePublished (units (ob_id q)) (units (ob_event_id q)) \<in>
        set (map (\<lambda>c. FinalizePublished (ce_id c) (ce_event_id c)) ?cs)"
      using q by (force simp: claim_of_row_def leased_row_def)
    ultimately have "ob_event_id r' = ob_event_id (?l q) \<and> ob_published r' \<noteq> None"
      using r'(2) unfolding row_delivered_def by metis
    then show ?thesis using r'(1) by (auto simp: leased_row_def)
  qed
  moreover have "length (outbox_events w3) = length (outbox_events w)"
    using del pw by (simp add: list_all2_lengthD[symmetric])
  moreover have "?cs \<noteq> []" using candidates(2) by simp
  moreover have "Suc (Suc (Suc (Suc (tick w)))) < tick w3"
    using w1(3) ticksD[OF ticks_publish pub] ticksD[OF ticks_finish fin] by simp
  ultimately show ?thesis using w1(1) pub fin res rows2 unfolding rows_delivered_def length_map by blast
qed

text \<open>The claim happens at a reading of the database clock between the start and the end of the run.\<close>

lemma run_once_delivers:
  fixes w :: relay_world and locked :: "string list"
  assumes "calm E" and "willing B" and "table_ok (outbox_events w)"
    and "rows_past E (outbox_events w)" and "0 < ro_lease_ms opts"
  shows "\<exists>t res w'. run_once E J B opts locked k w = (Inr res, w') \<and> tick w < t \<and> t < tick w' \<and>
    rr_claimed res = length (claim_candidates (ro_batch_size opts) (env_clock E t) locked (outbox_events w)) \<and>
    rr_published res = rr_claimed res \<and> rr_retry_scheduled res = 0 \<and>
    rows_delivered (claim_candidates (ro_batch_size opts) (env_clock E t) locked (outbox_events w)) w'"
proof -
  let ?t = "Suc (Suc (Suc (Suc (tick (bump w)))))"
  let ?c = "claim_candidates (ro_batch_size opts) (env_clock E ?t) locked (outbox_events w)"
  have t: "outbox_events (bump w) = outbox_events w" by (simp add: bump_def)
  have late: "tick w < ?t" by simp
  have start: "run_once E J B opts locked k w =
      bindc (claim_pending E opts locked k) (\<lambda>claimed. if claimed = [] then ok (idle_result True)
       else bindc (publish_batch B claimed) (finish_run E J B opts k claimed)) (bump w)"
    using assms(2) by (simp add: run_once_def broker_ready_def willing_def bindc_def)
  show ?thesis
  proof (cases "?c = []")
    case True
    obtain w1 where w1: "claim_pending E opts locked k (bump w) = (Inr [], w1)" "?t < tick w1"
      using claim_runs[of E "bump w" opts locked k] assms True unfolding t by auto
    then have "run_once E J B opts locked k w = (Inr (idle_result True), w1)"
      unfolding start by (simp add: bindc_def ok_def)
    then show ?thesis using True w1(2) late by (intro exI[of _ ?t] exI[of _ "idle_result True"] exI[of _ w1])
        (simp add: idle_result_def rows_delivered_def)
  next
    case False
    obtain cs w1 os w2 res w3 where p: "claim_pending E opts locked k (bump w) = (Inr cs, w1)" "cs \<noteq> []"
      "publish_batch B cs w1 = (Inr os, w2)" "finish_run E J B opts k cs os w2 = (Inr res, w3)"
      "rr_claimed res = length ?c" "rr_published res = length ?c" "rr_retry_scheduled res = 0" "rows_delivered ?c w3"
      "?t < tick w3"
      using phases_run[of E B "bump w" opts ?c locked k J] assms False unfolding t by blast
    have "run_once E J B opts locked k w = (Inr res, w3)" unfolding start using p(1-4) by (simp add: bindc_def)
    then show ?thesis using p(5-) late by (intro exI[of _ ?t] exI[of _ res] exI[of _ w3]) simp
  qed
qed

end
