(* ===== verification/Relay_Properties.thy ===== *)
theory Relay_Properties imports Relay_Live Contracts_Properties begin

text \<open>
  What the outbox relay guarantees: nothing is marked published that the broker has not confirmed, leases
  are respected, retry delays are bounded, the table refines a set of pending and delivered events, and a
  run without outages delivers what it claims.
\<close>

section \<open>Sums over the system's steps\<close>

lemma set_outbox_sent:
  fixes w w' :: relay_world
  shows "same_db (set_outbox rows w) w' \<Longrightarrow> sent_messages w' = sent_messages w"
  using same_db_sent by fastforce

lemma relay_sent_grows:
  assumes "relay_step E J B opts (w, ph) (w', ph')"
  shows "set (sent_messages w) \<subseteq> set (sent_messages w')"
  using assms(1)
proof (rule relay_step_cases, goal_cases)
  case (1 event r)
  have "sent_messages w' = sent_messages w" using persist_effect[OF 1(3)] same_db_sent set_outbox_sent by blast
  then show ?case by simp
next
  case (2 k locked cs)
  have "sent_messages w' = sent_messages w" using claim_pending_effect[OF 2(3)] same_db_sent set_outbox_sent by blast
  then show ?case by simp
next
  case (3 locked k e)
  have "sent_messages w' = sent_messages w" using claim_pending_effect[OF 3(2)] same_db_sent set_outbox_sent by blast
  then show ?case by simp
next
  case (4 k cs os)
  then show ?case using publish_batch_effect[OF 4(3)] by (simp add: log_grows_def)
next
  case (5 k cs e)
  then show ?case using publish_batch_effect[OF 5(3)] by (simp add: log_grows_def)
next
  case (6 k cs os r)
  obtain fs w1 w2 r2 where w1: "same_db w w1" and fin: "finalize E k fs w1 = (r2, w2)" and w2: "same_db w2 w'"
    using finish_run_effect[OF 6(3)] by metis
  obtain rows where "same_db (set_outbox rows w1) w2" using finalize_effect[OF fin] by blast
  then have "sent_messages w' = sent_messages w"
    using same_db_sent[OF w1] same_db_sent[OF w2] set_outbox_sent by simp
  then show ?case by simp
next
  case 7
  then show ?case by simp
next
  case 8
  then show ?case using same_db_sent[of w w'] by simp
qed

section \<open>Published means confirmed\<close>

text \<open>
  C25: in every state that writers, relay workers, outages and crashes can lead to, a row marked published
  is that of a well-formed event whose message was handed to the broker and confirmed by it; the payment
  consumers' contract accepts that message as the event.
\<close>

theorem relay_published_was_confirmed:
  assumes "relay_reach E J B opts (w, ph)" and "r \<in> set (outbox_events w)" and "ob_published r \<noteq> None"
  shows "\<exists>event n. from_event r event \<and> 1 \<le> n \<and> (message_from n event, Acks) \<in> set (sent_messages w) \<and>
    (payment_base event \<noteq> None \<longrightarrow>
      validate_payment_event sha (message_from n event) message_limit = Inr (received sha n event))"
proof -
  have "delivered_ok w" using reach_inv[OF assms(1)] by (simp add: relay_inv_def)
  then obtain event n where e: "wire_event_ok event" "from_event r event" "1 \<le> n"
    "(message_from n event, Acks) \<in> set (sent_messages w)"
    using assms(2,3) by (auto simp: delivered_ok_def confirmed_message_def)
  have "validate_payment_event sha (message_from n event) message_limit = Inr (received sha n event)"
    if "payment_base event = Some b" for b
    using validate_payment_from[OF e(1) that e(3)] .
  then show ?thesis using e by blast
qed

definition relay_env :: env where
  "relay_env = \<lparr>env_clock = (\<lambda>n. 1780000000000), env_uuid = (\<lambda>n. ''i''), env_ulid = (\<lambda>t n. ''''),
     env_sha256 = (\<lambda>u. ''digest''), env_fault = (\<lambda>n. None), env_commit = (\<lambda>n. Committed),
     env_fault_message = (\<lambda>f. ''fault'')\<rparr>"

definition relay_broker :: broker where
  "relay_broker = \<lparr>br_ready = (\<lambda>n. True), br_answer = (\<lambda>n. Acks)\<rparr>"

definition relay_jitter :: jitter where
  "relay_jitter = \<lparr>jt_random = (\<lambda>n. 1 / 2), jt_float = (\<lambda>x. x)\<rparr>"

definition relay_opts :: relay_options where
  "relay_opts = \<lparr>ro_batch_size = 10, ro_lease_ms = 30000, ro_retry_base_ms = 1000, ro_retry_max_ms = 60000\<rparr>"

definition relay_empty :: relay_world where
  "relay_empty = \<lparr>tick = 0, txn_now = 0, observed = [], ledger_accounts = [], ledger_transactions = [],
     ledger_entries = [], outbox_events = [], sent_messages = []\<rparr>"

definition relay_row :: outbox_row where
  "relay_row = outbox_row_of ''i'' 1780000000000 (PaymentCreated demo_created)"

lemma demo_calm_relay: "calm relay_env" "willing relay_broker"
  by (simp_all add: calm_def willing_def relay_env_def relay_broker_def)

lemma relay_row_ok: "table_ok [relay_row]" "rows_past relay_env [relay_row]" "ob_event_id relay_row = de_event_id demo_created"
  "claim_candidates 10 1780000000000 [] [relay_row] = [relay_row]" "ob_published relay_row = None"
proof -
  have "four_digit_year 951782400123" by code_simp
  then have "event_ok (PaymentCreated demo_created)"
    using demo_created_ok by (simp add: event_base_ok_def wire_base_ok_def) (simp add: demo_created_def)
  moreover have "uuid_text (units (de_merchant demo_created)) = units (de_merchant demo_created)"
    by (simp add: demo_created_def) code_simp
  ultimately have "outbox_check relay_row = None"
    by (simp add: relay_row_def outbox_check_decides event_base.defs)
  moreover have "from_event relay_row (PaymentCreated demo_created)"
    using static_new by (auto simp: from_event_def relay_row_def)
  ultimately show "table_ok [relay_row]" using demo_created_ok by (auto simp: table_ok_def simp del: wire_event_ok.simps)
  show "rows_past relay_env [relay_row]"
    by (simp add: rows_past_def relay_row_def outbox_row_of_def relay_env_def demo_created_def event_base.defs)
  show "ob_event_id relay_row = de_event_id demo_created" "ob_published relay_row = None"
    "claim_candidates 10 1780000000000 [] [relay_row] = [relay_row]"
    by (simp_all add: relay_row_def outbox_row_of_def claim_candidates_def claimable_def event_base.defs sort_key_simps)
qed

lemma relay_written:
  "\<exists>w. relay_reach relay_env relay_jitter relay_broker relay_opts (w, \<lambda>_. Idle) \<and> outbox_events w = [relay_row]"
proof -
  have "outbox_check relay_row = None" using relay_row_ok(1) by (simp add: table_ok_def)
  moreover have "uuid_syntax (ob_merchant relay_row)"
    by (simp add: relay_row_def outbox_row_of_def event_base.defs demo_created_def) code_simp
  moreover have "outbox_events relay_empty = []" by (simp add: relay_empty_def)
  ultimately have ins: "insert_outbox_row relay_row (w0\<lparr>outbox_events := []\<rparr>) = (Inr (), w0\<lparr>outbox_events := [relay_row]\<rparr>)" for w0 :: relay_world
    by (simp add: insert_outbox_row_def)
  have t: "env_clock relay_env n = 1780000000000" "env_uuid relay_env n = ''i''" "env_fault relay_env n = None"
    "env_commit relay_env n = Committed" for n
    by (simp_all add: relay_env_def)
  obtain r w where w: "transaction relay_env (\<lambda>_ _. None) (persist_domain_event relay_env (PaymentCreated demo_created)) relay_empty = (r, w)"
    by fastforce
  have "outbox_events w = [relay_row]"
    using w ins[of "bump (bump (bump (begin_txn relay_env relay_empty)))"]
    by (auto simp: transaction_def t persist_domain_event_def insert_domain_event_def catch_def bindc_def new_uuid_def
        read_clock_def stmt_def relay_row_def[symmetric] begin_txn_def bump_def relay_empty_def)
  moreover have "relay_step relay_env relay_jitter relay_broker relay_opts (relay_empty, \<lambda>_. Idle) (w, \<lambda>_. Idle)"
    using demo_created_ok w by (rule relay_step.write_event)
  moreover have "outbox_events relay_empty = []" "sent_messages relay_empty = []" by (simp_all add: relay_empty_def)
  ultimately show ?thesis unfolding relay_reach_def by (metis r_into_rtranclp)
qed

lemma relay_reach_step:
  "relay_reach E J B opts s \<Longrightarrow> relay_step E J B opts s t \<Longrightarrow> relay_reach E J B opts t"
  unfolding relay_reach_def by (meson rtranclp.rtrancl_into_rtrancl)

text \<open>The last step of the worker's run: the row is pending before it and published after it.\<close>

lemma relay_delivery:
  "\<exists>w ph r w' ph' r'. relay_reach relay_env relay_jitter relay_broker relay_opts (w, ph) \<and>
    relay_step relay_env relay_jitter relay_broker relay_opts (w, ph) (w', ph') \<and>
    outbox_events w = [r] \<and> ob_event_id r = de_event_id demo_created \<and> ob_published r = None \<and>
    outbox_events w' = [r'] \<and> ob_event_id r' = de_event_id demo_created \<and> ob_published r' \<noteq> None"
proof -
  obtain w where w: "relay_reach relay_env relay_jitter relay_broker relay_opts (w, \<lambda>_. Idle)" "outbox_events w = [relay_row]"
    using relay_written by blast
  have clock: "env_clock relay_env n = 1780000000000" for n by (simp add: relay_env_def)
  have o: "ro_batch_size relay_opts = 10" "0 < ro_lease_ms relay_opts" by (simp_all add: relay_opts_def)
  obtain cs w1 os w2 res w3 where run: "claim_pending relay_env relay_opts [] ''worker'' w = (Inr cs, w1)"
    "publish_batch relay_broker cs w1 = (Inr os, w2)"
    "finish_run relay_env relay_jitter relay_broker relay_opts ''worker'' cs os w2 = (Inr res, w3)"
    and del: "rows_delivered [relay_row] w3" "length (outbox_events w3) = length [relay_row]"
    and held: "outbox_events w2 = claimed_rows ''worker'' 1780000000000 (ro_lease_ms relay_opts) [relay_row] [relay_row]"
    using phases_run[OF demo_calm_relay, of w relay_opts "[relay_row]" "[]" "''worker''" relay_jitter,
        unfolded w(2) clock o(1) relay_row_ok(4), OF relay_row_ok(1,2) o(2) refl] by blast
  have s1: "relay_step relay_env relay_jitter relay_broker relay_opts (w, \<lambda>_. Idle) (w1, (\<lambda>_. Idle)(''worker'' := Holding cs))"
    using run(1) by (intro relay_step.claim) simp_all
  have s2: "relay_step relay_env relay_jitter relay_broker relay_opts (w1, (\<lambda>_. Idle)(''worker'' := Holding cs))
      (w2, (\<lambda>_. Idle)(''worker'' := Holding cs, ''worker'' := Reporting cs os))"
    using run(2) by (intro relay_step.publish) simp_all
  have s3: "relay_step relay_env relay_jitter relay_broker relay_opts
      (w2, (\<lambda>_. Idle)(''worker'' := Holding cs, ''worker'' := Reporting cs os))
      (w3, (\<lambda>_. Idle)(''worker'' := Holding cs, ''worker'' := Reporting cs os, ''worker'' := Idle))"
    using run(3) by (intro relay_step.finish) simp_all
  have "relay_reach relay_env relay_jitter relay_broker relay_opts
      (w2, (\<lambda>_. Idle)(''worker'' := Holding cs, ''worker'' := Reporting cs os))"
    using w(1) s1 s2 by (blast intro: relay_reach_step)
  moreover have "outbox_events w2 = [leased_row ''worker'' 1780000000000 (ro_lease_ms relay_opts) relay_row]"
    unfolding held by (simp add: claimed_rows_def update_where_def)
  moreover have "ob_event_id (leased_row k t l relay_row) = de_event_id demo_created" "ob_published (leased_row k t l relay_row) = None" for k t l
    using relay_row_ok(3,5) by (simp_all add: leased_row_def)
  moreover obtain r' where "outbox_events w3 = [r']" "ob_event_id r' = de_event_id demo_created" "ob_published r' \<noteq> None"
    using del relay_row_ok(3) by (auto simp: rows_delivered_def length_Suc_conv)
  ultimately show ?thesis using s3 by blast
qed

lemma relay_delivered:
  "\<exists>w ph r. relay_reach relay_env relay_jitter relay_broker relay_opts (w, ph) \<and> r \<in> set (outbox_events w) \<and>
    ob_published r \<noteq> None"
proof -
  obtain w ph w' ph' r' where "relay_reach relay_env relay_jitter relay_broker relay_opts (w, ph)"
    "relay_step relay_env relay_jitter relay_broker relay_opts (w, ph) (w', ph')" "outbox_events w' = [r']" "ob_published r' \<noteq> None"
    using relay_delivery by blast
  then show ?thesis using relay_reach_step by (metis list.set_intros(1))
qed

theorem relay_published_was_confirmed_witness:
  "\<exists>w ph r event n. relay_reach relay_env relay_jitter relay_broker relay_opts (w, ph) \<and> r \<in> set (outbox_events w) \<and>
    from_event r event \<and> (message_from n event, Acks) \<in> set (sent_messages w)"
proof -
  obtain w ph r where r: "relay_reach relay_env relay_jitter relay_broker relay_opts (w, ph)" "r \<in> set (outbox_events w)"
    "ob_published r \<noteq> None" using relay_delivered by blast
  show ?thesis using relay_published_was_confirmed[OF r] r(1,2) by blast
qed

section \<open>Leases\<close>

lemma row_claimed_cases:
  "row_claimed worker now l locked r r' \<Longrightarrow> r' = r \<or>
     (ob_published r = None \<and> ob_available r \<le> now \<and> (\<forall>e. ob_lease_expires r = Some e \<longrightarrow> e \<le> now) \<and>
      ob_id r \<notin> set locked \<and> r' = leased_row worker now l r)"
  by (auto simp: row_claimed_def claimable_def)

lemma owned_ids:
  "owned_row worker f r \<Longrightarrow> ob_published r = None \<and> ob_locked_by r = Some worker \<and>
     finalized_ids f = (units (ob_id r), units (ob_event_id r))"
  by (simp add: owned_row_def prod_eq_iff)

text \<open>
  C27: claiming touches only unpublished rows that are due, whose lease has ended and that no other
  transaction locks, at most a batch of them; it leases them to the worker and counts the attempt, and every
  other row stays as it is.
\<close>

theorem claim_respects_leases:
  fixes w :: relay_world
  assumes "distinct (map ob_id (outbox_events w))" and "claim_pending E opts locked worker w = (res, w')"
  shows "(\<exists>now. list_all2 (\<lambda>r r'. r' = r \<or>
      (ob_published r = None \<and> ob_available r \<le> now \<and> (\<forall>l. ob_lease_expires r = Some l \<longrightarrow> l \<le> now) \<and>
       ob_id r \<notin> set locked \<and> r' = leased_row worker now (ro_lease_ms opts) r))
      (outbox_events w) (outbox_events w')) \<and>
    (\<forall>cs. res = Inr cs \<longrightarrow> length cs \<le> ro_batch_size opts \<and>
      (\<forall>c \<in> set cs. \<exists>r \<in> set (outbox_events w'). c = claim_of_row r \<and> ob_locked_by r = Some worker))"
  using claim_pending_effect[OF assms(2)]
proof
  assume failed: "same_db w w' \<and> (\<exists>e. res = Inl e)"
  then have "outbox_events w' = outbox_events w" by (intro same_db_tables) simp
  then show ?thesis using failed by (auto simp: list_all2_same)
next
  assume "\<exists>now candidates. candidates = claim_candidates (ro_batch_size opts) now locked (outbox_events w) \<and>
      same_db (set_outbox (claimed_rows worker now (ro_lease_ms opts) candidates (outbox_events w)) w) w' \<and>
      (\<forall>r \<in> set (outbox_events w). ob_id r \<in> ob_id ` set candidates \<longrightarrow>
        outbox_check (leased_row worker now (ro_lease_ms opts) r) = None) \<and>
      (res = Inr (map claim_of_row (map (leased_row worker now (ro_lease_ms opts)) candidates)) \<or> (\<exists>e. res = Inl e))"
  then obtain now candidates where c: "candidates = claim_candidates (ro_batch_size opts) now locked (outbox_events w)"
    and rows: "same_db (set_outbox (claimed_rows worker now (ro_lease_ms opts) candidates (outbox_events w)) w) w'"
    and res: "res = Inr (map claim_of_row (map (leased_row worker now (ro_lease_ms opts)) candidates)) \<or> (\<exists>e. res = Inl e)"
    by blast
  let ?rows = "claimed_rows worker now (ro_lease_ms opts) candidates (outbox_events w)"
  have w': "outbox_events w' = ?rows" using same_db_tables[OF rows] by simp
  have "list_all2 (row_claimed worker now (ro_lease_ms opts) locked) (outbox_events w) (outbox_events w')"
    unfolding w' c using assms(1) by (rule claimed_rows_pointwise)
  moreover have "\<exists>r \<in> set (outbox_events w'). claim_of_row (leased_row worker now (ro_lease_ms opts) q) = claim_of_row r \<and>
      ob_locked_by r = Some worker" if "q \<in> set candidates" for q
  proof (intro bexI conjI)
    have "q \<in> set (outbox_events w)" using candidates_in that unfolding c by blast
    then show "leased_row worker now (ro_lease_ms opts) q \<in> set (outbox_events w')"
      using that unfolding w' by (force simp: claimed_rows_def update_where_def)
  qed (simp_all add: leased_row_def)
  moreover have "length candidates \<le> ro_batch_size opts" unfolding c by (rule candidates_length)
  ultimately have rows: "list_all2 (row_claimed worker now (ro_lease_ms opts) locked) (outbox_events w) (outbox_events w')"
    and cs: "\<forall>cs. res = Inr cs \<longrightarrow> length cs \<le> ro_batch_size opts \<and>
      (\<forall>c \<in> set cs. \<exists>r \<in> set (outbox_events w'). c = claim_of_row r \<and> ob_locked_by r = Some worker)"
    using res by auto
  have "list_all2 (\<lambda>r r'. r' = r \<or>
      (ob_published r = None \<and> ob_available r \<le> now \<and> (\<forall>l. ob_lease_expires r = Some l \<longrightarrow> l \<le> now) \<and>
       ob_id r \<notin> set locked \<and> r' = leased_row worker now (ro_lease_ms opts) r))
      (outbox_events w) (outbox_events w')"
    using rows by (rule list_all2_mono) (rule row_claimed_cases)
  then show ?thesis using cs by blast
qed

theorem claim_respects_leases_witness:
  "\<exists>(w :: relay_world) res w'. claim_pending relay_env relay_opts [] ''worker'' w = (res, w') \<and> outbox_events w = [relay_row] \<and>
    (\<exists>now r'. outbox_events w' = [r'] \<and> (r' = relay_row \<or> r' = leased_row ''worker'' now 30000 relay_row))"
proof -
  obtain w :: relay_world where w: "outbox_events w = [relay_row]" using relay_written by blast
  obtain res w' where run: "claim_pending relay_env relay_opts [] ''worker'' w = (res, w')" by fastforce
  have "distinct (map ob_id (outbox_events w))" by (simp add: w)
  from claim_respects_leases[OF this run] obtain now r' where "outbox_events w' = [r']"
    "r' = relay_row \<or> r' = leased_row ''worker'' now (ro_lease_ms relay_opts) relay_row"
    unfolding w list_all2_Cons1 by auto
  moreover have "ro_lease_ms relay_opts = 30000" by (simp add: relay_opts_def)
  ultimately show ?thesis using w run by metis
qed

text \<open>
  C28: a finalization changes only unpublished rows that the worker still holds and that its events name,
  releasing them as published or with a later date; a row whose lease another worker took over, or that is
  already published, stays as it is.
\<close>

theorem finalize_only_owned:
  fixes w :: relay_world
  assumes "finalize E worker events w = (res, w')"
  shows "list_all2 (\<lambda>r r'. r' = r \<or> (ob_published r = None \<and> ob_locked_by r = Some worker \<and>
      (\<exists>f \<in> set events. finalized_ids f = (units (ob_id r), units (ob_event_id r)) \<and> (\<exists>now. r' = marked_row now f r))))
    (outbox_events w) (outbox_events w')"
proof -
  obtain rows where rows: "same_db (set_outbox rows w) w'" "list_all2 (row_finalized worker events) (outbox_events w) rows"
    using finalize_effect[OF assms] by blast
  have w': "outbox_events w' = rows" using same_db_tables[OF rows(1)] by simp
  show ?thesis unfolding w'
  proof (rule list_all2_mono[OF rows(2)], goal_cases)
    case (1 r r')
    then show ?case using owned_ids unfolding row_finalized_def by blast
  qed
qed

theorem finalize_only_owned_witness:
  "\<exists>(w :: relay_world) res w'. finalize relay_env ''late'' [FinalizePublished (units ''i'') (units (de_event_id demo_created))] w = (res, w') \<and>
    outbox_events w = [relay_row] \<and> outbox_events w' = [relay_row]"
proof -
  obtain w :: relay_world where w: "outbox_events w = [relay_row]" using relay_written by blast
  obtain res w' where run: "finalize relay_env ''late'' [FinalizePublished (units ''i'') (units (de_event_id demo_created))] w = (res, w')"
    by fastforce
  have "ob_locked_by relay_row = None" by (simp add: relay_row_def outbox_row_of_def)
  then have "outbox_events w' = [relay_row]"
    using finalize_only_owned[OF run] w by (simp add: list_all2_Cons1)
  then show ?thesis using run w by blast
qed

section \<open>Delays\<close>

text \<open>
  C29: the delay before a failed event is due again is not negative and exceeds neither the largest delay nor
  the base doubled for each earlier attempt, up to thirty times, whatever the random source gives and with
  the product rounded as doubles are.
\<close>

theorem retry_delay_bounds:
  assumes "float_ok (jt_float J)" and "0 \<le> ro_retry_base_ms opts" and "0 \<le> ro_retry_max_ms opts"
    and "finalization_of J opts outcomes c w = (Inr (FinalizeRetry i e delay), w')"
  shows "0 \<le> delay \<and> delay \<le> ro_retry_max_ms opts \<and>
    delay \<le> ro_retry_base_ms opts * 2 ^ nat (min 30 (ce_attempts c - 1))"
proof -
  have d: "delay = full_jitter_backoff (jt_float J) (ce_attempts c) (ro_retry_base_ms opts) (ro_retry_max_ms opts)
      (jt_random J (tick w))"
    using assms(4) by (auto simp: finalization_of_def ok_def split: if_splits)
  have "nat (max 0 (min 30 (ce_attempts c - 1))) = nat (min 30 (ce_attempts c - 1))" by simp
  then show ?thesis using backoff_bounds[OF assms(1-3)] unfolding d
    by (smt (verit, best) backoff_ceiling_def)
qed

theorem retry_delay_bounds_witness:
  "\<exists>delay w' (w :: relay_world). finalization_of relay_jitter relay_opts [] (claim_of_row relay_row) w =
      (Inr (FinalizeRetry (units ''i'') (units (de_event_id demo_created)) delay), w') \<and> 0 \<le> delay \<and> delay \<le> 60000"
proof -
  have "\<exists>delay. finalization_of relay_jitter relay_opts [] (claim_of_row relay_row) relay_empty =
      (Inr (FinalizeRetry (units ''i'') (units (de_event_id demo_created)) delay), bump relay_empty)"
    by (simp add: finalization_of_def is_confirmed_def outcome_for_def claim_of_row_def relay_row_def outbox_row_of_def
        event_base.defs)
  then obtain delay where run: "finalization_of relay_jitter relay_opts [] (claim_of_row relay_row) relay_empty =
      (Inr (FinalizeRetry (units ''i'') (units (de_event_id demo_created)) delay), bump relay_empty)" by blast
  have "float_ok (jt_float relay_jitter)" "0 \<le> ro_retry_base_ms relay_opts" "0 \<le> ro_retry_max_ms relay_opts"
    by (simp_all add: relay_jitter_def relay_opts_def)
  from retry_delay_bounds[OF this run] show ?thesis using run by (auto simp: relay_opts_def)
qed

section \<open>The outbox as a set of events\<close>

text \<open>
  What the outbox promises, without rows, leases and attempts: an event is accepted once, the broker confirms
  messages, and a pending event becomes delivered only when the broker has confirmed it.
\<close>

record event_queue =
  eq_events :: "string \<Rightarrow> bool option"
  eq_confirmed :: "string set"

inductive queue_step :: "event_queue \<Rightarrow> event_queue \<Rightarrow> bool" where
  accept: "eq_events q e = None \<Longrightarrow> queue_step q (q\<lparr>eq_events := (eq_events q)(e \<mapsto> False)\<rparr>)"
| confirm: "eq_confirmed q \<subseteq> C \<Longrightarrow> queue_step q (q\<lparr>eq_confirmed := C\<rparr>)"
| deliver: "D \<subseteq> {e. eq_events q e = Some False} \<inter> eq_confirmed q \<Longrightarrow>
    queue_step q (q\<lparr>eq_events := (\<lambda>e. if e \<in> D then Some True else eq_events q e)\<rparr>)"

definition abs_events :: "outbox_row list \<Rightarrow> string \<Rightarrow> bool option" where
  "abs_events rows = map_of (map (\<lambda>r. (ob_event_id r, ob_published r \<noteq> None)) rows)"

definition abs_confirmed :: "relay_world \<Rightarrow> string set" where
  "abs_confirmed w = {e. \<exists>m. (m, Acks) \<in> set (sent_messages w) \<and> am_message_id m = Some (jstr e)}"

definition abs_queue :: "system \<Rightarrow> event_queue" where
  "abs_queue s = \<lparr>eq_events = abs_events (outbox_events (fst s)), eq_confirmed = abs_confirmed (fst s)\<rparr>"

lemma abs_events_append:
  assumes "distinct (map ob_event_id (rows @ [r]))" and "ob_published r = None"
  shows "abs_events (rows @ [r]) = (abs_events rows)(ob_event_id r \<mapsto> False)"
proof -
  have "ob_event_id r \<notin> ob_event_id ` set rows" using assms(1) by auto
  then show ?thesis using assms(2)
    by (intro ext) (force simp: abs_events_def map_add_def dest: map_of_SomeD split: option.splits)
qed

lemma abs_events_cons:
  "abs_events (r # rows) = (abs_events rows)(ob_event_id r \<mapsto> (ob_published r \<noteq> None))"
  by (simp add: abs_events_def)

lemma abs_events_change:
  assumes "list_all2 (\<lambda>r r'. ob_event_id r' = ob_event_id r \<and> (ob_published r' = ob_published r \<or>
      (ob_published r = None \<and> ob_event_id r \<in> C))) rows rows'" and "distinct (map ob_event_id rows)"
  shows "\<exists>D \<subseteq> {e. abs_events rows e = Some False} \<inter> C.
    abs_events rows' = (\<lambda>e. if e \<in> D then Some True else abs_events rows e)"
  using assms
proof (induction rule: list_all2_induct)
  case Nil
  then show ?case by (intro exI[of _ "{}"]) simp
next
  case (Cons r rows r' rows')
  then obtain D where D: "D \<subseteq> {e. abs_events rows e = Some False} \<inter> C"
    "abs_events rows' = (\<lambda>e. if e \<in> D then Some True else abs_events rows e)" by auto
  have "abs_events rows (ob_event_id r) = None"
    using Cons.prems by (auto simp: abs_events_def map_of_eq_None_iff image_image)
  then have new: "ob_event_id r \<notin> D" using D(1) by auto
  show ?case
  proof (cases "ob_published r = None \<and> ob_published r' \<noteq> None")
    case True
    then have "ob_event_id r \<in> C" using Cons.hyps(1) by auto
    then show ?thesis using True Cons.hyps(1) D new
      by (intro exI[of _ "insert (ob_event_id r) D"]) (auto simp: abs_events_cons fun_eq_iff)
  next
    case False
    then have "(ob_published r' \<noteq> None) = (ob_published r \<noteq> None)" using Cons.hyps(1) by auto
    then show ?thesis using Cons.hyps(1) D new
      by (intro exI[of _ D]) (auto simp: abs_events_cons fun_eq_iff)
  qed
qed

lemma confirmed_abs:
  "from_event r event \<Longrightarrow> confirmed_message w event \<Longrightarrow> ob_event_id r \<in> abs_confirmed w"
  using event_id_from_event[of r event] by (force simp: confirmed_message_def abs_confirmed_def)

text \<open>
  C26: every step of writers, relay workers, outages and crashes is, on the set of events, a sequence of
  acceptances of new events, confirmations by the broker, and deliveries of pending events that the broker
  had confirmed; no event is lost, taken back or delivered without its confirmation.
\<close>

theorem relay_refines_queue:
  assumes "relay_reach E J B opts (w, ph)" and "relay_step E J B opts (w, ph) (w', ph')"
  shows "queue_step\<^sup>*\<^sup>* (abs_queue (w, ph)) (abs_queue (w', ph'))"
proof -
  have inv: "relay_inv (w, ph)" using assms(1) by (rule reach_inv)
  have change: "table_change w w'" and inv': "relay_inv (w', ph')" using step_inv[OF assms(2) inv] by auto
  have distinct: "distinct (map ob_event_id (outbox_events w))" "distinct (map ob_event_id (outbox_events w'))"
    using inv inv' by (simp_all add: relay_inv_def table_ok_def)
  let ?q = "\<lparr>eq_events = abs_events (outbox_events w'), eq_confirmed = abs_confirmed w\<rparr>"
  have "abs_confirmed w \<subseteq> abs_confirmed w'" using relay_sent_grows[OF assms(2)] by (auto simp: abs_confirmed_def)
  then have "queue_step ?q (abs_queue (w', ph'))"
    using queue_step.confirm[of ?q "abs_confirmed w'"] by (simp add: abs_queue_def)
  moreover have "queue_step (abs_queue (w, ph)) ?q"
    using change unfolding table_change_def
  proof (elim disjE exE conjE)
    assume "table_step w w'"
    then have "list_all2 (\<lambda>r r'. ob_event_id r' = ob_event_id r \<and> (ob_published r' = ob_published r \<or>
      (ob_published r = None \<and> ob_event_id r \<in> abs_confirmed w))) (outbox_events w) (outbox_events w')"
      unfolding table_step_def
    proof (rule list_all2_mono, goal_cases)
      case (1 r r')
      then have "ob_event_id r' = ob_event_id r" unfolding row_step_def using static_ids(2) by metis
      then show ?case using 1 confirmed_abs unfolding row_step_def by blast
    qed
    from abs_events_change[OF this distinct(1)] obtain D where
      D: "D \<subseteq> {e. abs_events (outbox_events w) e = Some False} \<inter> abs_confirmed w"
      "abs_events (outbox_events w') = (\<lambda>e. if e \<in> D then Some True else abs_events (outbox_events w) e)" by blast
    then show ?thesis using queue_step.deliver[of D "abs_queue (w, ph)"] by (simp add: abs_queue_def cong: if_cong)
  next
    fix i now event
    assume new: "outbox_events w' = outbox_events w @ [outbox_row_of i now event]"
      and id: "de_event_id (event_base_of event) \<notin> ob_event_id ` set (outbox_events w)"
    have r: "ob_event_id (outbox_row_of i now event) = de_event_id (event_base_of event)"
      "ob_published (outbox_row_of i now event) = None" by (simp_all add: outbox_row_of_def)
    have "abs_events (outbox_events w) (de_event_id (event_base_of event)) = None"
      using id by (auto simp: abs_events_def map_of_eq_None_iff image_image)
    then show ?thesis
      using queue_step.accept[of "abs_queue (w, ph)" "de_event_id (event_base_of event)"]
        abs_events_append[OF distinct(2)[unfolded new] r(2)] new r(1) by (simp add: abs_queue_def)
  qed
  ultimately show ?thesis by (meson converse_rtranclp_into_rtranclp r_into_rtranclp)
qed

theorem relay_refines_queue_witness:
  "\<exists>w ph w' ph'. eq_events (abs_queue (w, ph)) (de_event_id demo_created) = Some False \<and>
    eq_events (abs_queue (w', ph')) (de_event_id demo_created) = Some True \<and>
    queue_step\<^sup>*\<^sup>* (abs_queue (w, ph)) (abs_queue (w', ph'))"
proof -
  obtain w ph r w' ph' r' where s: "relay_reach relay_env relay_jitter relay_broker relay_opts (w, ph)"
    "relay_step relay_env relay_jitter relay_broker relay_opts (w, ph) (w', ph')"
    and r: "outbox_events w = [r]" "ob_event_id r = de_event_id demo_created" "ob_published r = None"
    "outbox_events w' = [r']" "ob_event_id r' = de_event_id demo_created" "ob_published r' \<noteq> None"
    using relay_delivery by blast
  have "eq_events (abs_queue (w, ph)) (de_event_id demo_created) = Some False"
    "eq_events (abs_queue (w', ph')) (de_event_id demo_created) = Some True"
    using r by (simp_all add: abs_queue_def abs_events_def)
  then show ?thesis using relay_refines_queue[OF s] by blast
qed

section \<open>Delivery\<close>

text \<open>
  C30: with no database outage and a broker that confirms every message, one run of a worker reads the
  database clock while it runs, claims the rows that are due at that instant (at most a batch of those that
  no live lease and no other transaction holds), publishes all of them, schedules no retry, and leaves every
  claimed row marked published.
\<close>

theorem run_once_delivers_claims:
  fixes w :: relay_world and locked :: "string list"
  assumes "calm E" and "willing B" and "table_ok (outbox_events w)"
    and "rows_past E (outbox_events w)" and "0 < ro_lease_ms opts"
  shows "\<exists>t res w'. run_once E J B opts locked worker w = (Inr res, w') \<and> tick w < t \<and> t < tick w' \<and>
    rr_claimed res = length (claim_candidates (ro_batch_size opts) (env_clock E t) locked (outbox_events w)) \<and>
    rr_published res = rr_claimed res \<and> rr_retry_scheduled res = 0 \<and>
    (\<forall>r \<in> set (claim_candidates (ro_batch_size opts) (env_clock E t) locked (outbox_events w)).
      \<exists>r' \<in> set (outbox_events w'). ob_event_id r' = ob_event_id r \<and> ob_published r' \<noteq> None)"
  using run_once_delivers[OF assms] unfolding rows_delivered_def by blast

theorem run_once_delivers_claims_witness:
  "\<exists>(w :: relay_world) res w' r'. outbox_events w = [relay_row] \<and>
    run_once relay_env relay_jitter relay_broker relay_opts [] ''worker'' w = (Inr res, w') \<and>
    rr_claimed res = 1 \<and> rr_published res = 1 \<and> rr_retry_scheduled res = 0 \<and>
    r' \<in> set (outbox_events w') \<and> ob_event_id r' = de_event_id demo_created \<and> ob_published r' \<noteq> None"
proof -
  obtain w :: relay_world where w: "outbox_events w = [relay_row]" using relay_written by blast
  have o: "0 < ro_lease_ms relay_opts" "ro_batch_size relay_opts = 10" "env_clock relay_env t = 1780000000000" for t
    by (simp_all add: relay_opts_def relay_env_def)
  from run_once_delivers_claims[OF demo_calm_relay relay_row_ok(1,2)[folded w] o(1), of relay_jitter "[]" "''worker''"]
  obtain t res w' where run: "run_once relay_env relay_jitter relay_broker relay_opts [] ''worker'' w = (Inr res, w')"
    "rr_claimed res = length [relay_row]" "rr_published res = rr_claimed res" "rr_retry_scheduled res = 0"
    and rows: "\<forall>r \<in> set [relay_row]. \<exists>r' \<in> set (outbox_events w'). ob_event_id r' = ob_event_id r \<and> ob_published r' \<noteq> None"
    unfolding w o(2,3) relay_row_ok(4) by blast
  obtain r' where "r' \<in> set (outbox_events w')" "ob_event_id r' = de_event_id demo_created" "ob_published r' \<noteq> None"
    using rows relay_row_ok(3) by auto
  moreover have "rr_claimed res = 1" "rr_published res = 1" using run(2,3) by simp_all
  ultimately show ?thesis using w run(1,4) by blast
qed

end
