(* ===== verification/Inbox.thy ===== *)
theory Inbox imports Payments_Store Contracts Backoff begin

text \<open>
  The inbox of the consumers: \<open>InboxService\<close> (\<open>inbox.service.ts\<close>), \<open>PrismaInboxRepository\<close>
  (\<open>prisma-inbox.repository.ts\<close>) and the table \<open>inbox_messages\<close> with its checks.
\<close>

section \<open>Messages\<close>

datatype domain_message = PaymentMessage validated_message | OperationalMessage validated_operational

fun message_event_id :: "domain_message \<Rightarrow> ustring" where
  "message_event_id (PaymentMessage m) = units (de_event_id (event_base_of (vm_event m)))"
| "message_event_id (OperationalMessage m) = vo_event_id m"

fun message_event_type :: "domain_message \<Rightarrow> ustring" where
  "message_event_type (PaymentMessage m) = units (event_type_name (vm_event m))"
| "message_event_type (OperationalMessage m) = vo_event_type m"

fun message_merchant :: "domain_message \<Rightarrow> ustring" where
  "message_merchant (PaymentMessage m) = units (de_merchant (event_base_of (vm_event m)))"
| "message_merchant (OperationalMessage m) = vo_merchant m"

fun message_request :: "domain_message \<Rightarrow> ustring" where
  "message_request (PaymentMessage m) = units (de_request (event_base_of (vm_event m)))"
| "message_request (OperationalMessage m) = vo_request m"

fun message_occurred :: "domain_message \<Rightarrow> int" where
  "message_occurred (PaymentMessage m) = de_occurred (event_base_of (vm_event m))"
| "message_occurred (OperationalMessage m) = vo_occurred m"

fun message_sha :: "domain_message \<Rightarrow> string" where
  "message_sha (PaymentMessage m) = vm_sha m"
| "message_sha (OperationalMessage m) = vo_sha m"

fun message_bytes :: "domain_message \<Rightarrow> nat list" where
  "message_bytes (PaymentMessage m) = vm_bytes m"
| "message_bytes (OperationalMessage m) = vo_bytes m"

fun message_redelivered :: "domain_message \<Rightarrow> bool" where
  "message_redelivered (PaymentMessage m) = vm_redelivered m"
| "message_redelivered (OperationalMessage m) = vo_redelivered m"

text \<open>\<open>eventType.split('.')\<close>; a part that is missing prints as \<open>undefined\<close>.\<close>

fun split_dots :: "ustring \<Rightarrow> ustring list" where
  "split_dots [] = [[]]"
| "split_dots (c # cs) =
     (if c = 46 then [] # split_dots cs
      else (case split_dots cs of [] \<Rightarrow> [[c]] | p # ps \<Rightarrow> (c # p) # ps))"

definition part :: "ustring list \<Rightarrow> nat \<Rightarrow> ustring" where
  "part ps i = (if i < length ps then ps ! i else units ''undefined'')"

definition consumer_name :: "ustring \<Rightarrow> ustring" where
  "consumer_name eventType =
     (let ps = split_dots eventType in
      units ''webhook-projection.'' @ part ps 0 @ units ''-'' @ part ps 1 @ units ''.'' @ part ps 2)"

section \<open>The table\<close>

record inbox_row =
  in_consumer :: ustring
  in_message :: ustring
  in_event_type :: ustring
  in_schema :: int
  in_sha :: string
  in_correlation :: ustring
  in_received :: int
  in_completed :: int

record inbox_world = payments_world +
  inbox_messages :: "inbox_row list"

definition inbox_consumers :: "(string \<times> string list) list" where
  "inbox_consumers =
     [(''payment.created.v1'', [''webhook-projection.payment-created.v1'']),
      (''payment.captured.v1'',
        [''webhook-projection.payment-captured.v1'', ''settlement-projection.payment-captured.v1'']),
      (''payment.refunded.v1'',
        [''webhook-projection.payment-refunded.v1'', ''settlement-projection.payment-refunded.v1'']),
      (''settlement.finalized.v1'', [''webhook-projection.settlement-finalized.v1'']),
      (''reconciliation.completed.v1'', [''webhook-projection.reconciliation-completed.v1''])]"

text \<open>
  The \<open>CHECK\<close>s by name, in the order PostgreSQL tests them; those on the two names alone follow from the
  pairs and never speak.
\<close>

definition inbox_check :: "inbox_row \<Rightarrow> string option" where
  "inbox_check r =
     (if in_completed r < in_received r then Some ''inbox_messages_completion_order_check''
      else if \<not> list_ex (\<lambda>(t, names). in_event_type r = units t \<and> in_consumer r \<in> units ` set names) inbox_consumers
      then Some ''inbox_messages_consumer_event_match_check''
      else if \<not> text_matches is_request_id (in_correlation r) then Some ''inbox_messages_correlation_id_check''
      else if \<not> text_matches (has_ulid_prefix ''evt'') (in_message r) then Some ''inbox_messages_message_id_format_check''
      else if length (in_sha r) \<noteq> 32 then Some ''inbox_messages_payload_sha256_length_check''
      else if in_schema r \<noteq> 1 then Some ''inbox_messages_schema_version_check''
      else None)"

definition inbox_key :: "inbox_row \<Rightarrow> ustring \<times> ustring" where
  "inbox_key r = (in_consumer r, in_message r)"

text \<open>\<open>INSERT ... ON CONFLICT DO NOTHING RETURNING\<close>: whether a row was inserted.\<close>

definition insert_inbox_row :: "inbox_row \<Rightarrow> ('a inbox_world_scheme, error, bool) comp" where
  "insert_inbox_row r = (\<lambda>w.
     case inbox_check r of
       Some c \<Rightarrow> raise_constraint c w
     | None \<Rightarrow>
        if inbox_key r \<in> inbox_key ` set (inbox_messages w) then (Inr False, w)
        else (Inr True, w\<lparr>inbox_messages := inbox_messages w @ [r]\<rparr>))"

section \<open>\<open>PrismaInboxRepository\<close>\<close>

datatype reservation = Reserved | Existing inbox_row

definition reserve :: "env \<Rightarrow> inbox_row \<Rightarrow> ('a inbox_world_scheme, error, reservation) comp" where
  "reserve E input =
     bindc (stmt E (insert_inbox_row input)) (\<lambda>inserted.
     if inserted then ok Reserved
     else bindc (stmt E (gets (\<lambda>w. List.find (\<lambda>r. inbox_key r = inbox_key input) (inbox_messages w)))) (\<lambda>record.
       case record of
         None \<Rightarrow> throw (PlainE ''Inbox conflict did not expose the existing completed message'')
       | Some r \<Rightarrow> ok (Existing r)))"

text \<open>The operation gets \<open>processedAt\<close>, the database clock read inside the transaction.\<close>

definition with_serializable_transaction ::
  "env \<Rightarrow> ('a world_scheme \<Rightarrow> 'a world_scheme \<Rightarrow> string option) \<Rightarrow>
   (int \<Rightarrow> ('a world_scheme, error, 'r) comp) \<Rightarrow> ('a world_scheme, error, 'r) comp"
where
  "with_serializable_transaction E D operation =
     catch
       (transaction E D
         (bindc (set_transaction_timeouts E) (\<lambda>_. bindc (set_transaction_timeouts E) (\<lambda>_.
          bindc (stmt E (read_clock E)) operation))))
       (rethrow_database_error E)"

section \<open>\<open>InboxService\<close>\<close>

datatype 'r inbox_result = Duplicate | Processed 'r

definition inbox_input :: "domain_message \<Rightarrow> ustring \<Rightarrow> int \<Rightarrow> inbox_row" where
  "inbox_input m consumer processedAt =
     \<lparr>in_consumer = consumer, in_message = message_event_id m, in_event_type = message_event_type m, in_schema = 1,
      in_sha = message_sha m, in_correlation = message_request m, in_received = processedAt, in_completed = processedAt\<rparr>"

definition same_message :: "inbox_row \<Rightarrow> domain_message \<Rightarrow> ustring \<Rightarrow> bool" where
  "same_message r m consumer \<longleftrightarrow>
     in_consumer r = consumer \<and> in_message r = message_event_id m \<and> in_event_type r = message_event_type m \<and>
     in_schema r = 1 \<and> in_correlation r = message_request m \<and> in_sha r = message_sha m"

definition inbox_operation ::
  "env \<Rightarrow> domain_message \<Rightarrow> ustring \<Rightarrow> (int \<Rightarrow> ('a inbox_world_scheme, error, 'r) comp) \<Rightarrow>
   int \<Rightarrow> ('a inbox_world_scheme, error, 'r inbox_result) comp"
where
  "inbox_operation E m consumer effect processedAt =
     bindc (reserve E (inbox_input m consumer processedAt)) (\<lambda>reservation.
     case reservation of
       Existing r \<Rightarrow>
         if same_message r m consumer then ok Duplicate else throw (EventingE InboxMessageConflictError)
     | Reserved \<Rightarrow> bindc (effect processedAt) (\<lambda>value. ok (Processed value)))"

text \<open>The delay between two attempts; the world moves on while it passes.\<close>

definition inbox_sleep :: "jitter \<Rightarrow> nat \<Rightarrow> ('a world_scheme, error, int) comp" where
  "inbox_sleep J attempt = (\<lambda>w. (Inr (full_jitter_backoff (jt_float J) (int attempt) 10 100 (jt_random J (tick w))), bump w))"

text \<open>The retry loop: \<open>n\<close> attempts are left, the next one is number \<open>attempt\<close>.\<close>

fun inbox_attempts ::
  "jitter \<Rightarrow> nat \<Rightarrow> nat \<Rightarrow> ('a world_scheme, error, 'r) comp \<Rightarrow> ('a world_scheme, error, 'r) comp"
where
  "inbox_attempts J attempt 0 m = throw (EventingE MessageTransactionRetryExhaustedError)"
| "inbox_attempts J attempt (Suc n) m =
     catch m (\<lambda>e.
       if \<not> is_retryable_transaction_error e then throw e
       else if n = 0 then throw (EventingE MessageTransactionRetryExhaustedError)
       else bindc (inbox_sleep J attempt) (\<lambda>_. inbox_attempts J (Suc attempt) n m))"

definition process_for_consumer ::
  "env \<Rightarrow> jitter \<Rightarrow> ('a inbox_world_scheme \<Rightarrow> 'a inbox_world_scheme \<Rightarrow> string option) \<Rightarrow> nat \<Rightarrow>
   domain_message \<Rightarrow> ustring \<Rightarrow> (int \<Rightarrow> ('a inbox_world_scheme, error, 'r) comp) \<Rightarrow>
   ('a inbox_world_scheme, error, 'r inbox_result) comp"
where
  "process_for_consumer E J D retryAttempts m consumer effect =
     inbox_attempts J 1 retryAttempts (with_serializable_transaction E D (inbox_operation E m consumer effect))"

definition inbox_process ::
  "env \<Rightarrow> jitter \<Rightarrow> ('a inbox_world_scheme \<Rightarrow> 'a inbox_world_scheme \<Rightarrow> string option) \<Rightarrow> nat \<Rightarrow>
   domain_message \<Rightarrow> (int \<Rightarrow> ('a inbox_world_scheme, error, 'r) comp) \<Rightarrow>
   ('a inbox_world_scheme, error, 'r inbox_result) comp"
where
  "inbox_process E J D retryAttempts m effect =
     process_for_consumer E J D retryAttempts m (consumer_name (message_event_type m)) effect"

end
