(* ===== verification/Webhook_Store.thy ===== *)
theory Webhook_Store imports Inbox begin

text \<open>
  The tables of the webhooks module and their constraints (migrations \<open>webhook_endpoint_foundation\<close>,
  \<open>payment_created_webhook_projection_consumer\<close>, \<open>signed_webhook_delivery_and_retries\<close>,
  \<open>payment_capture_and_refunds\<close> and \<open>settlements_and_reconciliation\<close>).
\<close>

section \<open>Rows\<close>

datatype endpoint_status = Endpoint_active | Endpoint_inactive

record endpoint_row =
  we_id :: string
  we_public_id :: string
  we_merchant :: string
  we_url :: ustring
  we_status :: endpoint_status
  we_subscriptions :: "string list"
  we_version :: nat

datatype secret_lifecycle = Current_secret | Previous_secret | Retired_secret

text \<open>The encrypted material (algorithm, key, nonce, ciphertext and tag) is opaque: \<open>ws_sealed\<close>.\<close>

record secret_row =
  ws_endpoint :: string
  ws_version :: nat
  ws_lifecycle :: secret_lifecycle
  ws_overlap :: "int option"
  ws_sealed :: "nat list"

record event_row =
  wv_event :: ustring
  wv_event_type :: ustring
  wv_schema :: int
  wv_merchant :: ustring
  wv_aggregate_id :: ustring
  wv_aggregate_type :: string
  wv_payment :: "ustring option"
  wv_amount :: "int option"
  wv_currency :: "currency option"
  wv_payment_status :: "string option"
  wv_refund :: "ustring option"
  wv_ledger_tx :: "ustring option"
  wv_available_on :: "int option"
  wv_cumulative :: "int option"
  wv_occurred :: int
  wv_request :: ustring
  wv_bytes :: "nat list"
  wv_sha :: string
  wv_projected :: int

datatype delivery_status = Pending | Retrying | Delivered | Dead_lettered

record delivery_row =
  wd_id :: string
  wd_public_id :: string
  wd_merchant :: ustring
  wd_endpoint :: string
  wd_event :: ustring
  wd_status :: delivery_status
  wd_attempts :: nat
  wd_next :: "int option"
  wd_created :: int
  wd_locked_by :: "string option"
  wd_token :: "string option"
  wd_locked_at :: "int option"
  wd_lease :: "int option"
  wd_active :: "nat option"
  wd_active_started :: "int option"
  wd_active_timestamp :: "int option"
  wd_active_current :: "nat option"
  wd_active_previous :: "nat option"
  wd_delivered_at :: "int option"
  wd_dead_at :: "int option"

datatype attempt_outcome = Attempt_delivered | Attempt_retryable | Attempt_non_retryable | Attempt_unknown

record attempt_row =
  wa_id :: string
  wa_delivery :: string
  wa_number :: nat
  wa_outcome :: attempt_outcome
  wa_started :: int
  wa_completed :: int
  wa_duration :: int
  wa_status :: "int option"
  wa_error :: "string option"
  wa_sha :: "string option"
  wa_truncated :: bool
  wa_signature :: "string option"
  wa_timestamp :: "int option"
  wa_current :: "nat option"
  wa_previous :: "nat option"

record webhook_world = inbox_world +
  webhook_endpoints :: "endpoint_row list"
  webhook_secrets :: "secret_row list"
  webhook_events :: "event_row list"
  webhook_deliveries :: "delivery_row list"
  webhook_attempts :: "attempt_row list"

section \<open>Projected events\<close>

definition is_null :: "'x option \<Rightarrow> sql_bool" where
  "is_null x = Some (x = None)"

definition not_null :: "'x option \<Rightarrow> sql_bool" where
  "not_null x = Some (x \<noteq> None)"

definition payment_fields :: "event_row \<Rightarrow> string \<Rightarrow> sql_bool list" where
  "payment_fields r t =
     [Some (wv_event_type r = units t), Some (wv_aggregate_type r = ''payment_intent''),
      sql_rel (=) (wv_payment r) (Some (wv_aggregate_id r)), not_null (wv_payment r), not_null (wv_amount r),
      not_null (wv_currency r)]"

definition operational_fields :: "event_row \<Rightarrow> string \<Rightarrow> string \<Rightarrow> string \<Rightarrow> sql_bool" where
  "operational_fields r t aggregate p = sql_all
     [Some (wv_event_type r = units t), Some (wv_aggregate_type r = aggregate),
      Some (text_matches (has_ulid_prefix p) (wv_aggregate_id r)), is_null (wv_payment r), is_null (wv_amount r),
      is_null (wv_currency r), is_null (wv_payment_status r), is_null (wv_refund r), is_null (wv_ledger_tx r),
      is_null (wv_available_on r), is_null (wv_cumulative r)]"

definition event_fields :: "event_row \<Rightarrow> sql_bool" where
  "event_fields r = sql_any
     [sql_all (payment_fields r ''payment.created.v1'' @
        [sql_rel (=) (wv_payment_status r) (Some ''CREATED''), is_null (wv_refund r), is_null (wv_ledger_tx r),
         is_null (wv_available_on r), is_null (wv_cumulative r)]),
      sql_all (payment_fields r ''payment.captured.v1'' @
        [is_null (wv_payment_status r), is_null (wv_refund r),
         map_option (text_matches (has_ulid_prefix ''ltx'')) (wv_ledger_tx r),
         sql_rel (=) (wv_available_on r) (Some (wv_occurred r)), is_null (wv_cumulative r)]),
      sql_all (payment_fields r ''payment.refunded.v1'' @
        [is_null (wv_payment_status r), map_option (text_matches (has_ulid_prefix ''rf'')) (wv_refund r),
         map_option (text_matches (has_ulid_prefix ''ltx'')) (wv_ledger_tx r), is_null (wv_available_on r),
         sql_rel (\<le>) (wv_amount r) (wv_cumulative r), map_option (\<lambda>c. c \<le> max_safe_integer) (wv_cumulative r)]),
      operational_fields r ''settlement.finalized.v1'' ''settlement_batch'' ''stb'',
      operational_fields r ''reconciliation.completed.v1'' ''reconciliation_import'' ''rec'']"

definition event_check :: "event_row \<Rightarrow> string option" where
  "event_check r =
     (if sql_refuses (map_option (\<lambda>a. 1 \<le> a \<and> a \<le> max_safe_integer) (wv_amount r))
      then Some ''webhook_event_projections_amount_minor_check''
      else if sql_refuses (event_fields r) then Some ''webhook_event_projections_event_fields_check''
      else if \<not> text_matches (has_ulid_prefix ''evt'') (wv_event r)
      then Some ''webhook_event_projections_event_id_format_check''
      else if length (wv_bytes r) < 1 \<or> 16384 < length (wv_bytes r)
      then Some ''webhook_event_projections_payload_bytes_length_check''
      else if length (wv_sha r) \<noteq> 32 then Some ''webhook_event_projections_payload_sha256_length_check''
      else if sql_refuses (map_option (text_matches (has_ulid_prefix ''pi'')) (wv_payment r))
      then Some ''webhook_event_projections_payment_id_format_check''
      else if wv_projected r < wv_occurred r then Some ''webhook_event_projections_projection_order_check''
      else if \<not> text_matches is_request_id (wv_request r) then Some ''webhook_event_projections_request_id_check''
      else if wv_schema r \<noteq> 1 then Some ''webhook_event_projections_schema_version_check''
      else None)"

text \<open>The merchant is a UUID column: what is stored is read back in lower case. The contract lets only UUIDs in.\<close>

definition stored_event :: "event_row \<Rightarrow> event_row" where
  "stored_event r = r\<lparr>wv_merchant := uuid_text (wv_merchant r)\<rparr>"

definition insert_event_row :: "event_row \<Rightarrow> ('a webhook_world_scheme, error, unit) comp" where
  "insert_event_row r = (\<lambda>w.
     case event_check r of
       Some c \<Rightarrow> raise_constraint c w
     | None \<Rightarrow>
        if wv_event r \<in> wv_event ` set (webhook_events w) then raise_constraint ''webhook_event_projections_pkey'' w
        else (Inr (), w\<lparr>webhook_events := webhook_events w @ [stored_event r]\<rparr>))"

section \<open>Deliveries\<close>

definition worker_name :: "string \<Rightarrow> bool" where
  "worker_name s \<longleftrightarrow> is_request_id s"

definition claim_fields :: "delivery_row \<Rightarrow> sql_bool" where
  "claim_fields r = sql_any
     [sql_all [is_null (wd_locked_by r), is_null (wd_token r), is_null (wd_locked_at r), is_null (wd_lease r)],
      sql_all [not_null (wd_locked_by r), map_option worker_name (wd_locked_by r), not_null (wd_token r),
               not_null (wd_locked_at r), sql_rel (<) (wd_locked_at r) (wd_lease r)]]"

definition active_fields :: "delivery_row \<Rightarrow> sql_bool" where
  "active_fields r = sql_any
     [sql_all [is_null (wd_active r), is_null (wd_active_started r), is_null (wd_active_timestamp r),
               is_null (wd_active_current r), is_null (wd_active_previous r)],
      sql_all [not_null (wd_token r), sql_rel (=) (wd_active r) (Some (wd_attempts r)),
               map_option (\<lambda>n. 1 \<le> n \<and> n \<le> 7) (wd_active r), not_null (wd_active_started r),
               map_option (\<lambda>t. 0 < t) (wd_active_timestamp r), map_option (\<lambda>v. 1 \<le> v) (wd_active_current r),
               sql_any [is_null (wd_active_previous r),
                        sql_all [map_option (\<lambda>v. 1 \<le> v) (wd_active_previous r),
                                 sql_rel (<) (wd_active_previous r) (wd_active_current r)]]]]"

definition state_fields :: "delivery_row \<Rightarrow> sql_bool" where
  "state_fields r = sql_any
     [sql_all [Some (wd_status r = Pending), is_null (wd_delivered_at r), is_null (wd_dead_at r),
        sql_any [sql_all [is_null (wd_active r), Some (wd_attempts r = 0), not_null (wd_next r)],
                 sql_all [sql_rel (=) (wd_active r) (Some 1), Some (wd_attempts r = 1), not_null (wd_next r)]]],
      sql_all [Some (wd_status r = Retrying), is_null (wd_delivered_at r), is_null (wd_dead_at r),
        sql_any [sql_all [is_null (wd_active r), Some (1 \<le> wd_attempts r \<and> wd_attempts r \<le> 6), not_null (wd_next r)],
                 sql_all [sql_rel (=) (wd_active r) (Some (wd_attempts r)), Some (2 \<le> wd_attempts r \<and> wd_attempts r \<le> 7),
                   sql_any [sql_all [Some (wd_attempts r < 7), not_null (wd_next r)],
                            sql_all [Some (wd_attempts r = 7), is_null (wd_next r)]]]]],
      sql_all [Some (wd_status r = Delivered), Some (1 \<le> wd_attempts r \<and> wd_attempts r \<le> 7), is_null (wd_next r),
        not_null (wd_delivered_at r), is_null (wd_dead_at r), is_null (wd_token r), is_null (wd_active r)],
      sql_all [Some (wd_status r = Dead_lettered), Some (1 \<le> wd_attempts r \<and> wd_attempts r \<le> 7), is_null (wd_next r),
        is_null (wd_delivered_at r), not_null (wd_dead_at r), is_null (wd_token r), is_null (wd_active r)]]"

definition delivery_check :: "delivery_row \<Rightarrow> string option" where
  "delivery_check r =
     (if sql_refuses (active_fields r) then Some ''webhook_deliveries_active_attempt_fields_check''
      else if 7 < wd_attempts r then Some ''webhook_deliveries_attempt_count_check''
      else if sql_refuses (claim_fields r) then Some ''webhook_deliveries_claim_fields_check''
      else if \<not> has_ulid_prefix ''whd'' (wd_public_id r) then Some ''webhook_deliveries_public_id_format_check''
      else if sql_refuses (state_fields r) then Some ''webhook_deliveries_state_fields_check''
      else None)"

definition delivery_unique :: "delivery_row list \<Rightarrow> delivery_row \<Rightarrow> string option" where
  "delivery_unique rows r =
     (if wd_id r \<in> wd_id ` set rows then Some ''webhook_deliveries_pkey''
      else if wd_public_id r \<in> wd_public_id ` set rows then Some ''webhook_deliveries_public_id_key''
      else if (wd_endpoint r, wd_event r) \<in> (\<lambda>q. (wd_endpoint q, wd_event q)) ` set rows
      then Some ''webhook_deliveries_endpoint_id_event_id_key''
      else None)"

definition stored_delivery :: "delivery_row \<Rightarrow> delivery_row" where
  "stored_delivery r = r\<lparr>wd_merchant := uuid_text (wd_merchant r)\<rparr>"

definition insert_delivery_row :: "delivery_row \<Rightarrow> ('a webhook_world_scheme, error, unit) comp" where
  "insert_delivery_row r = (\<lambda>w.
     case delivery_check r of
       Some c \<Rightarrow> raise_constraint c w
     | None \<Rightarrow>
        (case delivery_unique (webhook_deliveries w) r of
           Some c \<Rightarrow> raise_constraint c w
         | None \<Rightarrow> (Inr (), w\<lparr>webhook_deliveries := webhook_deliveries w @ [stored_delivery r]\<rparr>)))"

definition update_deliveries ::
  "(delivery_row \<Rightarrow> bool) \<Rightarrow> (delivery_row \<Rightarrow> delivery_row) \<Rightarrow> ('a webhook_world_scheme, error, nat) comp"
where
  "update_deliveries p f = (\<lambda>w.
     case first_violation delivery_check (map f (filter p (webhook_deliveries w))) of
       Some c \<Rightarrow> raise_constraint c w
     | None \<Rightarrow> (Inr (count_where p (webhook_deliveries w)),
               w\<lparr>webhook_deliveries := update_where p f (webhook_deliveries w)\<rparr>))"

section \<open>Attempts\<close>

definition between :: "int \<Rightarrow> int \<Rightarrow> int option \<Rightarrow> sql_bool" where
  "between lo hi x = map_option (\<lambda>v. lo \<le> v \<and> v \<le> hi) x"

definition error_code_text :: "string \<Rightarrow> bool" where
  "error_code_text s \<longleftrightarrow> 1 \<le> length s \<and> length s \<le> 64 \<and>
     list_all (\<lambda>c. char_in 97 122 c \<or> is_digit c \<or> c = CHR ''_'') s"

definition outcome_shape :: "attempt_row \<Rightarrow> sql_bool" where
  "outcome_shape r = sql_any
     [sql_all [Some (wa_outcome r = Attempt_delivered), between 200 299 (wa_status r), is_null (wa_error r),
        sql_rel (=) (wa_signature r) (Some ''v1'')],
      sql_all [Some (wa_outcome r = Attempt_retryable), not_null (wa_error r),
        sql_any [is_null (wa_status r), map_option (\<lambda>s. s = 408 \<or> s = 429) (wa_status r), between 500 599 (wa_status r)],
        sql_rel (=) (wa_signature r) (Some ''v1'')],
      sql_all [Some (wa_outcome r = Attempt_non_retryable), not_null (wa_error r),
        sql_any [is_null (wa_status r), between 300 407 (wa_status r), between 409 428 (wa_status r),
                 between 430 499 (wa_status r)],
        sql_any [sql_rel (=) (wa_signature r) (Some ''v1''),
                 sql_all [sql_rel (=) (wa_error r) (Some ''endpoint_inactive''), is_null (wa_signature r)]]],
      sql_all [Some (wa_outcome r = Attempt_unknown), is_null (wa_status r),
        sql_rel (=) (wa_error r) (Some ''lease_expired_unknown''), sql_rel (=) (wa_signature r) (Some ''v1'')]]"

definition response_evidence :: "attempt_row \<Rightarrow> sql_bool" where
  "response_evidence r = sql_any
     [sql_all [is_null (wa_status r), is_null (wa_sha r), Some (\<not> wa_truncated r)],
      sql_all [not_null (wa_status r),
        sql_any [sql_all [Some (wa_truncated r), is_null (wa_sha r)],
                 sql_all [Some (\<not> wa_truncated r), not_null (wa_sha r)]]]]"

definition signature_fields :: "attempt_row \<Rightarrow> sql_bool" where
  "signature_fields r = sql_any
     [sql_all [is_null (wa_signature r), is_null (wa_timestamp r), is_null (wa_current r), is_null (wa_previous r)],
      sql_all [sql_rel (=) (wa_signature r) (Some ''v1''), map_option (\<lambda>t. 0 < t) (wa_timestamp r),
        map_option (\<lambda>v. 1 \<le> v) (wa_current r),
        sql_any [is_null (wa_previous r),
                 sql_all [map_option (\<lambda>v. 1 \<le> v) (wa_previous r), sql_rel (<) (wa_previous r) (wa_current r)]]]]"

definition attempt_check :: "attempt_row \<Rightarrow> string option" where
  "attempt_check r =
     (if \<not> (1 \<le> wa_number r \<and> wa_number r \<le> 7) then Some ''webhook_delivery_attempts_attempt_number_check''
      else if wa_completed r < wa_started r then Some ''webhook_delivery_attempts_completion_order_check''
      else if \<not> (0 \<le> wa_duration r \<and> wa_duration r \<le> 30000) then Some ''webhook_delivery_attempts_duration_ms_check''
      else if sql_refuses (map_option error_code_text (wa_error r)) then Some ''webhook_delivery_attempts_error_code_check''
      else if sql_refuses (between 100 599 (wa_status r)) then Some ''webhook_delivery_attempts_http_status_check''
      else if sql_refuses (outcome_shape r) then Some ''webhook_delivery_attempts_outcome_shape_check''
      else if sql_refuses (response_evidence r) then Some ''webhook_delivery_attempts_response_evidence_check''
      else if sql_refuses (map_option (\<lambda>s. length s = 32) (wa_sha r))
      then Some ''webhook_delivery_attempts_response_sha256_check''
      else if sql_refuses (signature_fields r) then Some ''webhook_delivery_attempts_signature_fields_check''
      else None)"

definition insert_attempt_row :: "attempt_row \<Rightarrow> ('a webhook_world_scheme, error, unit) comp" where
  "insert_attempt_row r = (\<lambda>w.
     case attempt_check r of
       Some c \<Rightarrow> raise_constraint c w
     | None \<Rightarrow>
        if wa_id r \<in> wa_id ` set (webhook_attempts w) then raise_constraint ''webhook_delivery_attempts_pkey'' w
        else if (wa_delivery r, wa_number r) \<in> (\<lambda>q. (wa_delivery q, wa_number q)) ` set (webhook_attempts w)
        then raise_constraint ''webhook_delivery_attempts_delivery_id_attempt_number_key'' w
        else (Inr (), w\<lparr>webhook_attempts := webhook_attempts w @ [r]\<rparr>))"

end
