(* ===== verification/Webhook_Projection.thy ===== *)
theory Webhook_Projection imports Webhook_Store "HOL-Library.List_Lexorder" "HOL-Library.Char_ord" begin

text \<open>
  The webhook consumer: \<open>PaymentCreatedWebhookProjectionService\<close>
  (\<open>payment-created-webhook-projection.service.ts\<close>), \<open>PrismaWebhookProjectionRepository\<close>
  (\<open>prisma-webhook-projection.repository.ts\<close>) and \<open>processMessage\<close> of
  \<open>RabbitMqPaymentCreatedConsumer\<close> (\<open>rabbitmq-payment-created.consumer.ts\<close>).
\<close>

section \<open>The projected event\<close>

text \<open>\<open>String(event['batchId'])\<close> of a settlement event, \<open>String(event['importId'])\<close> of a reconciliation event.\<close>

fun message_aggregate :: "domain_message \<Rightarrow> ustring" where
  "message_aggregate (PaymentMessage m) = units (fst (aggregate_of (vm_event m)))"
| "message_aggregate (OperationalMessage m) =
     (if vo_event_type m = units ''settlement.finalized.v1'' then js_string (obj_get (vo_payload m) ''batchId'')
      else js_string (obj_get (vo_payload m) ''importId''))"

definition common_event_row :: "domain_message \<Rightarrow> int \<Rightarrow> event_row" where
  "common_event_row m projectedAt =
     \<lparr>wv_event = message_event_id m, wv_event_type = message_event_type m, wv_schema = 1, wv_merchant = message_merchant m,
      wv_aggregate_id = message_aggregate m, wv_aggregate_type = ''payment_intent'', wv_payment = None, wv_amount = None,
      wv_currency = None, wv_payment_status = None, wv_refund = None, wv_ledger_tx = None, wv_available_on = None,
      wv_cumulative = None, wv_occurred = message_occurred m, wv_request = message_request m,
      wv_bytes = message_bytes m, wv_sha = message_sha m, wv_projected = projectedAt\<rparr>"

definition payment_event_row :: "domain_message \<Rightarrow> int \<Rightarrow> 'e payment_event_base_scheme \<Rightarrow> event_row" where
  "payment_event_row m projectedAt e =
     (common_event_row m projectedAt)
       \<lparr>wv_aggregate_id := units (pe_payment e), wv_payment := Some (units (pe_payment e)), wv_currency := Some (pe_currency e)\<rparr>"

fun payment_projection_input :: "domain_event \<Rightarrow> domain_message \<Rightarrow> int \<Rightarrow> event_row" where
  "payment_projection_input (PaymentCreated e) m projectedAt =
     (payment_event_row m projectedAt e)\<lparr>wv_amount := Some (pce_amount e), wv_payment_status := Some ''CREATED''\<rparr>"
| "payment_projection_input (PaymentCaptured e) m projectedAt =
     (payment_event_row m projectedAt e)
       \<lparr>wv_amount := Some (pcap_amount e), wv_available_on := Some (pcap_available_on e),
        wv_ledger_tx := Some (units (pcap_ledger_tx e))\<rparr>"
| "payment_projection_input (PaymentRefunded e) m projectedAt =
     (payment_event_row m projectedAt e)
       \<lparr>wv_amount := Some (prf_amount e), wv_cumulative := Some (prf_cumulative e),
        wv_ledger_tx := Some (units (prf_ledger_tx e)), wv_refund := Some (units (prf_refund e))\<rparr>"
| "payment_projection_input e m projectedAt = common_event_row m projectedAt"

fun projection_input :: "domain_message \<Rightarrow> int \<Rightarrow> event_row" where
  "projection_input (PaymentMessage m) projectedAt = payment_projection_input (vm_event m) (PaymentMessage m) projectedAt"
| "projection_input (OperationalMessage m) projectedAt =
     (common_event_row (OperationalMessage m) projectedAt)
       \<lparr>wv_aggregate_type := (if vo_event_type m = units ''settlement.finalized.v1'' then ''settlement_batch''
                              else ''reconciliation_import'')\<rparr>"

definition common_matches :: "event_row \<Rightarrow> domain_message \<Rightarrow> bool" where
  "common_matches r m \<longleftrightarrow>
     wv_event r = message_event_id m \<and> wv_event_type r = message_event_type m \<and> wv_schema r = 1 \<and>
     wv_merchant r = message_merchant m \<and> wv_aggregate_id r = message_aggregate m \<and>
     wv_occurred r = message_occurred m \<and> wv_request r = message_request m \<and>
     wv_bytes r = message_bytes m \<and> wv_sha r = message_sha m"

definition payment_matches :: "event_row \<Rightarrow> 'e payment_event_base_scheme \<Rightarrow> bool" where
  "payment_matches r e \<longleftrightarrow> wv_payment r = Some (units (pe_payment e)) \<and> wv_currency r = Some (pe_currency e)"

fun payment_event_matches :: "event_row \<Rightarrow> domain_event \<Rightarrow> bool" where
  "payment_event_matches r (PaymentCreated e) \<longleftrightarrow> payment_matches r e \<and>
     wv_amount r = Some (pce_amount e) \<and> wv_payment_status r = Some ''CREATED''"
| "payment_event_matches r (PaymentCaptured e) \<longleftrightarrow> payment_matches r e \<and>
     wv_amount r = Some (pcap_amount e) \<and> wv_available_on r = Some (pcap_available_on e) \<and>
     wv_ledger_tx r = Some (units (pcap_ledger_tx e))"
| "payment_event_matches r (PaymentRefunded e) \<longleftrightarrow> payment_matches r e \<and>
     wv_amount r = Some (prf_amount e) \<and> wv_cumulative r = Some (prf_cumulative e) \<and>
     wv_refund r = Some (units (prf_refund e)) \<and> wv_ledger_tx r = Some (units (prf_ledger_tx e))"
| "payment_event_matches r e \<longleftrightarrow> True"

fun event_matches :: "event_row \<Rightarrow> domain_message \<Rightarrow> bool" where
  "event_matches r (PaymentMessage m) \<longleftrightarrow> common_matches r (PaymentMessage m) \<and> payment_event_matches r (vm_event m)"
| "event_matches r (OperationalMessage m) \<longleftrightarrow> common_matches r (OperationalMessage m)"

section \<open>\<open>PrismaWebhookProjectionRepository\<close>\<close>

definition find_event :: "env \<Rightarrow> ustring \<Rightarrow> ('a webhook_world_scheme, error, event_row option) comp" where
  "find_event E eventId = stmt E (gets (\<lambda>w. List.find (\<lambda>r. wv_event r = eventId) (webhook_events w)))"

text \<open>The filter compares UUID columns: the message's merchant may be written in either case.\<close>

definition eligible_endpoints :: "ustring \<Rightarrow> ustring \<Rightarrow> endpoint_row list \<Rightarrow> string list" where
  "eligible_endpoints merchant eventType rows =
     map we_id (sort_key we_id
       (filter (\<lambda>r. uuid_text (units (we_merchant r)) = uuid_text merchant \<and> we_status r = Endpoint_active \<and>
                   eventType \<in> units ` set (we_subscriptions r)) rows))"

definition find_eligible_endpoint_ids ::
  "env \<Rightarrow> ustring \<Rightarrow> ustring \<Rightarrow> ('a webhook_world_scheme, error, string list) comp"
where
  "find_eligible_endpoint_ids E merchant eventType =
     stmt E (gets (\<lambda>w. eligible_endpoints merchant eventType (webhook_endpoints w)))"

text \<open>The delivery that the projection creates for an endpoint.\<close>

definition new_delivery_row :: "domain_message \<Rightarrow> int \<Rightarrow> string \<Rightarrow> string \<Rightarrow> string \<Rightarrow> delivery_row" where
  "new_delivery_row m projectedAt endpoint i publicId =
     \<lparr>wd_id = i, wd_public_id = publicId, wd_merchant = message_merchant m, wd_endpoint = endpoint,
      wd_event = message_event_id m, wd_status = Pending, wd_attempts = 0, wd_next = Some projectedAt,
      wd_created = projectedAt, wd_locked_by = None, wd_token = None, wd_locked_at = None, wd_lease = None,
      wd_active = None, wd_active_started = None, wd_active_timestamp = None, wd_active_current = None,
      wd_active_previous = None, wd_delivered_at = None, wd_dead_at = None\<rparr>"

definition create_projection_error :: "error \<Rightarrow> ('a world_scheme, error, 'r) comp" where
  "create_projection_error e =
     (case find_database_constraint e of
        Some c \<Rightarrow>
          if c = ''webhook_deliveries_public_id_key'' \<or> c = ''public_id'' \<or> c = ''publicId''
          then throw (WebhookE WebhookDeliveryIdentifierCollisionError) else throw e
      | None \<Rightarrow> throw e)"

text \<open>\<open>createMany\<close> is one statement: its rows are inserted one by one, all or none by the transaction.\<close>

definition create_projection ::
  "env \<Rightarrow> event_row \<Rightarrow> delivery_row list \<Rightarrow> ('a webhook_world_scheme, error, unit) comp"
where
  "create_projection E event deliveries =
     catch
       (bindc (stmt E (insert_event_row event)) (\<lambda>_.
        if deliveries = [] then ok () else stmt E (for_each insert_delivery_row deliveries)))
       create_projection_error"

section \<open>\<open>PaymentCreatedWebhookProjectionService\<close>\<close>

record projection_result =
  pr_already :: bool
  pr_deliveries :: nat

definition plan_delivery ::
  "env \<Rightarrow> domain_message \<Rightarrow> int \<Rightarrow> string \<Rightarrow> ('a world_scheme, error, delivery_row) comp"
where
  "plan_delivery E m projectedAt endpoint =
     bindc (new_uuid E) (\<lambda>i. bindc (new_ulid E projectedAt) (\<lambda>u.
     ok (new_delivery_row m projectedAt endpoint i (''whd_'' @ u))))"

definition project ::
  "env \<Rightarrow> domain_message \<Rightarrow> int \<Rightarrow> ('a webhook_world_scheme, error, projection_result) comp"
where
  "project E m projectedAt =
     bindc (find_event E (message_event_id m)) (\<lambda>existing.
     case existing of
       Some r \<Rightarrow>
         if event_matches r m then ok \<lparr>pr_already = True, pr_deliveries = 0\<rparr>
         else throw (WebhookE WebhookEventProjectionConflictError)
     | None \<Rightarrow>
        bindc (find_eligible_endpoint_ids E (message_merchant m) (message_event_type m)) (\<lambda>endpoints.
        bindc (map_comp (plan_delivery E m projectedAt) endpoints) (\<lambda>deliveries.
        bindc (create_projection E (projection_input m projectedAt) deliveries) (\<lambda>_.
        ok \<lparr>pr_already = False, pr_deliveries = length deliveries\<rparr>))))"

definition no_deferred :: "'w \<Rightarrow> 'w \<Rightarrow> string option" where
  "no_deferred w w' = None"

text \<open>\<open>handle\<close>: three attempts to find unused delivery identifiers.\<close>

definition handle_message ::
  "env \<Rightarrow> jitter \<Rightarrow> nat \<Rightarrow> domain_message \<Rightarrow> ('a webhook_world_scheme, error, projection_result inbox_result) comp"
where
  "handle_message E J retryAttempts m =
     attempts 3 (\<lambda>e. e = WebhookE WebhookDeliveryIdentifierCollisionError)
       (\<lambda>_. WebhookE WebhookDeliveryIdentifierGenerationExhaustedError)
       (WebhookE WebhookDeliveryIdentifierGenerationExhaustedError)
       (inbox_process E J no_deferred retryAttempts m (project E m))"

section \<open>\<open>processMessage\<close>\<close>

text \<open>
  What becomes of a message: acknowledged, rejected into the dead-letter queue with a code, or left
  unacknowledged by closing the channel, so that the broker delivers it again.
\<close>

datatype disposition = Acked | Dead_letter string | Redelivered string

text \<open>\<open>PermanentMessageProcessingError\<close> and its subclasses, with their code.\<close>

fun permanent_code :: "error \<Rightarrow> string option" where
  "permanent_code (EventingE e) = eventing_error_code e"
| "permanent_code (WebhookE WebhookDeliveryIdentifierGenerationExhaustedError) =
     Some ''webhook_delivery_identifier_generation_exhausted''"
| "permanent_code (WebhookE WebhookEventProjectionConflictError) =
     Some ''webhook_event_projection_identity_conflict''"
| "permanent_code e = None"

definition is_operational_type :: "amqp_message \<Rightarrow> bool" where
  "is_operational_type raw \<longleftrightarrow>
     is_literal (am_type raw) ''settlement.finalized.v1'' \<or> is_literal (am_type raw) ''reconciliation.completed.v1''"

definition validate_message ::
  "(nat list \<Rightarrow> string) \<Rightarrow> (ustring \<Rightarrow> int option) \<Rightarrow> amqp_message \<Rightarrow> nat \<Rightarrow> contract_error + domain_message"
where
  "validate_message sha date_parse raw limit =
     (if is_operational_type raw then map_sum id OperationalMessage (validate_operational sha date_parse raw limit)
      else map_sum id PaymentMessage (validate_payment_event sha raw limit))"

text \<open>The errors of a message's contract are dead-lettered with their code; any other closes the channel.\<close>

fun contract_failure_code :: "contract_failure \<Rightarrow> string" where
  "contract_failure_code amqp_metadata_invalid = ''amqp_metadata_invalid''"
| "contract_failure_code message_body_invalid = ''message_body_invalid''"
| "contract_failure_code message_body_too_large = ''message_body_too_large''"
| "contract_failure_code message_encoding_invalid = ''message_encoding_invalid''"
| "contract_failure_code message_schema_unsupported = ''message_schema_unsupported''"

fun contract_code :: "contract_error \<Rightarrow> string option" where
  "contract_code (PaymentCreatedMessageContractError f) = Some (contract_failure_code f)"
| "contract_code (PaymentLifecycleMessageContractError f) = Some (contract_failure_code f)"
| "contract_code OperationalEventContractError = Some ''operational_event_invalid''"
| "contract_code e = None"

fun failure_disposition :: "error \<Rightarrow> disposition" where
  "failure_disposition e =
     (case permanent_code e of
        Some c \<Rightarrow> Dead_letter c
      | None \<Rightarrow> if e = DatabaseUnavailableError \<or> is_database_unavailable e then Redelivered ''postgresql_unavailable''
               else Redelivered ''processing_failed'')"

text \<open>
  The channel that delivered the message is still the consumer's own here. A consumer that has lost its
  channel meanwhile settles nothing on it, and the broker delivers the message again.
\<close>

definition process_message ::
  "env \<Rightarrow> jitter \<Rightarrow> (nat list \<Rightarrow> string) \<Rightarrow> (ustring \<Rightarrow> int option) \<Rightarrow> nat \<Rightarrow> nat \<Rightarrow> amqp_message \<Rightarrow>
   ('a webhook_world_scheme, error, disposition) comp"
where
  "process_message E J sha date_parse limit retryAttempts raw =
     (case validate_message sha date_parse raw limit of
        Inl e \<Rightarrow> ok (case contract_code e of Some c \<Rightarrow> Dead_letter c | None \<Rightarrow> Redelivered ''validation_failed'')
      | Inr m \<Rightarrow>
         catch (bindc (handle_message E J retryAttempts m) (\<lambda>_. ok Acked)) (\<lambda>e. ok (failure_disposition e)))"

end
