(* ===== verification/Inbox_Laws.thy ===== *)
theory Inbox_Laws imports Inbox Idempotency_Laws Relay_Steps begin

text \<open>
  The inbox's promise to a consumer, for any effect that leaves the inbox itself alone: whatever fails on the
  way, the effect is applied once, together with the row that records the message, or nothing changes.
\<close>

section \<open>What a call may do\<close>

definition recorded :: "inbox_row list \<Rightarrow> domain_message \<Rightarrow> ustring \<Rightarrow> bool" where
  "recorded rows m consumer \<longleftrightarrow> (\<exists>r \<in> set rows. same_message r m consumer)"

lemma set_inbox_same_db:
  fixes w w' :: "'a inbox_world_scheme"
  assumes "same_db w w'"
  shows "inbox_messages w' = inbox_messages w" "same_db (w\<lparr>inbox_messages := rows\<rparr>) (w'\<lparr>inbox_messages := rows\<rparr>)"
proof -
  have "world.more w' = world.more w" using assms by (simp add: same_db_iff)
  then show "inbox_messages w' = inbox_messages w" "same_db (w\<lparr>inbox_messages := rows\<rparr>) (w'\<lparr>inbox_messages := rows\<rparr>)"
    by (cases w; cases w'; simp add: same_db_iff)+
qed

text \<open>The effect ran once, after the message's new row, and both were committed.\<close>

definition applied ::
  "(int \<Rightarrow> ('a inbox_world_scheme, error, 'r) comp) \<Rightarrow> domain_message \<Rightarrow> ustring \<Rightarrow>
   'a inbox_world_scheme \<Rightarrow> 'a inbox_world_scheme \<Rightarrow> 'r \<Rightarrow> bool"
where
  "applied effect m consumer w w' v \<longleftrightarrow> (\<exists>now w0 w1.
     (consumer, message_event_id m) \<notin> inbox_key ` set (inbox_messages w) \<and>
     same_db (w\<lparr>inbox_messages := inbox_messages w @ [inbox_input m consumer now]\<rparr>) w0 \<and>
     effect now w0 = (Inr v, w1) \<and> same_db w1 w')"

text \<open>
  The three ways a call may end: without a trace, without a trace because the message was recorded before,
  or with the effect applied once (the answer then may be lost: an error, or a duplicate after a retry).
\<close>

definition once ::
  "(int \<Rightarrow> ('a inbox_world_scheme, error, 'r) comp) \<Rightarrow> domain_message \<Rightarrow> ustring \<Rightarrow>
   'a inbox_world_scheme \<Rightarrow> error + 'r inbox_result \<Rightarrow> 'a inbox_world_scheme \<Rightarrow> bool"
where
  "once effect m consumer w r w' \<longleftrightarrow>
     (same_db w w' \<and> ((\<exists>e. r = Inl e) \<or> (r = Inr Duplicate \<and> recorded (inbox_messages w) m consumer))) \<or>
     (\<exists>v. applied effect m consumer w w' v \<and> (r = Inr (Processed v) \<or> r = Inr Duplicate \<or> (\<exists>e. r = Inl e)))"

lemma applied_same_db:
  assumes "same_db w w2" and "applied effect m consumer w2 w' v"
  shows "applied effect m consumer w w' v"
proof -
  obtain now w0 w1 where a: "(consumer, message_event_id m) \<notin> inbox_key ` set (inbox_messages w2)"
    "same_db (w2\<lparr>inbox_messages := inbox_messages w2 @ [inbox_input m consumer now]\<rparr>) w0"
    "effect now w0 = (Inr v, w1)" "same_db w1 w'"
    using assms(2) unfolding applied_def by blast
  note rows = set_inbox_same_db(1)[OF assms(1)]
  have "same_db (w\<lparr>inbox_messages := inbox_messages w @ [inbox_input m consumer now]\<rparr>) w0"
    using set_inbox_same_db(2)[OF assms(1)] a(2)[unfolded rows] by (rule same_db_trans)
  then show ?thesis using a(1)[unfolded rows] a(3,4) unfolding applied_def by blast
qed

lemma applied_same_db': "applied effect m consumer w w1 v \<Longrightarrow> same_db w1 w' \<Longrightarrow> applied effect m consumer w w' v"
  unfolding applied_def by (metis same_db_trans)

lemma once_same_db:
  assumes "same_db w w2" and "once effect m consumer w2 r w'"
  shows "once effect m consumer w r w'"
proof -
  note rows = set_inbox_same_db(1)[OF assms(1)]
  from assms(2) consider "same_db w2 w'" "(\<exists>e. r = Inl e) \<or> (r = Inr Duplicate \<and> recorded (inbox_messages w) m consumer)"
    | v where "applied effect m consumer w2 w' v" "r = Inr (Processed v) \<or> r = Inr Duplicate \<or> (\<exists>e. r = Inl e)"
    unfolding once_def rows by blast
  then show ?thesis
  proof cases
    case 1
    then show ?thesis using same_db_trans[OF assms(1)] unfolding once_def by blast
  next
    case (2 v)
    have "applied effect m consumer w w' v" by (rule applied_same_db[OF assms(1) 2(1)])
    then show ?thesis using 2(2) unfolding once_def by blast
  qed
qed

section \<open>Reservation and the operation\<close>

lemma inbox_input_key: "inbox_key (inbox_input m consumer now) = (consumer, message_event_id m)"
  by (simp add: inbox_key_def inbox_input_def)

lemma reserve_Inr:
  fixes w :: "'a inbox_world_scheme"
  assumes "reserve E input w = (Inr x, w')"
  shows "(x = Reserved \<and> inbox_key input \<notin> inbox_key ` set (inbox_messages w) \<and>
      same_db (w\<lparr>inbox_messages := inbox_messages w @ [input]\<rparr>) w') \<or>
    (\<exists>r \<in> set (inbox_messages w). x = Existing r \<and> same_db w w')"
proof -
  obtain b w1 where ins: "stmt E (insert_inbox_row input) w = (Inr b, w1)"
    and rest: "(if b then ok Reserved
       else bindc (stmt E (gets (\<lambda>w. List.find (\<lambda>r. inbox_key r = inbox_key input) (inbox_messages w)))) (\<lambda>record.
         case record of None \<Rightarrow> throw (PlainE ''Inbox conflict did not expose the existing completed message'')
         | Some r \<Rightarrow> ok (Existing r))) w1 = (Inr x, w')"
    using assms unfolding reserve_def bindc_Inr by blast
  have i: "insert_inbox_row input (bump w) = (Inr b, w1)" using ins unfolding stmt_Inr by blast
  have t: "inbox_messages (bump w) = inbox_messages w" by (simp add: bump_def)
  show ?thesis
  proof (cases b)
    case True
    then have "inbox_key input \<notin> inbox_key ` set (inbox_messages w)"
      "w1 = (bump w)\<lparr>inbox_messages := inbox_messages w @ [input]\<rparr>"
      using i by (auto simp: insert_inbox_row_def raise_constraint_def throw_def t split: option.splits if_splits)
    then show ?thesis using True rest set_inbox_same_db(2)[OF same_db_bump(1)] by (auto simp: ok_def)
  next
    case False
    then have w1: "w1 = bump w"
      using i by (auto simp: insert_inbox_row_def raise_constraint_def throw_def split: option.splits if_splits)
    have "bindc (stmt E (gets (\<lambda>w. List.find (\<lambda>r. inbox_key r = inbox_key input) (inbox_messages w)))) (\<lambda>record.
         case record of None \<Rightarrow> throw (PlainE ''Inbox conflict did not expose the existing completed message'')
         | Some r \<Rightarrow> ok (Existing r)) w1 = (Inr x, w')"
      using rest False by simp
    then obtain rec w2 where f: "stmt E (gets (\<lambda>w. List.find (\<lambda>r. inbox_key r = inbox_key input) (inbox_messages w))) w1 = (Inr rec, w2)"
      and k: "(case rec of None \<Rightarrow> throw (PlainE ''Inbox conflict did not expose the existing completed message'')
         | Some r \<Rightarrow> ok (Existing r)) w2 = (Inr x, w')"
      unfolding bindc_Inr by blast
    have found: "rec = List.find (\<lambda>r. inbox_key r = inbox_key input) (inbox_messages w)" "w2 = bump w1"
      using f unfolding stmt_Inr w1 by (simp_all add: gets_def bump_def)
    obtain r where r: "rec = Some r" "x = Existing r" "w' = w2"
      using k by (cases rec) (auto simp: throw_def ok_def)
    have "r \<in> set (inbox_messages w)" using find_Some_in found(1) r(1) by metis
    moreover have "same_db w w'" unfolding r(3) found(2) w1 by (rule same_db_trans[OF same_db_bump(1) same_db_bump(1)])
    ultimately show ?thesis using r(2) by blast
  qed
qed

lemma operation_Inr:
  fixes w :: "'a inbox_world_scheme"
  assumes "inbox_operation E m consumer effect now w = (Inr x, w')"
  shows "(x = Duplicate \<and> same_db w w' \<and> recorded (inbox_messages w) m consumer) \<or>
    (\<exists>v. x = Processed v \<and> applied effect m consumer w w' v)"
proof -
  obtain rv w1 where res: "reserve E (inbox_input m consumer now) w = (Inr rv, w1)"
    and rest: "(case rv of Existing r \<Rightarrow>
         if same_message r m consumer then ok Duplicate else throw (EventingE InboxMessageConflictError)
     | Reserved \<Rightarrow> bindc (effect now) (\<lambda>value. ok (Processed value))) w1 = (Inr x, w')"
    using assms unfolding inbox_operation_def bindc_Inr by blast
  show ?thesis
  proof (cases rv)
    case (Existing r)
    then have "r \<in> set (inbox_messages w)" "same_db w w1" using reserve_Inr[OF res] by auto
    moreover have "same_message r m consumer" "x = Duplicate" "w' = w1"
      using rest Existing by (auto simp: ok_def throw_def split: if_splits)
    ultimately show ?thesis by (auto simp: recorded_def)
  next
    case Reserved
    then have row: "(consumer, message_event_id m) \<notin> inbox_key ` set (inbox_messages w)"
      "same_db (w\<lparr>inbox_messages := inbox_messages w @ [inbox_input m consumer now]\<rparr>) w1"
      using reserve_Inr[OF res] unfolding inbox_input_key by auto
    obtain v where "effect now w1 = (Inr v, w')" "x = Processed v"
      using rest unfolding Reserved reservation.case bindc_Inr ok_def by blast
    then show ?thesis using row same_db_refl unfolding applied_def by blast
  qed
qed

lemma serializable_effect:
  fixes w :: "'a world_scheme"
  assumes "with_serializable_transaction E D op w = (r, w')"
  shows "(same_db w w' \<and> (\<exists>e. r = Inl e)) \<or>
    (\<exists>now w0 x w1. same_db w w0 \<and> op now w0 = (Inr x, w1) \<and> D w w1 = None \<and> same_db w1 w' \<and> (r = Inr x \<or> (\<exists>e. r = Inl e)))"
proof -
  let ?body = "bindc (set_transaction_timeouts E) (\<lambda>_. bindc (set_transaction_timeouts E) (\<lambda>_. bindc (stmt E (read_clock E)) op))"
  obtain rt wt where t: "transaction E D ?body w = (rt, wt)" by fastforce
  have after: "same_db wt w' \<and> (r = rt \<or> (\<exists>e. r = Inl e \<and> (\<exists>e'. rt = Inl e')))"
  proof (cases rt)
    case (Inl e)
    then have re: "rethrow_database_error E e wt = (r, w')" using assms t by (simp add: with_serializable_transaction_def catch_def)
    then show ?thesis using rethrow_same_db[OF re] rethrow_cases[OF re] Inl by auto
  next
    case (Inr x)
    then show ?thesis using assms t by (simp add: with_serializable_transaction_def catch_def)
  qed
  from transaction_atomic[OF t] show ?thesis
  proof
    assume "same_db w wt \<and> (\<exists>e. rt = Inl e)"
    then show ?thesis using after same_db_trans by blast
  next
    assume "\<exists>x w1. ?body (begin_txn E w) = (Inr x, w1) \<and> D w w1 = None \<and> wt = bump w1 \<and> (rt = Inr x \<or> (\<exists>f. rt = Inl (DbE f)))"
    then obtain x w1 where b: "?body (begin_txn E w) = (Inr x, w1)" and d: "D w w1 = None" "wt = bump w1"
      and rt: "rt = Inr x \<or> (\<exists>f. rt = Inl (DbE f))" by blast
    obtain wb where wb: "same_db (begin_txn E w) wb" "bindc (stmt E (read_clock E)) op wb = (Inr x, w1)"
      using timeouts_then[OF b] by blast
    obtain now wc where s: "stmt E (read_clock E) wb = (Inr now, wc)" and op: "op now wc = (Inr x, w1)"
      using wb(2) unfolding bindc_Inr by blast
    have "same_db wb wc" using s by (auto simp: stmt_Inr read_clock_def same_db_iff bump_def)
    then have "same_db w wc" using wb(1) same_db_begin same_db_trans by blast
    moreover have "same_db w1 w'" using after d(2) by (auto simp: same_db_bump_trans)
    ultimately show ?thesis using op d(1) rt after by blast
  qed
qed

section \<open>The interface of an effect\<close>

locale inbox_effect =
  fixes effect :: "int \<Rightarrow> ('a inbox_world_scheme, error, 'r) comp"
  assumes keeps_inbox: "effect now w = (Inr v, w1) \<Longrightarrow> inbox_messages w1 = inbox_messages w"
begin

lemma transaction_once:
  assumes "with_serializable_transaction E D (inbox_operation E m consumer effect) w = (r, w')"
  shows "once effect m consumer w r w'"
  using serializable_effect[OF assms]
proof
  assume "\<exists>now w0 x w1. same_db w w0 \<and> inbox_operation E m consumer effect now w0 = (Inr x, w1) \<and> D w w1 = None \<and>
    same_db w1 w' \<and> (r = Inr x \<or> (\<exists>e. r = Inl e))"
  then obtain now w0 x w1 where w0: "same_db w w0" and op: "inbox_operation E m consumer effect now w0 = (Inr x, w1)"
    and w1: "same_db w1 w'" and r: "r = Inr x \<or> (\<exists>e. r = Inl e)" by blast
  from operation_Inr[OF op] have "once effect m consumer w0 r w'"
    using r w1 same_db_trans applied_same_db' unfolding once_def by metis
  then show ?thesis by (rule once_same_db[OF w0])
qed (auto simp: once_def)

lemma applied_recorded:
  assumes "applied effect m consumer w w' v"
  shows "recorded (inbox_messages w') m consumer" "(consumer, message_event_id m) \<in> inbox_key ` set (inbox_messages w')"
proof -
  obtain now w0 w1 where a: "same_db (w\<lparr>inbox_messages := inbox_messages w @ [inbox_input m consumer now]\<rparr>) w0"
    "effect now w0 = (Inr v, w1)" "same_db w1 w'"
    using assms unfolding applied_def by blast
  have "inbox_messages w' = inbox_messages w @ [inbox_input m consumer now]"
    using keeps_inbox[OF a(2)] set_inbox_same_db(1)[OF a(3)] set_inbox_same_db(1)[OF a(1)] by simp
  then show "recorded (inbox_messages w') m consumer" "(consumer, message_event_id m) \<in> inbox_key ` set (inbox_messages w')"
    using inbox_input_key[of m consumer now] by (auto simp: recorded_def same_message_def inbox_input_def)
qed

text \<open>A failed attempt that left its mark makes every later one a repetition.\<close>

lemma once_then:
  assumes "once effect m consumer w (Inl e) w1" and "same_db w1 w2" and "once effect m consumer w2 r w'"
  shows "once effect m consumer w r w'"
proof (cases "\<exists>v. applied effect m consumer w w1 v")
  case False
  then have "same_db w w1" using assms(1) by (auto simp: once_def)
  then show ?thesis using once_same_db same_db_trans assms(2,3) by blast
next
  case True
  then obtain v where v: "applied effect m consumer w w1 v" by blast
  then have "(consumer, message_event_id m) \<in> inbox_key ` set (inbox_messages w2)"
    using applied_recorded(2) set_inbox_same_db(1)[OF assms(2)] by simp
  then have "same_db w2 w'" "(\<exists>e. r = Inl e) \<or> r = Inr Duplicate"
    using assms(3) by (auto simp: once_def applied_def)
  then show ?thesis using applied_same_db'[OF v] same_db_trans[OF assms(2)] unfolding once_def by blast
qed

lemma once_refl: "once effect m consumer w (Inl e) w"
  by (simp add: once_def)

lemma inbox_attempts_once:
  assumes "inbox_attempts J k n (with_serializable_transaction E D (inbox_operation E m consumer effect)) w = (r, w')"
  shows "once effect m consumer w r w'"
  using assms
proof (induction n arbitrary: k w r w')
  case 0
  then show ?case by (auto simp: throw_def once_refl)
next
  case (Suc n)
  obtain r1 w1 where t: "with_serializable_transaction E D (inbox_operation E m consumer effect) w = (r1, w1)" by fastforce
  note first = transaction_once[OF t]
  show ?case
  proof (cases r1)
    case (Inr x)
    then show ?thesis using Suc.prems t first by (simp add: catch_def)
  next
    case (Inl e)
    consider "\<not> is_retryable_transaction_error e" | "is_retryable_transaction_error e" "n = 0"
      | "is_retryable_transaction_error e" "n \<noteq> 0" by blast
    then show ?thesis
    proof cases
      case 1
      then show ?thesis using Suc.prems t first Inl by (simp add: catch_def throw_def)
    next
      case 2
      then have "r = Inl (EventingE MessageTransactionRetryExhaustedError)" "w' = w1"
        using Suc.prems t Inl by (simp_all add: catch_def throw_def)
      then show ?thesis using first Inl by (auto simp: once_def)
    next
      case 3
      then have "inbox_attempts J (Suc k) n (with_serializable_transaction E D (inbox_operation E m consumer effect)) (bump w1) = (r, w')"
        using Suc.prems t Inl by (simp add: catch_def bindc_def inbox_sleep_def)
      from Suc.IH[OF this] show ?thesis using once_then[OF first[unfolded Inl] same_db_bump(1)] by blast
    qed
  qed
qed

lemma process_once:
  "process_for_consumer E J D n m consumer effect w = (r, w') \<Longrightarrow> once effect m consumer w r w'"
  unfolding process_for_consumer_def by (rule inbox_attempts_once)

lemma attempts_once:
  assumes "\<And>w r w'. M w = (r, w') \<Longrightarrow> once effect m consumer w r w'"
    and "attempts n again exhausted spent M w = (r, w')"
  shows "once effect m consumer w r w'"
  using assms(2)
proof (induction n arbitrary: w r w')
  case 0
  then show ?case by (auto simp: throw_def once_refl)
next
  case (Suc n)
  obtain r1 w1 where t: "M w = (r1, w1)" by fastforce
  note first = assms(1)[OF t]
  show ?case
  proof (cases r1)
    case (Inr x)
    then show ?thesis using Suc.prems t first by (simp add: catch_def)
  next
    case (Inl e)
    show ?thesis
    proof (cases "again e \<and> n \<noteq> 0")
      case True
      then have "attempts n again exhausted spent M w1 = (r, w')" using Suc.prems t Inl by (simp add: catch_def)
      from Suc.IH[OF this] show ?thesis using once_then[OF first[unfolded Inl] same_db_refl] by blast
    next
      case False
      then have "\<exists>e'. r = Inl e'" "w' = w1" using Suc.prems t Inl by (auto simp: catch_def throw_def split: if_splits)
      then show ?thesis using first Inl by (auto simp: once_def)
    qed
  qed
qed

lemma recorded_after:
  assumes "once effect m consumer w (Inr x) w'"
  shows "recorded (inbox_messages w') m consumer"
  using assms applied_recorded(1) set_inbox_same_db(1) unfolding once_def by fastforce

end

end
