(* ===== verification/Webhook_Consumer.thy ===== *)
theory Webhook_Consumer imports Webhook_Projection Inbox_Laws Contracts_Roundtrip begin

text \<open>
  What a webhook message does to the database, from its bytes to its acknowledgement.
\<close>

section \<open>The effect of a projection\<close>

lemma bindc_InrE:
  assumes "bindc m f w = (Inr x, w')"
  obtains y w1 where "m w = (Inr y, w1)" and "f y w1 = (Inr x, w')"
  using assms unfolding bindc_Inr by blast

lemma webhook_same_db:
  fixes w w' :: "'a webhook_world_scheme"
  assumes "same_db w w'"
  shows "webhook_endpoints w' = webhook_endpoints w" "webhook_events w' = webhook_events w"
    "webhook_deliveries w' = webhook_deliveries w" "inbox_messages w' = inbox_messages w"
    "webhook_attempts w' = webhook_attempts w" "webhook_secrets w' = webhook_secrets w"
proof -
  have "world.more w' = world.more w" using assms by (simp add: same_db_iff)
  then show "webhook_endpoints w' = webhook_endpoints w" "webhook_events w' = webhook_events w"
    "webhook_deliveries w' = webhook_deliveries w" "inbox_messages w' = inbox_messages w"
    "webhook_attempts w' = webhook_attempts w" "webhook_secrets w' = webhook_secrets w"
    by (cases w; cases w'; simp)+
qed

lemma plan_deliveries:
  assumes "map_comp (plan_delivery E m now) endpoints w = (Inr ds, w')"
  shows "same_db w w' \<and> map wd_endpoint ds = endpoints \<and>
    (\<forall>d \<in> set ds. \<exists>i p. d = new_delivery_row m now (wd_endpoint d) i p)"
  using assms
proof (induction endpoints arbitrary: w ds)
  case Nil
  then show ?case by (simp add: ok_def)
next
  case (Cons e endpoints)
  obtain d w1 ds' where d: "plan_delivery E m now e w = (Inr d, w1)"
    and ds: "map_comp (plan_delivery E m now) endpoints w1 = (Inr ds', w')" and eq: "ds = d # ds'"
    using Cons.prems unfolding map_comp.simps bindc_Inr ok_def by blast
  have "d = new_delivery_row m now e (env_uuid E (tick w)) (''whd_'' @ env_ulid E now (tick (bump w)))" "same_db w w1"
    using d same_db_trans[OF same_db_bump(1) same_db_bump(1)]
    by (auto simp: plan_delivery_def bindc_def new_uuid_def new_ulid_def ok_def)
  moreover have "wd_endpoint (new_delivery_row m now e i p) = e" for i p by (simp add: new_delivery_row_def)
  ultimately show ?case using Cons.IH[OF ds] same_db_trans unfolding eq by auto
qed

abbreviation set_deliveries :: "delivery_row list \<Rightarrow> 'a webhook_world_scheme \<Rightarrow> 'a webhook_world_scheme" where
  "set_deliveries ds w \<equiv> w\<lparr>webhook_deliveries := ds\<rparr>"

lemma insert_deliveries:
  fixes w :: "'a webhook_world_scheme"
  assumes "for_each insert_delivery_row ds w = (Inr u, w')"
  shows "w' = set_deliveries (webhook_deliveries w @ map stored_delivery ds) w"
  using assms
proof (induction ds arbitrary: w)
  case Nil
  then show ?case by (simp add: ok_def)
next
  case (Cons d ds)
  obtain w1 u1 where d: "insert_delivery_row d w = (Inr u1, w1)" and rest: "for_each insert_delivery_row ds w1 = (Inr u, w')"
    using Cons.prems by (auto simp: bindc_Inr)
  have "w1 = set_deliveries (webhook_deliveries w @ [stored_delivery d]) w"
    using d by (auto simp: insert_delivery_row_def raise_constraint_def throw_def split: option.splits)
  then show ?case using Cons.IH[OF rest] by simp
qed

text \<open>What a projection leaves: the event and a pending delivery for every eligible endpoint, once.\<close>

definition projected_once :: "domain_message \<Rightarrow> int \<Rightarrow> 'a webhook_world_scheme \<Rightarrow> 'a webhook_world_scheme \<Rightarrow> bool" where
  "projected_once m now w w' \<longleftrightarrow>
     (webhook_events w' = webhook_events w \<and> webhook_deliveries w' = webhook_deliveries w \<and>
      (\<exists>r \<in> set (webhook_events w). wv_event r = message_event_id m \<and> event_matches r m)) \<or>
     (webhook_events w' = webhook_events w @ [stored_event (projection_input m now)] \<and>
      (\<exists>ds. webhook_deliveries w' = webhook_deliveries w @ map stored_delivery ds \<and>
        map wd_endpoint ds = eligible_endpoints (message_merchant m) (message_event_type m) (webhook_endpoints w) \<and>
        (\<forall>d \<in> set ds. \<exists>i p. d = new_delivery_row m now (wd_endpoint d) i p)))"

lemma create_projection_Inr:
  fixes w :: "'a webhook_world_scheme"
  assumes "create_projection E event ds w = (Inr u, w')"
  shows "same_db (w\<lparr>webhook_events := webhook_events w @ [stored_event event],
      webhook_deliveries := webhook_deliveries w @ map stored_delivery ds\<rparr>) w'"
proof -
  obtain u1 w1 where ins: "stmt E (insert_event_row event) w = (Inr u1, w1)"
    and rest: "(if ds = [] then ok () else stmt E (for_each insert_delivery_row ds)) w1 = (Inr u, w')"
    using assms unfolding create_projection_def create_projection_error_def
    by (auto simp: catch_def throw_def bindc_Inr split: prod.splits sum.splits option.splits if_splits)
  have i: "insert_event_row event (bump w) = (Inr u1, w1)" using ins unfolding stmt_Inr by blast
  have w1: "w1 = (bump w)\<lparr>webhook_events := webhook_events w @ [stored_event event]\<rparr>"
    using i webhook_same_db(2)[OF same_db_bump(1), of w]
    by (auto simp: insert_event_row_def raise_constraint_def throw_def split: option.splits if_splits)
  show ?thesis
  proof (cases "ds = []")
    case True
    then have "w' = w1" using rest by (simp add: ok_def)
    then show ?thesis using True w1 by (cases w) (simp add: same_db_iff bump_def)
  next
    case False
    then have "for_each insert_delivery_row ds (bump w1) = (Inr u, w')" using rest unfolding if_not_P[OF False] stmt_Inr by simp
    then have "w' = set_deliveries (webhook_deliveries (bump w1) @ map stored_delivery ds) (bump w1)" by (rule insert_deliveries)
    then show ?thesis using w1 by (cases w) (simp add: same_db_iff bump_def)
  qed
qed

lemma project_effect:
  fixes w :: "'a webhook_world_scheme"
  assumes "project E m now w = (Inr v, w')"
  shows "projected_once m now w w' \<and> inbox_messages w' = inbox_messages w \<and> webhook_endpoints w' = webhook_endpoints w"
proof -
  obtain found w1 where f: "find_event E (message_event_id m) w = (Inr found, w1)"
    and rest: "(case found of
       Some r \<Rightarrow> if event_matches r m then ok \<lparr>pr_already = True, pr_deliveries = 0\<rparr>
                else throw (WebhookE WebhookEventProjectionConflictError)
     | None \<Rightarrow>
        bindc (find_eligible_endpoint_ids E (message_merchant m) (message_event_type m)) (\<lambda>endpoints.
        bindc (map_comp (plan_delivery E m now) endpoints) (\<lambda>deliveries.
        bindc (create_projection E (projection_input m now) deliveries) (\<lambda>_.
        ok \<lparr>pr_already = False, pr_deliveries = length deliveries\<rparr>)))) w1 = (Inr v, w')"
    using assms unfolding project_def bindc_Inr by blast
  have s1: "w1 = bump w" and found: "found = List.find (\<lambda>r. wv_event r = message_event_id m) (webhook_events w)"
    using f webhook_same_db(2)[OF same_db_bump(1), of w] by (auto simp: find_event_def stmt_Inr gets_def)
  show ?thesis
  proof (cases found)
    case (Some r)
    then have "event_matches r m" "w' = w1" using rest by (auto simp: ok_def throw_def split: if_splits)
    moreover have "r \<in> set (webhook_events w)" "wv_event r = message_event_id m"
      using found[symmetric] Some by (auto simp: find_Some_iff)
    ultimately show ?thesis using webhook_same_db[OF same_db_bump(1), of w] s1 by (auto simp: projected_once_def)
  next
    case None
    obtain endpoints w2 where e: "find_eligible_endpoint_ids E (message_merchant m) (message_event_type m) w1 = (Inr endpoints, w2)"
      and rest2: "bindc (map_comp (plan_delivery E m now) endpoints) (\<lambda>deliveries.
        bindc (create_projection E (projection_input m now) deliveries) (\<lambda>_.
        ok \<lparr>pr_already = False, pr_deliveries = length deliveries\<rparr>)) w2 = (Inr v, w')"
      using rest unfolding None option.case by (rule bindc_InrE)
    obtain ds w3 where d: "map_comp (plan_delivery E m now) endpoints w2 = (Inr ds, w3)"
      and rest3: "bindc (create_projection E (projection_input m now) ds) (\<lambda>_.
        ok \<lparr>pr_already = False, pr_deliveries = length ds\<rparr>) w3 = (Inr v, w')"
      using rest2 by (rule bindc_InrE)
    obtain u where c: "create_projection E (projection_input m now) ds w3 = (Inr u, w')"
      using rest3 by (auto simp: bindc_Inr ok_def)
    have s2: "w2 = bump w1" and el: "endpoints = eligible_endpoints (message_merchant m) (message_event_type m) (webhook_endpoints w)"
      using e webhook_same_db(1)[OF same_db_bump(1), of w1] webhook_same_db(1)[OF same_db_bump(1), of w] s1
      by (auto simp: find_eligible_endpoint_ids_def stmt_Inr gets_def)
    have s3: "same_db w w3"
      using plan_deliveries[OF d] same_db_trans[OF same_db_bump(1)] unfolding s1 s2 by blast
    show ?thesis
      using webhook_same_db[OF create_projection_Inr[OF c]] webhook_same_db[OF s3] plan_deliveries[OF d] el
      by (auto simp: projected_once_def)
  qed
qed

text \<open>The projection is an effect as the inbox wants it.\<close>

interpretation projection: inbox_effect "project E m" for E m
  by unfold_locales (use project_effect in blast)

section \<open>A message\<close>

abbreviation webhook_consumer :: "domain_message \<Rightarrow> ustring" where
  "webhook_consumer m \<equiv> consumer_name (message_event_type m)"

lemma handle_once:
  assumes "handle_message E J n m w = (r, w')"
  shows "once (project E m) m (webhook_consumer m) w r w'"
  using assms unfolding handle_message_def
  by (rule projection.attempts_once[rotated]) (unfold inbox_process_def, rule projection.process_once)

lemma process_message_runs:
  assumes "process_message E J sha date_parse limit n raw w = (r, w')" and "validate_message sha date_parse raw limit = Inr m"
  obtains x where "handle_message E J n m w = (x, w')"
    and "r = Inr (case x of Inr y \<Rightarrow> Acked | Inl e \<Rightarrow> failure_disposition e)"
  using assms
  by (cases "handle_message E J n m w"; cases "fst (handle_message E J n m w)")
    (auto simp: process_message_def catch_def bindc_def ok_def)

lemma failure_not_acked [simp]: "failure_disposition e \<noteq> Acked"
  by (simp split: option.splits)

end
