(* ===== verification/Consumer_Properties.thy ===== *)
theory Consumer_Properties imports Webhook_Consumer Relay_Properties begin

text \<open>
  What the webhook consumer guarantees: a message is projected once, however often it is delivered and
  whatever fails, and it is acknowledged only when that is committed.
\<close>

lemma set_inbox_others:
  fixes w :: "'a webhook_world_scheme"
  assumes "same_db (w\<lparr>inbox_messages := rows\<rparr>) w0"
  shows "webhook_events w0 = webhook_events w" "webhook_deliveries w0 = webhook_deliveries w"
    "webhook_endpoints w0 = webhook_endpoints w" "inbox_messages w0 = rows"
  using webhook_same_db[OF assms] by simp_all

lemma applied_projection:
  fixes w w' :: "'a webhook_world_scheme"
  assumes "applied (project E m) m consumer w w' v"
  shows "\<exists>now. (consumer, message_event_id m) \<notin> inbox_key ` set (inbox_messages w) \<and>
    inbox_messages w' = inbox_messages w @ [inbox_input m consumer now] \<and> projected_once m now w w'"
proof -
  obtain now w0 w1 where a: "(consumer, message_event_id m) \<notin> inbox_key ` set (inbox_messages w)"
    "same_db (w\<lparr>inbox_messages := inbox_messages w @ [inbox_input m consumer now]\<rparr>) w0"
    "project E m now w0 = (Inr v, w1)" "same_db w1 w'"
    using assms unfolding applied_def by blast
  have "projected_once m now w w'"
    using project_effect[OF a(3)] unfolding projected_once_def set_inbox_others[OF a(2)] webhook_same_db[OF a(4)] by blast
  moreover have "inbox_messages w' = inbox_messages w @ [inbox_input m consumer now]"
    using project_effect[OF a(3)] set_inbox_others(4)[OF a(2)] webhook_same_db(4)[OF a(4)] by simp
  ultimately show ?thesis using a(1) by blast
qed

lemma recorded_key: "recorded rows m consumer \<Longrightarrow> (consumer, message_event_id m) \<in> inbox_key ` set rows"
  by (force simp: recorded_def same_message_def inbox_key_def)

section \<open>Once\<close>

text \<open>
  C31: processing a message that the contract accepts ends in an acknowledgement, a rejection or a
  redelivery, and either leaves the database as it is (an acknowledgement then means that the message was
  recorded before), or commits, together, the record of the message, which was absent, and its projection:
  the event with one pending delivery for every active endpoint of the merchant that subscribed to it.
\<close>

theorem webhook_message_once:
  fixes w :: "'a webhook_world_scheme"
  assumes "validate_message sha date_parse raw limit = Inr m"
    and "process_message E J sha date_parse limit n raw w = (r, w')"
  shows "\<exists>d. r = Inr d \<and>
    ((same_db w w' \<and> (d = Acked \<longrightarrow> recorded (inbox_messages w) m (webhook_consumer m))) \<or>
     (\<exists>now. (webhook_consumer m, message_event_id m) \<notin> inbox_key ` set (inbox_messages w) \<and>
       inbox_messages w' = inbox_messages w @ [inbox_input m (webhook_consumer m) now] \<and> projected_once m now w w'))"
proof -
  obtain x where h: "handle_message E J n m w = (x, w')"
    and r: "r = Inr (case x of Inr y \<Rightarrow> Acked | Inl e \<Rightarrow> failure_disposition e)"
    using process_message_runs[OF assms(2,1)] by blast
  from handle_once[OF h] consider
      "same_db w w'" "(\<exists>e. x = Inl e) \<or> (x = Inr Duplicate \<and> recorded (inbox_messages w) m (webhook_consumer m))"
    | v where "applied (project E m) m (webhook_consumer m) w w' v" unfolding once_def by blast
  then show ?thesis
  proof cases
    case 1
    then show ?thesis using r by (auto simp del: failure_disposition.simps)
  next
    case (2 v)
    show ?thesis using applied_projection[OF 2] r by blast
  qed
qed

lemma demo_validates:
  "validate_message (\<lambda>_. replicate 32 CHR ''h'') (\<lambda>_. None) (message_from 1 (PaymentCreated demo_created)) message_limit =
    Inr (PaymentMessage (received (\<lambda>_. replicate 32 CHR ''h'') 1 (PaymentCreated demo_created)))"
proof -
  have "\<not> is_operational_type (message_from 1 (PaymentCreated demo_created))"
    by (simp add: is_operational_type_def)
  moreover have "validate_payment_event (\<lambda>_. replicate 32 CHR ''h'') (message_from 1 (PaymentCreated demo_created)) message_limit =
      Inr (received (\<lambda>_. replicate 32 CHR ''h'') 1 (PaymentCreated demo_created))"
    using validate_payment_from[OF demo_created_ok, of "payment_event_base.truncate demo_created" 1] by simp
  ultimately show ?thesis by (simp add: validate_message_def)
qed

definition hook_env :: env where
  "hook_env = relay_env\<lparr>env_ulid := (\<lambda>t n. ''01ARZ3NDEKTSV4RRFFQ69G5FAV'')\<rparr>"

definition hook_endpoint :: endpoint_row where
  "hook_endpoint = \<lparr>we_id = ''e'', we_public_id = ''whe'', we_merchant = de_merchant demo_created,
     we_url = [], we_status = Endpoint_active, we_subscriptions = [''payment.created.v1''], we_version = 0\<rparr>"

definition hook_start :: "'a webhook_world_scheme \<Rightarrow> bool" where
  "hook_start w \<longleftrightarrow> inbox_messages w = [] \<and> webhook_events w = [] \<and> webhook_deliveries w = [] \<and>
     webhook_endpoints w = [hook_endpoint]"

definition hook_empty :: webhook_world where
  "hook_empty = \<lparr>tick = 0, txn_now = 0, observed = [], ledger_accounts = [], ledger_transactions = [],
     ledger_entries = [], outbox_events = [], idempotency_keys = [], payment_intents = [], refunds = [],
     inbox_messages = [], webhook_endpoints = [hook_endpoint], webhook_secrets = [], webhook_events = [],
     webhook_deliveries = [], webhook_attempts = []\<rparr>"

lemma hook_empty_start: "hook_start hook_empty"
  by (simp add: hook_start_def hook_empty_def)

definition hook_message :: domain_message where
  "hook_message = PaymentMessage (received (\<lambda>_. replicate 32 CHR ''h'') 1 (PaymentCreated demo_created))"

lemma hook_fields:
  "message_event_id hook_message = units ''evt_01ARZ3NDEKTSV4RRFFQ69G5FAV''"
  "message_event_type hook_message = units ''payment.created.v1''"
  "message_merchant hook_message = units ''6f1c7a52-4b0e-4d7b-9c3a-2f5e8d9b1a40''"
  "message_request hook_message = units ''req-1''" "message_occurred hook_message = 951782400123"
  "message_sha hook_message = replicate 32 CHR ''h''" "message_aggregate hook_message = units ''pi_01ARZ3NDEKTSV4RRFFQ69G5FAV''"
  "message_bytes hook_message \<noteq> []" "length (message_bytes hook_message) \<le> 16384"
proof -
  have "message_limit = 16384" by (simp add: message_limit_def)
  then show "length (message_bytes hook_message) \<le> 16384"
    using payload_fits[OF demo_created_ok] by (simp add: hook_message_def received_def)
  obtain ms where "to_payload (PaymentCreated demo_created) = JObj ms" using payload_object by blast
  then have "stringify (to_payload (PaymentCreated demo_created)) \<noteq> []" by (simp add: stringify.simps)
  moreover have "\<forall>u \<in> set (stringify (to_payload (PaymentCreated demo_created))). u < 128"
    using payload_plain[OF demo_created_ok] by (rule stringify_ascii(1))
  ultimately show "message_bytes hook_message \<noteq> []"
    by (simp add: hook_message_def received_def utf8_encode_ascii del: to_payload.simps)
qed (simp_all add: hook_message_def received_def demo_created_def event_base.defs)

abbreviation hook_sha :: "nat list \<Rightarrow> string" where
  "hook_sha \<equiv> \<lambda>_. replicate 32 CHR ''h''"

abbreviation hook_raw :: amqp_message where
  "hook_raw \<equiv> message_from 1 (PaymentCreated demo_created)"

abbreviation hook_process :: "'a webhook_world_scheme \<Rightarrow> (error + disposition) \<times> 'a webhook_world_scheme" where
  "hook_process \<equiv> process_message hook_env relay_jitter hook_sha (\<lambda>_. None) message_limit 3 hook_raw"

lemma hook_validates: "validate_message hook_sha (\<lambda>_. None) hook_raw message_limit = Inr hook_message"
  using demo_validates by (simp add: hook_message_def)

lemma hook_env_simps:
  "env_clock hook_env n = 1780000000000" "env_uuid hook_env n = ''i''" "env_fault hook_env n = None"
  "env_commit hook_env n = Committed" "env_ulid hook_env t n = ''01ARZ3NDEKTSV4RRFFQ69G5FAV''"
  by (simp_all add: hook_env_def relay_env_def)

lemma hook_consumer: "consumer_name (units ''payment.created.v1'') = units ''webhook-projection.payment-created.v1''"
  by (simp add: consumer_name_def units_def comp_def part_def Let_def)

lemma hook_texts:
  "text_matches (has_ulid_prefix ''evt'') (message_event_id hook_message)"
  "text_matches (has_ulid_prefix ''pi'') (units ''pi_01ARZ3NDEKTSV4RRFFQ69G5FAV'')"
  "text_matches is_request_id (message_request hook_message)"
proof -
  have "has_ulid_prefix ''evt'' ''evt_01ARZ3NDEKTSV4RRFFQ69G5FAV''" "has_ulid_prefix ''pi'' ''pi_01ARZ3NDEKTSV4RRFFQ69G5FAV''"
    "is_request_id ''req-1''" by code_simp+
  then show "text_matches (has_ulid_prefix ''evt'') (message_event_id hook_message)"
    "text_matches (has_ulid_prefix ''pi'') (units ''pi_01ARZ3NDEKTSV4RRFFQ69G5FAV'')"
    "text_matches is_request_id (message_request hook_message)"
    unfolding hook_fields by (simp_all add: text_matches_units ascii_name_def)
qed

lemma hook_row_ok: "inbox_check (inbox_input hook_message (webhook_consumer hook_message) 1780000000000) = None"
  using hook_texts by (simp add: inbox_check_def inbox_input_def inbox_consumers_def hook_fields(2,6) hook_consumer)

lemma hook_projection:
  "wv_event (projection_input hook_message t) = message_event_id hook_message"
  "wv_event_type (projection_input hook_message t) = message_event_type hook_message"
  "wv_sha (projection_input hook_message t) = message_sha hook_message"
  "wv_bytes (projection_input hook_message t) = message_bytes hook_message"
  "wv_request (projection_input hook_message t) = message_request hook_message"
  "wv_occurred (projection_input hook_message t) = message_occurred hook_message"
  "wv_projected (projection_input hook_message t) = t" "wv_schema (projection_input hook_message t) = 1"
  "wv_amount (projection_input hook_message t) = Some 2500"
  "wv_payment (projection_input hook_message t) = Some (units ''pi_01ARZ3NDEKTSV4RRFFQ69G5FAV'')"
  by (simp_all add: hook_message_def received_def payment_event_row_def common_event_row_def demo_created_def event_base.defs)

lemma hook_event_fields: "event_fields (projection_input hook_message t) = Some True"
  by (simp add: event_fields_def payment_fields_def sql_all_def sql_any_def sql_rel_def is_null_def not_null_def
      hook_message_def received_def payment_event_row_def common_event_row_def)

lemma hook_event_ok: "event_check (projection_input hook_message 1780000000000) = None"
  using hook_texts hook_fields(8,9)
  by (simp add: event_check_def hook_event_fields hook_projection hook_fields(5,6) max_safe_integer_def sql_refuses_def Suc_le_eq
     del: projection_input.simps)

lemma hook_delivery_ok:
  "delivery_check (new_delivery_row hook_message 1780000000000 ''e'' ''i'' ''whd_01ARZ3NDEKTSV4RRFFQ69G5FAV'') = None"
proof -
  have "has_ulid_prefix ''whd'' ''whd_01ARZ3NDEKTSV4RRFFQ69G5FAV''" by code_simp
  then show ?thesis
    by (simp add: delivery_check_def new_delivery_row_def active_fields_def claim_fields_def state_fields_def is_null_def not_null_def
        sql_any_def sql_all_def sql_rel_def sql_refuses_def)
qed

lemma hook_endpoints:
  "eligible_endpoints (message_merchant hook_message) (message_event_type hook_message) [hook_endpoint] = [''e'']"
  unfolding hook_fields by (simp add: eligible_endpoints_def hook_endpoint_def demo_created_def event_base.defs)

definition hook_delivery :: delivery_row where
  "hook_delivery = stored_delivery (new_delivery_row hook_message 1780000000000 ''e'' ''i'' ''whd_01ARZ3NDEKTSV4RRFFQ69G5FAV'')"

text \<open>The state after the message: its one delivery, and nothing else of the deliveries' tables changed.\<close>

definition hook_after :: "'a webhook_world_scheme \<Rightarrow> 'a webhook_world_scheme \<Rightarrow> bool" where
  "hook_after w w' \<longleftrightarrow> webhook_deliveries w' = [hook_delivery] \<and> webhook_endpoints w' = [hook_endpoint] \<and>
     webhook_secrets w' = webhook_secrets w \<and> webhook_attempts w' = webhook_attempts w"

lemma hook_project:
  fixes w :: "'a webhook_world_scheme"
  assumes "hook_start w0" and "same_db (w0\<lparr>inbox_messages := rows\<rparr>) w"
  shows "\<exists>w'. project hook_env hook_message 1780000000000 w = (Inr \<lparr>pr_already = False, pr_deliveries = 1\<rparr>, w') \<and>
    hook_after w0 w'"
proof -
  have "webhook_events w = []" "webhook_deliveries w = []" "webhook_endpoints w = [hook_endpoint]"
    "webhook_secrets w = webhook_secrets w0" "webhook_attempts w = webhook_attempts w0"
    using webhook_same_db[OF assms(2)] assms(1) by (simp_all add: hook_start_def)
  then show ?thesis using hook_event_ok hook_delivery_ok
    by (simp add: project_def find_event_def find_eligible_endpoint_ids_def create_projection_def plan_delivery_def
        bindc_def stmt_def hook_env_simps gets_def new_uuid_def new_ulid_def catch_def ok_def bump_def hook_endpoints
        insert_event_row_def insert_delivery_row_def delivery_unique_def hook_after_def hook_delivery_def[symmetric]
        del: projection_input.simps)
qed

lemma hook_operation:
  fixes w :: "'a webhook_world_scheme"
  assumes "hook_start w0" and "same_db w0 w"
  shows "\<exists>w'. inbox_operation hook_env hook_message (webhook_consumer hook_message) (project hook_env hook_message) 1780000000000 w =
    (Inr (Processed \<lparr>pr_already = False, pr_deliveries = 1\<rparr>), w') \<and> hook_after w0 w'"
proof -
  let ?row = "inbox_input hook_message (webhook_consumer hook_message) 1780000000000"
  let ?w = "(bump w)\<lparr>inbox_messages := [?row]\<rparr>"
  have rows: "inbox_messages (bump w) = []"
    using webhook_same_db(4)[OF same_db_trans[OF assms(2) same_db_bump(1)]] assms(1) by (simp add: hook_start_def)
  then have "reserve hook_env ?row w = (Inr Reserved, ?w)"
    using hook_row_ok by (simp add: reserve_def bindc_def stmt_def hook_env_simps insert_inbox_row_def ok_def)
  moreover have "same_db (w0\<lparr>inbox_messages := [?row]\<rparr>) ?w"
    using same_db_trans[OF assms(2) same_db_bump(1)] by (rule set_inbox_same_db(2))
  ultimately show ?thesis
    using hook_project[OF assms(1)] by (fastforce simp: inbox_operation_def bindc_def ok_def)
qed

lemma hook_run:
  fixes w :: "'a webhook_world_scheme"
  assumes "hook_start w"
  shows "\<exists>w'. hook_process w = (Inr Acked, w') \<and> hook_after w w'"
proof -
  let ?op = "inbox_operation hook_env hook_message (webhook_consumer hook_message) (project hook_env hook_message)"
  let ?w = "bump (bump (bump (bump (begin_txn hook_env w))))"
  have "same_db w ?w"
    by (rule same_db_trans[OF same_db_begin[of _ hook_env]])
      (meson same_db_bump(1) same_db_trans)
  then obtain w1 where op: "?op 1780000000000 ?w = (Inr (Processed \<lparr>pr_already = False, pr_deliveries = 1\<rparr>), w1)"
    and one: "hook_after w w1" using hook_operation[OF assms] by blast
  then have "with_serializable_transaction hook_env no_deferred ?op w =
      (Inr (Processed \<lparr>pr_already = False, pr_deliveries = 1\<rparr>), bump w1)"
    by (simp add: with_serializable_transaction_def catch_def transaction_def hook_env_simps bindc_def
        set_transaction_timeouts_def stmt_def ok_def read_clock_def no_deferred_def)
  then have "hook_process w = (Inr Acked, bump w1)"
    unfolding process_message_def hook_validates
    by (simp add: handle_message_def inbox_process_def process_for_consumer_def catch_def bindc_def ok_def numeral_eq_Suc)
  moreover have "hook_after w (bump w1)"
    using webhook_same_db[OF same_db_bump(1), of w1] one by (simp add: hook_after_def)
  ultimately show ?thesis by blast
qed

theorem webhook_message_once_witness:
  "\<exists>w' now. hook_process hook_empty = (Inr Acked, w') \<and> projected_once hook_message now hook_empty w'"
proof -
  obtain w' where w': "hook_process hook_empty = (Inr Acked, w')" using hook_run[OF hook_empty_start] by blast
  have "\<not> recorded (inbox_messages hook_empty) hook_message (webhook_consumer hook_message)"
    by (simp add: recorded_def hook_empty_def)
  then show ?thesis using webhook_message_once[OF hook_validates w'] w' by auto
qed

text \<open>
  C32: the consumer acknowledges a message only when the database, as committed, holds the inbox row of that
  message: an acknowledgement never loses one. Processing it again then changes nothing.
\<close>

theorem acked_only_if_recorded:
  fixes w :: "'a webhook_world_scheme"
  assumes "process_message E J sha date_parse limit n raw w = (Inr Acked, w')"
  shows "\<exists>m. validate_message sha date_parse raw limit = Inr m \<and> recorded (inbox_messages w') m (webhook_consumer m) \<and>
    (\<forall>E J k r w''. process_message E J sha date_parse limit k raw w' = (r, w'') \<longrightarrow> same_db w' w'')"
proof -
  obtain m where m: "validate_message sha date_parse raw limit = Inr m"
    using assms by (auto simp: process_message_def ok_def split: sum.splits option.splits)
  obtain x where h: "handle_message E J n m w = (x, w')"
    and r: "Inr Acked = (Inr (case x of Inr y \<Rightarrow> Acked | Inl e \<Rightarrow> failure_disposition e) :: error + disposition)"
    using process_message_runs[OF assms m] by blast
  obtain y where "x = Inr y" using r failure_not_acked by (cases x) (metis sum.case(1) sum.inject(2), blast)
  then have rec: "recorded (inbox_messages w') m (webhook_consumer m)"
    using handle_once[OF h] projection.recorded_after by blast
  have "same_db w' w''" if p: "process_message E' J' sha date_parse limit k raw w' = (r', w'')" for E' J' k r' w''
  proof -
    obtain x' where "handle_message E' J' k m w' = (x', w'')" using process_message_runs[OF p m] by blast
    from handle_once[OF this] show ?thesis
      using recorded_key[OF rec] unfolding once_def applied_def by blast
  qed
  then show ?thesis using m rec by blast
qed

theorem acked_only_if_recorded_witness:
  "\<exists>w'. hook_process hook_empty = (Inr Acked, w') \<and> recorded (inbox_messages w') hook_message (webhook_consumer hook_message)"
proof -
  obtain w' where w': "hook_process hook_empty = (Inr Acked, w')" using hook_run[OF hook_empty_start] by blast
  then show ?thesis using acked_only_if_recorded[OF w'] hook_validates by auto
qed

end
