(* ===== verification/Webhook_Retry.thy ===== *)
theory Webhook_Retry imports Webhook_Store Backoff begin

text \<open>
  What a webhook delivery decides without the database: the delay before its next attempt and what its
  response means (\<open>webhook-delivery-retry.ts\<close>), and the signature of its request
  (\<open>webhook-delivery-signature.ts\<close>).
\<close>

section \<open>Retries\<close>

definition retry_ceilings :: "(nat \<times> int) list" where
  "retry_ceilings =
     [(2, 60000), (3, 5 * 60000), (4, 15 * 60000), (5, 60 * 60000), (6, 6 * 60 * 60000), (7, 24 * 60 * 60000)]"

definition webhook_retry_delay :: "(rat \<Rightarrow> rat) \<Rightarrow> nat \<Rightarrow> rat \<Rightarrow> int option" where
  "webhook_retry_delay fl nextAttemptNumber random =
     (case map_of retry_ceilings nextAttemptNumber of
        None \<Rightarrow> None
      | Some bound \<Rightarrow>
          (let sample = max 0 (min max_sample random) in Some \<lfloor>fl (sample * of_int (bound + 1))\<rfloor>))"

section \<open>Responses\<close>

datatype http_failure =
    connection_refused
  | connection_reset
  | destination_prohibited
  | dns_unavailable
  | dns_unresolvable
  | network_error
  | request_timeout
  | tls_verification_failed

datatype http_result = Http_failure http_failure | Http_response "string option" bool int

fun failure_text :: "http_failure \<Rightarrow> string" where
  "failure_text connection_refused = ''connection_refused''"
| "failure_text connection_reset = ''connection_reset''"
| "failure_text destination_prohibited = ''destination_prohibited''"
| "failure_text dns_unavailable = ''dns_unavailable''"
| "failure_text dns_unresolvable = ''dns_unresolvable''"
| "failure_text network_error = ''network_error''"
| "failure_text request_timeout = ''request_timeout''"
| "failure_text tls_verification_failed = ''tls_verification_failed''"

definition retryable_transport_codes :: "http_failure list" where
  "retryable_transport_codes = [connection_refused, connection_reset, dns_unavailable, network_error, request_timeout]"

text \<open>The evidence of an attempt; its outcome is never \<open>Attempt_unknown\<close>.\<close>

record evidence =
  ev_error :: "string option"
  ev_status :: "int option"
  ev_outcome :: attempt_outcome
  ev_sha :: "string option"
  ev_truncated :: bool

definition terminal_or_retrying :: "nat \<Rightarrow> delivery_status" where
  "terminal_or_retrying attemptNumber = (if 7 \<le> attemptNumber then Dead_lettered else Retrying)"

definition http_error_code :: "int \<Rightarrow> string" where
  "http_error_code status =
     (if status = 408 then ''http_408''
      else if status = 429 then ''http_429''
      else if 500 \<le> status then ''http_5xx''
      else if 300 \<le> status \<and> status \<le> 399 then ''http_redirect''
      else if 400 \<le> status \<and> status \<le> 499 then ''http_client_error''
      else ''http_unexpected_status'')"

fun classify_webhook_result :: "nat \<Rightarrow> http_result \<Rightarrow> evidence \<times> delivery_status" where
  "classify_webhook_result n (Http_failure code) =
     (let retryable = code \<in> set retryable_transport_codes in
      (\<lparr>ev_error = Some (failure_text code), ev_status = None,
        ev_outcome = (if retryable then Attempt_retryable else Attempt_non_retryable), ev_sha = None, ev_truncated = False\<rparr>,
       if retryable then terminal_or_retrying n else Dead_lettered))"
| "classify_webhook_result n (Http_response sha truncated status) =
     (if 200 \<le> status \<and> status \<le> 299
      then (\<lparr>ev_error = None, ev_status = Some status, ev_outcome = Attempt_delivered, ev_sha = sha,
             ev_truncated = truncated\<rparr>, Delivered)
      else (let retryable = status = 408 \<or> status = 429 \<or> 500 \<le> status in
        (\<lparr>ev_error = Some (http_error_code status), ev_status = Some status,
          ev_outcome = (if retryable then Attempt_retryable else Attempt_non_retryable), ev_sha = sha,
          ev_truncated = truncated\<rparr>,
         if retryable then terminal_or_retrying n else Dead_lettered)))"

section \<open>Signatures\<close>

text \<open>\<open>hmac secret input\<close> is the base64url digest; a string as bytes is its character codes.\<close>

definition ascii_bytes :: "string \<Rightarrow> nat list" where
  "ascii_bytes s = map of_char s"

definition dec_string :: "int \<Rightarrow> string" where
  "dec_string i = map char_of (dec_int i)"

definition signature_input :: "int \<Rightarrow> string \<Rightarrow> nat list \<Rightarrow> nat list" where
  "signature_input timestamp deliveryId body =
     ascii_bytes (dec_string timestamp @ ''.'' @ deliveryId @ ''.'') @ body"

record signing_secret =
  sg_plaintext :: string
  sg_version :: nat

definition base64url_char :: "char \<Rightarrow> bool" where
  "base64url_char c \<longleftrightarrow> char_in 65 90 c \<or> char_in 97 122 c \<or> is_digit c \<or> c = CHR ''_'' \<or> c = CHR ''-''"

definition is_digest :: "string \<Rightarrow> bool" where
  "is_digest s \<longleftrightarrow> length s = 43 \<and> list_all base64url_char s"

definition is_webhook_secret :: "string \<Rightarrow> bool" where
  "is_webhook_secret s \<longleftrightarrow> take 6 s = ''whsec_'' \<and> is_digest (drop 6 s)"

record signing_input =
  si_body :: "nat list"
  si_current :: signing_secret
  si_delivery :: string
  si_event :: string
  si_event_type :: string
  si_previous :: "signing_secret option"
  si_timestamp :: int

definition assert_signing_input :: "signing_input \<Rightarrow> error + unit" where
  "assert_signing_input i =
     require_sum (has_ulid_prefix ''whd'' (si_delivery i) \<and> has_ulid_prefix ''evt'' (si_event i) \<and> 0 < si_timestamp i \<and>
        is_webhook_secret (sg_plaintext (si_current i)) \<and>
        (case si_previous i of None \<Rightarrow> True | Some p \<Rightarrow> is_webhook_secret (sg_plaintext p)))
       (PlainE ''Webhook signing input is invalid'')"

definition signature_entries :: "(string \<Rightarrow> nat list \<Rightarrow> string) \<Rightarrow> signing_input \<Rightarrow> string list" where
  "signature_entries hmac i =
     (let bytes = signature_input (si_timestamp i) (si_delivery i) (si_body i) in
      map (\<lambda>s. ''v1,'' @ hmac (sg_plaintext s) bytes)
        (si_current i # (case si_previous i of None \<Rightarrow> [] | Some p \<Rightarrow> [p])))"

fun join_with :: "char \<Rightarrow> string list \<Rightarrow> string" where
  "join_with c [] = []"
| "join_with c [s] = s"
| "join_with c (s # ss) = s @ c # join_with c ss"

definition build_webhook_request_headers ::
  "(string \<Rightarrow> nat list \<Rightarrow> string) \<Rightarrow> signing_input \<Rightarrow> error + (string \<times> string) list"
where
  "build_webhook_request_headers hmac i =
     bind_sum (assert_signing_input i) (\<lambda>_. Inr
       [(''Content-Length'', dec_string (int (length (si_body i)))),
        (''Content-Type'', ''application/json''),
        (''SettleFlow-Event-Id'', si_event i),
        (''SettleFlow-Event-Schema-Version'', ''1''),
        (''SettleFlow-Event-Type'', si_event_type i),
        (''SettleFlow-Signature'', join_with CHR '';'' (signature_entries hmac i)),
        (''SettleFlow-Timestamp'', dec_string (si_timestamp i)),
        (''SettleFlow-Webhook-Id'', si_delivery i),
        (''User-Agent'', ''SettleFlow-Webhooks/1.0'')])"

text \<open>The receiver's side. \<open>split(';')\<close>, and the entries that have the shape of a signature.\<close>

fun split_on :: "char \<Rightarrow> string \<Rightarrow> string list" where
  "split_on c [] = [[]]"
| "split_on c (x # xs) =
     (if x = c then [] # split_on c xs
      else (case split_on c xs of [] \<Rightarrow> [[x]] | p # ps \<Rightarrow> (x # p) # ps))"

definition is_timestamp_text :: "string \<Rightarrow> bool" where
  "is_timestamp_text s \<longleftrightarrow> s \<noteq> [] \<and> list_all is_digit s \<and> hd s \<noteq> CHR ''0''"

definition signature_entry :: "string \<Rightarrow> string option" where
  "signature_entry s = (if take 3 s = ''v1,'' \<and> is_digest (drop 3 s) then Some (drop 3 s) else None)"

definition verify_webhook_signature ::
  "(string \<Rightarrow> nat list \<Rightarrow> string) \<Rightarrow> (string \<Rightarrow> nat list) \<Rightarrow> nat list \<Rightarrow> string \<Rightarrow> int \<Rightarrow> string \<Rightarrow> string \<Rightarrow> string \<Rightarrow> int \<Rightarrow> bool"
where
  "verify_webhook_signature hmac b64 body deliveryId nowEpochSeconds secret signatureHeader timestampHeader tolerance =
     (if \<not> is_timestamp_text timestampHeader \<or> \<not> has_ulid_prefix ''whd'' deliveryId then False
      else
        let timestamp = int (dec_value (ascii_bytes timestampHeader)) in
        if nowEpochSeconds + tolerance < timestamp \<or> timestamp < nowEpochSeconds - tolerance then False
        else
          let expected = b64 (hmac secret (signature_input timestamp deliveryId body)) in
          list_ex (\<lambda>entry. case signature_entry entry of None \<Rightarrow> False | Some digest \<Rightarrow> b64 digest = expected)
            (split_on CHR '';'' signatureHeader))"

end
