(* ===== verification/Webhook_Delivery.thy ===== *)
theory Webhook_Delivery imports Webhook_Retry Idempotency "HOL-Library.List_Lexorder" "HOL-Library.Char_ord" begin

text \<open>
  The delivery of webhooks: \<open>PrismaWebhookDeliveryRepository\<close> (\<open>prisma-webhook-delivery.repository.ts\<close>) claims
  due deliveries under a lease, starts and records their attempts and takes over from workers that are gone.
\<close>

section \<open>Transactions\<close>

definition webhook_retry_attempts :: nat where
  "webhook_retry_attempts = 3"

definition webhook_lease_ms :: int where
  "webhook_lease_ms = 30000"

text \<open>\<open>withTransaction\<close>: a transient failure is tried again, at most three times; the last error is rethrown.\<close>

definition webhook_transaction :: "env \<Rightarrow> ('a world_scheme, error, 'r) comp \<Rightarrow> ('a world_scheme, error, 'r) comp" where
  "webhook_transaction E operation =
     catch
       (attempts webhook_retry_attempts is_transient_transaction_error (\<lambda>e. e) (PlainE ''undefined'')
         (transaction E (\<lambda>_ _. None)
           (bindc (set_transaction_timeouts E) (\<lambda>_. bindc (set_transaction_timeouts E) (\<lambda>_. operation)))))
       (rethrow_database_error E)"

text \<open>\<open>webhookDelivery.update({ where: { id } })\<close>: Prisma fails where there is no such row.\<close>

definition update_delivery ::
  "env \<Rightarrow> string \<Rightarrow> (delivery_row \<Rightarrow> delivery_row) \<Rightarrow> ('a webhook_world_scheme, error, unit) comp"
where
  "update_delivery E i f =
     stmt E (bindc (update_deliveries (\<lambda>r. wd_id r = i) f) (\<lambda>n.
       if n = 0 then throw (PlainE ''No record was found for an update.'') else ok ()))"

text \<open>The columns of a claim, and those of an attempt in flight.\<close>

definition unclaimed :: "delivery_row \<Rightarrow> delivery_row" where
  "unclaimed r = r\<lparr>wd_locked_by := None, wd_token := None, wd_locked_at := None, wd_lease := None\<rparr>"

definition idle :: "delivery_row \<Rightarrow> delivery_row" where
  "idle r = r\<lparr>wd_active := None, wd_active_started := None, wd_active_current := None,
     wd_active_previous := None, wd_active_timestamp := None\<rparr>"

section \<open>Claims\<close>

record claimed_delivery =
  cd_attempts :: nat
  cd_token :: string
  cd_delivery :: string
  cd_endpoint :: string
  cd_event :: ustring
  cd_merchant :: ustring
  cd_public :: string

definition due_delivery :: "int \<Rightarrow> string list \<Rightarrow> delivery_row \<Rightarrow> bool" where
  "due_delivery now locked r \<longleftrightarrow> (wd_status r = Pending \<or> wd_status r = Retrying) \<and>
     (case wd_next r of None \<Rightarrow> False | Some t \<Rightarrow> t \<le> now) \<and> wd_token r = None \<and> wd_id r \<notin> set locked"

definition due_deliveries :: "nat \<Rightarrow> int \<Rightarrow> string list \<Rightarrow> delivery_row list \<Rightarrow> delivery_row list" where
  "due_deliveries n now locked rows =
     take n (sort_key (\<lambda>r. the (wd_next r)) (sort_key wd_id (filter (due_delivery now locked) rows)))"

definition claimed_row :: "string \<Rightarrow> int \<Rightarrow> (string \<times> string) list \<Rightarrow> delivery_row \<Rightarrow> delivery_row" where
  "claimed_row worker now tokens r =
     r\<lparr>wd_locked_by := Some worker, wd_token := map_of tokens (wd_id r), wd_locked_at := Some now,
       wd_lease := Some (now + webhook_lease_ms)\<rparr>"

definition claim_of_delivery :: "(string \<times> string) list \<Rightarrow> delivery_row \<Rightarrow> claimed_delivery" where
  "claim_of_delivery tokens r =
     \<lparr>cd_attempts = wd_attempts r, cd_token = the (map_of tokens (wd_id r)), cd_delivery = wd_id r,
      cd_endpoint = wd_endpoint r, cd_event = wd_event r, cd_merchant = wd_merchant r, cd_public = wd_public_id r\<rparr>"

text \<open>\<open>gen_random_uuid()\<close> once for each row.\<close>

definition new_tokens :: "env \<Rightarrow> delivery_row list \<Rightarrow> ('a world_scheme, error, (string \<times> string) list) comp" where
  "new_tokens E rows = map_comp (\<lambda>r. bindc (new_uuid E) (\<lambda>t. ok (wd_id r, t))) rows"

definition claim_due_rows ::
  "env \<Rightarrow> string list \<Rightarrow> string \<Rightarrow> nat \<Rightarrow> ('a webhook_world_scheme, error, claimed_delivery list) comp"
where
  "claim_due_rows E locked worker batchSize =
     bindc (read_clock E) (\<lambda>now.
     bindc (gets (\<lambda>w. due_deliveries batchSize now locked (webhook_deliveries w))) (\<lambda>rows.
     bindc (new_tokens E rows) (\<lambda>tokens.
     bindc (update_deliveries (\<lambda>r. wd_id r \<in> fst ` set tokens) (claimed_row worker now tokens)) (\<lambda>_.
     ok (map (claim_of_delivery tokens) rows)))))"

definition claim_due ::
  "env \<Rightarrow> string list \<Rightarrow> string \<Rightarrow> nat \<Rightarrow> ('a webhook_world_scheme, error, claimed_delivery list) comp"
where
  "claim_due E locked worker batchSize =
     (if \<not> worker_name worker \<or> batchSize < 1 \<or> 4 < batchSize
      then throw (PlainE ''Webhook delivery claim input is invalid'')
      else webhook_transaction E (stmt E (claim_due_rows E locked worker batchSize)))"

text \<open>\<open>clearClaim\<close> and \<open>clearClaimById\<close>.\<close>

definition clear_claim :: "env \<Rightarrow> claimed_delivery \<Rightarrow> ('a webhook_world_scheme, error, bool) comp" where
  "clear_claim E claim =
     bindc (stmt E (update_deliveries
       (\<lambda>r. wd_id r = cd_delivery claim \<and> wd_token r = Some (cd_token claim) \<and> wd_active r = None) unclaimed))
     (\<lambda>n. ok (n = 1))"

definition clear_claim_by_id :: "env \<Rightarrow> string \<Rightarrow> ('a webhook_world_scheme, error, nat) comp" where
  "clear_claim_by_id E i = stmt E (update_deliveries (\<lambda>r. wd_id r = i \<and> wd_active r = None) unclaimed)"

definition release_unstarted :: "env \<Rightarrow> claimed_delivery \<Rightarrow> ('a webhook_world_scheme, error, bool) comp" where
  "release_unstarted E claim = webhook_transaction E (clear_claim E claim)"

section \<open>Context\<close>

record stored_secret =
  ss_version :: nat
  ss_overlap :: "int option"
  ss_sealed :: "nat list"

record delivery_context =
  dx_body :: "nat list"
  dx_claim :: claimed_delivery
  dx_current :: stored_secret
  dx_active :: bool
  dx_event_type :: ustring
  dx_url :: ustring
  dx_previous :: "stored_secret option"

text \<open>\<open>toSecret\<close>: the algorithm and the lifecycle are what the table's checks and the query allow.\<close>

definition to_secret :: "secret_row \<Rightarrow> stored_secret" where
  "to_secret s = \<lparr>ss_version = ws_version s, ss_overlap = ws_overlap s, ss_sealed = ws_sealed s\<rparr>"

definition signing_secrets :: "string \<Rightarrow> secret_row list \<Rightarrow> secret_row list" where
  "signing_secrets endpoint rows =
     rev (sort_key ws_version (filter (\<lambda>s. ws_endpoint s = endpoint \<and> ws_lifecycle s \<noteq> Retired_secret) rows))"

definition webhook_event_types :: "string list" where
  "webhook_event_types =
     [''payment.created.v1'', ''payment.captured.v1'', ''payment.refunded.v1'', ''settlement.finalized.v1'',
      ''reconciliation.completed.v1'']"

definition context_of ::
  "claimed_delivery \<Rightarrow> endpoint_row \<Rightarrow> secret_row list \<Rightarrow> event_row \<Rightarrow> error + delivery_context"
where
  "context_of claim endpoint secrets event =
     (if wv_event_type event \<notin> units ` set webhook_event_types \<or> wv_schema event \<noteq> 1
      then Inl (PlainE ''Persisted webhook event contract is invalid'')
      else case List.find (\<lambda>s. ws_lifecycle s = Current_secret) secrets of
        None \<Rightarrow> Inl (PlainE ''Webhook endpoint has no current signing secret'')
      | Some current \<Rightarrow> Inr
          \<lparr>dx_body = wv_bytes event, dx_claim = claim, dx_current = to_secret current,
           dx_active = (we_status endpoint = Endpoint_active), dx_event_type = wv_event_type event,
           dx_url = we_url endpoint,
           dx_previous = map_option to_secret (List.find (\<lambda>s. ws_lifecycle s = Previous_secret) secrets)\<rparr>)"

text \<open>
  The query with its joins. The foreign keys make sure of the endpoint and the event; Prisma would report
  an inconsistent result without them.
\<close>

definition find_context ::
  "claimed_delivery \<Rightarrow> 'a webhook_world_scheme \<Rightarrow> error + (endpoint_row \<times> secret_row list \<times> event_row) option"
where
  "find_context claim w =
     (case List.find (\<lambda>r. wd_token r = Some (cd_token claim) \<and> wd_id r = cd_delivery claim) (webhook_deliveries w) of
        None \<Rightarrow> Inr None
      | Some r \<Rightarrow>
          (case (List.find (\<lambda>e. we_id e = wd_endpoint r) (webhook_endpoints w),
                 List.find (\<lambda>v. wv_event v = wd_event r) (webhook_events w)) of
             (Some endpoint, Some event) \<Rightarrow>
               Inr (Some (endpoint, signing_secrets (we_id endpoint) (webhook_secrets w), event))
           | _ \<Rightarrow> Inl (PlainE ''Inconsistent query result'')))"

definition load_context ::
  "env \<Rightarrow> claimed_delivery \<Rightarrow> ('a webhook_world_scheme, error, delivery_context option) comp"
where
  "load_context E claim =
     catch
       (bindc (stmt E (bindc (gets (find_context claim)) from_sum)) (\<lambda>record.
        case record of
          None \<Rightarrow> ok None
        | Some (endpoint, secrets, event) \<Rightarrow>
            bindc (from_sum (context_of claim endpoint secrets event)) (\<lambda>context. ok (Some context))))
       (rethrow_database_error E)"

end
