(* ===== verification/Webhook_Attempts.thy ===== *)
theory Webhook_Attempts imports Webhook_Delivery begin

text \<open>
  The attempts of a webhook delivery: \<open>startAttempt\<close>, \<open>finalizeAttempt\<close> and \<open>recoverExpired\<close> of
  \<open>PrismaWebhookDeliveryRepository\<close> (\<open>prisma-webhook-delivery.repository.ts\<close>).
\<close>

section \<open>Starting\<close>

record started_attempt =
  sa_number :: nat
  sa_current :: nat
  sa_next :: "int option"
  sa_previous :: "nat option"
  sa_timestamp :: int
  sa_started :: int

datatype start_result = Inactive nat | Start_lost | Started started_attempt

text \<open>An attempt of \<open>webhookDeliveryAttempt.create\<close>, with its fresh identifier.\<close>

definition create_attempt :: "env \<Rightarrow> (string \<Rightarrow> attempt_row) \<Rightarrow> ('a webhook_world_scheme, error, unit) comp" where
  "create_attempt E row = bindc (new_uuid E) (\<lambda>i. stmt E (insert_attempt_row (row i)))"

definition inactive_attempt :: "string \<Rightarrow> nat \<Rightarrow> int \<Rightarrow> string \<Rightarrow> attempt_row" where
  "inactive_attempt delivery n now i =
     \<lparr>wa_id = i, wa_delivery = delivery, wa_number = n, wa_outcome = Attempt_non_retryable, wa_started = now,
      wa_completed = now, wa_duration = 0, wa_status = None, wa_error = Some ''endpoint_inactive'', wa_sha = None,
      wa_truncated = False, wa_signature = None, wa_timestamp = None, wa_current = None, wa_previous = None\<rparr>"

definition inactive_row :: "nat \<Rightarrow> int \<Rightarrow> delivery_row \<Rightarrow> delivery_row" where
  "inactive_row n now r =
     (unclaimed r)\<lparr>wd_attempts := n, wd_dead_at := Some now, wd_next := None, wd_status := Dead_lettered\<rparr>"

definition persist_inactive_attempt ::
  "env \<Rightarrow> claimed_delivery \<Rightarrow> nat \<Rightarrow> ('a webhook_world_scheme, error, unit) comp"
where
  "persist_inactive_attempt E claim n =
     bindc (stmt E (read_clock E)) (\<lambda>now.
     bindc (create_attempt E (inactive_attempt (cd_delivery claim) n now)) (\<lambda>_.
     update_delivery E (cd_delivery claim) (inactive_row n now)))"

text \<open>The row that \<open>startAttempt\<close> locks, with its endpoint's status and the secret versions to sign with.\<close>

record start_row =
  sr_attempts :: nat
  sr_inactive :: bool
  sr_current :: "nat option"
  sr_previous :: "nat option"

definition startable :: "claimed_delivery \<Rightarrow> int \<Rightarrow> delivery_row \<Rightarrow> bool" where
  "startable claim now r \<longleftrightarrow> wd_id r = cd_delivery claim \<and> wd_token r = Some (cd_token claim) \<and>
     (case wd_lease r of None \<Rightarrow> False | Some l \<Rightarrow> now < l) \<and> (wd_status r = Pending \<or> wd_status r = Retrying) \<and>
     wd_active r = None"

definition secret_version :: "(secret_row \<Rightarrow> bool) \<Rightarrow> string \<Rightarrow> secret_row list \<Rightarrow> nat option" where
  "secret_version p endpoint rows = map_option ws_version (List.find (\<lambda>s. ws_endpoint s = endpoint \<and> p s) rows)"

definition find_start_row :: "claimed_delivery \<Rightarrow> int \<Rightarrow> 'a webhook_world_scheme \<Rightarrow> start_row option" where
  "find_start_row claim now w =
     (case List.find (startable claim now) (webhook_deliveries w) of
        None \<Rightarrow> None
      | Some r \<Rightarrow>
          (case List.find (\<lambda>e. we_id e = wd_endpoint r) (webhook_endpoints w) of
             None \<Rightarrow> None
           | Some e \<Rightarrow> Some
               \<lparr>sr_attempts = wd_attempts r, sr_inactive = (we_status e = Endpoint_inactive),
                sr_current = secret_version (\<lambda>s. ws_lifecycle s = Current_secret) (wd_endpoint r) (webhook_secrets w),
                sr_previous = secret_version (\<lambda>s. ws_lifecycle s = Previous_secret \<and>
                    (case ws_overlap s of None \<Rightarrow> False | Some t \<Rightarrow> now < t)) (wd_endpoint r) (webhook_secrets w)\<rparr>))"

definition started_row ::
  "nat \<Rightarrow> int \<Rightarrow> nat \<Rightarrow> nat option \<Rightarrow> int option \<Rightarrow> delivery_row \<Rightarrow> delivery_row"
where
  "started_row n now current previous delay r =
     r\<lparr>wd_attempts := n, wd_active := Some n, wd_active_started := Some now, wd_active_timestamp := Some (now div 1000),
       wd_active_current := Some current, wd_active_previous := previous, wd_next := map_option ((+) now) delay\<rparr>"

text \<open>The \<open>UPDATE\<close> that starts the attempt: it looks at the lease again.\<close>

definition start_delivery ::
  "env \<Rightarrow> claimed_delivery \<Rightarrow> nat \<Rightarrow> nat \<Rightarrow> nat option \<Rightarrow> int option \<Rightarrow>
   ('a webhook_world_scheme, error, start_result) comp"
where
  "start_delivery E claim n current previous delay =
     bindc (read_clock E) (\<lambda>now.
     bindc (update_deliveries
         (\<lambda>r. wd_id r = cd_delivery claim \<and> wd_token r = Some (cd_token claim) \<and>
              (case wd_lease r of None \<Rightarrow> False | Some l \<Rightarrow> now < l))
         (started_row n now current previous delay)) (\<lambda>updated.
     if updated = 0 then ok Start_lost
     else ok (Started \<lparr>sa_number = n, sa_current = current, sa_next = map_option ((+) now) delay, sa_previous = previous,
                       sa_timestamp = now div 1000, sa_started = now\<rparr>)))"

definition start_transaction ::
  "env \<Rightarrow> delivery_context \<Rightarrow> int option \<Rightarrow> ('a webhook_world_scheme, error, start_result) comp"
where
  "start_transaction E context delay =
     (let claim = dx_claim context; expected = cd_attempts claim + 1 in
      bindc (stmt E (bindc (read_clock E) (\<lambda>now. gets (find_start_row claim now)))) (\<lambda>found.
      case found of
        None \<Rightarrow> ok Start_lost
      | Some row \<Rightarrow>
          if sr_attempts row \<noteq> cd_attempts claim then ok Start_lost
          else if sr_inactive row
          then bindc (persist_inactive_attempt E claim expected) (\<lambda>_. ok (Inactive expected))
          else if \<not> dx_active context \<or> sr_current row \<noteq> Some (ss_version (dx_current context)) \<or>
            (sr_previous row \<noteq> None \<and> sr_previous row \<noteq> map_option ss_version (dx_previous context))
          then bindc (clear_claim E claim) (\<lambda>_. ok Start_lost)
          else stmt E (start_delivery E claim expected (ss_version (dx_current context)) (sr_previous row) delay)))"

definition start_attempt ::
  "env \<Rightarrow> delivery_context \<Rightarrow> int option \<Rightarrow> ('a webhook_world_scheme, error, start_result) comp"
where
  "start_attempt E context delay =
     (let expected = cd_attempts (dx_claim context) + 1 in
      if 7 < expected \<or> (expected < 7 \<and> delay = None) \<or> (expected = 7 \<and> delay \<noteq> None)
      then throw (PlainE ''Webhook attempt start input is invalid'')
      else webhook_transaction E (start_transaction E context delay))"

section \<open>Finalizing\<close>

record delivery_finalization =
  df_status :: delivery_status
  df_updated :: bool

definition active_row :: "claimed_delivery \<Rightarrow> started_attempt \<Rightarrow> int \<Rightarrow> delivery_row \<Rightarrow> bool" where
  "active_row claim attempt now r \<longleftrightarrow> wd_id r = cd_delivery claim \<and> wd_token r = Some (cd_token claim) \<and>
     wd_active r = Some (sa_number attempt) \<and> (case wd_lease r of None \<Rightarrow> False | Some l \<Rightarrow> now < l)"

definition same_attempt :: "started_attempt \<Rightarrow> delivery_row \<Rightarrow> bool" where
  "same_attempt attempt r \<longleftrightarrow>
     wd_attempts r = sa_number attempt \<and> wd_active_started r = Some (sa_started attempt) \<and>
     wd_active_timestamp r = Some (sa_timestamp attempt) \<and> wd_active_current r = Some (sa_current attempt) \<and>
     wd_active_previous r = sa_previous attempt"

definition attempt_duration :: "int \<Rightarrow> int \<Rightarrow> int" where
  "attempt_duration started completed = min 30000 (max 0 (completed - started))"

definition final_status :: "evidence \<Rightarrow> nat \<Rightarrow> delivery_status" where
  "final_status evidence n =
     (if ev_outcome evidence = Attempt_delivered then Delivered
      else if ev_outcome evidence = Attempt_retryable \<and> n < 7 then Retrying
      else Dead_lettered)"

fun to_attempt_outcome :: "attempt_outcome \<Rightarrow> attempt_outcome" where
  "to_attempt_outcome Attempt_delivered = Attempt_delivered"
| "to_attempt_outcome Attempt_retryable = Attempt_retryable"
| "to_attempt_outcome _ = Attempt_non_retryable"

definition finished_attempt :: "string \<Rightarrow> started_attempt \<Rightarrow> evidence \<Rightarrow> int \<Rightarrow> string \<Rightarrow> attempt_row" where
  "finished_attempt delivery attempt evidence completedAt i =
     \<lparr>wa_id = i, wa_delivery = delivery, wa_number = sa_number attempt,
      wa_outcome = to_attempt_outcome (ev_outcome evidence), wa_started = sa_started attempt, wa_completed = completedAt,
      wa_duration = attempt_duration (sa_started attempt) completedAt, wa_status = ev_status evidence,
      wa_error = ev_error evidence, wa_sha = ev_sha evidence, wa_truncated = ev_truncated evidence,
      wa_signature = Some ''v1'', wa_timestamp = Some (sa_timestamp attempt), wa_current = Some (sa_current attempt),
      wa_previous = sa_previous attempt\<rparr>"

definition finished_row :: "delivery_status \<Rightarrow> int \<Rightarrow> int option \<Rightarrow> delivery_row \<Rightarrow> delivery_row" where
  "finished_row status completedAt next r =
     (idle (unclaimed r))
       \<lparr>wd_dead_at := (if status = Dead_lettered then Some completedAt else None),
        wd_delivered_at := (if status = Delivered then Some completedAt else None),
        wd_next := (if status = Retrying then next else None), wd_status := status\<rparr>"

definition finalize_transaction ::
  "env \<Rightarrow> claimed_delivery \<Rightarrow> started_attempt \<Rightarrow> evidence \<Rightarrow>
   ('a webhook_world_scheme, error, delivery_finalization) comp"
where
  "finalize_transaction E claim attempt evidence =
     bindc (stmt E (bindc (read_clock E) (\<lambda>now.
       gets (\<lambda>w. List.find (active_row claim attempt now) (webhook_deliveries w))))) (\<lambda>found.
     case found of
       None \<Rightarrow> ok \<lparr>df_status = Dead_lettered, df_updated = False\<rparr>
     | Some row \<Rightarrow>
         if \<not> same_attempt attempt row then ok \<lparr>df_status = Dead_lettered, df_updated = False\<rparr>
         else bindc (stmt E (read_clock E)) (\<lambda>completedAt.
           let status = final_status evidence (sa_number attempt) in
           if status = Retrying \<and> sa_next attempt = None
           then throw (PlainE ''Retrying webhook delivery has no next attempt time'')
           else bindc (create_attempt E (finished_attempt (cd_delivery claim) attempt evidence completedAt)) (\<lambda>_.
             bindc (update_delivery E (cd_delivery claim) (finished_row status completedAt (sa_next attempt))) (\<lambda>_.
             ok \<lparr>df_status = status, df_updated = True\<rparr>))))"

definition finalize_attempt ::
  "env \<Rightarrow> claimed_delivery \<Rightarrow> started_attempt \<Rightarrow> evidence \<Rightarrow>
   ('a webhook_world_scheme, error, delivery_finalization) comp"
where
  "finalize_attempt E claim attempt evidence = webhook_transaction E (finalize_transaction E claim attempt evidence)"

section \<open>Recovery\<close>

record recovery_result =
  rr_cleared :: nat
  rr_dead :: nat
  rr_unknown :: nat

definition expired :: "int \<Rightarrow> string list \<Rightarrow> delivery_row \<Rightarrow> bool" where
  "expired now locked r \<longleftrightarrow> wd_token r \<noteq> None \<and> (case wd_lease r of None \<Rightarrow> False | Some l \<Rightarrow> l \<le> now) \<and>
     wd_id r \<notin> set locked"

definition expired_deliveries :: "nat \<Rightarrow> int \<Rightarrow> string list \<Rightarrow> delivery_row list \<Rightarrow> delivery_row list" where
  "expired_deliveries n now locked rows =
     take n (sort_key (\<lambda>r. the (wd_lease r)) (sort_key wd_id (filter (expired now locked) rows)))"

definition recovered_attempt :: "delivery_row \<Rightarrow> nat \<Rightarrow> int \<Rightarrow> int \<Rightarrow> nat \<Rightarrow> int \<Rightarrow> string \<Rightarrow> attempt_row" where
  "recovered_attempt r n started timestamp current completedAt i =
     \<lparr>wa_id = i, wa_delivery = wd_id r, wa_number = n, wa_outcome = Attempt_unknown, wa_started = started,
      wa_completed = completedAt, wa_duration = attempt_duration started completedAt, wa_status = None,
      wa_error = Some ''lease_expired_unknown'', wa_sha = None, wa_truncated = False, wa_signature = Some ''v1'',
      wa_timestamp = Some timestamp, wa_current = Some current, wa_previous = wd_active_previous r\<rparr>"

definition recovered_row :: "bool \<Rightarrow> int \<Rightarrow> delivery_row \<Rightarrow> delivery_row" where
  "recovered_row terminal completedAt r =
     (if terminal
      then (idle (unclaimed r))\<lparr>wd_dead_at := Some completedAt, wd_next := None, wd_status := Dead_lettered\<rparr>
      else (idle (unclaimed r))\<lparr>wd_dead_at := None, wd_status := Retrying\<rparr>)"

definition recover_one ::
  "env \<Rightarrow> recovery_result \<Rightarrow> delivery_row \<Rightarrow> ('a webhook_world_scheme, error, recovery_result) comp"
where
  "recover_one E result r =
     (case wd_active r of
        None \<Rightarrow> bindc (clear_claim_by_id E (wd_id r)) (\<lambda>_. ok (result\<lparr>rr_cleared := rr_cleared result + 1\<rparr>))
      | Some n \<Rightarrow>
          (case (wd_active_started r, wd_active_timestamp r, wd_active_current r, wd_lease r) of
             (Some started, Some timestamp, Some current, Some lease) \<Rightarrow>
               let completedAt = (if lease < started then started else lease); terminal = 7 \<le> n in
               bindc (create_attempt E (recovered_attempt r n started timestamp current completedAt)) (\<lambda>_.
               bindc (update_delivery E (wd_id r) (recovered_row terminal completedAt)) (\<lambda>_.
               ok (result\<lparr>rr_unknown := rr_unknown result + 1,
                          rr_dead := (if terminal then rr_dead result + 1 else rr_dead result)\<rparr>)))
           | _ \<Rightarrow> throw (PlainE ''Persisted active webhook attempt is incomplete'')))"

fun recover_all ::
  "env \<Rightarrow> recovery_result \<Rightarrow> delivery_row list \<Rightarrow> ('a webhook_world_scheme, error, recovery_result) comp"
where
  "recover_all E result [] = ok result"
| "recover_all E result (r # rs) = bindc (recover_one E result r) (\<lambda>result'. recover_all E result' rs)"

definition recover_transaction ::
  "env \<Rightarrow> string list \<Rightarrow> nat \<Rightarrow> ('a webhook_world_scheme, error, recovery_result) comp"
where
  "recover_transaction E locked limit =
     bindc (stmt E (bindc (read_clock E) (\<lambda>now.
       gets (\<lambda>w. expired_deliveries limit now locked (webhook_deliveries w))))) (\<lambda>rows.
     recover_all E \<lparr>rr_cleared = 0, rr_dead = 0, rr_unknown = 0\<rparr> rows)"

definition recover_expired ::
  "env \<Rightarrow> string list \<Rightarrow> nat \<Rightarrow> ('a webhook_world_scheme, error, recovery_result) comp"
where
  "recover_expired E locked limit =
     (if limit < 1 \<or> 4 < limit then throw (PlainE ''Webhook recovery limit is invalid'')
      else webhook_transaction E (recover_transaction E locked limit))"

end
