(* ===== verification/Webhook_Service.thy ===== *)
theory Webhook_Service imports Webhook_Attempts begin

text \<open>
  \<open>WebhookDeliveryService\<close> (\<open>webhook-delivery.service.ts\<close>): one pass of the dispatcher recovers expired
  claims, claims due deliveries and takes every claim from its context to its recorded attempt.
\<close>

section \<open>What the service calls\<close>

record destination =
  ds_address :: string
  ds_family :: nat
  ds_hostname :: ustring
  ds_url :: ustring

text \<open>
  The cipher of the secrets, the HMAC, the address policy and the HTTP client are arguments: \<open>dp_decrypt\<close> is the
  cipher with its keyring (\<open>None\<close> where it throws), \<open>dp_resolve\<close> and \<open>dp_send\<close> answer at the time \<open>tick\<close>.
  \<open>dp_keyring\<close> is whether \<open>keyring.active()\<close> returns.
\<close>

record delivery_port =
  dp_keyring :: "nat \<Rightarrow> bool"
  dp_ready :: "nat \<Rightarrow> bool option"
  dp_decrypt :: "string \<Rightarrow> ustring \<Rightarrow> nat \<Rightarrow> nat list \<Rightarrow> string option"
  dp_hmac :: "string \<Rightarrow> nat list \<Rightarrow> string"
  dp_resolve :: "nat \<Rightarrow> ustring \<Rightarrow> error + destination"
  dp_send :: "nat \<Rightarrow> nat list \<Rightarrow> destination \<Rightarrow> (string \<times> string) list \<Rightarrow> error + http_result"

record service_world = webhook_world +
  dependency_ready :: bool
  stopping :: bool

definition text_of :: "ustring \<Rightarrow> string" where
  "text_of us = map char_of us"

definition claim_signal :: "string \<Rightarrow> claimed_delivery \<Rightarrow> observation \<Rightarrow> observation" where
  "claim_signal event claim extra =
     (''event'', event) # (''deliveryId'', cd_public claim) # (''endpointId'', cd_endpoint claim) #
     (''eventId'', text_of (cd_event claim)) # (''merchantId'', text_of (cd_merchant claim)) # extra"

definition record_ownership_lost :: "claimed_delivery \<Rightarrow> ('a world_scheme, error, unit) comp" where
  "record_ownership_lost claim =
     observe (claim_signal ''webhook.delivery.ownership_lost'' claim [(''code'', ''claim_ownership_lost'')])"

definition dec_text :: "nat \<Rightarrow> string" where
  "dec_text n = map char_of (dec_nat n)"

section \<open>Readiness\<close>

definition set_dependency :: "bool \<Rightarrow> ('a service_world_scheme, error, unit) comp" where
  "set_dependency b = (\<lambda>w. (Inr (), w\<lparr>dependency_ready := b\<rparr>))"

definition is_ready :: "'a service_world_scheme \<Rightarrow> bool" where
  "is_ready w \<longleftrightarrow> \<not> stopping w \<and> dependency_ready w"

text \<open>\<open>checkReadiness\<close> reads the catalogue; it answers false where the query fails (\<open>None\<close>).\<close>

definition check_readiness :: "delivery_port \<Rightarrow> ('a world_scheme, error, bool) comp" where
  "check_readiness P = (\<lambda>w. (Inr (dp_ready P (tick w) = Some True), bump w))"

definition ensure_ready :: "delivery_port \<Rightarrow> ('a service_world_scheme, error, bool) comp" where
  "ensure_ready P = (\<lambda>w.
     if stopping w then (Inr False, w)
     else if \<not> dp_keyring P (tick w) then (Inr False, w\<lparr>dependency_ready := False\<rparr>)
     else bindc (check_readiness P) (\<lambda>ready. bindc (set_dependency ready) (\<lambda>_. ok ready)) w)"

definition begin_shutdown :: "('a service_world_scheme, error, unit) comp" where
  "begin_shutdown = (\<lambda>w. (Inr (), w\<lparr>stopping := True\<rparr>))"

section \<open>A claim\<close>

datatype claim_result = Claim_dead_lettered | Claim_delivered | Dependency_unavailable | Ownership_lost | Claim_retrying

definition decrypt :: "delivery_port \<Rightarrow> delivery_context \<Rightarrow> stored_secret \<Rightarrow> signing_secret option" where
  "decrypt P context secret =
     map_option (\<lambda>p. \<lparr>sg_plaintext = p, sg_version = ss_version secret\<rparr>)
       (dp_decrypt P (cd_endpoint (dx_claim context)) (cd_merchant (dx_claim context)) (ss_version secret) (ss_sealed secret))"

text \<open>The current secret and the previous one, if there is one; \<open>None\<close> where the keyring fails.\<close>

definition decrypt_secrets ::
  "delivery_port \<Rightarrow> delivery_context \<Rightarrow> (signing_secret \<times> signing_secret option) option"
where
  "decrypt_secrets P context =
     (case decrypt P context (dx_current context) of
        None \<Rightarrow> None
      | Some current \<Rightarrow>
          (case dx_previous context of
             None \<Rightarrow> Some (current, None)
           | Some p \<Rightarrow> map_option (\<lambda>previous. (current, Some previous)) (decrypt P context p)))"

definition deliver_failure :: "error \<Rightarrow> http_failure" where
  "deliver_failure e =
     (if e = WebhookE WebhookEndpointUrlResolutionUnavailableError then dns_unavailable
      else if e = WebhookE WebhookEndpointUrlUnresolvableError then dns_unresolvable
      else if e = WebhookE WebhookEndpointUrlProhibitedError then destination_prohibited
      else network_error)"

definition deliver ::
  "delivery_port \<Rightarrow> delivery_context \<Rightarrow> (string \<times> string) list \<Rightarrow> ('a world_scheme, error, http_result) comp"
where
  "deliver P context headers = (\<lambda>w.
     (Inr (case bind_sum (dp_resolve P (tick w) (dx_url context)) (\<lambda>d. dp_send P (tick w) (dx_body context) d headers) of
             Inl e \<Rightarrow> Http_failure (deliver_failure e)
           | Inr result \<Rightarrow> result), bump w))"

fun claim_result_of :: "delivery_status \<Rightarrow> claim_result" where
  "claim_result_of Delivered = Claim_delivered"
| "claim_result_of Retrying = Claim_retrying"
| "claim_result_of _ = Claim_dead_lettered"

fun delivery_event :: "delivery_status \<Rightarrow> string" where
  "delivery_event Delivered = ''webhook.delivery.delivered''"
| "delivery_event Retrying = ''webhook.delivery.retry_scheduled''"
| "delivery_event _ = ''webhook.delivery.dead_lettered''"

fun status_text :: "delivery_status \<Rightarrow> string" where
  "status_text Delivered = ''delivered''"
| "status_text Retrying = ''retrying''"
| "status_text _ = ''dead_lettered''"

definition finished_signal ::
  "claimed_delivery \<Rightarrow> started_attempt \<Rightarrow> evidence \<Rightarrow> delivery_status \<Rightarrow> observation"
where
  "finished_signal claim attempt evidence status =
     claim_signal (delivery_event status) claim
       ((''attemptNumber'', dec_text (sa_number attempt)) #
        (case ev_error evidence of None \<Rightarrow> [] | Some c \<Rightarrow> [(''code'', c)]) @
        (case ev_status evidence of None \<Rightarrow> [] | Some s \<Rightarrow> [(''httpStatus'', dec_string s)]) @
        (case sa_next attempt of None \<Rightarrow> [] | Some t \<Rightarrow> [(''nextAttemptAt'', text_of (to_iso t))]) @
        [(''status'', status_text status)])"

definition signing_input_of ::
  "delivery_context \<Rightarrow> signing_secret \<Rightarrow> signing_secret option \<Rightarrow> started_attempt \<Rightarrow> signing_input"
where
  "signing_input_of context current previous attempt =
     \<lparr>si_body = dx_body context, si_current = current, si_delivery = cd_public (dx_claim context),
      si_event = text_of (cd_event (dx_claim context)), si_event_type = text_of (dx_event_type context),
      si_previous = previous, si_timestamp = sa_timestamp attempt\<rparr>"

text \<open>From the started attempt to its record; \<open>current\<close> and \<open>previous\<close> are the decrypted secrets.\<close>

definition send_attempt ::
  "env \<Rightarrow> delivery_port \<Rightarrow> delivery_context \<Rightarrow> signing_secret option \<Rightarrow> signing_secret option \<Rightarrow> started_attempt \<Rightarrow>
   ('a service_world_scheme, error, claim_result) comp"
where
  "send_attempt E P context current previous attempt =
     (case current of
        None \<Rightarrow> bindc (set_dependency False) (\<lambda>_. ok Dependency_unavailable)
      | Some c \<Rightarrow>
          let claim = dx_claim context;
              selected = (if map_option sg_version previous = sa_previous attempt then previous else None) in
          if sg_version c \<noteq> sa_current attempt \<or> (sa_previous attempt \<noteq> None \<and> selected = None)
          then bindc (set_dependency False) (\<lambda>_. ok Dependency_unavailable)
          else
            bindc (from_sum (build_webhook_request_headers (dp_hmac P) (signing_input_of context c selected attempt))) (\<lambda>headers.
            bindc (observe (claim_signal ''webhook.delivery.attempt_started'' claim
              [(''attemptNumber'', dec_text (sa_number attempt))])) (\<lambda>_.
            bindc (deliver P context headers) (\<lambda>result.
            let evidence = fst (classify_webhook_result (sa_number attempt) result) in
            bindc (finalize_attempt E claim attempt evidence) (\<lambda>finalized.
            if \<not> df_updated finalized then bindc (record_ownership_lost claim) (\<lambda>_. ok Ownership_lost)
            else bindc (observe (finished_signal claim attempt evidence (df_status finalized))) (\<lambda>_.
              ok (claim_result_of (df_status finalized))))))))"

definition run_claim ::
  "env \<Rightarrow> delivery_port \<Rightarrow> delivery_context \<Rightarrow> int option \<Rightarrow> signing_secret option \<Rightarrow> signing_secret option \<Rightarrow>
   ('a service_world_scheme, error, claim_result) comp"
where
  "run_claim E P context delay current previous =
     (let claim = dx_claim context in
      bindc (start_attempt E context delay) (\<lambda>started.
      case started of
        Start_lost \<Rightarrow> bindc (record_ownership_lost claim) (\<lambda>_. ok Ownership_lost)
      | Inactive n \<Rightarrow>
          bindc (observe (claim_signal ''webhook.delivery.dead_lettered'' claim
            [(''attemptNumber'', dec_text n), (''code'', ''endpoint_inactive''), (''status'', ''dead_lettered'')])) (\<lambda>_.
          ok Claim_dead_lettered)
      | Started attempt \<Rightarrow> send_attempt E P context current previous attempt))"

definition process_claim ::
  "env \<Rightarrow> jitter \<Rightarrow> delivery_port \<Rightarrow> claimed_delivery \<Rightarrow> ('a service_world_scheme, error, claim_result) comp"
where
  "process_claim E J P claim =
     bindc (load_context E claim) (\<lambda>loaded.
     case loaded of
       None \<Rightarrow> bindc (record_ownership_lost claim) (\<lambda>_. ok Ownership_lost)
     | Some context \<Rightarrow>
         bindc (gets (\<lambda>w. webhook_retry_delay (jt_float J) (cd_attempts claim + 2) (jt_random J (tick w)))) (\<lambda>delay.
         if \<not> dx_active context then run_claim E P context delay None None
         else (case decrypt_secrets P context of
             Some (current, previous) \<Rightarrow> run_claim E P context delay (Some current) previous
           | None \<Rightarrow>
               bindc (release_unstarted E claim) (\<lambda>_.
               bindc (observe (claim_signal ''webhook.delivery.dependency_unavailable'' claim
                 [(''code'', ''keyring_unavailable'')])) (\<lambda>_.
               ok Dependency_unavailable)))))"

section \<open>A pass\<close>

text \<open>
  \<open>Promise.all\<close>: every claim is taken to its end, whatever becomes of the others, and the first failure
  is the failure of the whole. The claims are written here one after the other; their transactions may
  interleave in any order.
\<close>

fun process_claims ::
  "(claimed_delivery \<Rightarrow> ('a world_scheme, error, 'r) comp) \<Rightarrow> claimed_delivery list \<Rightarrow>
   ('a world_scheme, error, 'r list) comp"
where
  "process_claims f [] = ok []"
| "process_claims f (c # cs) = (\<lambda>w.
     case f c w of
       (Inr x, w1) \<Rightarrow> bindc (process_claims f cs) (\<lambda>xs. ok (x # xs)) w1
     | (Inl e, w1) \<Rightarrow> (Inl e, snd (process_claims f cs w1)))"

record run_result =
  rn_claimed :: nat
  rn_dead :: nat
  rn_delivered :: nat
  rn_ready :: bool
  rn_lost :: nat
  rn_unknown :: nat
  rn_retrying :: nat

definition recovery_signals :: "recovery_result \<Rightarrow> observation list" where
  "recovery_signals recovery =
     (if 0 < rr_unknown recovery \<or> 0 < rr_cleared recovery
      then [[(''event'', ''webhook.delivery.lease_recovered''),
             (''code'', if 0 < rr_dead recovery then ''recovered_with_terminal'' else ''recovered''),
             (''count'', dec_text (rr_unknown recovery + rr_cleared recovery))]]
      else [])"

definition run_dispatcher ::
  "env \<Rightarrow> jitter \<Rightarrow> delivery_port \<Rightarrow> string list \<Rightarrow> string \<Rightarrow> nat \<Rightarrow> ('a service_world_scheme, error, run_result) comp"
where
  "run_dispatcher E J P locked worker batchSize = (\<lambda>w.
     let empty = \<lparr>rn_claimed = 0, rn_dead = 0, rn_delivered = 0, rn_ready = is_ready w, rn_lost = 0, rn_unknown = 0,
                  rn_retrying = 0\<rparr> in
     (if stopping w then ok empty
      else
        bindc (recover_expired E locked batchSize) (\<lambda>recovery.
        bindc (for_each observe (recovery_signals recovery)) (\<lambda>_.
        bindc (claim_due E locked worker batchSize) (\<lambda>claims.
        if claims = [] then ok (empty\<lparr>rn_dead := rr_dead recovery, rn_unknown := rr_unknown recovery\<rparr>)
        else
          bindc (process_claims (process_claim E J P) claims) (\<lambda>results.
          let count = (\<lambda>k. length (filter ((=) k) results)); unavailable = 0 < count Dependency_unavailable in
          bindc (if unavailable then set_dependency False else ok ()) (\<lambda>_.
          bindc (gets is_ready) (\<lambda>ready.
          ok \<lparr>rn_claimed = length claims, rn_dead = rr_dead recovery + count Claim_dead_lettered,
             rn_delivered = count Claim_delivered, rn_ready = (\<not> unavailable \<and> ready), rn_lost = count Ownership_lost,
             rn_unknown = rr_unknown recovery, rn_retrying = count Claim_retrying\<rparr>)))))))
     w)"

end
