(* ===== verification/Webhook_Delivery_Laws.thy ===== *)
theory Webhook_Delivery_Laws imports Webhook_Service Webhook_Consumer begin

text \<open>
  The life of a delivery, apart from the database: what an operation may do to the deliveries and the attempts
  recorded for them, and what every sequence of such changes keeps.
\<close>

section \<open>Checks that accept\<close>

named_theorems accepts

lemma accepts_sql [accepts]:
  "sql_refuses (sql_all bs) \<longleftrightarrow> (\<exists>b \<in> set bs. sql_refuses b)"
  "sql_refuses (sql_any bs) \<longleftrightarrow> (\<forall>b \<in> set bs. sql_refuses b)"
  "sql_refuses (Some b) \<longleftrightarrow> \<not> b"
  "sql_refuses (is_null x) \<longleftrightarrow> x \<noteq> None"
  "sql_refuses (not_null x) \<longleftrightarrow> x = None"
  "sql_refuses (sql_rel f y z) \<longleftrightarrow> (\<exists>u v. y = Some u \<and> z = Some v \<and> \<not> f u v)"
  "sql_refuses (map_option p y) \<longleftrightarrow> (\<exists>u. y = Some u \<and> \<not> p u)"
  by (auto simp: sql_refuses_def sql_all_def sql_any_def is_null_def not_null_def sql_rel_def split: option.splits)
    (metis (full_types) option.exhaust)+

definition live_status :: "delivery_row \<Rightarrow> bool" where
  "live_status r \<longleftrightarrow> wd_status r = Pending \<or> wd_status r = Retrying"

lemma delivery_check_None:
  assumes "delivery_check r = None"
  shows "wd_active r = Some n \<Longrightarrow> wd_attempts r = n \<and> 1 \<le> n \<and> n \<le> 7 \<and> live_status r \<and> wd_token r \<noteq> None"
    and "\<not> live_status r \<Longrightarrow> wd_active r = None \<and> wd_token r = None \<and> unclaimed r = r"
    and "wd_attempts r \<le> 7"
proof -
  have a: "\<not> sql_refuses (active_fields r)" and c: "\<not> sql_refuses (claim_fields r)" and s: "\<not> sql_refuses (state_fields r)"
    and n: "wd_attempts r \<le> 7"
    using assms by (auto simp: delivery_check_def split: if_splits)
  show "wd_attempts r \<le> 7" by (rule n)
  show "wd_active r = Some n \<Longrightarrow> wd_attempts r = n \<and> 1 \<le> n \<and> n \<le> 7 \<and> live_status r \<and> wd_token r \<noteq> None"
    using a s by (auto simp: active_fields_def state_fields_def live_status_def accepts)
  assume "\<not> live_status r"
  then have t: "wd_active r = None" "wd_token r = None"
    using s by (cases "wd_status r"; auto simp: state_fields_def live_status_def accepts)+
  moreover have "wd_locked_by r = None" "wd_locked_at r = None" "wd_lease r = None"
    using c t by (auto simp: claim_fields_def accepts)
  ultimately show "wd_active r = None \<and> wd_token r = None \<and> unclaimed r = r" by (simp add: unclaimed_def)
qed

text \<open>
  The check of the state means to allow a delivery without an active attempt to be pending only before its
  first attempt. It compares the active number with 1, and where that is \<open>NULL\<close> the comparison is unknown and
  the check accepts the row. What follows does not rest on it.
\<close>

lemma state_check_accepts_null:
  assumes "delivery_check r = None" and "wd_status r = Pending" and "wd_active r = None" and "wd_next r \<noteq> None"
  shows "delivery_check (r\<lparr>wd_attempts := 1\<rparr>) = None"
proof -
  have c: "\<not> sql_refuses (active_fields r)" "\<not> sql_refuses (claim_fields r)" "\<not> sql_refuses (state_fields r)"
    "has_ulid_prefix ''whd'' (wd_public_id r)"
    using assms(1) by (auto simp: delivery_check_def split: if_splits)
  have "active_fields (r\<lparr>wd_attempts := 1\<rparr>) = active_fields r" "claim_fields (r\<lparr>wd_attempts := 1\<rparr>) = claim_fields r"
    using assms(3) by (simp_all add: active_fields_def claim_fields_def sql_rel_def)
  moreover have "\<not> sql_refuses (state_fields (r\<lparr>wd_attempts := 1\<rparr>))"
    using c(3) assms(2-4) by (simp add: state_fields_def accepts)
  ultimately show ?thesis using c by (simp add: delivery_check_def)
qed

section \<open>The life of a delivery\<close>

text \<open>How an attempt ends its delivery, or not, by its number.\<close>

definition concludes :: "delivery_status \<Rightarrow> attempt_outcome \<Rightarrow> nat \<Rightarrow> bool" where
  "concludes status outcome n \<longleftrightarrow>
     (status = Delivered \<longleftrightarrow> outcome = Attempt_delivered) \<and> status \<noteq> Pending \<and>
     (status = Retrying \<longrightarrow> n < 7 \<and> outcome \<noteq> Attempt_non_retryable) \<and>
     (status = Dead_lettered \<longrightarrow> outcome = Attempt_non_retryable \<or> n = 7)"

definition attempts_done :: "delivery_row \<Rightarrow> nat" where
  "attempts_done r = (if wd_active r = None then wd_attempts r else wd_attempts r - 1)"

text \<open>The rows differ at most in the columns of a claim.\<close>

definition same_work :: "delivery_row \<Rightarrow> delivery_row \<Rightarrow> bool" where
  "same_work r r' \<longleftrightarrow> unclaimed r' = unclaimed r"

type_synonym hooks = "delivery_row list \<times> attempt_row list"

abbreviation hooks_of :: "'a webhook_world_scheme \<Rightarrow> hooks" where
  "hooks_of w \<equiv> (webhook_deliveries w, webhook_attempts w)"

inductive delivery_change :: "hooks \<Rightarrow> hooks \<Rightarrow> bool" where
  create: "\<lbrakk>delivery_check d = None; wd_id d \<notin> wd_id ` set ds; wd_status d = Pending; wd_attempts d = 0\<rbrakk>
    \<Longrightarrow> delivery_change (ds, as) (ds @ [d], as)"
| lease: "\<forall>r \<in> set ds. p r \<longrightarrow> same_work r (f r) \<and> delivery_check (f r) = None
    \<Longrightarrow> delivery_change (ds, as) (update_where p f ds, as)"
| start: "\<lbrakk>r \<in> set ds; wd_active r = None; live_status r; f = started_row (wd_attempts r + 1) now current previous next;
      \<forall>q \<in> set ds. p q \<longrightarrow> wd_id q = wd_id r \<and> delivery_check (f q) = None\<rbrakk>
    \<Longrightarrow> delivery_change (ds, as) (update_where p f ds, as)"
| conclude: "\<lbrakk>r \<in> set ds; live_status r; wa_number a = attempts_done r + 1; wa_delivery a = wd_id r;
      wd_id (f r) = wd_id r; wd_attempts (f r) = wa_number a; wd_active (f r) = None;
      concludes (wd_status (f r)) (wa_outcome a) (wa_number a);
      \<forall>q \<in> set ds. wd_id q = wd_id r \<longrightarrow> delivery_check (f q) = None\<rbrakk>
    \<Longrightarrow> delivery_change (ds, as) (update_where (\<lambda>q. wd_id q = wd_id r) f ds, as @ [a])"

abbreviation delivery_changes :: "hooks \<Rightarrow> hooks \<Rightarrow> bool" where
  "delivery_changes \<equiv> delivery_change\<^sup>*\<^sup>*"

section \<open>What every change keeps\<close>

definition attempts_of :: "attempt_row list \<Rightarrow> string \<Rightarrow> attempt_row list" where
  "attempts_of as d = filter (\<lambda>a. wa_delivery a = d) as"

definition may_retry :: "attempt_outcome \<Rightarrow> bool" where
  "may_retry a \<longleftrightarrow> a = Attempt_retryable \<or> a = Attempt_unknown"

text \<open>All attempts but the last one could be repeated; the last one fits the status.\<close>

fun outcomes_fit :: "delivery_status \<Rightarrow> attempt_outcome list \<Rightarrow> bool" where
  "outcomes_fit Delivered os \<longleftrightarrow> os \<noteq> [] \<and> list_all may_retry (butlast os) \<and> last os = Attempt_delivered"
| "outcomes_fit Dead_lettered os \<longleftrightarrow> os \<noteq> [] \<and> list_all may_retry (butlast os) \<and> last os \<noteq> Attempt_delivered \<and>
     (last os = Attempt_non_retryable \<or> length os = 7)"
| "outcomes_fit Retrying os \<longleftrightarrow> os \<noteq> [] \<and> list_all may_retry os \<and> length os < 7"
| "outcomes_fit Pending os \<longleftrightarrow> os = []"

definition delivery_ok :: "attempt_row list \<Rightarrow> delivery_row \<Rightarrow> bool" where
  "delivery_ok as r \<longleftrightarrow> delivery_check r = None \<and>
     map wa_number (attempts_of as (wd_id r)) = [1..<Suc (attempts_done r)] \<and>
     outcomes_fit (wd_status r) (map wa_outcome (attempts_of as (wd_id r)))"

fun hooks_ok :: "hooks \<Rightarrow> bool" where
  "hooks_ok (ds, as) \<longleftrightarrow> distinct (map wd_id ds) \<and> (\<forall>r \<in> set ds. delivery_ok as r) \<and>
     (\<forall>a \<in> set as. wa_delivery a \<in> wd_id ` set ds)"

lemma attempts_of_append: "attempts_of (as @ bs) d = attempts_of as d @ attempts_of bs d"
  by (simp add: attempts_of_def)

lemma same_work_fields:
  assumes "same_work r r'"
  shows "wd_id r' = wd_id r" "wd_attempts r' = wd_attempts r" "wd_active r' = wd_active r" "wd_status r' = wd_status r"
    "attempts_done r' = attempts_done r"
proof -
  have "wd_id (unclaimed r') = wd_id (unclaimed r)" "wd_attempts (unclaimed r') = wd_attempts (unclaimed r)"
    "wd_active (unclaimed r') = wd_active (unclaimed r)" "wd_status (unclaimed r') = wd_status (unclaimed r)"
    using assms by (simp_all add: same_work_def)
  then show "wd_id r' = wd_id r" "wd_attempts r' = wd_attempts r" "wd_active r' = wd_active r" "wd_status r' = wd_status r"
    "attempts_done r' = attempts_done r"
    by (simp_all add: unclaimed_def attempts_done_def)
qed

text \<open>An update row by row that keeps the identifiers.\<close>

lemma hooks_update:
  assumes "hooks_ok (ds, as)" and "\<forall>q \<in> set ds. p q \<longrightarrow> wd_id (f q) = wd_id q \<and> delivery_ok (as @ bs) (f q)"
    and "\<forall>q \<in> set ds. \<not> p q \<longrightarrow> delivery_ok (as @ bs) q" and "\<forall>a \<in> set bs. wa_delivery a \<in> wd_id ` set ds"
  shows "hooks_ok (update_where p f ds, as @ bs)"
proof -
  have ids: "map wd_id (update_where p f ds) = map wd_id ds"
    using assms(2) by (simp add: update_where_def comp_def if_distrib cong: map_cong)
  then have "wd_id ` set (update_where p f ds) = wd_id ` set ds" by (metis set_map)
  moreover have "distinct (map wd_id (update_where p f ds))" using assms(1) ids by simp
  ultimately show ?thesis using assms by (auto simp: update_where_def)
qed

lemma delivery_ok_other: "(\<forall>a \<in> set bs. wa_delivery a \<noteq> wd_id q) \<Longrightarrow> delivery_ok (as @ bs) q \<longleftrightarrow> delivery_ok as q"
  by (simp add: delivery_ok_def attempts_of_append) (simp add: attempts_of_def filter_False)

lemma outcomes_conclude:
  assumes "list_all may_retry os" and "concludes s o' n" and "n = Suc (length os)"
  shows "outcomes_fit s (os @ [o'])"
  using assms by (cases s; cases o') (auto simp: concludes_def may_retry_def)

lemma conclude_ok:
  assumes "delivery_ok as r" and "live_status r" and "wa_number a = attempts_done r + 1" and "wa_delivery a = wd_id r"
    and "wd_id (f r) = wd_id r" and "wd_attempts (f r) = wa_number a" and "wd_active (f r) = None"
    and "concludes (wd_status (f r)) (wa_outcome a) (wa_number a)" and "delivery_check (f r) = None"
  shows "delivery_ok (as @ [a]) (f r)"
proof -
  have one: "attempts_of [a] (wd_id r) = [a]" using assms(4) by (simp add: attempts_of_def)
  have nums: "map wa_number (attempts_of as (wd_id r)) = [1..<Suc (attempts_done r)]"
    and fit: "outcomes_fit (wd_status r) (map wa_outcome (attempts_of as (wd_id r)))"
    using assms(1) by (simp_all add: delivery_ok_def)
  have "length (attempts_of as (wd_id r)) = attempts_done r" using arg_cong[OF nums, of length] by simp
  moreover have "list_all may_retry (map wa_outcome (attempts_of as (wd_id r)))"
    using fit assms(2) by (auto simp: live_status_def)
  ultimately have "outcomes_fit (wd_status (f r)) (map wa_outcome (attempts_of as (wd_id r)) @ [wa_outcome a])"
    using assms(3,8) by (intro outcomes_conclude) simp_all
  then show ?thesis
    using nums assms by (simp add: delivery_ok_def attempts_of_append one attempts_done_def)
qed

lemma change_ok:
  assumes "delivery_change h h'" and "hooks_ok h"
  shows "hooks_ok h'"
  using assms
proof (induction rule: delivery_change.induct)
  case (create d ds as)
  have "wd_active d = None" using create(1,3,4) delivery_check_None(1)[OF create(1)] by (cases "wd_active d") auto
  moreover have "attempts_of as (wd_id d) = []"
    using create(2,5) by (auto simp: attempts_of_def filter_empty_conv) (metis imageI)
  ultimately show ?case using create by (auto simp: delivery_ok_def attempts_done_def)
next
  case (lease ds p f as)
  have "delivery_ok as (f q)" if "q \<in> set ds" "p q" for q
    using lease that same_work_fields[of q "f q"] by (auto simp: delivery_ok_def)
  then show ?case
    using hooks_update[of ds as p f "[]"] lease same_work_fields(1) by fastforce
next
  case (start r ds f now current previous nxt p as)
  have d: "distinct (map wd_id ds)" "delivery_ok as r" using start by auto
  have f: "wd_id (f r) = wd_id r" "wd_status (f r) = wd_status r" "attempts_done (f r) = attempts_done r"
    using start by (simp_all add: started_row_def attempts_done_def)
  have "q = r \<and> delivery_ok as (f q)" if "q \<in> set ds" "p q" for q
  proof -
    have qr: "wd_id q = wd_id r" "delivery_check (f q) = None" using start(5) that by blast+
    then have "q = r" using start(1) that(1) d(1) by (meson distinct_map inj_onD)
    moreover from this have "delivery_check (f r) = None" using qr(2) by simp
    ultimately show ?thesis using d(2) f by (simp add: delivery_ok_def)
  qed
  then have "\<forall>q \<in> set ds. p q \<longrightarrow> wd_id (f q) = wd_id q \<and> delivery_ok (as @ []) (f q)" using f(1) by auto
  moreover have "\<forall>q \<in> set ds. \<not> p q \<longrightarrow> delivery_ok (as @ []) q" using start(6) by simp
  ultimately show ?case using hooks_update[OF start(6), of p f "[]"] by simp
next
  case (conclude r ds a f as)
  have d: "distinct (map wd_id ds)" "delivery_ok as r" using conclude by auto
  have u: "q = r" if "q \<in> set ds" "wd_id q = wd_id r" for q
    using conclude(1) that d(1) by (auto simp: distinct_map inj_on_def)
  have ok: "delivery_ok (as @ [a]) (f r)" using conclude d(2) by (intro conclude_ok) simp_all
  show ?case
  proof (rule hooks_update[OF conclude(10)])
    show "\<forall>q \<in> set ds. wd_id q = wd_id r \<longrightarrow> wd_id (f q) = wd_id q \<and> delivery_ok (as @ [a]) (f q)"
      using u ok conclude(5) by metis
    show "\<forall>q \<in> set ds. wd_id q \<noteq> wd_id r \<longrightarrow> delivery_ok (as @ [a]) q"
      using conclude(4,10) by (auto simp: delivery_ok_other)
    show "\<forall>a' \<in> set [a]. wa_delivery a' \<in> wd_id ` set ds" using conclude(1,4) by auto
  qed
qed

lemma changes_ok: "delivery_changes h h' \<Longrightarrow> hooks_ok h \<Longrightarrow> hooks_ok h'"
  by (induction rule: rtranclp_induct) (auto intro: change_ok)

text \<open>A delivery that has come to its end stays as it is, and no attempt is forgotten.\<close>

definition hooks_forward :: "hooks \<Rightarrow> hooks \<Rightarrow> bool" where
  "hooks_forward h h' \<longleftrightarrow> (\<forall>r \<in> set (fst h). \<not> live_status r \<longrightarrow> r \<in> set (fst h')) \<and> (\<exists>bs. snd h' = snd h @ bs)"

lemma forward_trans: "hooks_forward h h1 \<Longrightarrow> hooks_forward h1 h2 \<Longrightarrow> hooks_forward h h2"
  unfolding hooks_forward_def by (metis append_assoc)

lemma update_keeps:
  assumes "q \<in> set ds" and "p q \<Longrightarrow> f q = q"
  shows "q \<in> set (update_where p f ds)"
  using assms by (force simp: update_where_def)

lemma change_forward:
  assumes "delivery_change h h'" and "hooks_ok h"
  shows "hooks_forward h h'"
  using assms
proof (induction rule: delivery_change.induct)
  case (lease ds p f as)
  have "f q = q" if "q \<in> set ds" "p q" "\<not> live_status q" for q
  proof -
    have w: "same_work q (f q)" "delivery_check (f q) = None" "delivery_check q = None"
      using lease that by (auto simp: delivery_ok_def)
    have "\<not> live_status (f q)" using same_work_fields(4)[OF w(1)] that(3) by (simp add: live_status_def)
    then have "unclaimed (f q) = f q" "unclaimed q = q" using delivery_check_None(2) w(2,3) that(3) by blast+
    then show ?thesis using w(1) by (simp add: same_work_def)
  qed
  then show ?case by (auto simp: hooks_forward_def intro: update_keeps)
next
  case (start r ds f now current previous nxt p as)
  have "\<not> p q" if "q \<in> set ds" "\<not> live_status q" for q
  proof
    assume "p q"
    then have "wd_id q = wd_id r" using start(5) that(1) by blast
    moreover have "distinct (map wd_id ds)" using start(6) by simp
    ultimately have "q = r" using start(1) that(1) by (meson distinct_map inj_onD)
    then show False using start(3) that(2) by simp
  qed
  then show ?case by (auto simp: hooks_forward_def intro: update_keeps)
next
  case (conclude r ds a f as)
  have "wd_id q \<noteq> wd_id r" if "q \<in> set ds" "\<not> live_status q" for q
    using conclude that by (auto simp: distinct_map inj_on_def)
  then show ?case by (auto simp: hooks_forward_def intro: update_keeps)
qed (auto simp: hooks_forward_def)

lemma changes_forward:
  assumes "delivery_changes h h'" and "hooks_ok h"
  shows "hooks_forward h h'"
  using assms
proof (induction rule: rtranclp_induct)
  case base
  show ?case by (simp add: hooks_forward_def)
next
  case (step h1 h2)
  then show ?case using change_forward changes_ok forward_trans by blast
qed

end
