(* ===== verification/Webhook_Delivery_Runs.thy ===== *)
theory Webhook_Delivery_Runs imports Webhook_Delivery_Laws begin

text \<open>
  Every operation of the dispatcher, and every projection of a message, only makes the changes of a delivery's
  life, whatever fails on the way.
\<close>

section \<open>Statements\<close>

lemma same_db_hooks:
  fixes w w' :: "'a webhook_world_scheme"
  assumes "same_db w w'"
  shows "hooks_of w' = hooks_of w"
  using webhook_same_db[OF assms] by simp

lemma hooks_bump [simp]: "webhook_deliveries (bump w) = webhook_deliveries w" "webhook_attempts (bump w) = webhook_attempts w"
  using webhook_same_db[OF same_db_bump(1), of w] by simp_all

lemma update_deliveries_Inr:
  fixes w :: "'a webhook_world_scheme"
  assumes "update_deliveries p f w = (Inr n, w')"
  shows "w' = set_deliveries (update_where p f (webhook_deliveries w)) w"
    and "n = count_where p (webhook_deliveries w)"
    and "\<forall>q \<in> set (webhook_deliveries w). p q \<longrightarrow> delivery_check (f q) = None"
  using assms
  by (auto simp: update_deliveries_def raise_constraint_def throw_def first_violation_None split: option.splits)

lemma insert_attempt_Inr:
  fixes w :: "'a webhook_world_scheme"
  assumes "insert_attempt_row a w = (Inr u, w')"
  shows "w' = w\<lparr>webhook_attempts := webhook_attempts w @ [a]\<rparr>"
  using assms by (auto simp: insert_attempt_row_def raise_constraint_def throw_def split: option.splits if_splits)

lemma create_attempt_Inr:
  fixes w :: "'a webhook_world_scheme"
  assumes "create_attempt E row w = (Inr u, w')"
  obtains i where "hooks_of w' = (webhook_deliveries w, webhook_attempts w @ [row i])"
proof -
  have "stmt E (insert_attempt_row (row (env_uuid E (tick w)))) (bump w) = (Inr u, w')"
    using assms by (simp add: create_attempt_def bindc_def new_uuid_def)
  then have "w' = (bump (bump w))\<lparr>webhook_attempts := webhook_attempts (bump (bump w)) @ [row (env_uuid E (tick w))]\<rparr>"
    unfolding stmt_Inr by (auto dest: insert_attempt_Inr)
  then show ?thesis using that[of "env_uuid E (tick w)"] by simp
qed

lemma update_delivery_Inr:
  fixes w :: "'a webhook_world_scheme"
  assumes "update_delivery E i f w = (Inr u, w')"
  shows "hooks_of w' = (update_where (\<lambda>r. wd_id r = i) f (webhook_deliveries w), webhook_attempts w)"
    and "\<forall>q \<in> set (webhook_deliveries w). wd_id q = i \<longrightarrow> delivery_check (f q) = None"
proof -
  obtain n w1 where n: "update_deliveries (\<lambda>r. wd_id r = i) f (bump w) = (Inr n, w1)"
    and w: "(if n = 0 then throw (PlainE ''No record was found for an update.'') else ok ()) w1 = (Inr u, w')"
    using assms unfolding update_delivery_def stmt_Inr by (meson bindc_InrE)
  have "w' = w1" using w by (auto simp: throw_def ok_def split: if_splits)
  then show "hooks_of w' = (update_where (\<lambda>r. wd_id r = i) f (webhook_deliveries w), webhook_attempts w)"
    "\<forall>q \<in> set (webhook_deliveries w). wd_id q = i \<longrightarrow> delivery_check (f q) = None"
    using update_deliveries_Inr[OF n] by simp_all
qed

lemma clock_Inr:
  fixes w :: "'a webhook_world_scheme"
  assumes "stmt E (read_clock E) w = (Inr now, w')"
  shows "hooks_of w' = hooks_of w"
  using assms by (auto simp: stmt_Inr read_clock_def)

lemma query_Inr:
  fixes w :: "'a webhook_world_scheme"
  assumes "stmt E (bindc (read_clock E) (\<lambda>now. gets (f now))) w = (Inr x, w')"
  obtains now w1 where "x = f now w1" and "hooks_of w1 = hooks_of w" and "hooks_of w' = hooks_of w"
  using assms by (auto simp: stmt_Inr read_clock_def gets_def bindc_def)

text \<open>The changes of a claim's columns.\<close>

lemma lease_change:
  fixes w :: "'a webhook_world_scheme"
  assumes "update_deliveries p f w = (Inr n, w')" and "\<And>r. same_work r (f r)"
  shows "delivery_change (hooks_of w) (hooks_of w')"
  using update_deliveries_Inr[OF assms(1)] assms(2) by (auto intro!: delivery_change.lease)

lemma same_work_unclaimed: "same_work r (unclaimed r)"
  by (simp add: same_work_def unclaimed_def)

lemma same_work_claimed: "same_work r (claimed_row worker now tokens r)"
  by (simp add: same_work_def unclaimed_def claimed_row_def)

lemma clear_claim_change:
  fixes w :: "'a webhook_world_scheme"
  assumes "clear_claim E claim w = (Inr b, w')"
  shows "delivery_change (hooks_of w) (hooks_of w')"
proof -
  obtain n where "stmt E (update_deliveries
      (\<lambda>r. wd_id r = cd_delivery claim \<and> wd_token r = Some (cd_token claim) \<and> wd_active r = None) unclaimed) w = (Inr n, w')"
    using assms unfolding clear_claim_def bindc_Inr ok_def by blast
  then show ?thesis using lease_change[OF _ same_work_unclaimed, of _ "bump w"] unfolding stmt_Inr by fastforce
qed

lemma clear_claim_by_id_change:
  fixes w :: "'a webhook_world_scheme"
  assumes "clear_claim_by_id E i w = (Inr n, w')"
  shows "delivery_change (hooks_of w) (hooks_of w')"
  using assms lease_change[OF _ same_work_unclaimed, of _ "bump w"] unfolding clear_claim_by_id_def stmt_Inr by fastforce

section \<open>The interface of an operation\<close>

locale delivery_operation =
  fixes op :: "('a webhook_world_scheme, error, 'r) comp"
  assumes makes_changes: "hooks_ok (hooks_of w) \<Longrightarrow> op w = (Inr x, w') \<Longrightarrow> delivery_changes (hooks_of w) (hooks_of w')"
begin

lemma transaction_changes:
  assumes "transaction E (\<lambda>_ _. None)
      (bindc (set_transaction_timeouts E) (\<lambda>_. bindc (set_transaction_timeouts E) (\<lambda>_. op))) w = (r, w')"
    and "hooks_ok (hooks_of w)"
  shows "delivery_changes (hooks_of w) (hooks_of w')"
  using transaction_atomic[OF assms(1)]
proof
  assume "\<exists>x w1. bindc (set_transaction_timeouts E) (\<lambda>_. bindc (set_transaction_timeouts E) (\<lambda>_. op)) (begin_txn E w) = (Inr x, w1) \<and>
    None = None \<and> w' = bump w1 \<and> (r = Inr x \<or> (\<exists>f. r = Inl (DbE f)))"
  then obtain x w1 where b: "bindc (set_transaction_timeouts E) (\<lambda>_. bindc (set_transaction_timeouts E) (\<lambda>_. op)) (begin_txn E w) = (Inr x, w1)"
    and w': "w' = bump w1" by blast
  obtain wb where wb: "same_db (begin_txn E w) wb" "op wb = (Inr x, w1)"
    using timeouts_then[OF b] by blast
  have "hooks_of wb = hooks_of w" using same_db_hooks[OF same_db_trans[OF same_db_begin wb(1)]] .
  then show ?thesis using makes_changes[of wb x w1] wb(2) assms(2) w' by simp
qed (metis same_db_hooks rtranclp.rtrancl_refl)

lemma attempts_changes:
  assumes "attempts n again exhausted spent (transaction E (\<lambda>_ _. None)
      (bindc (set_transaction_timeouts E) (\<lambda>_. bindc (set_transaction_timeouts E) (\<lambda>_. op)))) w = (r, w')"
    and "hooks_ok (hooks_of w)"
  shows "delivery_changes (hooks_of w) (hooks_of w')"
  using assms
proof (induction n arbitrary: w r w')
  case 0
  then show ?case by (auto simp: throw_def)
next
  case (Suc n)
  obtain r1 w1 where t: "transaction E (\<lambda>_ _. None)
      (bindc (set_transaction_timeouts E) (\<lambda>_. bindc (set_transaction_timeouts E) (\<lambda>_. op))) w = (r1, w1)" by fastforce
  note first = transaction_changes[OF t Suc.prems(2)]
  from Suc.prems(1) t have "w' = w1 \<or> attempts n again exhausted spent (transaction E (\<lambda>_ _. None)
      (bindc (set_transaction_timeouts E) (\<lambda>_. bindc (set_transaction_timeouts E) (\<lambda>_. op)))) w1 = (r, w')"
    by (cases r1) (auto simp: catch_def throw_def split: if_splits)
  then show ?case
  proof
    assume "attempts n again exhausted spent (transaction E (\<lambda>_ _. None)
      (bindc (set_transaction_timeouts E) (\<lambda>_. bindc (set_transaction_timeouts E) (\<lambda>_. op)))) w1 = (r, w')"
    from Suc.IH[OF this changes_ok[OF first Suc.prems(2)]] show ?thesis using first by (rule rtranclp_trans[rotated])
  qed (use first in simp)
qed

lemma webhook_changes:
  assumes "webhook_transaction E op w = (r, w')" and "hooks_ok (hooks_of w)"
  shows "delivery_changes (hooks_of w) (hooks_of w')"
proof -
  obtain r1 w1 where a: "attempts webhook_retry_attempts is_transient_transaction_error (\<lambda>e. e) (PlainE ''undefined'')
      (transaction E (\<lambda>_ _. None)
         (bindc (set_transaction_timeouts E) (\<lambda>_. bindc (set_transaction_timeouts E) (\<lambda>_. op)))) w = (r1, w1)"
    by fastforce
  have "hooks_of w' = hooks_of w1"
  proof (cases r1)
    case (Inl e)
    then have "rethrow_database_error E e w1 = (r, w')" using assms(1) a by (simp add: webhook_transaction_def catch_def)
    then show ?thesis using same_db_hooks[OF rethrow_same_db] by blast
  qed (use assms(1) a in \<open>simp add: webhook_transaction_def catch_def\<close>)
  then show ?thesis using attempts_changes[OF a assms(2)] by simp
qed

end

section \<open>The operations\<close>

lemma if_three:
  assumes "(if a then f else if b then g else h) w = u"
  obtains "f w = u" | "g w = u" | "h w = u"
  using assms by (cases a; cases b) simp_all

lemma then_clock: "bindc (read_clock E) f w = f (env_clock E (tick w)) (bump w)"
  by (simp add: bindc_def read_clock_def)

lemma then_gets: "bindc (gets g) f w = f (g w) w"
  by (simp add: bindc_def gets_def)

lemma new_tokens_hooks:
  fixes w :: "'a webhook_world_scheme"
  assumes "new_tokens E rows w = (Inr tokens, w')"
  shows "hooks_of w' = hooks_of w"
  using assms
proof (induction rows arbitrary: w tokens)
  case Nil
  then show ?case by (simp add: new_tokens_def ok_def)
next
  case (Cons r rows)
  then obtain tokens' where "new_tokens E rows (bump w) = (Inr tokens', w')"
    by (auto simp: new_tokens_def bindc_def new_uuid_def ok_def split: sum.splits prod.splits)
  from Cons.IH[OF this] show ?case by simp
qed

interpretation claim: delivery_operation "stmt E (claim_due_rows E locked worker batchSize)" for E locked worker batchSize
proof
  fix w w' :: "'a webhook_world_scheme" and x
  assume "stmt E (claim_due_rows E locked worker batchSize) w = (Inr x, w')"
  then have "claim_due_rows E locked worker batchSize (bump w) = (Inr x, w')" unfolding stmt_Inr by blast
  then obtain now rows where "bindc (new_tokens E rows) (\<lambda>tokens.
      bindc (update_deliveries (\<lambda>r. wd_id r \<in> fst ` set tokens) (claimed_row worker now tokens)) (\<lambda>_.
      ok (map (claim_of_delivery tokens) rows))) (bump (bump w)) = (Inr x, w')"
    unfolding claim_due_rows_def then_clock then_gets by blast
  then obtain tokens w2 where t: "new_tokens E rows (bump (bump w)) = (Inr tokens, w2)"
    and rest: "bindc (update_deliveries (\<lambda>r. wd_id r \<in> fst ` set tokens) (claimed_row worker now tokens)) (\<lambda>_.
      ok (map (claim_of_delivery tokens) rows)) w2 = (Inr x, w')" by (rule bindc_InrE)
  obtain n where u: "update_deliveries (\<lambda>r. wd_id r \<in> fst ` set tokens) (claimed_row worker now tokens) w2 = (Inr n, w')"
    using rest unfolding bindc_Inr ok_def by blast
  show "delivery_changes (hooks_of w) (hooks_of w')"
    using lease_change[OF u same_work_claimed] new_tokens_hooks[OF t] by simp
qed

interpretation release: delivery_operation "clear_claim E claim" for E claim
  by unfold_locales (rule r_into_rtranclp, rule clear_claim_change)

text \<open>A start: the locked row decides, and the transaction sees nothing else.\<close>

lemma find_start_row_Some:
  assumes "find_start_row claim now w = Some row"
  obtains r where "r \<in> set (webhook_deliveries w)" and "startable claim now r" and "sr_attempts row = wd_attempts r"
proof -
  obtain r where r: "List.find (startable claim now) (webhook_deliveries w) = Some r"
    using assms by (cases "List.find (startable claim now) (webhook_deliveries w)") (simp_all add: find_start_row_def)
  then have "r \<in> set (webhook_deliveries w)" "startable claim now r" by (auto simp: find_Some_iff)
  moreover have "sr_attempts row = wd_attempts r"
    using assms r by (auto simp: find_start_row_def split: option.splits)
  ultimately show ?thesis by (rule that)
qed

lemma start_delivery_change:
  fixes w :: "'a webhook_world_scheme"
  assumes "start_delivery E claim n current previous delay w = (Inr x, w')"
    and "r \<in> set (webhook_deliveries w)" and "startable claim now r" and "n = wd_attempts r + 1"
  shows "delivery_change (hooks_of w) (hooks_of w')"
proof -
  let ?p = "\<lambda>t r. wd_id r = cd_delivery claim \<and> wd_token r = Some (cd_token claim) \<and>
    (case wd_lease r of None \<Rightarrow> False | Some l \<Rightarrow> t < l)"
  let ?t = "env_clock E (tick w)"
  obtain u where u: "update_deliveries (?p ?t) (started_row n ?t current previous delay) (bump w) = (Inr u, w')"
    using assms(1) unfolding start_delivery_def then_clock by (auto simp: bindc_Inr ok_def split: if_splits)
  have r: "wd_active r = None" "live_status r" "wd_id r = cd_delivery claim"
    using assms(3) by (auto simp: startable_def live_status_def)
  show ?thesis
    using update_deliveries_Inr[OF u] r assms(2,4)
    by (auto intro!: delivery_change.start[where r = r])
qed

lemma inactive_change:
  fixes w :: "'a webhook_world_scheme"
  assumes "persist_inactive_attempt E claim n w = (Inr u, w')" and "hooks_ok (hooks_of w)"
    and "r \<in> set (webhook_deliveries w)" and "startable claim now r" and "n = wd_attempts r + 1"
  shows "delivery_change (hooks_of w) (hooks_of w')"
proof -
  obtain t w1 where t: "stmt E (read_clock E) w = (Inr t, w1)"
    and rest: "bindc (create_attempt E (inactive_attempt (cd_delivery claim) n t)) (\<lambda>_.
      update_delivery E (cd_delivery claim) (inactive_row n t)) w1 = (Inr u, w')"
    using assms(1) unfolding persist_inactive_attempt_def bindc_Inr by blast
  obtain w2 where c: "create_attempt E (inactive_attempt (cd_delivery claim) n t) w1 = (Inr (), w2)"
    and up: "update_delivery E (cd_delivery claim) (inactive_row n t) w2 = (Inr u, w')"
    using rest by (auto elim: bindc_InrE)
  obtain i where i: "hooks_of w2 = (webhook_deliveries w1, webhook_attempts w1 @ [inactive_attempt (cd_delivery claim) n t i])"
    using create_attempt_Inr[OF c] by blast
  have r: "wd_active r = None" "live_status r" "wd_id r = cd_delivery claim" "delivery_check r = None"
    using assms(2-4) by (auto simp: startable_def live_status_def delivery_ok_def)
  have "delivery_change (hooks_of w) (update_where (\<lambda>q. wd_id q = wd_id r) (inactive_row n t) (webhook_deliveries w),
      webhook_attempts w @ [inactive_attempt (cd_delivery claim) n t i])"
    using r assms(3,5) update_delivery_Inr(2)[OF up] i clock_Inr[OF t]
    by (intro delivery_change.conclude)
      (auto simp: inactive_attempt_def inactive_row_def unclaimed_def attempts_done_def concludes_def)
  then show ?thesis using update_delivery_Inr(1)[OF up] i clock_Inr[OF t] r(3) by simp
qed

interpretation start: delivery_operation "start_transaction E dx delay" for E dx delay
proof
  fix w w' :: "'a webhook_world_scheme" and x
  let ?claim = "dx_claim dx"
  assume ok: "hooks_ok (hooks_of w)" and run: "start_transaction E dx delay w = (Inr x, w')"
  obtain found w1 where q: "stmt E (bindc (read_clock E) (\<lambda>now. gets (find_start_row ?claim now))) w = (Inr found, w1)"
    and rest: "(case found of
        None \<Rightarrow> ok Start_lost
      | Some row \<Rightarrow>
          if sr_attempts row \<noteq> cd_attempts ?claim then ok Start_lost
          else if sr_inactive row
          then bindc (persist_inactive_attempt E ?claim (cd_attempts ?claim + 1)) (\<lambda>_. ok (Inactive (cd_attempts ?claim + 1)))
          else if \<not> dx_active dx \<or> sr_current row \<noteq> Some (ss_version (dx_current dx)) \<or>
            (sr_previous row \<noteq> None \<and> sr_previous row \<noteq> map_option ss_version (dx_previous dx))
          then bindc (clear_claim E ?claim) (\<lambda>_. ok Start_lost)
          else stmt E (start_delivery E ?claim (cd_attempts ?claim + 1) (ss_version (dx_current dx)) (sr_previous row) delay))
        w1 = (Inr x, w')"
    using run unfolding start_transaction_def Let_def bindc_Inr by blast
  obtain now and w0 :: "'a webhook_world_scheme" where f: "found = find_start_row ?claim now w0" "hooks_of w0 = hooks_of w" "hooks_of w1 = hooks_of w"
    using q by (rule query_Inr)
  show "delivery_changes (hooks_of w) (hooks_of w')"
  proof (cases "found = None \<or> sr_attempts (the found) \<noteq> cd_attempts ?claim")
    case True
    then have "w' = w1" using rest by (cases found) (simp_all add: ok_def)
    then show ?thesis using f(3) by simp
  next
    case False
    then obtain row where row: "found = Some row" "sr_attempts row = cd_attempts ?claim" by auto
    obtain r where r: "r \<in> set (webhook_deliveries w1)" "startable ?claim now r" "cd_attempts ?claim + 1 = wd_attempts r + 1"
      using find_start_row_Some[of ?claim now w0 row] f row by auto
    have ok1: "hooks_ok (hooks_of w1)" using ok f(3) by simp
    let ?n = "cd_attempts ?claim + 1"
    let ?lost = "\<not> dx_active dx \<or> sr_current row \<noteq> Some (ss_version (dx_current dx)) \<or>
      (sr_previous row \<noteq> None \<and> sr_previous row \<noteq> map_option ss_version (dx_previous dx))"
    have "(if sr_inactive row then bindc (persist_inactive_attempt E ?claim ?n) (\<lambda>_. ok (Inactive ?n))
       else if ?lost then bindc (clear_claim E ?claim) (\<lambda>_. ok Start_lost)
       else stmt E (start_delivery E ?claim ?n (ss_version (dx_current dx)) (sr_previous row) delay)) w1 = (Inr x, w')"
      using rest unfolding row(1) option.case using row(2) by simp
    then consider (inactive) "bindc (persist_inactive_attempt E ?claim ?n) (\<lambda>_. ok (Inactive ?n)) w1 = (Inr x, w')"
      | (lost) "bindc (clear_claim E ?claim) (\<lambda>_. ok Start_lost) w1 = (Inr x, w')"
      | (started) "stmt E (start_delivery E ?claim ?n (ss_version (dx_current dx)) (sr_previous row) delay) w1 = (Inr x, w')"
      by (rule if_three)
    then have "delivery_change (hooks_of w1) (hooks_of w')"
    proof cases
      case inactive
      then obtain u where "persist_inactive_attempt E ?claim ?n w1 = (Inr u, w')" unfolding bindc_Inr ok_def by blast
      then show ?thesis by (rule inactive_change[OF _ ok1 r])
    next
      case lost
      then obtain b where "clear_claim E ?claim w1 = (Inr b, w')" unfolding bindc_Inr ok_def by blast
      then show ?thesis by (rule clear_claim_change)
    next
      case started
      then have "start_delivery E ?claim ?n (ss_version (dx_current dx)) (sr_previous row) delay (bump w1) = (Inr x, w')"
        unfolding stmt_Inr by blast
      from start_delivery_change[OF this _ r(2,3)] show ?thesis using r(1) by simp
    qed
    then show ?thesis using f(3) by simp
  qed
qed

text \<open>An attempt and its delivery's row in one transaction.\<close>

lemma concluding_change:
  fixes w :: "'a webhook_world_scheme"
  assumes "bindc (create_attempt E row) (\<lambda>_. bindc (update_delivery E (wd_id r) f) (\<lambda>_. ok y)) w = (Inr x, w')"
    and "r \<in> set (webhook_deliveries w)" and "live_status r"
    and "\<And>i. wa_number (row i) = attempts_done r + 1" and "\<And>i. wa_delivery (row i) = wd_id r"
    and "wd_id (f r) = wd_id r" and "wd_attempts (f r) = attempts_done r + 1" and "wd_active (f r) = None"
    and "\<And>i. concludes (wd_status (f r)) (wa_outcome (row i)) (attempts_done r + 1)"
  shows "delivery_change (hooks_of w) (hooks_of w')"
    and "webhook_deliveries w' = update_where (\<lambda>q. wd_id q = wd_id r) f (webhook_deliveries w)"
proof -
  obtain u w1 where c: "create_attempt E row w = (Inr u, w1)"
    and rest: "bindc (update_delivery E (wd_id r) f) (\<lambda>_. ok y) w1 = (Inr x, w')"
    using assms(1) by (rule bindc_InrE)
  obtain v where up: "update_delivery E (wd_id r) f w1 = (Inr v, w')" using rest unfolding bindc_Inr ok_def by blast
  obtain i where i: "hooks_of w1 = (webhook_deliveries w, webhook_attempts w @ [row i])"
    using create_attempt_Inr[OF c] by blast
  then show "webhook_deliveries w' = update_where (\<lambda>q. wd_id q = wd_id r) f (webhook_deliveries w)"
    using update_delivery_Inr(1)[OF up] by simp
  have "delivery_change (hooks_of w)
      (update_where (\<lambda>q. wd_id q = wd_id r) f (webhook_deliveries w), webhook_attempts w @ [row i])"
    using assms(2-9) update_delivery_Inr(2)[OF up] i by (intro delivery_change.conclude) auto
  then show "delivery_change (hooks_of w) (hooks_of w')" using update_delivery_Inr(1)[OF up] i by simp
qed

interpretation finish: delivery_operation "finalize_transaction E claim attempt evidence" for E claim attempt evidence
proof
  fix w w' :: "'a webhook_world_scheme" and x
  let ?status = "final_status evidence (sa_number attempt)"
  assume ok: "hooks_ok (hooks_of w)" and run: "finalize_transaction E claim attempt evidence w = (Inr x, w')"
  obtain found w1 where q: "stmt E (bindc (read_clock E) (\<lambda>now.
       gets (\<lambda>w. List.find (active_row claim attempt now) (webhook_deliveries w)))) w = (Inr found, w1)"
    and rest: "(case found of
       None \<Rightarrow> ok \<lparr>df_status = Dead_lettered, df_updated = False\<rparr>
     | Some row \<Rightarrow>
         if \<not> same_attempt attempt row then ok \<lparr>df_status = Dead_lettered, df_updated = False\<rparr>
         else bindc (stmt E (read_clock E)) (\<lambda>completedAt.
           if ?status = Retrying \<and> sa_next attempt = None
           then throw (PlainE ''Retrying webhook delivery has no next attempt time'')
           else bindc (create_attempt E (finished_attempt (cd_delivery claim) attempt evidence completedAt)) (\<lambda>_.
             bindc (update_delivery E (cd_delivery claim) (finished_row ?status completedAt (sa_next attempt))) (\<lambda>_.
             ok \<lparr>df_status = ?status, df_updated = True\<rparr>)))) w1 = (Inr x, w')"
    using run unfolding finalize_transaction_def Let_def bindc_Inr by blast
  obtain now and w0 :: "'a webhook_world_scheme" where
    f: "found = List.find (active_row claim attempt now) (webhook_deliveries w0)" "hooks_of w0 = hooks_of w" "hooks_of w1 = hooks_of w"
    using q by (rule query_Inr)
  show "delivery_changes (hooks_of w) (hooks_of w')"
  proof (cases "found = None \<or> \<not> same_attempt attempt (the found)")
    case True
    then have "w' = w1" using rest by (cases found) (simp_all add: ok_def)
    then show ?thesis using f(3) by simp
  next
    case False
    then obtain r where r: "found = Some r" "same_attempt attempt r" by auto
    have "List.find (active_row claim attempt now) (webhook_deliveries w) = Some r" using f(1,2) r(1) by simp
    then have row: "r \<in> set (webhook_deliveries w)" "active_row claim attempt now r" by (auto simp: find_Some_iff)
    then have id: "wd_id r = cd_delivery claim" "wd_active r = Some (sa_number attempt)" by (simp_all add: active_row_def)
    have checked: "delivery_check r = None" using ok row(1) by (simp add: delivery_ok_def)
    have live: "live_status r" and number: "attempts_done r + 1 = sa_number attempt" "wd_attempts r = sa_number attempt"
      "sa_number attempt \<le> 7"
      using delivery_check_None(1)[OF checked id(2)] id(2) by (auto simp: attempts_done_def)
    obtain t w2 where t: "stmt E (read_clock E) w1 = (Inr t, w2)"
      and rest2: "(if ?status = Retrying \<and> sa_next attempt = None
           then throw (PlainE ''Retrying webhook delivery has no next attempt time'')
           else bindc (create_attempt E (finished_attempt (cd_delivery claim) attempt evidence t)) (\<lambda>_.
             bindc (update_delivery E (cd_delivery claim) (finished_row ?status t (sa_next attempt))) (\<lambda>_.
             ok \<lparr>df_status = ?status, df_updated = True\<rparr>))) w2 = (Inr x, w')"
      using rest unfolding r(1) option.case if_not_P[OF iffD2[OF not_not r(2)]] bindc_Inr by blast
    have run2: "bindc (create_attempt E (finished_attempt (wd_id r) attempt evidence t)) (\<lambda>_.
        bindc (update_delivery E (wd_id r) (finished_row ?status t (sa_next attempt))) (\<lambda>_.
        ok \<lparr>df_status = ?status, df_updated = True\<rparr>)) w2 = (Inr x, w')"
      using rest2 unfolding id(1) by (auto simp: throw_def split: if_splits)
    have "concludes ?status (to_attempt_outcome (ev_outcome evidence)) (sa_number attempt)"
      using number(3) by (cases "ev_outcome evidence") (auto simp: concludes_def final_status_def)
    then have "delivery_change (hooks_of w2) (hooks_of w')"
      using number live row(1) f(3) clock_Inr[OF t]
      by (intro concluding_change(1)[OF run2])
        (auto simp: finished_attempt_def finished_row_def idle_def unclaimed_def)
    then show ?thesis using f(3) clock_Inr[OF t] by simp
  qed
qed

section \<open>Recovery\<close>

lemma recover_one_change:
  fixes w :: "'a webhook_world_scheme"
  assumes "recover_one E result r w = (Inr x, w')" and "hooks_ok (hooks_of w)" and "r \<in> set (webhook_deliveries w)"
  shows "delivery_change (hooks_of w) (hooks_of w')"
    and "\<forall>q \<in> set (webhook_deliveries w). wd_id q \<noteq> wd_id r \<longrightarrow> q \<in> set (webhook_deliveries w')"
proof -
  have checked: "delivery_check r = None" using assms(2,3) by (simp add: delivery_ok_def)
  have "delivery_change (hooks_of w) (hooks_of w') \<and>
    (\<forall>q \<in> set (webhook_deliveries w). wd_id q \<noteq> wd_id r \<longrightarrow> q \<in> set (webhook_deliveries w'))"
  proof (cases "wd_active r")
    case None
    obtain n where c: "clear_claim_by_id E (wd_id r) w = (Inr n, w')"
      using assms(1) unfolding recover_one_def None option.case bindc_Inr ok_def by blast
    then have "update_deliveries (\<lambda>q. wd_id q = wd_id r \<and> wd_active q = None) unclaimed (bump w) = (Inr n, w')"
      unfolding clear_claim_by_id_def stmt_Inr by blast
    from update_deliveries_Inr(1)[OF this]
    have "webhook_deliveries w' = update_where (\<lambda>q. wd_id q = wd_id r \<and> wd_active q = None) unclaimed (webhook_deliveries w)"
      by simp
    then show ?thesis using clear_claim_by_id_change[OF c] by (auto intro: update_keeps)
  next
    case (Some n)
    obtain started timestamp current lease where fields: "wd_active_started r = Some started"
      "wd_active_timestamp r = Some timestamp" "wd_active_current r = Some current" "wd_lease r = Some lease"
      using assms(1) unfolding recover_one_def Some by (auto simp: throw_def split: option.splits)
    let ?t = "if lease < started then started else lease"
    have run: "bindc (create_attempt E (recovered_attempt r n started timestamp current ?t)) (\<lambda>_.
        bindc (update_delivery E (wd_id r) (recovered_row (7 \<le> n) ?t)) (\<lambda>_.
        ok (result\<lparr>rr_unknown := rr_unknown result + 1,
          rr_dead := (if 7 \<le> n then rr_dead result + 1 else rr_dead result)\<rparr>))) w = (Inr x, w')"
      using assms(1) unfolding recover_one_def Some fields option.case prod.case Let_def .
    have n: "live_status r" "attempts_done r + 1 = n" "wd_attempts r = n" "n \<le> 7"
      using delivery_check_None(1)[OF checked Some] Some by (auto simp: attempts_done_def)
    have "concludes (if 7 \<le> n then Dead_lettered else Retrying) Attempt_unknown n"
      using n(4) by (auto simp: concludes_def)
    then have facts: "wa_number (recovered_attempt r n started timestamp current ?t i) = attempts_done r + 1"
      "wa_delivery (recovered_attempt r n started timestamp current ?t i) = wd_id r"
      "wd_id (recovered_row (7 \<le> n) ?t r) = wd_id r" "wd_attempts (recovered_row (7 \<le> n) ?t r) = attempts_done r + 1"
      "wd_active (recovered_row (7 \<le> n) ?t r) = None"
      "concludes (wd_status (recovered_row (7 \<le> n) ?t r))
        (wa_outcome (recovered_attempt r n started timestamp current ?t i)) (attempts_done r + 1)" for i
      using n by (simp_all add: recovered_attempt_def recovered_row_def idle_def unclaimed_def split: if_splits)
    from concluding_change[OF run assms(3) n(1) facts]
    have "delivery_change (hooks_of w) (hooks_of w')"
      "webhook_deliveries w' = update_where (\<lambda>q. wd_id q = wd_id r) (recovered_row (7 \<le> n) ?t) (webhook_deliveries w)" .
    then show ?thesis by (auto intro: update_keeps)
  qed
  then show "delivery_change (hooks_of w) (hooks_of w')"
    "\<forall>q \<in> set (webhook_deliveries w). wd_id q \<noteq> wd_id r \<longrightarrow> q \<in> set (webhook_deliveries w')"
    by blast+
qed

lemma recover_all_changes:
  fixes w :: "'a webhook_world_scheme"
  assumes "recover_all E result rs w = (Inr x, w')" and "hooks_ok (hooks_of w)"
    and "\<forall>r \<in> set rs. r \<in> set (webhook_deliveries w)" and "distinct (map wd_id rs)"
  shows "delivery_changes (hooks_of w) (hooks_of w')"
  using assms
proof (induction rs arbitrary: result w)
  case Nil
  then show ?case by (simp add: ok_def)
next
  case (Cons r rs)
  obtain result' w1 where one: "recover_one E result r w = (Inr result', w1)"
    and rest: "recover_all E result' rs w1 = (Inr x, w')"
    using Cons.prems(1) unfolding recover_all.simps by (rule bindc_InrE)
  note c = recover_one_change[OF one Cons.prems(2)]
  have first: "delivery_change (hooks_of w) (hooks_of w1)" using c(1) Cons.prems(3) by simp
  have later: "\<forall>q \<in> set rs. q \<in> set (webhook_deliveries w1)"
  proof
    fix q
    assume "q \<in> set rs"
    moreover have "wd_id r \<notin> wd_id ` set rs" using Cons.prems(4) by simp
    ultimately have "wd_id q \<noteq> wd_id r" "q \<in> set (webhook_deliveries w)" using Cons.prems(3) by (metis imageI, simp)
    then show "q \<in> set (webhook_deliveries w1)" using c(2) Cons.prems(3) by simp
  qed
  have "delivery_changes (hooks_of w1) (hooks_of w')"
    using Cons.IH[OF rest change_ok[OF first Cons.prems(2)] later] Cons.prems(4) by simp
  with first show ?case by (rule converse_rtranclp_into_rtranclp)
qed

interpretation recover: delivery_operation "recover_transaction E locked limit" for E locked limit
proof
  fix w w' :: "'a webhook_world_scheme" and x
  assume ok: "hooks_ok (hooks_of w)" and run: "recover_transaction E locked limit w = (Inr x, w')"
  obtain rows w1 where q: "stmt E (bindc (read_clock E) (\<lambda>now.
       gets (\<lambda>w. expired_deliveries limit now locked (webhook_deliveries w)))) w = (Inr rows, w1)"
    and rest: "recover_all E \<lparr>rr_cleared = 0, rr_dead = 0, rr_unknown = 0\<rparr> rows w1 = (Inr x, w')"
    using run unfolding recover_transaction_def by (rule bindc_InrE)
  obtain now and w0 :: "'a webhook_world_scheme" where
    f: "rows = expired_deliveries limit now locked (webhook_deliveries w0)" "hooks_of w0 = hooks_of w" "hooks_of w1 = hooks_of w"
    using q by (rule query_Inr)
  let ?sorted = "sort_key (\<lambda>r. the (wd_lease r)) (sort_key wd_id (filter (expired now locked) (webhook_deliveries w0)))"
  have "distinct (map wd_id (webhook_deliveries w0))" using ok f(2) by simp
  then have "inj_on wd_id (set (webhook_deliveries w0))" "distinct (webhook_deliveries w0)" by (simp_all add: distinct_map)
  then have "distinct (map wd_id ?sorted)" by (auto simp: distinct_map inj_on_def)
  then have "distinct (map wd_id rows)" unfolding f(1) expired_deliveries_def take_map[symmetric] by (rule distinct_take)
  moreover have "\<forall>r \<in> set rows. r \<in> set (webhook_deliveries w1)"
    using f by (auto simp: expired_deliveries_def dest: in_set_takeD)
  ultimately have "delivery_changes (hooks_of w1) (hooks_of w')"
    using recover_all_changes[OF rest] ok f(3) by simp
  then show "delivery_changes (hooks_of w) (hooks_of w')" using f(3) by simp
qed

end
