(* ===== verification/Webhook_Reach.thy ===== *)
theory Webhook_Reach imports Webhook_Delivery_Runs begin

text \<open>
  The dispatcher and the consumer as a whole: what any sequence of their calls makes of the deliveries.
\<close>

section \<open>Computations that only change deliveries as their life allows\<close>

definition delivery_run :: "('a webhook_world_scheme, 'e, 'r) comp \<Rightarrow> bool" where
  "delivery_run m \<longleftrightarrow> (\<forall>w r w'. hooks_ok (hooks_of w) \<longrightarrow> m w = (r, w') \<longrightarrow> delivery_changes (hooks_of w) (hooks_of w'))"

named_theorems runs

declare hooks_ok.simps [simp del]

lemma delivery_runD:
  "delivery_run m \<Longrightarrow> hooks_ok (hooks_of w) \<Longrightarrow> m w = (r, w') \<Longrightarrow> delivery_changes (hooks_of w) (hooks_of w')"
  unfolding delivery_run_def by blast

lemma run_quiet:
  assumes "\<And>w r w'. m w = (r, w') \<Longrightarrow> hooks_of w' = hooks_of w"
  shows "delivery_run m"
  unfolding delivery_run_def by (metis assms rtranclp.rtrancl_refl)

lemma run_simple [runs]:
  "delivery_run (ok x)" "delivery_run (throw e)" "delivery_run (gets g)" "delivery_run (observe ob)" "delivery_run (from_sum s)"
  by (auto intro!: run_quiet simp: ok_def throw_def gets_def observe_def modify_def from_sum_def split: sum.splits)

lemma run_bindc [runs]:
  assumes "delivery_run m" and "\<And>x. delivery_run (f x)"
  shows "delivery_run (bindc m f)"
  unfolding delivery_run_def
proof (intro allI impI)
  fix w :: "'a webhook_world_scheme" and r w'
  assume ok: "hooks_ok (hooks_of w)" and run: "bindc m f w = (r, w')"
  obtain r1 w1 where m: "m w = (r1, w1)" by fastforce
  note first = delivery_runD[OF assms(1) ok m]
  show "delivery_changes (hooks_of w) (hooks_of w')"
  proof (cases r1)
    case (Inl e)
    then show ?thesis using run m first by (simp add: bindc_def)
  next
    case (Inr x)
    then have "f x w1 = (r, w')" using run m by (simp add: bindc_def)
    from delivery_runD[OF assms(2) changes_ok[OF first ok] this] first show ?thesis by (rule rtranclp_trans[rotated])
  qed
qed

lemma run_catch [runs]:
  assumes "delivery_run m" and "\<And>e. delivery_run (h e)"
  shows "delivery_run (catch m h)"
  unfolding delivery_run_def
proof (intro allI impI)
  fix w :: "'a webhook_world_scheme" and r w'
  assume ok: "hooks_ok (hooks_of w)" and run: "catch m h w = (r, w')"
  obtain r1 w1 where m: "m w = (r1, w1)" by fastforce
  note first = delivery_runD[OF assms(1) ok m]
  show "delivery_changes (hooks_of w) (hooks_of w')"
  proof (cases r1)
    case (Inr x)
    then show ?thesis using run m first by (simp add: catch_def)
  next
    case (Inl e)
    then have "h e w1 = (r, w')" using run m by (simp add: catch_def)
    from delivery_runD[OF assms(2) changes_ok[OF first ok] this] first show ?thesis by (rule rtranclp_trans[rotated])
  qed
qed

lemma run_for_each [runs]: "(\<And>x. delivery_run (f x)) \<Longrightarrow> delivery_run (for_each f xs)"
  by (induction xs) (simp_all add: runs)

lemma run_rethrow [runs]: "delivery_run (rethrow_database_error E e)"
  by (rule run_quiet) (use rethrow_same_db same_db_hooks in blast)

lemma run_stmt_gets [runs]: "delivery_run (stmt E (bindc (gets g) from_sum))"
  by (rule run_quiet) (auto simp: stmt_def gets_def bindc_def from_sum_def split: option.splits sum.splits)

section \<open>The operations\<close>

context delivery_operation begin

lemma operation_run: "delivery_run (webhook_transaction E op)"
  unfolding delivery_run_def using webhook_changes by blast

end

lemma run_transactions [runs]:
  "delivery_run (webhook_transaction E (stmt E (claim_due_rows E locked worker n)))"
  "delivery_run (webhook_transaction E (start_transaction E dx delay))"
  "delivery_run (webhook_transaction E (finalize_transaction E claim attempt evidence))"
  "delivery_run (webhook_transaction E (clear_claim E claim))"
  "delivery_run (webhook_transaction E (recover_transaction E locked n))"
  by (rule claim.operation_run start.operation_run finish.operation_run release.operation_run recover.operation_run)+

lemma run_operations [runs]:
  "delivery_run (claim_due E locked worker n)" "delivery_run (start_attempt E dx delay)"
  "delivery_run (finalize_attempt E claim attempt evidence)" "delivery_run (release_unstarted E claim)"
  "delivery_run (recover_expired E locked n)"
  by (simp_all add: claim_due_def start_attempt_def finalize_attempt_def release_unstarted_def recover_expired_def Let_def runs)

lemma run_load_context [runs]: "delivery_run (load_context E claim)"
  unfolding load_context_def by (intro runs; auto split: option.split simp: runs)

lemma run_set_dependency [runs]: "delivery_run (set_dependency b)"
  by (rule run_quiet) (auto simp: set_dependency_def)

lemma run_deliver [runs]: "delivery_run (deliver P dx headers)"
  by (rule run_quiet) (auto simp: deliver_def)

lemma run_ownership_lost [runs]: "delivery_run (record_ownership_lost claim)"
  unfolding record_ownership_lost_def by (rule runs)

lemma run_send_attempt [runs]: "delivery_run (send_attempt E P dx current previous attempt)"
  unfolding send_attempt_def Let_def by (auto split: option.split intro!: runs)

lemma run_run_claim [runs]: "delivery_run (run_claim E P dx delay current previous)"
  unfolding run_claim_def Let_def by (auto split: start_result.split intro!: runs)

lemma run_process_claim [runs]: "delivery_run (process_claim E J P claim)"
  unfolding process_claim_def by (auto split: option.split prod.split intro!: runs)

lemma run_process_claims [runs]:
  assumes "\<And>c. delivery_run (f c)"
  shows "delivery_run (process_claims f cs)"
proof (induction cs)
  case Nil
  show ?case by (simp add: runs)
next
  case (Cons c cs)
  show ?case
    unfolding delivery_run_def
  proof (intro allI impI)
    fix w :: "'a webhook_world_scheme" and r w'
    assume ok: "hooks_ok (hooks_of w)" and run: "process_claims f (c # cs) w = (r, w')"
    obtain r1 w1 where m: "f c w = (r1, w1)" by fastforce
    obtain r2 w2 where rest: "process_claims f cs w1 = (r2, w2)" by fastforce
    note first = delivery_runD[OF assms ok m]
    have "w' = w2" using run m rest by (cases r1; cases r2) (simp_all add: bindc_def ok_def)
    then show "delivery_changes (hooks_of w) (hooks_of w')"
      using delivery_runD[OF Cons changes_ok[OF first ok] rest] first by (simp add: rtranclp_trans)
  qed
qed

lemma run_dispatcher_runs [runs]: "delivery_run (run_dispatcher E J P locked worker n)"
  unfolding delivery_run_def
proof (intro allI impI)
  fix w :: "'a service_world_scheme" and r w'
  assume ok: "hooks_ok (hooks_of w)" and run: "run_dispatcher E J P locked worker n w = (r, w')"
  obtain empty where "w' = w \<or> bindc (recover_expired E locked n) (\<lambda>recovery.
        bindc (for_each observe (recovery_signals recovery)) (\<lambda>_.
        bindc (claim_due E locked worker n) (\<lambda>claims.
        if claims = [] then ok (empty\<lparr>rn_dead := rr_dead recovery, rn_unknown := rr_unknown recovery\<rparr>)
        else
          bindc (process_claims (process_claim E J P) claims) (\<lambda>results.
          let count = (\<lambda>k. length (filter ((=) k) results)); unavailable = 0 < count Dependency_unavailable in
          bindc (if unavailable then set_dependency False else ok ()) (\<lambda>_.
          bindc (gets is_ready) (\<lambda>ready.
          ok \<lparr>rn_claimed = length claims, rn_dead = rr_dead recovery + count Claim_dead_lettered,
             rn_delivered = count Claim_delivered, rn_ready = (\<not> unavailable \<and> ready), rn_lost = count Ownership_lost,
             rn_unknown = rr_unknown recovery, rn_retrying = count Claim_retrying\<rparr>)))))) w = (r, w')"
    using run unfolding run_dispatcher_def Let_def by (auto simp: ok_def split: if_splits)
  moreover have "delivery_run (bindc (recover_expired E locked n) (\<lambda>recovery.
        bindc (for_each observe (recovery_signals recovery)) (\<lambda>_.
        bindc (claim_due E locked worker n) (\<lambda>claims.
        if claims = [] then ok (empty\<lparr>rn_dead := rr_dead recovery, rn_unknown := rr_unknown recovery\<rparr>)
        else
          bindc (process_claims (process_claim E J P) claims) (\<lambda>results.
          let count = (\<lambda>k. length (filter ((=) k) results)); unavailable = 0 < count Dependency_unavailable in
          bindc (if unavailable then set_dependency False else ok ()) (\<lambda>_.
          bindc (gets is_ready) (\<lambda>ready.
          ok \<lparr>rn_claimed = length claims, rn_dead = rr_dead recovery + count Claim_dead_lettered,
             rn_delivered = count Claim_delivered, rn_ready = (\<not> unavailable \<and> ready), rn_lost = count Ownership_lost,
             rn_unknown = rr_unknown recovery, rn_retrying = count Claim_retrying\<rparr>)))))))"
    by (auto simp: Let_def intro!: runs)
  ultimately show "delivery_changes (hooks_of w) (hooks_of w')"
    using ok delivery_runD by auto
qed

section \<open>New deliveries\<close>

lemma stored_delivery_same:
  "delivery_check (stored_delivery d) = delivery_check d" "wd_id (stored_delivery d) = wd_id d"
  "wd_status (stored_delivery d) = wd_status d" "wd_attempts (stored_delivery d) = wd_attempts d"
  by (simp_all add: stored_delivery_def delivery_check_def active_fields_def claim_fields_def state_fields_def)

lemma insert_deliveries_changes:
  fixes w :: "'a webhook_world_scheme"
  assumes "for_each insert_delivery_row ds w = (Inr u, w')" and "\<forall>d \<in> set ds. wd_status d = Pending \<and> wd_attempts d = 0"
  shows "delivery_changes (hooks_of w) (hooks_of w')"
  using assms
proof (induction ds arbitrary: w)
  case Nil
  then show ?case by (simp add: ok_def)
next
  case (Cons d ds)
  obtain w1 u1 where d: "insert_delivery_row d w = (Inr u1, w1)" and rest: "for_each insert_delivery_row ds w1 = (Inr u, w')"
    using Cons.prems(1) by (auto simp: bindc_Inr)
  have "delivery_check d = None" "wd_id d \<notin> wd_id ` set (webhook_deliveries w)"
    "w1 = set_deliveries (webhook_deliveries w @ [stored_delivery d]) w"
    using d by (auto simp: insert_delivery_row_def delivery_unique_def raise_constraint_def throw_def
        split: option.splits if_splits)
  then have "delivery_change (hooks_of w) (hooks_of w1)"
    using Cons.prems(2) by (simp add: delivery_change.create stored_delivery_same)
  moreover have "delivery_changes (hooks_of w1) (hooks_of w')" using Cons.IH[OF rest] Cons.prems(2) by simp
  ultimately show ?case by (rule converse_rtranclp_into_rtranclp)
qed

lemma create_projection_changes:
  fixes w :: "'a webhook_world_scheme"
  assumes "create_projection E event ds w = (Inr u, w')" and "\<forall>d \<in> set ds. wd_status d = Pending \<and> wd_attempts d = 0"
  shows "delivery_changes (hooks_of w) (hooks_of w')"
proof -
  obtain u1 w1 where ins: "stmt E (insert_event_row event) w = (Inr u1, w1)"
    and rest: "(if ds = [] then ok () else stmt E (for_each insert_delivery_row ds)) w1 = (Inr u, w')"
    using assms(1) unfolding create_projection_def create_projection_error_def
    by (auto simp: catch_def throw_def bindc_Inr split: prod.splits sum.splits option.splits if_splits)
  have w1: "hooks_of w1 = hooks_of w"
    using ins unfolding stmt_Inr
    by (auto simp: insert_event_row_def raise_constraint_def throw_def split: option.splits if_splits)
  show ?thesis
  proof (cases "ds = []")
    case True
    then show ?thesis using rest w1 by (simp add: ok_def)
  next
    case False
    then have "for_each insert_delivery_row ds (bump w1) = (Inr u, w')" using rest unfolding if_not_P[OF False] stmt_Inr by simp
    from insert_deliveries_changes[OF this assms(2)] show ?thesis using w1 by simp
  qed
qed

lemma project_changes:
  fixes w :: "'a webhook_world_scheme"
  assumes "project E m now w = (Inr v, w')"
  shows "delivery_changes (hooks_of w) (hooks_of w')"
proof -
  obtain found w1 where f: "find_event E (message_event_id m) w = (Inr found, w1)"
    and rest: "(case found of
       Some r \<Rightarrow> if event_matches r m then ok \<lparr>pr_already = True, pr_deliveries = 0\<rparr>
                else throw (WebhookE WebhookEventProjectionConflictError)
     | None \<Rightarrow>
        bindc (find_eligible_endpoint_ids E (message_merchant m) (message_event_type m)) (\<lambda>endpoints.
        bindc (map_comp (plan_delivery E m now) endpoints) (\<lambda>deliveries.
        bindc (create_projection E (projection_input m now) deliveries) (\<lambda>_.
        ok \<lparr>pr_already = False, pr_deliveries = length deliveries\<rparr>)))) w1 = (Inr v, w')"
    using assms unfolding project_def bindc_Inr by blast
  have s1: "hooks_of w1 = hooks_of w" using f by (auto simp: find_event_def stmt_Inr gets_def)
  show ?thesis
  proof (cases found)
    case (Some r)
    then have "w' = w1" using rest by (auto simp: ok_def throw_def split: if_splits)
    then show ?thesis using s1 by simp
  next
    case None
    obtain endpoints w2 where e: "find_eligible_endpoint_ids E (message_merchant m) (message_event_type m) w1 = (Inr endpoints, w2)"
      and rest2: "bindc (map_comp (plan_delivery E m now) endpoints) (\<lambda>deliveries.
        bindc (create_projection E (projection_input m now) deliveries) (\<lambda>_.
        ok \<lparr>pr_already = False, pr_deliveries = length deliveries\<rparr>)) w2 = (Inr v, w')"
      using rest unfolding None option.case by (rule bindc_InrE)
    obtain ds w3 where d: "map_comp (plan_delivery E m now) endpoints w2 = (Inr ds, w3)"
      and rest3: "bindc (create_projection E (projection_input m now) ds) (\<lambda>_.
        ok \<lparr>pr_already = False, pr_deliveries = length ds\<rparr>) w3 = (Inr v, w')"
      using rest2 by (rule bindc_InrE)
    obtain u where c: "create_projection E (projection_input m now) ds w3 = (Inr u, w')"
      using rest3 by (auto simp: bindc_Inr ok_def)
    have rows: "\<forall>d \<in> set ds. \<exists>i p. d = new_delivery_row m now (wd_endpoint d) i p"
      using plan_deliveries[OF d] by (elim conjE)
    have "wd_status d = Pending \<and> wd_attempts d = 0" if mem: "d \<in> set ds" for d
    proof -
      obtain i p where row: "d = new_delivery_row m now (wd_endpoint d) i p" using bspec[OF rows mem] by (elim exE)
      have "wd_status d = wd_status (new_delivery_row m now (wd_endpoint d) i p)"
        "wd_attempts d = wd_attempts (new_delivery_row m now (wd_endpoint d) i p)"
        by (rule arg_cong[OF row])+
      then show ?thesis by (simp add: new_delivery_row_def)
    qed
    then have "delivery_changes (hooks_of w3) (hooks_of w')" using create_projection_changes[OF c] by blast
    moreover have "hooks_of w3 = hooks_of w2" using plan_deliveries[OF d] same_db_hooks by blast
    moreover have "hooks_of w2 = hooks_of w1"
      using e by (auto simp: find_eligible_endpoint_ids_def stmt_Inr gets_def)
    ultimately show ?thesis using s1 by simp
  qed
qed

lemma run_process_message [runs]: "delivery_run (process_message E J sha date_parse limit n raw)"
  unfolding delivery_run_def
proof (intro allI impI)
  fix w :: "'a webhook_world_scheme" and r :: "error + disposition" and w'
  assume run: "process_message E J sha date_parse limit n raw w = (r, w')"
  show "delivery_changes (hooks_of w) (hooks_of w')"
  proof (cases "validate_message sha date_parse raw limit")
    case (Inl e)
    then show ?thesis using run by (auto simp: process_message_def ok_def split: option.splits)
  next
    case (Inr m)
    obtain x where "handle_message E J n m w = (x, w')" using process_message_runs[OF run Inr] by blast
    from handle_once[OF this] consider "same_db w w'"
      | v where "applied (project E m) m (webhook_consumer m) w w' v" unfolding once_def by blast
    then show ?thesis
    proof cases
      case 1
      from same_db_hooks[OF this] show ?thesis by simp
    next
      case (2 v)
      then obtain now w0 w1 where a:
        "same_db (w\<lparr>inbox_messages := inbox_messages w @ [inbox_input m (webhook_consumer m) now]\<rparr>) w0"
        "project E m now w0 = (Inr v, w1)" "same_db w1 w'"
        unfolding applied_def by blast
      have "hooks_of w0 = hooks_of w" using same_db_hooks[OF a(1)] by simp
      then show ?thesis using project_changes[OF a(2)] same_db_hooks[OF a(3)] by simp
    qed
  qed
qed

section \<open>Runs\<close>

text \<open>
  A step of the system: a message is processed, a dispatcher makes one of its calls or a whole pass (with
  any arguments, under any outages), or something else happens that leaves deliveries and attempts alone:
  endpoints and secrets change, other components write their tables.
\<close>

inductive hook_step :: "'a service_world_scheme \<Rightarrow> 'a service_world_scheme \<Rightarrow> bool" where
  message: "process_message E J sha date_parse limit n raw w = (r, w') \<Longrightarrow> hook_step w w'"
| claiming: "claim_due E locked worker n w = (r, w') \<Longrightarrow> hook_step w w'"
| starting: "start_attempt E dx delay w = (r, w') \<Longrightarrow> hook_step w w'"
| finishing: "finalize_attempt E claim attempt evidence w = (r, w') \<Longrightarrow> hook_step w w'"
| releasing: "release_unstarted E claim w = (r, w') \<Longrightarrow> hook_step w w'"
| recovering: "recover_expired E locked n w = (r, w') \<Longrightarrow> hook_step w w'"
| claim_processed: "process_claim E J P claim w = (r, w') \<Longrightarrow> hook_step w w'"
| dispatcher: "run_dispatcher E J P locked worker n w = (r, w') \<Longrightarrow> hook_step w w'"
| elsewhere: "hooks_of w' = hooks_of w \<Longrightarrow> hook_step w w'"

abbreviation hook_steps :: "'a service_world_scheme \<Rightarrow> 'a service_world_scheme \<Rightarrow> bool" where
  "hook_steps \<equiv> hook_step\<^sup>*\<^sup>*"

lemma step_changes:
  assumes "hook_step w w'" and "hooks_ok (hooks_of w)"
  shows "delivery_changes (hooks_of w) (hooks_of w')"
  using assms
  by (induction rule: hook_step.induct)
    (simp_all add: delivery_runD[OF run_process_message] delivery_runD[OF run_operations(1)] delivery_runD[OF run_operations(2)]
      delivery_runD[OF run_operations(3)] delivery_runD[OF run_operations(4)] delivery_runD[OF run_operations(5)]
      delivery_runD[OF run_process_claim] delivery_runD[OF run_dispatcher_runs])

lemma steps_changes:
  assumes "hook_steps w w'" and "hooks_ok (hooks_of w)"
  shows "delivery_changes (hooks_of w) (hooks_of w')"
  using assms
proof (induction rule: rtranclp_induct)
  case (step w1 w2)
  have "hooks_ok (hooks_of w1)" using changes_ok[OF step.IH[OF step.prems] step.prems] .
  from step_changes[OF step.hyps(2) this] step.IH[OF step.prems] show ?case by (rule rtranclp_trans[rotated])
qed simp

end
