(* ===== verification/Webhook_Demo.thy ===== *)
theory Webhook_Demo imports Webhook_Reach Consumer_Properties begin

text \<open>
  The record of an attempt that got a response, and a run of one delivery from its message to its end: the
  message is projected, a dispatcher claims the delivery, starts its first attempt and records its success.
\<close>

section \<open>The record of a response\<close>

definition proper_attempt :: "started_attempt \<Rightarrow> bool" where
  "proper_attempt a \<longleftrightarrow> 1 \<le> sa_number a \<and> sa_number a \<le> 7 \<and> 0 < sa_timestamp a \<and> 1 \<le> sa_current a \<and>
     (case sa_previous a of None \<Rightarrow> True | Some p \<Rightarrow> 1 \<le> p \<and> p < sa_current a)"

lemma http_error_text: "error_code_text (http_error_code status)"
  by (simp add: http_error_code_def error_code_text_def char_in_def)

lemma proper_fields:
  assumes "proper_attempt attempt"
  shows "\<not> sql_refuses (signature_fields (finished_attempt d attempt e t i))"
  using assms by (auto simp: proper_attempt_def signature_fields_def finished_attempt_def accepts split: option.splits)

lemma duration_bounds: "0 \<le> attempt_duration s t" "attempt_duration s t \<le> 30000"
  by (simp_all add: attempt_duration_def)

lemma response_row_check:
  assumes "1 \<le> wa_number a" "wa_number a \<le> 7" "\<not> wa_completed a < wa_started a" "0 \<le> wa_duration a"
    "wa_duration a \<le> 30000" "wa_status a = Some status" "wa_sha a = sha" "wa_truncated a = truncated"
    and "wa_outcome a = (if 200 \<le> status \<and> status \<le> 299 then Attempt_delivered
      else if status = 408 \<or> status = 429 \<or> 500 \<le> status then Attempt_retryable else Attempt_non_retryable)"
    and "wa_error a = (if 200 \<le> status \<and> status \<le> 299 then None else Some (http_error_code status))"
    and "wa_signature a = Some ''v1''" and "truncated \<longleftrightarrow> sha = None" and "\<forall>h. sha = Some h \<longrightarrow> length h = 32"
    and "\<not> sql_refuses (signature_fields a)"
  shows "attempt_check a = None \<longleftrightarrow> 200 \<le> status \<and> status \<le> 599"
proof -
  have err: "\<not> sql_refuses (map_option error_code_text (wa_error a))" unfolding assms(10) using http_error_text by (simp add: accepts)
  have evidence: "\<not> sql_refuses (response_evidence a)" "\<not> sql_refuses (map_option (\<lambda>s. length s = 32) (wa_sha a))"
    using assms(12,13) by (auto simp: response_evidence_def assms(6,7,8) accepts)
  have "\<not> sql_refuses (between 100 599 (wa_status a)) \<and> \<not> sql_refuses (outcome_shape a) \<longleftrightarrow> 200 \<le> status \<and> status \<le> 599"
    by (auto simp: outcome_shape_def assms(6,9,10,11) between_def accepts)
  then show ?thesis
    using assms(1-5,14) err evidence unfolding attempt_check_def by (auto split: if_splits)
qed

lemma created_attempt_checked:
  fixes w :: "'a webhook_world_scheme"
  assumes "create_attempt E row w = (Inr u, w')"
  shows "\<exists>i. attempt_check (row i) = None"
proof -
  have "insert_attempt_row (row (env_uuid E (tick w))) (bump (bump w)) = (Inr u, w')"
    using assms by (simp add: create_attempt_def bindc_def new_uuid_def stmt_Inr)
  then have "attempt_check (row (env_uuid E (tick w))) = None"
    by (auto simp: insert_attempt_row_def raise_constraint_def throw_def split: option.splits)
  then show ?thesis ..
qed

lemma finalize_transaction_records:
  fixes w :: "'a webhook_world_scheme"
  assumes "finalize_transaction E claim attempt evidence w = (Inr f, w')" and "df_updated f"
  shows "\<exists>t i. attempt_check (finished_attempt (cd_delivery claim) attempt evidence t i) = None"
proof -
  let ?status = "final_status evidence (sa_number attempt)"
  obtain found w1 where rest: "(case found of
       None \<Rightarrow> ok \<lparr>df_status = Dead_lettered, df_updated = False\<rparr>
     | Some row \<Rightarrow>
         if \<not> same_attempt attempt row then ok \<lparr>df_status = Dead_lettered, df_updated = False\<rparr>
         else bindc (stmt E (read_clock E)) (\<lambda>completedAt.
           if ?status = Retrying \<and> sa_next attempt = None
           then throw (PlainE ''Retrying webhook delivery has no next attempt time'')
           else bindc (create_attempt E (finished_attempt (cd_delivery claim) attempt evidence completedAt)) (\<lambda>_.
             bindc (update_delivery E (cd_delivery claim) (finished_row ?status completedAt (sa_next attempt))) (\<lambda>_.
             ok \<lparr>df_status = ?status, df_updated = True\<rparr>)))) w1 = (Inr f, w')"
    using assms(1) unfolding finalize_transaction_def Let_def bindc_Inr by blast
  obtain r where r: "found = Some r" "same_attempt attempt r"
    using rest assms(2) by (cases found) (auto simp: ok_def split: if_splits)
  obtain t w2 where rest2: "(if ?status = Retrying \<and> sa_next attempt = None
           then throw (PlainE ''Retrying webhook delivery has no next attempt time'')
           else bindc (create_attempt E (finished_attempt (cd_delivery claim) attempt evidence t)) (\<lambda>_.
             bindc (update_delivery E (cd_delivery claim) (finished_row ?status t (sa_next attempt))) (\<lambda>_.
             ok \<lparr>df_status = ?status, df_updated = True\<rparr>))) w2 = (Inr f, w')"
    using rest unfolding r(1) option.case if_not_P[OF iffD2[OF not_not r(2)]] bindc_Inr by blast
  obtain u w3 where "create_attempt E (finished_attempt (cd_delivery claim) attempt evidence t) w2 = (Inr u, w3)"
    using rest2 by (auto simp: throw_def bindc_Inr split: if_splits)
  from created_attempt_checked[OF this] show ?thesis by blast
qed

text \<open>What a retried transaction returns, one of its runs returned.\<close>

lemma attempts_returned:
  assumes "attempts n again exh spent m w = (Inr x, w')"
  shows "\<exists>w0 w1. m w0 = (Inr x, w1)"
  using assms
proof (induction n arbitrary: w)
  case (Suc n)
  obtain r w1 where m: "m w = (r, w1)" by fastforce
  show ?case
  proof (cases r)
    case (Inl e)
    then show ?thesis using Suc m by (auto simp: catch_def throw_def split: if_splits)
  next
    case (Inr y)
    then show ?thesis using Suc.prems m by (auto simp: catch_def)
  qed
qed (simp add: throw_def)

lemma webhook_transaction_returned:
  fixes w :: "'a world_scheme"
  assumes "webhook_transaction E op w = (Inr x, w')"
  shows "\<exists>w0 w1. op w0 = (Inr x, w1)"
proof -
  let ?tx = "transaction E (\<lambda>_ _. None) (bindc (set_transaction_timeouts E) (\<lambda>_. bindc (set_transaction_timeouts E) (\<lambda>_. op)))"
  obtain r1 w1 where a: "attempts webhook_retry_attempts is_transient_transaction_error (\<lambda>e. e) (PlainE ''undefined'') ?tx w = (r1, w1)"
    by fastforce
  have "r1 = Inr x"
    using assms a rethrow_never_returns by (cases r1) (auto simp: webhook_transaction_def catch_def)
  have "\<exists>w2 w3. ?tx w2 = (Inr x, w3)" using a unfolding \<open>r1 = Inr x\<close> by (rule attempts_returned)
  then obtain w2 w3 :: "'a world_scheme" where "?tx w2 = (Inr x, w3)" by blast
  then obtain w4 where "bindc (set_transaction_timeouts E) (\<lambda>_. bindc (set_transaction_timeouts E) (\<lambda>_. op)) (begin_txn E w2) = (Inr x, w4)"
    unfolding transaction_Inr by blast
  then show ?thesis unfolding bindc_Inr by blast
qed

lemma response_recorded:
  assumes "proper_attempt attempt" and "truncated \<longleftrightarrow> sha = None" and "\<forall>h. sha = Some h \<longrightarrow> length h = 32"
  shows "attempt_check (finished_attempt d attempt (fst (classify_webhook_result (sa_number attempt)
      (Http_response sha truncated status))) t i) = None \<longleftrightarrow> sa_started attempt \<le> t \<and> 200 \<le> status \<and> status \<le> 599"
proof (cases "sa_started attempt \<le> t")
  case True
  have "attempt_check (finished_attempt d attempt (fst (classify_webhook_result (sa_number attempt)
      (Http_response sha truncated status))) t i) = None \<longleftrightarrow> 200 \<le> status \<and> status \<le> 599"
    by (rule response_row_check[where sha = sha and truncated = truncated])
      (use True assms duration_bounds proper_fields[OF assms(1)] in
        \<open>simp_all add: finished_attempt_def proper_attempt_def Let_def\<close>)
  then show ?thesis using True by simp
next
  case False
  then have "wa_completed (finished_attempt d attempt e t i) < wa_started (finished_attempt d attempt e t i)" for e
    by (simp add: finished_attempt_def)
  then show ?thesis using False by (simp add: attempt_check_def)
qed

section \<open>A delivery from its message to its end\<close>

lemma calm_webhook:
  fixes w :: "'a world_scheme"
  assumes "calm E" and "op (bump (bump (begin_txn E w))) = (Inr x, w')"
  shows "webhook_transaction E op w = (Inr x, bump w')"
proof -
  have "transaction E (\<lambda>_ _. None) (bindc (set_transaction_timeouts E) (\<lambda>_. bindc (set_transaction_timeouts E) (\<lambda>_. op))) w =
      (Inr x, bump w')"
    using assms by (intro calm_transaction) (simp_all add: calm_timeouts)
  then show ?thesis by (simp add: webhook_transaction_def webhook_retry_attempts_def numeral_eq_Suc catch_def)
qed

lemma calm_hook: "calm hook_env"
  by (simp add: calm_def hook_env_simps)

lemma hook_delivery_fields:
  "wd_id hook_delivery = ''i''" "wd_status hook_delivery = Pending" "wd_next hook_delivery = Some 1780000000000"
  "wd_token hook_delivery = None" "wd_attempts hook_delivery = 0" "wd_endpoint hook_delivery = ''e''"
  "wd_active hook_delivery = None" "wd_active_started hook_delivery = None" "wd_active_timestamp hook_delivery = None"
  "wd_active_current hook_delivery = None" "wd_active_previous hook_delivery = None"
  "wd_delivered_at hook_delivery = None" "wd_dead_at hook_delivery = None"
  "wd_public_id hook_delivery = ''whd_01ARZ3NDEKTSV4RRFFQ69G5FAV''"
  by (simp_all add: hook_delivery_def stored_delivery_def new_delivery_row_def)

lemma hook_public_id: "has_ulid_prefix ''whd'' ''whd_01ARZ3NDEKTSV4RRFFQ69G5FAV''"
  by code_simp

definition hook_secret :: secret_row where
  "hook_secret = \<lparr>ws_endpoint = ''e'', ws_version = 1, ws_lifecycle = Current_secret, ws_overlap = None, ws_sealed = []\<rparr>"

definition hook_claimed :: delivery_row where
  "hook_claimed = claimed_row ''worker'' 1780000000000 [(''i'', ''i'')] hook_delivery"

definition hook_claim :: claimed_delivery where
  "hook_claim = claim_of_delivery [(''i'', ''i'')] hook_delivery"

definition hook_context :: delivery_context where
  "hook_context = \<lparr>dx_body = [], dx_claim = hook_claim, dx_current = to_secret hook_secret, dx_active = True,
     dx_event_type = [], dx_url = [], dx_previous = None\<rparr>"

definition hook_started :: delivery_row where
  "hook_started = started_row 1 1780000000000 1 None (Some 60000) hook_claimed"

definition hook_attempt :: started_attempt where
  "hook_attempt = \<lparr>sa_number = 1, sa_current = 1, sa_next = Some 1780000060000, sa_previous = None,
     sa_timestamp = 1780000000, sa_started = 1780000000000\<rparr>"

definition hook_evidence :: evidence where
  "hook_evidence = fst (classify_webhook_result 1 (Http_response (Some (replicate 32 CHR ''h'')) False 204))"

definition hook_finished :: delivery_row where
  "hook_finished = finished_row Delivered 1780000000000 (Some 1780000060000) hook_started"

lemmas hook_rows = hook_claimed_def claimed_row_def hook_started_def started_row_def hook_finished_def finished_row_def
  idle_def unclaimed_def hook_delivery_fields webhook_lease_ms_def

lemma hook_row_checks: "delivery_check hook_claimed = None" "delivery_check hook_started = None" "delivery_check hook_finished = None"
proof -
  have "worker_name ''worker''" unfolding worker_name_def by code_simp
  then show "delivery_check hook_claimed = None" "delivery_check hook_started = None" "delivery_check hook_finished = None"
    using hook_public_id
    by (simp_all add: delivery_check_def hook_rows active_fields_def claim_fields_def state_fields_def is_null_def not_null_def
        sql_any_def sql_all_def sql_rel_def sql_refuses_def)
qed

lemma hook_claims:
  fixes w :: "'a webhook_world_scheme"
  assumes "webhook_deliveries w = [hook_delivery]"
  shows "\<exists>w'. claim_due hook_env [] ''worker'' 1 w = (Inr [hook_claim], w') \<and>
    same_db (set_deliveries [hook_claimed] w) w'"
proof -
  let ?w = "bump (bump (bump (begin_txn hook_env w)))"
  have "webhook_deliveries ?w = [hook_delivery]" "webhook_deliveries (bump ?w) = [hook_delivery]"
    using assms by (simp_all add: begin_txn_def bump_def)
  moreover have "due_deliveries 1 1780000000000 [] [hook_delivery] = [hook_delivery]"
    by (simp add: due_deliveries_def due_delivery_def hook_delivery_fields)
  ultimately have "claim_due_rows hook_env [] ''worker'' 1 ?w = (Inr [hook_claim], set_deliveries [hook_claimed] (bump (bump ?w)))"
    using hook_row_checks(1)
    by (simp add: claim_due_rows_def bindc_def read_clock_def hook_env_simps gets_def new_tokens_def new_uuid_def ok_def
        hook_delivery_fields(1) update_deliveries_def hook_claimed_def[symmetric] hook_claim_def[symmetric] update_where_def)
  moreover have "worker_name ''worker''" unfolding worker_name_def by code_simp
  ultimately have "claim_due hook_env [] ''worker'' 1 w = (Inr [hook_claim], bump (set_deliveries [hook_claimed] (bump (bump ?w))))"
    unfolding claim_due_def by (simp add: calm_webhook[OF calm_hook] calm_stmt[OF calm_hook])
  moreover have "same_db (set_deliveries [hook_claimed] w) (bump (set_deliveries [hook_claimed] (bump (bump ?w))))"
    by (cases w) (simp add: same_db_iff begin_txn_def bump_def)
  ultimately show ?thesis by blast
qed

lemma hook_starts:
  fixes w :: "'a webhook_world_scheme"
  assumes "webhook_deliveries w = [hook_claimed]" and "webhook_endpoints w = [hook_endpoint]" and "webhook_secrets w = [hook_secret]"
  shows "\<exists>w'. start_attempt hook_env hook_context (Some 60000) w = (Inr (Started hook_attempt), w') \<and>
    same_db (set_deliveries [hook_started] w) w'"
proof -
  let ?w = "bump (bump (begin_txn hook_env w))"
  have t: "webhook_deliveries (bump (bump v)) = webhook_deliveries v" "webhook_endpoints (bump (bump v)) = webhook_endpoints v"
    "webhook_secrets (bump (bump v)) = webhook_secrets v" "webhook_deliveries (begin_txn hook_env v) = webhook_deliveries v"
    "webhook_endpoints (begin_txn hook_env v) = webhook_endpoints v" "webhook_secrets (begin_txn hook_env v) = webhook_secrets v"
    for v :: "'a webhook_world_scheme" by (simp_all add: begin_txn_def bump_def)
  have "find_start_row hook_claim 1780000000000 (bump (bump ?w)) =
      Some \<lparr>sr_attempts = 0, sr_inactive = False, sr_current = Some 1, sr_previous = None\<rparr>"
    by (simp add: find_start_row_def t assms startable_def hook_claim_def claim_of_delivery_def hook_rows hook_endpoint_def
        secret_version_def hook_secret_def)
  then have "stmt hook_env (bindc (read_clock hook_env) (\<lambda>now. gets (find_start_row hook_claim now))) ?w =
      (Inr (Some \<lparr>sr_attempts = 0, sr_inactive = False, sr_current = Some 1, sr_previous = None\<rparr>), bump (bump ?w))"
    by (simp add: calm_stmt[OF calm_hook] bindc_def read_clock_def hook_env_simps gets_def)
  moreover have "update_deliveries (\<lambda>r. wd_id r = ''i'' \<and> wd_token r = Some ''i'' \<and>
        (case wd_lease r of None \<Rightarrow> False | Some l \<Rightarrow> 1780000000000 < l)) (started_row 1 1780000000000 1 None (Some 60000)) (bump (bump (bump (bump ?w)))) =
      (Inr 1, set_deliveries [hook_started] (bump (bump (bump (bump ?w)))))"
  proof -
    have "wd_id hook_claimed = ''i''" "wd_token hook_claimed = Some ''i''" "wd_lease hook_claimed = Some 1780000030000"
      by (simp_all add: hook_rows)
    moreover have "webhook_deliveries (bump (bump (bump (bump ?w)))) = [hook_claimed]" by (simp only: t assms)
    ultimately show ?thesis
      using hook_row_checks(2)
      by (simp add: update_deliveries_def hook_started_def[symmetric] update_where_def count_where_def del: One_nat_def)
  qed
  moreover have claim: "cd_delivery hook_claim = ''i''" "cd_token hook_claim = ''i''" "cd_attempts hook_claim = 0"
    by (simp_all add: hook_claim_def claim_of_delivery_def hook_delivery_fields)
  moreover have "dx_claim hook_context = hook_claim" "dx_active hook_context" "ss_version (dx_current hook_context) = 1"
    by (simp_all add: hook_context_def to_secret_def hook_secret_def)
  ultimately have "start_transaction hook_env hook_context (Some 60000) ?w =
      (Inr (Started hook_attempt), set_deliveries [hook_started] (bump (bump (bump (bump ?w)))))"
    by (simp add: start_transaction_def bindc_def calm_stmt[OF calm_hook] start_delivery_def
        read_clock_def hook_env_simps ok_def hook_attempt_def Let_def del: One_nat_def)
  from calm_webhook[where w = w and op = "start_transaction hook_env hook_context (Some 60000)", OF calm_hook this]
  have "start_attempt hook_env hook_context (Some 60000) w =
      (Inr (Started hook_attempt), bump (set_deliveries [hook_started] (bump (bump (bump (bump ?w))))))"
    by (simp add: start_attempt_def hook_context_def hook_claim_def claim_of_delivery_def hook_delivery_fields)
  moreover have "same_db (set_deliveries [hook_started] w) (bump (set_deliveries [hook_started] (bump (bump (bump (bump ?w))))))"
    by (cases w) (simp add: same_db_iff begin_txn_def bump_def)
  ultimately show ?thesis by blast
qed

definition hook_record :: attempt_row where
  "hook_record = finished_attempt ''i'' hook_attempt hook_evidence 1780000000000 ''i''"

lemma hook_record_check: "attempt_check hook_record = None"
proof -
  have "proper_attempt hook_attempt" by (simp add: proper_attempt_def hook_attempt_def)
  moreover have "sa_number hook_attempt = 1" "sa_started hook_attempt = 1780000000000" by (simp_all add: hook_attempt_def)
  ultimately show ?thesis
    using response_recorded[of hook_attempt False "Some (replicate 32 CHR ''h'')" "''i''" 204 1780000000000 "''i''"]
    unfolding hook_record_def hook_evidence_def by simp
qed

lemma hook_finishes:
  fixes w :: "'a webhook_world_scheme"
  assumes "webhook_deliveries w = [hook_started]" and "webhook_attempts w = []"
  shows "\<exists>w'. finalize_attempt hook_env hook_claim hook_attempt hook_evidence w = (Inr \<lparr>df_status = Delivered, df_updated = True\<rparr>, w') \<and>
    same_db (w\<lparr>webhook_deliveries := [hook_finished], webhook_attempts := [hook_record]\<rparr>) w'"
proof -
  let ?w = "bump (bump (begin_txn hook_env w))"
  have t: "webhook_deliveries (bump (bump v)) = webhook_deliveries v" "webhook_attempts (bump (bump v)) = webhook_attempts v"
    "webhook_deliveries (begin_txn hook_env v) = webhook_deliveries v" "webhook_attempts (begin_txn hook_env v) = webhook_attempts v"
    for v :: "'a webhook_world_scheme" by (simp_all add: begin_txn_def bump_def)
  have claim: "cd_delivery hook_claim = ''i''" "cd_token hook_claim = ''i''"
    by (simp_all add: hook_claim_def claim_of_delivery_def hook_delivery_fields)
  have row: "wd_id hook_started = ''i''" "active_row hook_claim hook_attempt 1780000000000 hook_started" "same_attempt hook_attempt hook_started"
    by (simp_all add: active_row_def claim same_attempt_def hook_attempt_def hook_rows)
  have final: "final_status hook_evidence (sa_number hook_attempt) = Delivered" "sa_next hook_attempt = Some 1780000060000"
    by (simp_all add: final_status_def hook_evidence_def hook_attempt_def)
  have "\<exists>w'. finalize_transaction hook_env hook_claim hook_attempt hook_evidence ?w = (Inr \<lparr>df_status = Delivered, df_updated = True\<rparr>, w') \<and>
      same_db (w\<lparr>webhook_deliveries := [hook_finished], webhook_attempts := [hook_record]\<rparr>) w'"
    using hook_row_checks(3) hook_record_check
    by (simp add: finalize_transaction_def bindc_def calm_stmt[OF calm_hook] read_clock_def hook_env_simps gets_def t assms row final ok_def
        create_attempt_def new_uuid_def insert_attempt_row_def update_delivery_def update_deliveries_def claim hook_record_def[symmetric]
        hook_finished_def[symmetric] update_where_def count_where_def hooks_bump)
      (cases w, simp add: same_db_iff begin_txn_def bump_def)
  then obtain w' where "finalize_transaction hook_env hook_claim hook_attempt hook_evidence ?w = (Inr \<lparr>df_status = Delivered, df_updated = True\<rparr>, w')"
    and s: "same_db (w\<lparr>webhook_deliveries := [hook_finished], webhook_attempts := [hook_record]\<rparr>) w'" by blast
  then have "finalize_attempt hook_env hook_claim hook_attempt hook_evidence w = (Inr \<lparr>df_status = Delivered, df_updated = True\<rparr>, bump w')"
    unfolding finalize_attempt_def by (intro calm_webhook[OF calm_hook])
  then show ?thesis using same_db_trans[OF s same_db_bump(1)] by blast
qed

section \<open>The run\<close>

definition service_empty :: service_world where
  "service_empty = webhook_world.extend (hook_empty\<lparr>webhook_secrets := [hook_secret]\<rparr>) \<lparr>dependency_ready = True, stopping = False\<rparr>"

lemma service_start: "hook_start service_empty" "webhook_deliveries service_empty = []" "webhook_attempts service_empty = []"
  "webhook_secrets service_empty = [hook_secret]"
  by (simp_all add: service_empty_def hook_start_def hook_empty_def webhook_world.defs)

lemma hook_life:
  "\<exists>w :: service_world. hook_steps service_empty w \<and> webhook_deliveries w = [hook_finished] \<and> webhook_attempts w = [hook_record]"
proof -
  obtain w1 where w1: "hook_process service_empty = (Inr Acked, w1)" "hook_after service_empty w1"
    using hook_run[OF service_start(1)] by blast
  then have r1: "webhook_deliveries w1 = [hook_delivery]" "webhook_endpoints w1 = [hook_endpoint]"
    "webhook_secrets w1 = [hook_secret]" "webhook_attempts w1 = []" by (simp_all add: hook_after_def service_start)
  obtain w2 where w2: "claim_due hook_env [] ''worker'' 1 w1 = (Inr [hook_claim], w2)" "same_db (set_deliveries [hook_claimed] w1) w2"
    using hook_claims[OF r1(1)] by blast
  have r2: "webhook_deliveries w2 = [hook_claimed]" "webhook_endpoints w2 = [hook_endpoint]"
    "webhook_secrets w2 = [hook_secret]" "webhook_attempts w2 = []" using webhook_same_db[OF w2(2)] r1 by simp_all
  obtain w3 where w3: "start_attempt hook_env hook_context (Some 60000) w2 = (Inr (Started hook_attempt), w3)"
    "same_db (set_deliveries [hook_started] w2) w3" using hook_starts[OF r2(1-3)] by blast
  have r3: "webhook_deliveries w3 = [hook_started]" "webhook_attempts w3 = []" using webhook_same_db[OF w3(2)] r2 by simp_all
  obtain w4 where w4: "finalize_attempt hook_env hook_claim hook_attempt hook_evidence w3 = (Inr \<lparr>df_status = Delivered, df_updated = True\<rparr>, w4)"
    "same_db (w3\<lparr>webhook_deliveries := [hook_finished], webhook_attempts := [hook_record]\<rparr>) w4" using hook_finishes[OF r3] by blast
  have "hook_step service_empty w1" "hook_step w1 w2" "hook_step w2 w3" "hook_step w3 w4"
    using hook_step.message[OF w1(1)] hook_step.claiming[OF w2(1)] hook_step.starting[OF w3(1)] hook_step.finishing[OF w4(1)] .
  then have "hook_steps service_empty w4" by (meson converse_rtranclp_into_rtranclp r_into_rtranclp)
  then show ?thesis using webhook_same_db[OF w4(2)] by auto
qed

end
