(* ===== verification/Delivery_Properties.thy ===== *)
theory Delivery_Properties imports Webhook_Demo begin

text \<open>
  What the delivery of webhooks guarantees: every attempt is accounted for, a delivery that has ended stays as
  it is, delays stay within their ceilings, signatures verify; and which responses cannot be recorded.
\<close>

section \<open>Attempts\<close>

text \<open>
  C34: in every state that messages, dispatchers, outages and changes elsewhere can lead to, the attempts
  recorded for a delivery are numbered from 1 without a gap or a repetition, are at most seven, and are all
  but the one in flight; and their outcomes fit its status: it is delivered exactly when its last attempt
  was accepted, dead-lettered when the last one failed for good or was the seventh, retrying after failures
  that may be repeated, pending before any.
\<close>

theorem webhook_attempts_accounted:
  fixes w w' :: "'a service_world_scheme"
  assumes "webhook_deliveries w = []" and "webhook_attempts w = []" and "hook_steps w w'" and "r \<in> set (webhook_deliveries w')"
  shows "map wa_number (attempts_of (webhook_attempts w') (wd_id r)) = [1..<Suc (attempts_done r)] \<and>
    attempts_done r \<le> 7 \<and>
    outcomes_fit (wd_status r) (map wa_outcome (attempts_of (webhook_attempts w') (wd_id r)))"
proof -
  have "hooks_ok (hooks_of w)" using assms(1,2) by (simp add: hooks_ok.simps)
  from changes_ok[OF steps_changes[OF assms(3) this] this] have ok: "delivery_ok (webhook_attempts w') r"
    using assms(4) by (simp add: hooks_ok.simps)
  moreover have "attempts_done r \<le> 7"
    using ok delivery_check_None(3)[of r] by (auto simp: delivery_ok_def attempts_done_def)
  ultimately show ?thesis by (simp add: delivery_ok_def)
qed

theorem webhook_attempts_accounted_witness:
  "\<exists>w' r. hook_steps service_empty w' \<and> r \<in> set (webhook_deliveries w') \<and> wd_status r = Delivered \<and>
    webhook_attempts w' = [hook_record] \<and> map wa_number (attempts_of (webhook_attempts w') (wd_id r)) = [1..<Suc (attempts_done r)]"
proof -
  obtain w :: service_world where w: "hook_steps service_empty w" "webhook_deliveries w = [hook_finished]"
    "webhook_attempts w = [hook_record]" using hook_life by blast
  then have mem: "hook_finished \<in> set (webhook_deliveries w)" by simp
  have "wd_status hook_finished = Delivered" by (simp add: hook_rows)
  then show ?thesis using webhook_attempts_accounted[OF service_start(2,3) w(1) mem] w mem by blast
qed

text \<open>
  C35: no run of messages, dispatchers, outages and changes elsewhere changes or removes a delivery that was
  delivered or dead-lettered, removes an attempt, or records another attempt for such a delivery.
\<close>

theorem ended_deliveries_final:
  fixes w w' :: "'a service_world_scheme"
  assumes "hooks_ok (hooks_of w)" and "hook_steps w w'" and "r \<in> set (webhook_deliveries w)" and "\<not> live_status r"
  shows "r \<in> set (webhook_deliveries w') \<and> (\<exists>as. webhook_attempts w' = webhook_attempts w @ as) \<and>
    attempts_of (webhook_attempts w') (wd_id r) = attempts_of (webhook_attempts w) (wd_id r)"
proof -
  note changes = steps_changes[OF assms(2,1)]
  have f: "hooks_forward (hooks_of w) (hooks_of w')" by (rule changes_forward[OF changes assms(1)])
  then have r: "r \<in> set (webhook_deliveries w')" using assms(3,4) by (simp add: hooks_forward_def)
  have "\<exists>as. webhook_attempts w' = webhook_attempts w @ as" using f by (simp add: hooks_forward_def)
  then obtain as where as: "webhook_attempts w' = webhook_attempts w @ as" by blast
  have "map wa_number (attempts_of (webhook_attempts w') (wd_id r)) = map wa_number (attempts_of (webhook_attempts w) (wd_id r))"
    using assms(1,3) changes_ok[OF changes assms(1)] r by (simp add: hooks_ok.simps delivery_ok_def)
  from arg_cong[OF this, of length] have "attempts_of as (wd_id r) = []"
    unfolding as attempts_of_append by simp
  then show ?thesis using r unfolding as attempts_of_append by simp
qed

theorem ended_deliveries_final_witness:
  "\<exists>w w' r'. hook_steps service_empty w \<and> hook_process w = (r', w') \<and> hook_finished \<in> set (webhook_deliveries w') \<and>
    attempts_of (webhook_attempts w') ''i'' = [hook_record]"
proof -
  obtain w :: service_world where w: "hook_steps service_empty w" "webhook_deliveries w = [hook_finished]"
    "webhook_attempts w = [hook_record]" using hook_life by blast
  obtain r' w' where again: "hook_process w = (r', w')" by fastforce
  have "hooks_ok (hooks_of service_empty)" using service_start(2,3) by (simp add: hooks_ok.simps)
  then have ok: "hooks_ok (hooks_of w)" using changes_ok steps_changes[OF w(1)] by blast
  have steps: "hook_steps w w'" using hook_step.message[OF again] by (rule r_into_rtranclp)
  have row: "hook_finished \<in> set (webhook_deliveries w)" "\<not> live_status hook_finished" "wd_id hook_finished = ''i''"
    by (simp_all add: w(2)) (simp_all add: live_status_def hook_rows)
  have "attempts_of (webhook_attempts w) ''i'' = [hook_record]"
    by (simp add: w(3) attempts_of_def hook_record_def finished_attempt_def)
  then show ?thesis using ended_deliveries_final[OF ok steps row(1,2)] row(3) w(1) again by metis
qed

section \<open>Responses that cannot be recorded\<close>

text \<open>
  C36: the record of an attempt that got a response is accepted by the table of attempts exactly when the
  attempt does not end before it started and the status lies between 200 and 599. The classification also
  knows what to do with the others (a status of 600 or more is to be tried again), but their record is refused:
  finalizing such an attempt never reports it as recorded, whatever the environment does.
\<close>

theorem recordable_responses:
  assumes "proper_attempt attempt" and "truncated \<longleftrightarrow> sha = None" and "\<forall>h. sha = Some h \<longrightarrow> length h = 32"
    and "evidence = fst (classify_webhook_result (sa_number attempt) (Http_response sha truncated status))"
  shows "(attempt_check (finished_attempt d attempt evidence t i) = None \<longleftrightarrow>
      sa_started attempt \<le> t \<and> 200 \<le> status \<and> status \<le> 599) \<and>
    (finalize_attempt E claim attempt evidence (w :: 'a webhook_world_scheme) = (Inr f, w') \<longrightarrow> df_updated f \<longrightarrow>
      200 \<le> status \<and> status \<le> 599)"
proof -
  note recorded = response_recorded[OF assms(1-3)]
  have "200 \<le> status \<and> status \<le> 599" if "finalize_attempt E claim attempt evidence w = (Inr f, w')" and "df_updated f"
  proof -
    have "\<exists>(w0 :: 'a webhook_world_scheme) w1. finalize_transaction E claim attempt evidence w0 = (Inr f, w1)"
      using \<open>finalize_attempt E claim attempt evidence w = (Inr f, w')\<close> unfolding finalize_attempt_def
      by (rule webhook_transaction_returned)
    then obtain w0 w1 :: "'a webhook_world_scheme" where "finalize_transaction E claim attempt evidence w0 = (Inr f, w1)" by blast
    from finalize_transaction_records[OF this \<open>df_updated f\<close>] show ?thesis unfolding assms(4) using recorded by blast
  qed
  then show ?thesis unfolding assms(4) using recorded by blast
qed

definition demo_attempt :: started_attempt where
  "demo_attempt = \<lparr>sa_number = 1, sa_current = 1, sa_next = Some 60000, sa_previous = None, sa_timestamp = 1, sa_started = 1000\<rparr>"

theorem recordable_responses_witness:
  "attempt_check (finished_attempt ''d'' demo_attempt (fst (classify_webhook_result (sa_number demo_attempt)
      (Http_response (Some (replicate 32 CHR ''h'')) False 999))) 2000 ''i'') \<noteq> None \<and>
   attempt_check (finished_attempt ''d'' demo_attempt (fst (classify_webhook_result (sa_number demo_attempt)
      (Http_response (Some (replicate 32 CHR ''h'')) False 503))) 2000 ''i'') = None"
proof -
  have a: "proper_attempt demo_attempt" "sa_started demo_attempt = 1000" by (simp_all add: proper_attempt_def demo_attempt_def)
  have "attempt_check (finished_attempt ''d'' demo_attempt (fst (classify_webhook_result (sa_number demo_attempt)
      (Http_response (Some (replicate 32 CHR ''h'')) False status))) 2000 ''i'') = None \<longleftrightarrow> 200 \<le> status \<and> status \<le> 599"
    for status
    using conjunct1[OF recordable_responses[OF a(1) _ _ refl, of False "Some (replicate 32 CHR ''h'')" "''d''" status 2000 "''i''"]]
    unfolding a(2) by simp
  from this[of 999] this[of 503] show ?thesis by simp
qed

section \<open>Delays\<close>

text \<open>
  C38: the delay before attempt 2 to 7 lies between 0 and its ceiling (1, 5 and 15 minutes, 1, 6 and 24 hours),
  whatever the random source returns and however doubles are rounded; no other attempt has a delay.
\<close>

theorem webhook_delay_bounds:
  assumes "float_ok fl"
  shows "case webhook_retry_delay fl n random of
      None \<Rightarrow> n < 2 \<or> 7 < n
    | Some d \<Rightarrow> 0 \<le> d \<and> (\<exists>bound. (n, bound) \<in> set retry_ceilings \<and> d \<le> bound)"
proof (cases "map_of retry_ceilings n")
  case None
  then have "n \<notin> {2, 3, 4, 5, 6, 7}" by (auto simp: retry_ceilings_def split: if_splits)
  then have "n < 2 \<or> 7 < n" by auto
  then show ?thesis using None by (simp add: webhook_retry_delay_def)
next
  case (Some bound)
  have mem: "(n, bound) \<in> set retry_ceilings" using Some by (rule map_of_SomeD)
  then have pos: "0 \<le> bound" by (auto simp: retry_ceilings_def)
  then have generic: "backoff_ceiling 1 bound bound = bound" by (simp add: backoff_ceiling_def)
  then have "webhook_retry_delay fl n random = Some (full_jitter_backoff fl 1 bound bound random)"
    using Some generic by (simp add: webhook_retry_delay_def full_jitter_backoff_def Let_def)
  then show ?thesis
    using backoff_bounds[OF assms pos pos, of 1 random] mem generic by auto
qed

theorem webhook_delay_bounds_witness:
  "\<exists>d. webhook_retry_delay (\<lambda>x. x) 2 (1 / 2) = Some d \<and> 0 \<le> d \<and> d \<le> 60000"
  using webhook_delay_bounds[OF float_ok_id, of 2 "1 / 2"]
  by (auto simp: webhook_retry_delay_def retry_ceilings_def)

section \<open>Signatures\<close>

lemma split_join:
  "\<forall>s \<in> set ss. c \<notin> set s \<Longrightarrow> ss \<noteq> [] \<Longrightarrow> split_on c (join_with c ss) = ss"
proof (induction c ss rule: join_with.induct)
  case (2 c s)
  then show ?case by (induction s) auto
next
  case (3 c s t ss)
  have split: "split_on c (u @ c # rest) = u # split_on c rest" if "c \<notin> set u" for u rest
    using that by (induction u) auto
  show ?case using 3 by (simp add: split)
qed simp

lemma digest_no_separator: "is_digest s \<Longrightarrow> CHR '';'' \<notin> set s"
  by (auto simp: is_digest_def list_all_iff base64url_char_def char_in_def)

lemma timestamp_text:
  assumes "0 < t"
  shows "is_timestamp_text (dec_string t)" and "int (dec_value (ascii_bytes (dec_string t))) = t"
proof -
  have t: "dec_int t = dec_nat (nat t)" using assms by (simp add: dec_int_def)
  have small: "u < 256" "48 \<le> u \<and> u \<le> 57" if "u \<in> set (dec_nat (nat t))" for u
    using dec_nat_digits[OF that] by simp_all
  have codes: "map (of_char :: char \<Rightarrow> nat) (map char_of (dec_nat (nat t))) = dec_nat (nat t)"
    using small(1) by (simp add: map_idI of_char_of)
  have "dec_value (ascii_bytes (dec_string t)) = nat t"
    unfolding ascii_bytes_def dec_string_def t codes by (rule dec_value_dec_nat)
  then show "int (dec_value (ascii_bytes (dec_string t))) = t" using assms by simp
  have "list_all is_digit (dec_string t)"
    using small by (auto simp: dec_string_def t list_all_iff char_in_def of_char_of)
  moreover have "dec_string t \<noteq> [] \<and> hd (dec_string t) \<noteq> CHR ''0''"
  proof -
    have ne: "dec_nat (nat t) \<noteq> []" by (subst dec_nat.simps) simp
    have "hd (dec_nat (nat t)) \<noteq> 48"
      using dec_nat_no_leading_zero[of "nat t"] assms by (cases "10 \<le> nat t") (auto simp: dec_nat_eval)
    moreover have "hd (dec_nat (nat t)) < 256" using small(1) ne by simp
    ultimately have "(of_char (char_of (hd (dec_nat (nat t))) :: char) :: nat) \<noteq> of_char CHR ''0''" by (simp add: of_char_of)
    then have "char_of (hd (dec_nat (nat t))) \<noteq> CHR ''0''" by metis
    then show ?thesis using ne by (simp add: dec_string_def t hd_map)
  qed
  ultimately show "is_timestamp_text (dec_string t)" by (simp add: is_timestamp_text_def)
qed

text \<open>
  C37: the receiver of a webhook accepts the signature header of a request with either secret that signed it,
  at any time within the tolerance around the request's timestamp. The HMAC is any function whose digests have
  the form of base64url.
\<close>

theorem signed_webhook_verifies:
  assumes "\<And>s b. is_digest (hmac s b)" and "build_webhook_request_headers hmac i = Inr headers"
    and "secret = si_current i \<or> si_previous i = Some secret" and "\<bar>now - si_timestamp i\<bar> \<le> tolerance"
  shows "verify_webhook_signature hmac b64 (si_body i) (si_delivery i) now (sg_plaintext secret)
    (the (map_of headers ''SettleFlow-Signature'')) (the (map_of headers ''SettleFlow-Timestamp'')) tolerance"
proof -
  have ok: "assert_signing_input i = Inr ()" and headers: "headers =
       [(''Content-Length'', dec_string (int (length (si_body i)))),
        (''Content-Type'', ''application/json''),
        (''SettleFlow-Event-Id'', si_event i),
        (''SettleFlow-Event-Schema-Version'', ''1''),
        (''SettleFlow-Event-Type'', si_event_type i),
        (''SettleFlow-Signature'', join_with CHR '';'' (signature_entries hmac i)),
        (''SettleFlow-Timestamp'', dec_string (si_timestamp i)),
        (''SettleFlow-Webhook-Id'', si_delivery i),
        (''User-Agent'', ''SettleFlow-Webhooks/1.0'')]"
    using assms(2) by (auto simp: build_webhook_request_headers_def bind_sum_Inr)
  have valid: "has_ulid_prefix ''whd'' (si_delivery i)" "0 < si_timestamp i"
    using ok by (auto simp: assert_signing_input_def require_sum_def split: if_splits)
  let ?bytes = "signature_input (si_timestamp i) (si_delivery i) (si_body i)"
  have entries: "signature_entries hmac i \<noteq> []" "\<forall>s \<in> set (signature_entries hmac i). CHR '';'' \<notin> set s"
    using digest_no_separator[OF assms(1)] by (auto simp: signature_entries_def Let_def split: option.splits)
  have mem: "''v1,'' @ hmac (sg_plaintext secret) ?bytes \<in> set (signature_entries hmac i)"
    using assms(3) by (auto simp: signature_entries_def Let_def)
  have entry: "signature_entry (''v1,'' @ hmac (sg_plaintext secret) ?bytes) = Some (hmac (sg_plaintext secret) ?bytes)"
    using assms(1) by (simp add: signature_entry_def)
  have window: "\<not> (now + tolerance < si_timestamp i \<or> si_timestamp i < now - tolerance)" using assms(4) by linarith
  have accepted: "list_ex (\<lambda>entry. case signature_entry entry of None \<Rightarrow> False
      | Some digest \<Rightarrow> b64 digest = b64 (hmac (sg_plaintext secret) ?bytes))
      (split_on CHR '';'' (join_with CHR '';'' (signature_entries hmac i)))"
    unfolding split_join[OF entries(2,1)] list_ex_iff using mem entry by (intro bexI[OF _ mem]) simp
  show ?thesis
    using timestamp_text[OF valid(2)] valid(1) window accepted
    by (simp add: headers verify_webhook_signature_def Let_def)
qed

definition demo_signing :: signing_input where
  "demo_signing = \<lparr>si_body = [123, 125], si_current = \<lparr>sg_plaintext = ''whsec_'' @ replicate 43 CHR ''a'', sg_version = 2\<rparr>,
     si_delivery = ''whd_01ARZ3NDEKTSV4RRFFQ69G5FAV'', si_event = ''evt_01ARZ3NDEKTSV4RRFFQ69G5FAV'',
     si_event_type = ''payment.created.v1'',
     si_previous = Some \<lparr>sg_plaintext = ''whsec_'' @ replicate 43 CHR ''b'', sg_version = 1\<rparr>, si_timestamp = 1780000000\<rparr>"

lemma demo_signing_input: "assert_signing_input demo_signing = Inr ()"
proof -
  have "has_ulid_prefix ''whd'' ''whd_01ARZ3NDEKTSV4RRFFQ69G5FAV''" "has_ulid_prefix ''evt'' ''evt_01ARZ3NDEKTSV4RRFFQ69G5FAV''"
    by code_simp+
  moreover have "base64url_char CHR ''a''" "base64url_char CHR ''b''" by (simp_all add: base64url_char_def char_in_def)
  ultimately show ?thesis
    by (simp add: assert_signing_input_def require_sum_def demo_signing_def is_webhook_secret_def is_digest_def list_all_iff)
qed

abbreviation demo_hmac :: "string \<Rightarrow> nat list \<Rightarrow> string" where
  "demo_hmac \<equiv> \<lambda>s b. replicate 43 (if last s = CHR ''a'' then CHR ''x'' else CHR ''y'')"

theorem signed_webhook_verifies_witness:
  "\<exists>headers. build_webhook_request_headers demo_hmac demo_signing = Inr headers \<and>
    verify_webhook_signature demo_hmac ascii_bytes [123, 125] ''whd_01ARZ3NDEKTSV4RRFFQ69G5FAV'' 1780000200
      (''whsec_'' @ replicate 43 CHR ''b'') (the (map_of headers ''SettleFlow-Signature''))
      (the (map_of headers ''SettleFlow-Timestamp'')) 300"
proof -
  obtain headers where h: "build_webhook_request_headers demo_hmac demo_signing = Inr headers"
    by (simp add: build_webhook_request_headers_def demo_signing_input bind_sum_def)
  have d: "is_digest (demo_hmac s b)" for s b
    by (simp add: is_digest_def base64url_char_def char_in_def list_all_iff)
  have previous: "si_previous demo_signing = Some \<lparr>sg_plaintext = ''whsec_'' @ replicate 43 CHR ''b'', sg_version = 1\<rparr>"
    and now: "\<bar>1780000200 - si_timestamp demo_signing\<bar> \<le> 300"
    and body: "si_body demo_signing = [123, 125]" "si_delivery demo_signing = ''whd_01ARZ3NDEKTSV4RRFFQ69G5FAV''"
    by (simp_all add: demo_signing_def)
  from signed_webhook_verifies[OF d h disjI2[OF previous] now, of ascii_bytes]
  have "verify_webhook_signature demo_hmac ascii_bytes [123, 125] ''whd_01ARZ3NDEKTSV4RRFFQ69G5FAV'' 1780000200
      (''whsec_'' @ replicate 43 CHR ''b'') (the (map_of headers ''SettleFlow-Signature''))
      (the (map_of headers ''SettleFlow-Timestamp'')) 300" unfolding body signing_secret.select_convs .
  then show ?thesis using h by blast
qed

end
