(* ===== verification/Error_Graph.thy ===== *)
theory Error_Graph imports Prelude begin

text \<open>
  The search of an error for a database code or constraint (\<open>database-error.ts\<close>). A thrown value is an
  object that refers to others: a Prisma error holds the driver's error as its cause, an aggregate error holds
  a list. Nothing keeps these references from running in a circle.
\<close>

section \<open>Values and objects\<close>

text \<open>
  The values of the search: strings, references to objects, and everything else (\<open>undefined\<close>, \<open>null\<close>, numbers,
  functions). The heap holds the objects. A property has its name, whether \<open>Object.entries\<close> lists it (that is,
  whether it is the object's own and enumerable) and its value; reading properties has no effect.
\<close>

datatype js_value = Js_text string | Js_ref nat | Js_other

datatype js_object = Js_array "js_value list" | Js_record "(string \<times> bool \<times> js_value) list"

type_synonym js_heap = "js_object list"

text \<open>\<open>isRecord\<close>, with the object itself.\<close>

fun is_record :: "js_heap \<Rightarrow> js_value \<Rightarrow> nat option" where
  "is_record h (Js_ref i) = (if i < length h then Some i else None)"
| "is_record h v = None"

text \<open>\<open>record[key]\<close>; an array has none of the properties that the search reads.\<close>

fun property :: "js_object \<Rightarrow> string \<Rightarrow> js_value" where
  "property (Js_record ps) key = (case map_of ps key of Some (_, v) \<Rightarrow> v | None \<Rightarrow> Js_other)"
| "property (Js_array vs) key = Js_other"

definition edge_keys :: "string list" where
  "edge_keys = [''cause'', ''driverAdapterError'', ''error'', ''errors'', ''meta'', ''originalError'']"

text \<open>What the visit of an object puts at the end of \<open>pending\<close>.\<close>

fun pushed :: "js_object \<Rightarrow> js_value list" where
  "pushed (Js_array vs) = vs"
| "pushed (Js_record ps) = map (\<lambda>(k, e, v). v) (filter (\<lambda>(k, e, v). e \<and> k \<in> set edge_keys) ps)"

fun visited :: "(js_object \<Rightarrow> 's \<Rightarrow> 's) \<Rightarrow> js_object \<Rightarrow> 's \<Rightarrow> 's" where
  "visited visitor (Js_array vs) s = s"
| "visited visitor (Js_record ps) s = visitor (Js_record ps) s"

section \<open>\<open>visitErrorGraph\<close>\<close>

text \<open>The loop, with the state that the visitor's closure updates.\<close>

partial_function (option) visit_error_graph ::
  "js_heap \<Rightarrow> (js_object \<Rightarrow> 's \<Rightarrow> 's) \<Rightarrow> js_value list \<Rightarrow> nat list \<Rightarrow> 's \<Rightarrow> 's option"
where
  "visit_error_graph h visitor pending seen s =
     (case pending of
        [] \<Rightarrow> Some s
      | current # rest \<Rightarrow>
          (case is_record h current of
             None \<Rightarrow> visit_error_graph h visitor rest seen s
           | Some i \<Rightarrow>
               if i \<in> set seen then visit_error_graph h visitor rest seen s
               else visit_error_graph h visitor (rest @ pushed (h ! i)) (i # seen) (visited visitor (h ! i) s)))"

section \<open>Codes and constraints\<close>

definition has_code :: "(string \<Rightarrow> bool) \<Rightarrow> js_object \<Rightarrow> bool" where
  "has_code expected r \<longleftrightarrow>
     list_ex (\<lambda>key. case property r key of Js_text t \<Rightarrow> expected t | _ \<Rightarrow> False)
       [''code'', ''originalCode'', ''sqlState'', ''sqlstate'']"

definition has_database_error_code :: "js_heap \<Rightarrow> js_value \<Rightarrow> (string \<Rightarrow> bool) \<Rightarrow> bool option" where
  "has_database_error_code h error expected =
     visit_error_graph h (\<lambda>r found. if has_code expected r then True else found) [error] [] False"

text \<open>An array whose elements are all strings, joined by commas.\<close>

fun texts :: "js_value list \<Rightarrow> string list option" where
  "texts [] = Some []"
| "texts (Js_text t # vs) = map_option ((#) t) (texts vs)"
| "texts (v # vs) = None"

fun join_commas :: "string list \<Rightarrow> string" where
  "join_commas [] = []"
| "join_commas [t] = t"
| "join_commas (t # ts) = t @ '','' @ join_commas ts"

definition text_array :: "js_heap \<Rightarrow> js_value \<Rightarrow> string option" where
  "text_array h v =
     (case is_record h v of
        Some i \<Rightarrow> (case h ! i of Js_array vs \<Rightarrow> map_option join_commas (texts vs) | Js_record ps \<Rightarrow> None)
      | None \<Rightarrow> None)"

definition named_constraint :: "js_heap \<Rightarrow> js_value \<Rightarrow> string option" where
  "named_constraint h v =
     (case v of
        Js_text t \<Rightarrow> if t = [] then None else Some t
      | _ \<Rightarrow> (case is_record h v of Some i \<Rightarrow> text_array h (property (h ! i) ''fields'') | None \<Rightarrow> None))"

fun first_some :: "('x \<Rightarrow> 'y option) \<Rightarrow> 'x list \<Rightarrow> 'y option" where
  "first_some f [] = None"
| "first_some f (x # xs) = (case f x of Some y \<Rightarrow> Some y | None \<Rightarrow> first_some f xs)"

definition constraint_of :: "js_heap \<Rightarrow> js_object \<Rightarrow> string option" where
  "constraint_of h r =
     (case first_some (\<lambda>key. named_constraint h (property r key)) [''constraint'', ''constraintName'', ''index''] of
        Some c \<Rightarrow> Some c
      | None \<Rightarrow> text_array h (property r ''target''))"

definition database_constraint :: "js_heap \<Rightarrow> js_value \<Rightarrow> string option option" where
  "database_constraint h error =
     visit_error_graph h (\<lambda>r c. case c of Some _ \<Rightarrow> c | None \<Rightarrow> constraint_of h r) [error] [] None"

definition database_unavailable_codes :: "string list" where
  "database_unavailable_codes =
     [''08000'', ''08001'', ''08003'', ''08004'', ''08006'', ''08007'', ''08P01'', ''57P01'', ''57P02'', ''57P03'',
      ''ECONNREFUSED'', ''ECONNRESET'', ''ETIMEDOUT'', ''P1001'', ''P1002'', ''P1008'', ''P1017'']"

definition transient_transaction_codes :: "string list" where
  "transient_transaction_codes = [''40001'', ''40P01'', ''55P03'', ''57014'', ''P2028'', ''P2034'']"

definition database_unavailable_error :: "js_heap \<Rightarrow> js_value \<Rightarrow> bool option" where
  "database_unavailable_error h error = has_database_error_code h error (\<lambda>c. c \<in> set database_unavailable_codes)"

definition transient_transaction_error :: "js_heap \<Rightarrow> js_value \<Rightarrow> bool option" where
  "transient_transaction_error h error = has_database_error_code h error (\<lambda>c. c \<in> set transient_transaction_codes)"

section \<open>Every search ends\<close>

text \<open>The objects that the search can reach from a list of values.\<close>

inductive reached :: "js_heap \<Rightarrow> js_value list \<Rightarrow> nat \<Rightarrow> bool" for h vs where
  start: "v \<in> set vs \<Longrightarrow> is_record h v = Some i \<Longrightarrow> reached h vs i"
| follow: "reached h vs i \<Longrightarrow> v \<in> set (pushed (h ! i)) \<Longrightarrow> is_record h v = Some j \<Longrightarrow> reached h vs j"

lemma is_record_bound: "is_record h v = Some i \<Longrightarrow> i < length h"
  by (cases v) (auto split: if_splits)

lemma reached_bound: "reached h vs i \<Longrightarrow> i < length h"
  by (induction rule: reached.induct) (auto intro: is_record_bound)

text \<open>The objects of \<open>os\<close> are what a search of \<open>pending\<close> adds to the objects seen before.\<close>

definition search :: "js_heap \<Rightarrow> js_value list \<Rightarrow> nat list \<Rightarrow> nat list \<Rightarrow> bool" where
  "search h pending seen os \<longleftrightarrow>
     distinct os \<and> set os \<inter> set seen = {} \<and> (\<forall>i \<in> set os. reached h pending i) \<and>
     (\<forall>v \<in> set pending. \<forall>i. is_record h v = Some i \<longrightarrow> i \<in> set seen \<union> set os) \<and>
     (\<forall>i \<in> set os. \<forall>v \<in> set (pushed (h ! i)). \<forall>j. is_record h v = Some j \<longrightarrow> j \<in> set seen \<union> set os)"

lemma reached_mono: "reached h vs i \<Longrightarrow> set vs \<subseteq> set ws \<Longrightarrow> reached h ws i"
  by (induction rule: reached.induct) (auto intro: reached.intros)

lemma reached_pushed:
  assumes "reached h (rest @ pushed (h ! i)) j" and "is_record h v = Some i"
  shows "reached h (v # rest) j"
  using assms(1)
proof (induction rule: reached.induct)
  case (start u k)
  have "reached h (v # rest) i" using assms(2) by (auto intro: reached.start)
  then show ?case using start by (auto intro: reached.intros)
qed (auto intro: reached.follow)

lemma search_visit:
  assumes "search h (rest @ pushed (h ! i)) (i # seen) os" and "is_record h v = Some i" and "i \<notin> set seen"
  shows "search h (v # rest) seen (i # os)"
  using assms reached_pushed[OF _ assms(2)] reached.start[of v "v # rest" h i] unfolding search_def by auto

lemma search_skip:
  assumes "search h rest seen os" and "\<And>i. is_record h v = Some i \<Longrightarrow> i \<in> set seen"
  shows "search h (v # rest) seen os"
proof -
  have "reached h (v # rest) j" if "reached h rest j" for j by (rule reached_mono[OF that]) auto
  then show ?thesis using assms unfolding search_def by auto
qed

lemma visit_ends:
  "\<exists>os. search h pending seen os \<and>
     (\<forall>(visitor :: js_object \<Rightarrow> 's \<Rightarrow> 's) s. visit_error_graph h visitor pending seen s = Some (fold (\<lambda>i. visited visitor (h ! i)) os s))"
proof (induction "card ({..<length h} - set seen)" arbitrary: pending seen rule: less_induct)
  case outer: less
  show ?case
  proof (induction pending)
    case Nil
    have "search h [] seen []" by (simp add: search_def)
    moreover have "visit_error_graph h visitor [] seen s = Some (fold (\<lambda>i. visited visitor (h ! i)) [] s)" for visitor :: "js_object \<Rightarrow> 's \<Rightarrow> 's" and s
      by (simp add: visit_error_graph.simps)
    ultimately show ?case by blast
  next
    case (Cons v rest)
    show ?case
    proof (cases "\<exists>i. is_record h v = Some i \<and> i \<notin> set seen")
      case True
      then obtain i where i: "is_record h v = Some i" "i \<notin> set seen" by blast
      have "{..<length h} - set (i # seen) \<subset> {..<length h} - set seen" using is_record_bound[OF i(1)] i(2) by auto
      then have "card ({..<length h} - set (i # seen)) < card ({..<length h} - set seen)"
        by (intro psubset_card_mono) auto
      from outer[OF this, of "rest @ pushed (h ! i)"] obtain os where
        os: "search h (rest @ pushed (h ! i)) (i # seen) os"
          "\<forall>(visitor :: js_object \<Rightarrow> 's \<Rightarrow> 's) s. visit_error_graph h visitor (rest @ pushed (h ! i)) (i # seen) s =
             Some (fold (\<lambda>i. visited visitor (h ! i)) os s)" by blast
      have "visit_error_graph h visitor (v # rest) seen s = Some (fold (\<lambda>i. visited visitor (h ! i)) (i # os) s)" for visitor :: "js_object \<Rightarrow> 's \<Rightarrow> 's" and s
        using os(2) i by (subst visit_error_graph.simps) simp
      then show ?thesis using search_visit[OF os(1) i] by blast
    next
      case False
      obtain os where os: "search h rest seen os"
        "\<forall>(visitor :: js_object \<Rightarrow> 's \<Rightarrow> 's) s. visit_error_graph h visitor rest seen s = Some (fold (\<lambda>i. visited visitor (h ! i)) os s)"
        using Cons by blast
      have "visit_error_graph h visitor (v # rest) seen s = Some (fold (\<lambda>i. visited visitor (h ! i)) os s)" for visitor :: "js_object \<Rightarrow> 's \<Rightarrow> 's" and s
        using os(2) False by (subst visit_error_graph.simps) (auto split: option.split)
      then show ?thesis using search_skip[OF os(1)] False by blast
    qed
  qed
qed

lemma search_all:
  assumes "search h [v] [] os"
  shows "set os = {i. reached h [v] i}"
proof -
  have c: "\<And>i. is_record h v = Some i \<Longrightarrow> i \<in> set os"
    "\<And>i u j. i \<in> set os \<Longrightarrow> u \<in> set (pushed (h ! i)) \<Longrightarrow> is_record h u = Some j \<Longrightarrow> j \<in> set os"
    and r: "\<And>i. i \<in> set os \<Longrightarrow> reached h [v] i"
    using assms unfolding search_def by simp_all
  have "i \<in> set os" if "reached h [v] i" for i
    using that by (induction rule: reached.induct) (use c in auto)
  then show ?thesis using r by blast
qed

section \<open>What a search finds\<close>

definition record_at :: "js_heap \<Rightarrow> nat \<Rightarrow> bool" where
  "record_at h i \<longleftrightarrow> (case h ! i of Js_record ps \<Rightarrow> True | Js_array vs \<Rightarrow> False)"

lemma fold_found:
  "fold (\<lambda>i. visited (\<lambda>r found. if p r then True else found) (h ! i)) os b \<longleftrightarrow>
     b \<or> (\<exists>i \<in> set os. record_at h i \<and> p (h ! i))"
  by (induction os arbitrary: b) (auto simp: record_at_def split: js_object.splits)

text \<open>
  C33: the search of an error for a code ends whatever its objects refer to, also when the references run in a
  circle, and it finds a code exactly when some record that can be reached through the enumerable members
  \<open>cause\<close>, \<open>driverAdapterError\<close>, \<open>error\<close>, \<open>errors\<close>, \<open>meta\<close> and \<open>originalError\<close> carries it.
\<close>

theorem error_search_ends:
  "has_database_error_code h error expected =
     Some (\<exists>i. reached h [error] i \<and> record_at h i \<and> has_code expected (h ! i))"
proof -
  obtain os where os: "search h [error] [] os"
    "\<forall>visitor (s :: bool). visit_error_graph h visitor [error] [] s = Some (fold (\<lambda>i. visited visitor (h ! i)) os s)"
    using visit_ends[of h "[error]" "[]"] by blast
  then show ?thesis unfolding has_database_error_code_def using search_all[OF os(1)] by (auto simp: fold_found)
qed

lemma fold_first:
  "fold (\<lambda>i. visited (\<lambda>r c. case c of Some _ \<Rightarrow> c | None \<Rightarrow> f r) (h ! i)) os c =
     (case c of Some _ \<Rightarrow> c | None \<Rightarrow> first_some (\<lambda>i. if record_at h i then f (h ! i) else None) os)"
proof (induction os arbitrary: c)
  case (Cons i os)
  then show ?case by (cases "h ! i"; cases c) (auto simp: record_at_def split: option.split)
qed (simp split: option.split)

lemma first_some_None: "first_some f xs = None \<longleftrightarrow> (\<forall>x \<in> set xs. f x = None)"
  by (induction xs) (auto split: option.split)

lemma first_some_Some: "first_some f xs = Some y \<Longrightarrow> \<exists>x \<in> set xs. f x = Some y"
  by (induction xs) (auto split: option.splits)

lemma constraint_search_ends:
  "\<exists>c. database_constraint h error = Some c \<and>
     (case c of None \<Rightarrow> \<forall>i. reached h [error] i \<longrightarrow> record_at h i \<longrightarrow> constraint_of h (h ! i) = None
      | Some t \<Rightarrow> \<exists>i. reached h [error] i \<and> record_at h i \<and> constraint_of h (h ! i) = Some t)"
proof -
  obtain os where os: "search h [error] [] os"
    "\<forall>visitor (s :: string option). visit_error_graph h visitor [error] [] s = Some (fold (\<lambda>i. visited visitor (h ! i)) os s)"
    using visit_ends[of h "[error]" "[]"] by blast
  let ?f = "\<lambda>i. if record_at h i then constraint_of h (h ! i) else None"
  have eq: "database_constraint h error = Some (first_some ?f os)"
    unfolding database_constraint_def using os(2) by (simp add: fold_first)
  show ?thesis
  proof (cases "first_some ?f os")
    case None
    have "constraint_of h (h ! i) = None" if "reached h [error] i" "record_at h i" for i
    proof -
      have "i \<in> set os" using search_all[OF os(1)] that(1) by blast
      then have "?f i = None" using None unfolding first_some_None by blast
      then show ?thesis using that(2) by simp
    qed
    then show ?thesis unfolding eq None by simp
  next
    case (Some t)
    obtain i where "i \<in> set os" "?f i = Some t" using first_some_Some[OF Some] by blast
    moreover from this have "record_at h i" by (cases "record_at h i") simp_all
    ultimately have "reached h [error] i \<and> record_at h i \<and> constraint_of h (h ! i) = Some t"
      using search_all[OF os(1)] by simp
    then show ?thesis unfolding eq Some by auto
  qed
qed

text \<open>
  The cause that JavaScript's own constructor stores, \<open>new Error(message, { cause })\<close>, is not enumerable, so the
  search passes it by; the causes of the database driver's errors are ordinary members.
\<close>

lemma hidden_cause_not_searched:
  "database_unavailable_error
     [Js_record [(''message'', False, Js_text ''m''), (''cause'', False, Js_ref 1)], Js_record [(''code'', True, Js_text ''P1001'')]]
     (Js_ref 0) = Some False"
  "database_unavailable_error
     [Js_record [(''message'', False, Js_text ''m''), (''cause'', True, Js_ref 1)], Js_record [(''code'', True, Js_text ''P1001'')]]
     (Js_ref 0) = Some True"
  by (simp_all add: database_unavailable_error_def has_database_error_code_def visit_error_graph.simps edge_keys_def
      has_code_def database_unavailable_codes_def)

end
