(* ===== verification/Spec2Isabelle.thy ===== *)
theory Spec2Isabelle imports Ledger_Properties Payments_Properties Contracts_Properties Relay_Properties Consumer_Properties Delivery_Properties Error_Graph begin

text \<open>SettleFlow verification library.\<close>

end
